(* ===== verification/Prelude.thy ===== *)
theory Prelude
  imports Main "HOL-Library.Sublist" "HOL-Library.Code_Target_Nat"
begin

text \<open>
  The shared vocabulary of the development: Python strings as \<open>string\<close> (code points below
  256), the string methods and regular-expression pieces the modelled functions use, dictionaries
  as association lists, and the generic lemmas the components share.  The collections
  \<open>str_simps\<close> and \<open>dict_simps\<close> gather the rewrite rules for them.
\<close>

named_theorems str_simps "rewrite rules for the string operations"
named_theorems dict_simps "rewrite rules for the dictionary operations"

section \<open>Characters\<close>

text \<open>\<open>str.isspace\<close> and the class \<open>\s\<close> of a \<open>str\<close> pattern, below code point 256.\<close>

definition is_space :: "char \<Rightarrow> bool" where
  "is_space c \<longleftrightarrow>
     (let n = (of_char c :: nat) in 9 \<le> n \<and> n \<le> 13 \<or> 28 \<le> n \<and> n \<le> 32 \<or> n = 133 \<or> n = 160)"

definition is_digit :: "char \<Rightarrow> bool" where
  "is_digit c \<longleftrightarrow> (let n = (of_char c :: nat) in 48 \<le> n \<and> n \<le> 57)"

definition is_upper :: "char \<Rightarrow> bool" where
  "is_upper c \<longleftrightarrow> (let n = (of_char c :: nat) in 65 \<le> n \<and> n \<le> 90)"

definition is_lower :: "char \<Rightarrow> bool" where
  "is_lower c \<longleftrightarrow> (let n = (of_char c :: nat) in 97 \<le> n \<and> n \<le> 122)"

definition is_alpha :: "char \<Rightarrow> bool" where
  "is_alpha c \<longleftrightarrow> is_upper c \<or> is_lower c"

definition is_alnum :: "char \<Rightarrow> bool" where
  "is_alnum c \<longleftrightarrow> is_alpha c \<or> is_digit c"

definition to_upper :: "char \<Rightarrow> char" where
  "to_upper c = (if is_lower c then char_of ((of_char c :: nat) - 32) else c)"

definition to_lower :: "char \<Rightarrow> char" where
  "to_lower c = (if is_upper c then char_of ((of_char c :: nat) + 32) else c)"

lemma digit_not_space [simp]: "is_digit c \<Longrightarrow> \<not> is_space c"
  by (auto simp: is_digit_def is_space_def Let_def)

lemma alpha_not_space [simp]: "is_alpha c \<Longrightarrow> \<not> is_space c"
  by (auto simp: is_alpha_def is_upper_def is_lower_def is_space_def Let_def)

lemma upper_fixed: "(to_upper c = c) = (\<not> is_lower c)"
proof (cases "is_lower c")
  case True
  then have "(of_char (to_upper c) :: nat) = of_char c - 32"
    by (simp add: to_upper_def is_lower_def Let_def less_imp_diff_less)
  moreover have "(of_char c :: nat) \<ge> 97" using True by (simp add: is_lower_def Let_def)
  ultimately have "(of_char (to_upper c) :: nat) \<noteq> of_char c" by linarith
  with True show ?thesis by metis
qed (simp add: to_upper_def)

section \<open>Strings\<close>

definition lstrip :: "string \<Rightarrow> string" where
  "lstrip s = dropWhile is_space s"

definition rstrip :: "string \<Rightarrow> string" where
  "rstrip s = rev (dropWhile is_space (rev s))"

definition strip :: "string \<Rightarrow> string" where
  "strip s = rstrip (lstrip s)"

definition upper :: "string \<Rightarrow> string" where
  "upper s = map to_upper s"

definition lower :: "string \<Rightarrow> string" where
  "lower s = map to_lower s"

fun startswith :: "string \<Rightarrow> string \<Rightarrow> bool" where
  "startswith s [] = True"
| "startswith [] (_ # _) = False"
| "startswith (c # s) (p # ps) = (c = p \<and> startswith s ps)"

fun substring :: "string \<Rightarrow> string \<Rightarrow> bool" where
  "substring p [] = (p = [])"
| "substring p (c # s) = (startswith (c # s) p \<or> substring p s)"

text \<open>\<open>sep.join(parts)\<close> and \<open>s.split(c)\<close> for a one-character separator.\<close>

fun join :: "string \<Rightarrow> string list \<Rightarrow> string" where
  "join sep [] = []"
| "join sep [x] = x"
| "join sep (x # y # xs) = x @ sep @ join sep (y # xs)"

fun split_on :: "char \<Rightarrow> string \<Rightarrow> string list" where
  "split_on c [] = [[]]"
| "split_on c (x # xs) =
     (if x = c then [] # split_on c xs
      else case split_on c xs of [] \<Rightarrow> [[x]] | y # ys \<Rightarrow> (x # y) # ys)"

text \<open>\<open>str(n)\<close> for a natural number.\<close>

fun show_nat :: "nat \<Rightarrow> string" where
  "show_nat n =
     (if n < 10 then [char_of (48 + n)] else show_nat (n div 10) @ [char_of (48 + n mod 10)])"

declare show_nat.simps [simp del]

lemma startswith_append [simp, str_simps]: "startswith (p @ s) p"
  by (induction p) auto

lemma startswith_iff_prefix: "startswith s p = prefix p s"
  by (induction s p rule: startswith.induct) auto

lemma join_split_on: "join [c] (split_on c s) = s"
proof (induction s)
  case (Cons x s)
  then show ?case
    by (cases "split_on c s"; cases "tl (split_on c s)") auto
qed simp

lemma split_on_nonempty [simp]: "split_on c s \<noteq> []"
  by (induction s) (auto split: list.splits)

lemma strip_id: "s \<noteq> [] \<Longrightarrow> \<not> is_space (hd s) \<Longrightarrow> \<not> is_space (last s) \<Longrightarrow> strip s = s"
proof -
  assume ne: "s \<noteq> []" and h: "\<not> is_space (hd s)" and l: "\<not> is_space (last s)"
  from ne h have "lstrip s = s" by (cases s) (auto simp: lstrip_def)
  moreover from ne l have "rstrip s = s"
    by (cases s rule: rev_cases) (auto simp: rstrip_def)
  ultimately show ?thesis by (simp add: strip_def)
qed

lemma upper_id: "(upper s = s) = list_all (\<lambda>c. \<not> is_lower c) s"
  by (induction s) (auto simp: upper_def upper_fixed)

lemma show_nat_digits: "list_all is_digit (show_nat n) \<and> show_nat n \<noteq> []"
proof (induction n rule: show_nat.induct)
  case (1 n)
  show ?case
  proof (cases "n < 10")
    case True
    then show ?thesis by (subst (1 2) show_nat.simps) (auto simp: is_digit_def Let_def)
  next
    case False
    have "n mod 10 < 10" by simp
    then have "is_digit (char_of (48 + n mod 10))" by (auto simp: is_digit_def Let_def)
    with 1 False show ?thesis by (subst (1 2) show_nat.simps) auto
  qed
qed

text \<open>\<open>int\<close> of the digits of a number.\<close>

lemma number_of_show: "foldl (\<lambda>n c. 10 * n + (of_char c - 48)) 0 (show_nat n) = n"
proof (induction n rule: show_nat.induct)
  case (1 n)
  show ?case
  proof (cases "n < 10")
    case True
    then show ?thesis by (subst show_nat.simps) simp
  next
    case False
    moreover have "n mod 10 < 10" by simp
    then have "of_char (char_of (48 + n mod 10) :: char) = 48 + n mod 10" by simp
    ultimately show ?thesis using 1 by (subst show_nat.simps) simp
  qed
qed

text \<open>The number a run of digits denotes.\<close>

definition digits_value :: "string \<Rightarrow> nat" where
  "digits_value ds = foldl (\<lambda>n c. 10 * n + (of_char c - 48)) 0 ds"

lemma digits_value_show: "digits_value (show_nat n) = n"
  by (simp add: digits_value_def number_of_show)

section \<open>Spans\<close>

text \<open>A greedy character class followed by something outside the class is a span.\<close>

definition span :: "(char \<Rightarrow> bool) \<Rightarrow> string \<Rightarrow> string \<times> string" where
  "span P s = (takeWhile P s, dropWhile P s)"

lemma span_append:
  "list_all P xs \<Longrightarrow> (ys = [] \<or> \<not> P (hd ys)) \<Longrightarrow> span P (xs @ ys) = (xs, ys)"
  by (induction xs) (auto simp: span_def takeWhile_eq_Nil_iff dropWhile_eq_self_iff)

lemma span_inverse: "span P s = (xs, ys) \<Longrightarrow> s = xs @ ys"
  by (auto simp: span_def)

lemma span_class: "span P s = (xs, ys) \<Longrightarrow> list_all P xs"
  by (auto simp: span_def list_all_iff dest: set_takeWhileD)

section \<open>Dictionaries\<close>

text \<open>
  A Python \<open>dict\<close> whose insertion order matters is an association list with distinct keys;
  \<open>dict_set\<close> is \<open>d[k] = v\<close> (in place when the key exists, appended otherwise).
\<close>

type_synonym ('k, 'v) dict = "('k \<times> 'v) list"

abbreviation dict_get :: "('k, 'v) dict \<Rightarrow> 'k \<Rightarrow> 'v option" where
  "dict_get d k \<equiv> map_of d k"

fun dict_set :: "'k \<Rightarrow> 'v \<Rightarrow> ('k, 'v) dict \<Rightarrow> ('k, 'v) dict" where
  "dict_set k v [] = [(k, v)]"
| "dict_set k v ((k', v') # d) = (if k' = k then (k, v) # d else (k', v') # dict_set k v d)"

definition dict_pop :: "'k \<Rightarrow> ('k, 'v) dict \<Rightarrow> ('k, 'v) dict" where
  "dict_pop k d = filter (\<lambda>(k', _). k' \<noteq> k) d"

definition dict_setdefault :: "'k \<Rightarrow> 'v \<Rightarrow> ('k, 'v) dict \<Rightarrow> ('k, 'v) dict" where
  "dict_setdefault k v d = (case dict_get d k of None \<Rightarrow> d @ [(k, v)] | Some _ \<Rightarrow> d)"

definition dict_keys :: "('k, 'v) dict \<Rightarrow> 'k list" where
  "dict_keys d = map fst d"

lemma dict_get_set [simp, dict_simps]:
  "dict_get (dict_set k v d) k' = (if k' = k then Some v else dict_get d k')"
  by (induction d) auto

lemma dict_get_pop [simp, dict_simps]:
  "dict_get (dict_pop k d) k' = (if k' = k then None else dict_get d k')"
  by (induction d) (auto simp: dict_pop_def)

lemma dict_get_setdefault [simp, dict_simps]:
  "dict_get (dict_setdefault k v d) k' =
     (if k' = k \<and> dict_get d k = None then Some v else dict_get d k')"
  by (auto simp: dict_setdefault_def map_add_def split: option.splits)

lemma dict_set_absent: "dict_get d k = None \<Longrightarrow> dict_set k v d = d @ [(k, v)]"
  by (induction d) (auto split: if_splits)

lemma dict_set_present: "distinct (map fst d) \<Longrightarrow> dict_get d k \<noteq> None \<Longrightarrow>
    dict_set k v d = map (\<lambda>(k', w). (k', if k' = k then v else w)) d"
proof (induction d)
  case (Cons p d)
  obtain k' w where p: "p = (k', w)" by (cases p)
  show ?case
  proof (cases "k' = k")
    case True
    with Cons.prems p have "k \<notin> fst ` set d" by simp
    then have "map (\<lambda>(k', w). (k', if k' = k then v else w)) d = d" by (intro map_idI) force
    with True p show ?thesis by simp
  next
    case False
    with Cons p show ?thesis by simp
  qed
qed simp

section \<open>Leading runs\<close>

text \<open>The index of the first element that fails \<open>P\<close>, or the length.\<close>

definition leading :: "('a \<Rightarrow> bool) \<Rightarrow> 'a list \<Rightarrow> nat" where
  "leading P xs = length (takeWhile P xs)"

lemma leading_le [simp]: "leading P xs \<le> length xs"
  by (simp add: leading_def length_takeWhile_le)

lemma leading_below: "i < leading P xs \<Longrightarrow> P (xs ! i)"
  unfolding leading_def by (metis nth_mem set_takeWhileD takeWhile_nth)

lemma leading_at: "leading P xs < length xs \<Longrightarrow> \<not> P (xs ! leading P xs)"
  unfolding leading_def by (rule nth_length_takeWhile)

lemma leading_eqI:
  "k \<le> length xs \<Longrightarrow> (\<And>i. i < k \<Longrightarrow> P (xs ! i)) \<Longrightarrow> (k < length xs \<Longrightarrow> \<not> P (xs ! k)) \<Longrightarrow>
   leading P xs = k"
  by (metis leading_at leading_below leading_le leI le_less_trans le_neq_implies_less)

section \<open>Evaluated results\<close>

lemma evaluated_Some: "(case x of None \<Rightarrow> False | Some v \<Rightarrow> P v) \<Longrightarrow> \<exists>v. x = Some v \<and> P v"
  by (auto split: option.splits)

lemma evaluated_Inr: "(case x of Inl _ \<Rightarrow> False | Inr v \<Rightarrow> P v) \<Longrightarrow> \<exists>v. x = Inr v \<and> P v"
  by (auto split: sum.splits)

lemma map_filter_empty: "List.map_filter f xs = [] \<longleftrightarrow> list_all (\<lambda>x. f x = None) xs"
  by (induction xs) (auto split: option.splits)

end
