(* ===== verification/SafeId.thy ===== *)
theory SafeId
  imports Prelude
begin

text \<open>
  Path-safe identifiers and owned paths: \<open>safeid.py\<close>, and the resolvers \<open>owned_target_path\<close>,
  \<open>read_dependency_path\<close> and \<open>validate_op_id\<close> of \<open>journal.py\<close>.  An absolute path is the list of
  its components; \<open>os.path.realpath\<close>, whose answer depends on the links of the disk, is the
  argument \<open>rp\<close> of the definitions that call it.  On a tree with no link it is
  \<open>lex_realpath\<close>.  \<open>InvalidIdError\<close> is the error side of the sum.
\<close>

section \<open>Identifiers\<close>

datatype id_error =
    IdEmpty | IdDotPath | IdControl | IdSeparator | IdDrive | IdAbsolute | IdGrammar
  | IdTooLong nat | IdDevice | IdEscapes

definition MAX_ID_BYTES :: nat where
  "MAX_ID_BYTES = 128"

definition WIN_DEVICES :: "string list" where
  "WIN_DEVICES = [''con'', ''prn'', ''aux'', ''nul'',
     ''com1'', ''com2'', ''com3'', ''com4'', ''com5'', ''com6'', ''com7'', ''com8'', ''com9'',
     ''lpt1'', ''lpt2'', ''lpt3'', ''lpt4'', ''lpt5'', ''lpt6'', ''lpt7'', ''lpt8'', ''lpt9'']"

definition is_control :: "char \<Rightarrow> bool" where
  "is_control c \<longleftrightarrow> (let n = (of_char c :: nat) in n \<le> 31 \<or> 127 \<le> n \<and> n \<le> 159)"

definition safe_char :: "char \<Rightarrow> bool" where
  "safe_char c \<longleftrightarrow> is_alnum c \<or> c = CHR ''_'' \<or> c = CHR ''.'' \<or> c = CHR ''-''"

definition safe_id_re :: "string \<Rightarrow> bool" where
  "safe_id_re s = (case s of [] \<Rightarrow> False | c # cs \<Rightarrow> is_alnum c \<and> list_all safe_char cs)"

text \<open>\<open>^[A-Za-z]:[/\\]?\<close>: a letter and a colon.\<close>

definition drive_re :: "string \<Rightarrow> bool" where
  "drive_re s = (case s of c # d # _ \<Rightarrow> is_alpha c \<and> d = CHR '':'' | _ \<Rightarrow> False)"

text \<open>\<open>len(value.encode("utf-8"))\<close>: one byte below code point 128, two up to 255.\<close>

definition utf8_len :: "string \<Rightarrow> nat" where
  "utf8_len s = sum_list (map (\<lambda>c. if (of_char c :: nat) < 128 then 1 else 2) s)"

definition validate_safe_id :: "string \<Rightarrow> id_error + string" where
  "validate_safe_id v0 =
     (let v = strip v0 in
      if v = [] then Inl IdEmpty
      else if v = ''.'' \<or> v = ''..'' then Inl IdDotPath
      else if list_ex is_control v then Inl IdControl
      else if CHR ''/'' \<in> set v \<or> CHR 92 \<in> set v then Inl IdSeparator
      else if drive_re v then Inl IdDrive
      else if startswith v ''/'' then Inl IdAbsolute
      else if \<not> safe_id_re v then Inl IdGrammar
      else if utf8_len v > MAX_ID_BYTES then Inl (IdTooLong (utf8_len v))
      else if list_ex (\<lambda>part. lower part \<in> set WIN_DEVICES) (split_on CHR ''.'' v) then Inl IdDevice
      else Inr v)"

definition validate_op_id :: "string \<Rightarrow> id_error + string" where
  "validate_op_id op_id =
     (if op_id = [] then Inl IdEmpty
      else if startswith op_id ''..'' \<or> CHR ''/'' \<in> set op_id \<or> CHR 92 \<in> set op_id
        then Inl IdSeparator
      else validate_safe_id op_id)"

section \<open>Owned paths\<close>

type_synonym ppath = "string list"

text \<open>The components of a relative POSIX path: \<open>PurePath\<close> drops empty and \<open>.\<close> components.\<close>

definition posix_parts :: "string \<Rightarrow> ppath" where
  "posix_parts s = filter (\<lambda>c. c \<noteq> [] \<and> c \<noteq> ''.'') (split_on CHR ''/'' s)"

definition as_posix :: "ppath \<Rightarrow> string" where
  "as_posix p = (if p = [] then ''.'' else join ''/'' p)"

fun lex_walk :: "ppath \<Rightarrow> ppath \<Rightarrow> ppath" where
  "lex_walk acc [] = acc"
| "lex_walk acc (c # cs) =
     (if c = ''..'' then lex_walk (butlast acc) cs
      else if c = [] \<or> c = ''.'' then lex_walk acc cs
      else lex_walk (acc @ [c]) cs)"

definition lex_realpath :: "ppath \<Rightarrow> ppath" where
  "lex_realpath p = lex_walk [] p"

definition prove_inside :: "(ppath \<Rightarrow> ppath) \<Rightarrow> ppath \<Rightarrow> ppath \<Rightarrow> id_error + ppath" where
  "prove_inside rp path owner_root =
     (let owner = rp owner_root; resolved = rp path in
      if resolved \<noteq> owner \<and> \<not> prefix owner resolved then Inl IdEscapes else Inr resolved)"

definition drive_qualified :: "string \<Rightarrow> bool" where
  "drive_qualified s =
     (case s of c # d # e # _ \<Rightarrow> is_alpha c \<and> d = CHR '':'' \<and> (e = CHR ''/'' \<or> e = CHR 92) | _ \<Rightarrow> False)"

definition owned_target_path :: "(ppath \<Rightarrow> ppath) \<Rightarrow> ppath \<Rightarrow> string \<Rightarrow> id_error + ppath" where
  "owned_target_path rp root rel =
     (if rel = [] then Inl IdEmpty
      else if startswith rel ''/'' \<or> drive_qualified rel then Inl IdAbsolute
      else prove_inside rp (root @ posix_parts rel) root)"

text \<open>An absolute read dependency is taken as it is; a relative one must be owned.\<close>

definition read_dependency_path :: "(ppath \<Rightarrow> ppath) \<Rightarrow> ppath \<Rightarrow> string \<Rightarrow> id_error + ppath" where
  "read_dependency_path rp root rel =
     (if startswith rel ''/'' then Inr (posix_parts rel) else owned_target_path rp root rel)"

section \<open>Lemmas\<close>

definition safe_component :: "string \<Rightarrow> bool" where
  "safe_component s \<longleftrightarrow>
     safe_id_re s \<and> length s \<le> MAX_ID_BYTES \<and>
     \<not> list_ex (\<lambda>part. lower part \<in> set WIN_DEVICES) (split_on CHR ''.'' s)"

lemma safe_char_ascii: "safe_char c \<Longrightarrow> (of_char c :: nat) < 128"
  by (auto simp: safe_char_def is_alnum_def is_alpha_def is_upper_def is_lower_def is_digit_def Let_def)

lemma safe_char_plain:
  "safe_char c \<Longrightarrow> \<not> is_space c \<and> \<not> is_control c \<and> c \<noteq> CHR ''/'' \<and> c \<noteq> CHR 92 \<and> c \<noteq> CHR '':''"
  by (simp add: safe_char_def is_alnum_def is_alpha_def is_upper_def is_lower_def is_digit_def
      is_space_def is_control_def Let_def) (elim disjE; force)

lemma safe_id_re_chars: "safe_id_re s \<Longrightarrow> list_all safe_char s \<and> s \<noteq> []"
  by (auto simp: safe_id_re_def safe_char_def split: list.splits)

lemma utf8_len_safe: "list_all safe_char s \<Longrightarrow> utf8_len s = length s"
  by (induction s) (auto simp: utf8_len_def dest: safe_char_ascii)

lemma safe_id_strip: "safe_id_re s \<Longrightarrow> strip s = s"
proof -
  assume "safe_id_re s"
  then have ne: "s \<noteq> []" and all: "\<forall>c \<in> set s. safe_char c"
    using safe_id_re_chars by (auto simp: list_all_iff)
  from ne all have "safe_char (hd s)" "safe_char (last s)" by simp_all
  then show ?thesis using ne safe_char_plain strip_id by blast
qed

lemma safe_id_first: "safe_id_re s \<Longrightarrow> hd s \<noteq> CHR ''.''"
  by (auto simp: safe_id_re_def is_alnum_def is_alpha_def is_upper_def is_lower_def is_digit_def Let_def
      split: list.splits)

lemma safe_component_accepted: "safe_component s \<Longrightarrow> validate_safe_id s = Inr s"
proof -
  assume s: "safe_component s"
  then have re: "safe_id_re s" and all: "list_all safe_char s" and ne: "s \<noteq> []"
    using safe_id_re_chars by (auto simp: safe_component_def)
  have "hd s \<noteq> CHR ''.''" using safe_id_first [OF re] .
  then have "s \<noteq> ''.''" "s \<noteq> ''..''" by auto
  moreover have "\<not> list_ex is_control s" "CHR ''/'' \<notin> set s" "CHR 92 \<notin> set s" "CHR '':'' \<notin> set s"
    using all by (auto simp: list_all_iff list_ex_iff dest!: safe_char_plain)
  moreover from this have "\<not> drive_re s" "\<not> startswith s ''/''"
    by (auto simp: drive_re_def split: list.splits elim!: startswith.elims)
  moreover have "\<not> MAX_ID_BYTES < utf8_len s"
    using s utf8_len_safe [OF all] by (simp add: safe_component_def)
  moreover have "\<not> list_ex (\<lambda>part. lower part \<in> set WIN_DEVICES) (split_on CHR ''.'' s)"
    using s unfolding safe_component_def by blast
  ultimately show ?thesis
    using ne re by (simp only: validate_safe_id_def Let_def safe_id_strip [OF re] if_False simp_thms)
qed

lemma validate_safe_id_sound: "validate_safe_id v = Inr w \<Longrightarrow> w = strip v \<and> safe_component w"
proof -
  assume ok: "validate_safe_id v = Inr w"
  then have w: "w = strip v" and re: "safe_id_re (strip v)" and len: "\<not> MAX_ID_BYTES < utf8_len (strip v)"
    and dev: "\<not> list_ex (\<lambda>part. lower part \<in> set WIN_DEVICES) (split_on CHR ''.'' (strip v))"
    by (simp_all only: validate_safe_id_def Let_def split: if_split_asm) simp_all
  from re len have "length (strip v) \<le> MAX_ID_BYTES"
    using utf8_len_safe [of "strip v"] safe_id_re_chars [of "strip v"] by simp
  with w re dev show ?thesis by (simp only: safe_component_def simp_thms)
qed

text \<open>
  \<open>validate_safe_id\<close> accepts exactly the strings whose stripped form is a safe component (first
  character alphanumeric, then alphanumerics, underscore, dot or hyphen, at most 128 bytes, no
  dotted part that is a Windows device), returns that stripped form, and re-validating its answer
  changes nothing.
\<close>

theorem validate_safe_id_exact:
  "(validate_safe_id v = Inr w \<longleftrightarrow> w = strip v \<and> safe_component w) \<and>
   (safe_component w \<longrightarrow> validate_safe_id w = Inr w)"
proof -
  have "w = strip v \<and> safe_component w \<Longrightarrow> validate_safe_id v = Inr w"
  proof -
    assume a: "w = strip v \<and> safe_component w"
    then have "strip (strip v) = strip v" using safe_id_strip by (auto simp: safe_component_def)
    then have "validate_safe_id v = validate_safe_id (strip v)" by (simp only: validate_safe_id_def)
    also have "\<dots> = Inr (strip v)" using a safe_component_accepted by blast
    finally show ?thesis using a by simp
  qed
  with validate_safe_id_sound safe_component_accepted show ?thesis by blast
qed

theorem validate_safe_id_exact_witness:
  "validate_safe_id '' op-1 '' = Inr ''op-1'' \<and> validate_safe_id ''op-1'' = Inr ''op-1''"
proof -
  have "''op-1'' = strip '' op-1 ''" "safe_component ''op-1''" by code_simp+
  then show ?thesis using validate_safe_id_exact [of "'' op-1 ''" "''op-1''"] by blast
qed

text \<open>
  A name that starts with a dot is always refused, the \<open>.hidden\<close> form that the comment of
  \<open>validate_safe_id\<close> calls allowed included.
\<close>

theorem leading_dot_refused:
  "\<exists>e. validate_safe_id (CHR ''.'' # s) = Inl e"
proof (cases "validate_safe_id (CHR ''.'' # s)")
  case (Inr w)
  then have w: "w = strip (CHR ''.'' # s)" and re: "safe_id_re w"
    using validate_safe_id_sound by (auto simp: safe_component_def)
  have "\<not> is_space CHR ''.''" by (simp add: is_space_def)
  then have "w = rstrip (CHR ''.'' # s)" using w by (simp add: strip_def lstrip_def)
  moreover have "w \<noteq> []" using safe_id_re_chars [OF re] by simp
  ultimately have "hd w = CHR ''.''"
    using \<open>\<not> is_space CHR ''.''\<close>
    by (auto simp: rstrip_def dropWhile_append hd_append split: if_splits)
  with safe_id_first [OF re] show ?thesis by simp
qed simp

lemma prove_inside_contained: "prove_inside rp p owner = Inr q \<Longrightarrow> prefix (rp owner) q \<and> q = rp p"
  by (auto simp: prove_inside_def Let_def split: if_splits)

text \<open>
  Whatever the links on the disk, a path the owned-target resolver returns lies in the resolved
  project root; an empty, absolute or drive-qualified path is always refused.
\<close>

theorem owned_target_contained:
  "owned_target_path rp root rel = Inr q \<Longrightarrow>
     prefix (rp root) q \<and> rel \<noteq> [] \<and> \<not> startswith rel ''/'' \<and> \<not> drive_qualified rel"
  by (auto simp: owned_target_path_def dest: prove_inside_contained split: if_splits)

theorem owned_target_contained_witness:
  "owned_target_path lex_realpath [''srv'', ''p''] ''a/../b'' = Inr [''srv'', ''p'', ''b''] \<and>
   owned_target_path lex_realpath [''srv'', ''p''] ''../q'' = Inl IdEscapes \<and>
   prefix (lex_realpath [''srv'', ''p'']) [''srv'', ''p'', ''b'']"
proof -
  have h: "owned_target_path lex_realpath [''srv'', ''p''] ''a/../b'' = Inr [''srv'', ''p'', ''b'']"
    by code_simp
  moreover have "owned_target_path lex_realpath [''srv'', ''p''] ''../q'' = Inl IdEscapes"
    by code_simp
  ultimately show ?thesis using owned_target_contained [OF h] by blast
qed

end
