(* ===== verification/Store.thy ===== *)
theory Store
  imports SafeId "HOL-Library.List_Lexorder" "HOL-Library.Char_ord"
begin

text \<open>
  The project tree as the journal sees it: nodes by their path below the project root, the exact
  digests of \<open>journal.py\<close>, and the three target actions with the failures the file system and
  \<open>paths.safe_atomic_write_bytes\<close> give them.  The tree holds no symbolic link, and all of it can be read.  SHA-256, the
  rendering of \<open>st_mode\<close> and the paths on which the operating system refuses an action are the
  fields of the environment record.
\<close>

section \<open>Nodes and digests\<close>

type_synonym bytes = string

datatype node = File bytes | Dir | Special

type_synonym store = "(ppath, node) dict"

record os_env =
  d_bytes :: "bytes \<Rightarrow> string"
  d_tree :: "(ppath \<times> node) list \<Rightarrow> string"
  d_mode :: "node \<Rightarrow> string"
  os_refuses :: "ppath \<Rightarrow> bool"
  project_root :: ppath

text \<open>
  \<open>os.walk\<close> with sorted names, top down: a directory, then its files, then its sub-directories.
\<close>

definition walk_key :: "ppath \<times> node \<Rightarrow> string list" where
  "walk_key e = (case e of (p, n) \<Rightarrow>
     if n = Dir \<or> p = [] then map (\<lambda>c. CHR ''1'' # c) p
     else map (\<lambda>c. CHR ''1'' # c) (butlast p) @ [CHR ''0'' # last p])"

definition below :: "store \<Rightarrow> ppath \<Rightarrow> (ppath \<times> node) list" where
  "below st p =
     sort_key walk_key (map (\<lambda>(q, n). (drop (length p) q, n)) (filter (\<lambda>(q, _). strict_prefix p q) st))"

definition hash_file :: "os_env \<Rightarrow> store \<Rightarrow> ppath \<Rightarrow> string" where
  "hash_file env st p = (case dict_get st p of Some (File b) \<Rightarrow> d_bytes env b | _ \<Rightarrow> [])"

definition ancestors :: "ppath \<Rightarrow> ppath list" where
  "ancestors p = map (\<lambda>n. take n p) [1..<length p]"

text \<open>
  Something on the way to the path is no directory: \<open>lstat\<close> then raises \<open>NotADirectoryError\<close>, which is not
  the absence \<open>FileNotFoundError\<close> stands for.
\<close>

definition blocked :: "store \<Rightarrow> ppath \<Rightarrow> bool" where
  "blocked st p = list_ex (\<lambda>q. case dict_get st q of None \<Rightarrow> False | Some n \<Rightarrow> n \<noteq> Dir) (ancestors p)"

definition absent_token :: "store \<Rightarrow> ppath \<Rightarrow> string \<Rightarrow> string" where
  "absent_token st p token = (if blocked st p then ''object-unreadable'' else token)"

definition hash_delete_tree :: "os_env \<Rightarrow> store \<Rightarrow> ppath \<Rightarrow> string" where
  "hash_delete_tree env st p =
     (case dict_get st p of
        None \<Rightarrow> absent_token st p []
      | Some Dir \<Rightarrow>
          (case find (\<lambda>(_, n). n = Special) (below st p) of
             Some (q, _) \<Rightarrow> ''object-unsupported:'' @ as_posix q
           | None \<Rightarrow> ''delete-tree-sha256:'' @ d_tree env (below st p))
      | Some n \<Rightarrow> ''object:'' @ d_mode env n)"

definition empty_delete_tree_hash :: "os_env \<Rightarrow> string" where
  "empty_delete_tree_hash env = ''delete-tree-sha256:'' @ d_tree env []"

section \<open>Target actions\<close>

datatype action = Write | Delete_File | Delete_Dir

datatype 'a io = Done 'a | OSError | ValueError

fun mkdirs :: "ppath list \<Rightarrow> store \<Rightarrow> store" where
  "mkdirs [] st = st"
| "mkdirs (p # ps) st = mkdirs ps (case dict_get st p of None \<Rightarrow> dict_set p Dir st | Some _ \<Rightarrow> st)"

text \<open>
  \<open>safe_atomic_write_bytes\<close>: every existing ancestor must be a directory, the final node absent or
  a regular file (\<open>ValueError\<close> otherwise); missing ancestors are created.
\<close>

definition atomic_write :: "os_env \<Rightarrow> store \<Rightarrow> ppath \<Rightarrow> bytes \<Rightarrow> store io" where
  "atomic_write env st p b =
     (if blocked st p then ValueError
      else case dict_get st p of
        Some Dir \<Rightarrow> ValueError
      | Some Special \<Rightarrow> ValueError
      | _ \<Rightarrow> if os_refuses env p then OSError
             else Done (dict_set p (File b) (mkdirs (ancestors p) st)))"

definition unlink :: "os_env \<Rightarrow> store \<Rightarrow> ppath \<Rightarrow> store io" where
  "unlink env st p =
     (case dict_get st p of
        None \<Rightarrow> OSError
      | Some Dir \<Rightarrow> OSError
      | Some _ \<Rightarrow> if os_refuses env p then OSError else Done (dict_pop p st))"

definition rmdir :: "os_env \<Rightarrow> store \<Rightarrow> ppath \<Rightarrow> store io" where
  "rmdir env st p =
     (if dict_get st p = Some Dir \<and> below st p = [] \<and> \<not> os_refuses env p
      then Done (dict_pop p st) else OSError)"

definition perform :: "os_env \<Rightarrow> store \<Rightarrow> action \<Rightarrow> ppath \<Rightarrow> bytes \<Rightarrow> store io" where
  "perform env st a p b =
     (case a of Write \<Rightarrow> atomic_write env st p b
      | Delete_File \<Rightarrow> unlink env st p
      | Delete_Dir \<Rightarrow> rmdir env st p)"

definition live_hash :: "os_env \<Rightarrow> store \<Rightarrow> action \<Rightarrow> ppath \<Rightarrow> string" where
  "live_hash env st a p =
     (case a of
        Delete_Dir \<Rightarrow> hash_delete_tree env st p
      | Delete_File \<Rightarrow>
          (case dict_get st p of
             None \<Rightarrow> absent_token st p []
           | Some (File b) \<Rightarrow> d_bytes env b
           | Some n \<Rightarrow> ''object:'' @ d_mode env n)
      | Write \<Rightarrow> hash_file env st p)"

section \<open>What an action changes\<close>

lemma mkdirs_get:
  "dict_get (mkdirs ps st) q =
     (if q \<in> set ps \<and> dict_get st q = None then Some Dir else dict_get st q)"
  by (induction ps arbitrary: st) (auto split: option.splits)

lemma ancestors_strict: "q \<in> set (ancestors p) \<Longrightarrow> strict_prefix q p"
  by (auto simp: ancestors_def strict_prefix_def take_is_prefix)

text \<open>The planned state of an action: what the target path holds once it has been performed.\<close>

definition planned_node :: "action \<Rightarrow> bytes \<Rightarrow> node option" where
  "planned_node a b = (case a of Write \<Rightarrow> Some (File b) | _ \<Rightarrow> None)"

lemma perform_at: "perform env st a p b = Done st' \<Longrightarrow> dict_get st' p = planned_node a b"
  by (auto simp: perform_def planned_node_def atomic_write_def unlink_def rmdir_def
      split: action.splits if_splits option.splits node.splits)

lemma perform_elsewhere:
  assumes "perform env st a p b = Done st'" and "q \<noteq> p"
  shows "dict_get st' q = dict_get st q \<or> (a = Write \<and> strict_prefix q p \<and> dict_get st q = None \<and> dict_get st' q = Some Dir)"
  using assms ancestors_strict
  by (auto simp: perform_def atomic_write_def unlink_def rmdir_def mkdirs_get
      split: action.splits if_splits option.splits node.splits)

lemma perform_not_refused: "perform env st a p b = Done st' \<Longrightarrow> \<not> os_refuses env p"
  by (auto simp: perform_def atomic_write_def unlink_def rmdir_def
      split: action.splits if_splits option.splits node.splits)

lemma live_hash_planned:
  "dict_get st p = planned_node a b \<Longrightarrow>
   live_hash env st a p = (if a = Write then d_bytes env b else absent_token st p [])"
  by (auto simp: live_hash_def planned_node_def hash_file_def hash_delete_tree_def split: action.splits)

end
