(* ===== verification/Targets.thy ===== *)
theory Targets
  imports Store
begin

text \<open>
  Journal targets and the byte classifier of \<open>journal.py\<close>: \<open>classify_target\<close>, \<open>is_noop_target\<close>,
  \<open>defer_unreached_targets\<close>, \<open>_target_live_hash\<close> and \<open>_verify_target_bytes\<close>.  A target's path is
  the stored string; \<open>target_parts\<close> is the owned object it names.  \<open>prepared\<close> is a target that
  still carries the bytes of its write.
\<close>

record target =
  t_path :: string
  t_role :: string
  t_action :: action
  t_before :: string
  t_after :: string
  t_applied :: bool

record prepared = target +
  t_content :: bytes

datatype tclass = ALREADY_APPLIED | PENDING | CONFLICTED

definition classify_target :: "string \<Rightarrow> string \<Rightarrow> string \<Rightarrow> tclass" where
  "classify_target current before after =
     (if current = after then ALREADY_APPLIED
      else if current = before then PENDING
      else CONFLICTED)"

definition is_noop_target :: "'a target_scheme \<Rightarrow> bool" where
  "is_noop_target t \<longleftrightarrow> t_before t = t_after t"

text \<open>\<open>PurePosixPath(str(path).replace("\\", "/"))\<close>.\<close>

definition pure_parts :: "string \<Rightarrow> ppath" where
  "pure_parts s = posix_parts (map (\<lambda>c. if c = CHR 92 then CHR ''/'' else c) s)"

fun defer_loop :: "(ppath \<times> tclass) list \<Rightarrow> (ppath \<times> tclass) list \<Rightarrow> tclass list" where
  "defer_loop passed [] = map snd passed"
| "defer_loop passed ((owner, c) # rest) =
     (let c' = (if c = CONFLICTED \<and>
                   list_ex (\<lambda>(inner, d). d \<noteq> ALREADY_APPLIED \<and> strict_prefix owner inner) passed
                then PENDING else c)
      in defer_loop (passed @ [(owner, c')]) rest)"

definition defer_unreached_targets :: "'a target_scheme list \<Rightarrow> tclass list \<Rightarrow> tclass list" where
  "defer_unreached_targets targets classifications =
     defer_loop [] (zip (map (\<lambda>t. pure_parts (t_path t)) targets) classifications)"

section \<open>Live hashes\<close>

text \<open>
  The tree has no link, so the owned object of a stored path is found by resolving its spelling
  against the root; the store is keyed below the root.
\<close>

definition target_parts :: "os_env \<Rightarrow> string \<Rightarrow> ppath" where
  "target_parts env rel =
     drop (length (project_root env)) (lex_realpath (project_root env @ posix_parts rel))"

definition target_live_hash :: "os_env \<Rightarrow> store \<Rightarrow> 'a target_scheme \<Rightarrow> string" where
  "target_live_hash env st t = live_hash env st (t_action t) (target_parts env (t_path t))"

definition classify_live :: "os_env \<Rightarrow> store \<Rightarrow> 'a target_scheme \<Rightarrow> tclass" where
  "classify_live env st t = classify_target (target_live_hash env st t) (t_before t) (t_after t)"

text \<open>\<open>_verify_target_bytes\<close>: the path of the first target that is not in its planned state.\<close>

definition verify_target_bytes :: "os_env \<Rightarrow> store \<Rightarrow> 'a target_scheme list \<Rightarrow> string option" where
  "verify_target_bytes env st ts =
     map_option t_path (find (\<lambda>t. target_live_hash env st t \<noteq> t_after t) ts)"

section \<open>Lemmas\<close>

lemma classify_cases:
  "classify_target c b a = ALREADY_APPLIED \<longleftrightarrow> c = a"
  "classify_target c b a = PENDING \<longleftrightarrow> c = b \<and> c \<noteq> a"
  "classify_target c b a = CONFLICTED \<longleftrightarrow> c \<noteq> a \<and> c \<noteq> b"
  "ALREADY_APPLIED = classify_target c b a \<longleftrightarrow> c = a"
  "CONFLICTED = classify_target c b a \<longleftrightarrow> c \<noteq> a \<and> c \<noteq> b"
  by (auto simp: classify_target_def)

lemma defer_loop_length [simp]: "length (defer_loop passed rest) = length passed + length rest"
  by (induction passed rest rule: defer_loop.induct) (auto simp: Let_def)

lemma defer_loop_prefix: "i < length passed \<Longrightarrow> defer_loop passed rest ! i = snd (passed ! i)"
  by (induction passed rest rule: defer_loop.induct) (auto simp: Let_def nth_append)

lemma defer_unreached_length [simp]:
  "length cs = length ts \<Longrightarrow> length (defer_unreached_targets ts cs) = length ts"
  by (simp add: defer_unreached_targets_def)

text \<open>Only a conflict is ever re-read, and only as pending.\<close>

lemma defer_loop_keeps:
  "i < length rest \<Longrightarrow>
   (let c = snd (rest ! i); c' = defer_loop passed rest ! (length passed + i)
    in c' = c \<or> c = CONFLICTED \<and> c' = PENDING)"
proof (induction passed rest arbitrary: i rule: defer_loop.induct)
  case (2 passed owner c rest)
  let ?c = "if c = CONFLICTED \<and> list_ex (\<lambda>(inner, d). d \<noteq> ALREADY_APPLIED \<and> strict_prefix owner inner) passed
            then PENDING else c"
  show ?case
  proof (cases i)
    case 0
    have "defer_loop (passed @ [(owner, ?c)]) rest ! length passed = ?c"
      by (subst defer_loop_prefix) auto
    with 0 show ?thesis by (auto simp: Let_def)
  next
    case (Suc j)
    with "2.prems" "2.IH" [OF refl, of j] show ?thesis by (auto simp: Let_def)
  qed
qed simp

lemma defer_unreached_keeps:
  assumes "length cs = length ts" and "i < length ts"
  shows "defer_unreached_targets ts cs ! i = cs ! i \<or>
    cs ! i = CONFLICTED \<and> defer_unreached_targets ts cs ! i = PENDING"
  using defer_loop_keeps [of i "zip (map (\<lambda>t. pure_parts (t_path t)) ts) cs" "[]"] assms
  by (simp add: defer_unreached_targets_def Let_def)

lemma defer_unreached_applied:
  assumes "length cs = length ts" and "i < length ts"
  shows "defer_unreached_targets ts cs ! i = ALREADY_APPLIED \<longleftrightarrow> cs ! i = ALREADY_APPLIED"
  using defer_unreached_keeps [OF assms] by auto

lemma defer_loop_no_conflict:
  "\<forall>c \<in> set rest. snd c \<noteq> CONFLICTED \<Longrightarrow> defer_loop passed rest = map snd (passed @ rest)"
  by (induction passed rest rule: defer_loop.induct) auto

lemma defer_unreached_no_conflict:
  "CONFLICTED \<notin> set cs \<Longrightarrow> length cs = length ts \<Longrightarrow> defer_unreached_targets ts cs = cs"
  unfolding defer_unreached_targets_def
  by (subst defer_loop_no_conflict) (auto dest: set_zip_rightD)

text \<open>
  A conflict survives exactly when no earlier unmaterialised target lies under the target's own
  path.
\<close>

lemma defer_loop_conflict:
  assumes "i < length rest" and "defer_loop passed rest ! (length passed + i) = CONFLICTED"
    and "j < length passed + i" and "strict_prefix (fst (rest ! i)) (fst ((passed @ rest) ! j))"
  shows "defer_loop passed rest ! j = ALREADY_APPLIED"
  using assms
proof (induction passed rest arbitrary: i rule: defer_loop.induct)
  case (2 passed owner c rest)
  let ?ex = "list_ex (\<lambda>(inner, d). d \<noteq> ALREADY_APPLIED \<and> strict_prefix owner inner) passed"
  let ?c = "if c = CONFLICTED \<and> ?ex then PENDING else c"
  show ?case
  proof (cases i)
    case 0
    have at: "defer_loop (passed @ [(owner, ?c)]) rest ! length passed = ?c"
      by (subst defer_loop_prefix) auto
    with 0 "2.prems"(2) have "\<not> ?ex" by (auto split: if_splits)
    moreover have j: "j < length passed" using 0 "2.prems"(3) by simp
    moreover have "strict_prefix owner (fst (passed ! j))" using 0 "2.prems"(4) j by (simp add: nth_append)
    ultimately have "snd (passed ! j) = ALREADY_APPLIED"
      using nth_mem [OF j] by (auto simp: list_ex_iff case_prod_unfold)
    moreover have "defer_loop (passed @ [(owner, ?c)]) rest ! j = snd (passed ! j)"
      using j by (subst defer_loop_prefix) (auto simp: nth_append)
    ultimately show ?thesis by (simp add: Let_def)
  next
    case (Suc k)
    have "fst (((passed @ [(owner, ?c)]) @ rest) ! j) = fst ((passed @ (owner, c) # rest) ! j)"
      by (simp add: nth_append nth_Cons split: nat.splits)
    with Suc "2.prems" "2.IH" [OF refl, of k] show ?thesis by (simp add: Let_def)
  qed
qed simp

lemma classification_by_bytes_conflict:
  assumes i: "i < length ts" and cs_def: "cs = defer_unreached_targets ts (map (classify_live env st) ts)"
    and "cs ! i = CONFLICTED"
    and "j < i" and "strict_prefix (pure_parts (t_path (ts ! i))) (pure_parts (t_path (ts ! j)))"
  shows "cs ! j = ALREADY_APPLIED"
  using defer_loop_conflict [of i "zip (map (\<lambda>t. pure_parts (t_path t)) ts) (map (classify_live env st) ts)" "[]" j] assms
  by (simp add: defer_unreached_targets_def)

lemma verify_target_bytes_None:
  "verify_target_bytes env st ts = None \<longleftrightarrow> (\<forall>t \<in> set ts. target_live_hash env st t = t_after t)"
  by (auto simp: verify_target_bytes_def find_None_iff)

text \<open>
  the three-way classifier decides by the bytes alone, and deferring only ever turns a conflict
  into a pending target: a target counted as applied holds its planned state, and a conflict that
  remains is a third state none of whose contained earlier targets is still due.
\<close>

theorem classification_by_bytes:
  assumes "i < length ts" and cs_def: "cs = defer_unreached_targets ts (map (classify_live env st) ts)"
  shows "(cs ! i = ALREADY_APPLIED \<longleftrightarrow> target_live_hash env st (ts ! i) = t_after (ts ! i)) \<and>
    (cs ! i = CONFLICTED \<longrightarrow>
       target_live_hash env st (ts ! i) \<noteq> t_before (ts ! i) \<and>
       target_live_hash env st (ts ! i) \<noteq> t_after (ts ! i) \<and>
       (\<forall>j < i. strict_prefix (pure_parts (t_path (ts ! i))) (pure_parts (t_path (ts ! j))) \<longrightarrow>
          cs ! j = ALREADY_APPLIED))"
proof -
  let ?cs = "map (classify_live env st) ts"
  have keep: "cs ! i = ?cs ! i \<or> ?cs ! i = CONFLICTED \<and> cs ! i = PENDING"
    unfolding cs_def by (rule defer_unreached_keeps) (use assms in auto)
  note nc = classification_by_bytes_conflict [OF assms]
  from keep nc assms(1) show ?thesis
    by (auto simp: classify_live_def classify_cases)
qed

definition demo_env :: os_env where
  "demo_env = \<lparr>d_bytes = (\<lambda>b. CHR ''#'' # b),
     d_tree = (\<lambda>l. concat (map (\<lambda>(p, _). ''/'' @ as_posix p) l)),
     d_mode = (\<lambda>_. ''mode''), os_refuses = (\<lambda>_. False), project_root = [''srv'', ''p'']\<rparr>"

text \<open>
  A cleanup plan over a directory that still holds its file: the file is pending, the directory,
  whose recorded before state is the empty directory, is deferred.
\<close>

definition demo_clean_targets :: "target list" where
  "demo_clean_targets =
     [\<lparr>t_path = ''d/f'', t_role = ''generic'', t_action = Delete_File, t_before = ''#x'', t_after = [], t_applied = False\<rparr>,
      \<lparr>t_path = ''d'', t_role = ''generic'', t_action = Delete_Dir,
        t_before = empty_delete_tree_hash demo_env, t_after = [], t_applied = False\<rparr>]"

definition demo_clean_store :: store where
  "demo_clean_store = [([''d''], Dir), ([''d'', ''f''], File ''x'')]"

theorem classification_by_bytes_witness:
  "map (classify_live demo_env demo_clean_store) demo_clean_targets = [PENDING, CONFLICTED] \<and>
   defer_unreached_targets demo_clean_targets
     (map (classify_live demo_env demo_clean_store) demo_clean_targets) = [PENDING, PENDING] \<and>
   target_live_hash demo_env demo_clean_store (demo_clean_targets ! 1) \<noteq> t_after (demo_clean_targets ! 1)"
proof -
  have a: "map (classify_live demo_env demo_clean_store) demo_clean_targets = [PENDING, CONFLICTED]"
    by code_simp
  have b: "[PENDING, PENDING] = defer_unreached_targets demo_clean_targets
     (map (classify_live demo_env demo_clean_store) demo_clean_targets)" by code_simp
  have l: "1 < length demo_clean_targets" by code_simp
  have c: "[PENDING, PENDING] ! 1 = PENDING" by simp
  have d: "target_live_hash demo_env demo_clean_store (demo_clean_targets ! 1) \<noteq> t_after (demo_clean_targets ! 1)"
    using classification_by_bytes [OF l b] c by (metis tclass.distinct(1))
  from a b d show ?thesis by metis
qed

end
