(* ===== verification/Stamps.thy ===== *)
theory Stamps
  imports Prelude
begin

text \<open>
  The strict UTC timestamp of \<open>board.py\<close> (\<open>_strict_utc_stamp\<close>, \<open>strict_iso_utc\<close>,
  \<open>iso_utc_sort_key\<close>).  A stamp is a naive UTC instant: year, month, day, hour, minute, second,
  microsecond; \<open>datetime.fromisoformat\<close> and \<open>isoformat\<close> are modelled as Python 3.11 defines them
  on the spellings the pattern admits (a fraction keeps its first six digits).
\<close>

section \<open>Calendar\<close>

record stamp =
  year :: nat
  month :: nat
  day :: nat
  hour :: nat
  minute :: nat
  second :: nat
  micro :: nat

definition leap :: "nat \<Rightarrow> bool" where
  "leap y \<longleftrightarrow> y mod 4 = 0 \<and> (y mod 100 \<noteq> 0 \<or> y mod 400 = 0)"

definition days_in_month :: "nat \<Rightarrow> nat \<Rightarrow> nat" where
  "days_in_month y m =
     (if m = 2 then (if leap y then 29 else 28) else if m \<in> {4, 6, 9, 11} then 30 else 31)"

definition valid_stamp :: "stamp \<Rightarrow> bool" where
  "valid_stamp t \<longleftrightarrow>
     1 \<le> year t \<and> year t \<le> 9999 \<and> 1 \<le> month t \<and> month t \<le> 12 \<and>
     1 \<le> day t \<and> day t \<le> days_in_month (year t) (month t) \<and>
     hour t \<le> 23 \<and> minute t \<le> 59 \<and> second t \<le> 59 \<and> micro t \<le> 999999"

text \<open>Microseconds since the start of year 0, the order \<open>datetime\<close> comparison has.\<close>

definition days_before_year :: "nat \<Rightarrow> nat" where
  "days_before_year y = (let z = y - 1 in z * 365 + z div 4 - z div 100 + z div 400)"

definition days_before_month :: "nat \<Rightarrow> nat \<Rightarrow> nat" where
  "days_before_month y m = sum_list (map (days_in_month y) [1..<m])"

definition instant :: "stamp \<Rightarrow> nat" where
  "instant t =
     ((((days_before_year (year t) + days_before_month (year t) (month t) + day t) * 24 + hour t) * 60
       + minute t) * 60 + second t) * 1000000 + micro t"

section \<open>Parsing\<close>

definition dval :: "char \<Rightarrow> nat" where
  "dval c = of_char c - 48"

definition number :: "string \<Rightarrow> nat" where
  "number s = foldl (\<lambda>n c. 10 * n + dval c) 0 s"

text \<open>The first six digits of a fraction, as microseconds.\<close>

definition fraction_micro :: "string \<Rightarrow> nat" where
  "fraction_micro ds = number (take 6 (ds @ ''000000''))"

text \<open>What follows the seconds: an optional \<open>.digits\<close> and then \<open>Z\<close> or \<open>+00:00\<close>.\<close>

definition stamp_tail :: "string \<Rightarrow> nat option" where
  "stamp_tail s =
     (if s = ''Z'' \<or> s = ''+00:00'' then Some 0
      else if startswith s ''.'' then
        (case span is_digit (tl s) of (ds, rest) \<Rightarrow>
           if ds \<noteq> [] \<and> (rest = ''Z'' \<or> rest = ''+00:00'') then Some (fraction_micro ds) else None)
      else None)"

text \<open>\<open>\d{4}-\d{2}-\d{2}T\d{2}:\d{2}:\d{2}\<close> on the first nineteen characters.\<close>

definition dated :: "string \<Rightarrow> bool" where
  "dated dt \<longleftrightarrow>
     length dt = 19 \<and> list_all (\<lambda>i. is_digit (dt ! i)) [0, 1, 2, 3, 5, 6, 8, 9, 11, 12, 14, 15, 17, 18] \<and>
     dt ! 4 = CHR ''-'' \<and> dt ! 7 = CHR ''-'' \<and> dt ! 10 = CHR ''T'' \<and> dt ! 13 = CHR '':'' \<and> dt ! 16 = CHR '':''"

definition strict_utc_stamp :: "string \<Rightarrow> stamp option" where
  "strict_utc_stamp s =
     (let dt = take 19 s in
      if dated dt then
        (case stamp_tail (drop 19 s) of
           None \<Rightarrow> None
         | Some us \<Rightarrow>
             let t = \<lparr>year = number (take 4 dt), month = number (take 2 (drop 5 dt)),
                      day = number (take 2 (drop 8 dt)), hour = number (take 2 (drop 11 dt)),
                      minute = number (take 2 (drop 14 dt)), second = number (take 2 (drop 17 dt)),
                      micro = us\<rparr>
             in if valid_stamp t then Some t else None)
      else None)"

section \<open>Rendering\<close>

definition digit :: "nat \<Rightarrow> char" where
  "digit n = char_of (48 + n mod 10)"

definition pad2 :: "nat \<Rightarrow> string" where
  "pad2 n = [digit (n div 10), digit n]"

definition pad4 :: "nat \<Rightarrow> string" where
  "pad4 n = [digit (n div 1000), digit (n div 100), digit (n div 10), digit n]"

definition pad6 :: "nat \<Rightarrow> string" where
  "pad6 n = pad2 (n div 10000) @ pad4 n"

definition isoformat :: "stamp \<Rightarrow> string" where
  "isoformat t =
     pad4 (year t) @ ''-'' @ pad2 (month t) @ ''-'' @ pad2 (day t) @ ''T'' @ pad2 (hour t) @ '':'' @
     pad2 (minute t) @ '':'' @ pad2 (second t) @ (if micro t = 0 then [] else ''.'' @ pad6 (micro t))"

text \<open>The value is a string here: a caller that holds another type gets the empty answer.\<close>

definition strict_iso_utc :: "string \<Rightarrow> string" where
  "strict_iso_utc v =
     (let text = strip v in
      if text = [] then []
      else case strict_utc_stamp text of None \<Rightarrow> [] | Some t \<Rightarrow> isoformat t @ ''Z'')"

definition iso_utc_sort_key :: "string \<Rightarrow> stamp option" where
  "iso_utc_sort_key v = (let text = strip v in if text = [] then None else strict_utc_stamp text)"

section \<open>Round trip\<close>

lemma digit_props [simp]: "is_digit (digit n)" "dval (digit n) = n mod 10"
proof -
  have "n mod 10 < 10" by simp
  then show "is_digit (digit n)" "dval (digit n) = n mod 10"
    by (auto simp: is_digit_def digit_def dval_def Let_def)
qed

lemma div_step: "0 < b \<Longrightarrow> 10 * (n div (b * 10)) + n div b mod 10 = (n div b :: nat)"
  by (simp add: div_mult2_eq)

lemma mod_div_step: "0 < b \<Longrightarrow> n mod (b * c) div b = n div b mod (c :: nat)"
  by (simp add: mod_mult2_eq)

lemma number_pad2 [simp]: "n < 100 \<Longrightarrow> number (pad2 n) = n"
  by (simp add: number_def pad2_def)

lemma number_pad4 [simp]: "n < 10000 \<Longrightarrow> number (pad4 n) = n"
proof -
  assume "n < 10000"
  then have top: "n div 1000 mod 10 = n div 1000" by simp
  moreover note div_step [of 100 n, simplified] div_step [of 10 n, simplified] div_step [of 1 n, simplified]
  ultimately have "10 * (10 * (10 * (n div 1000 mod 10) + n div 100 mod 10) + n div 10 mod 10) + n mod 10 = n"
    by (simp only: mult_div_mod_eq)
  then show ?thesis using top by (simp add: number_def pad4_def)
qed

lemma number_pad6 [simp]: "n < 1000000 \<Longrightarrow> number (pad6 n) = n"
proof -
  assume n: "n < 1000000"
  have "number (pad2 a @ pad4 b) = number (pad2 a) * 10000 + number (pad4 b)" for a b
    by (simp add: number_def pad2_def pad4_def)
  moreover have "n div 1000 mod 10 = n mod 10000 div 1000 mod 10" "n div 100 mod 10 = n mod 10000 div 100 mod 10"
    "n div 10 mod 10 = n mod 10000 div 10 mod 10" "n mod 10 = n mod 10000 mod 10"
    using mod_div_step [of 1000 n 10] mod_div_step [of 100 n 100] mod_div_step [of 10 n 1000]
    by (simp_all add: mod_mod_cancel)
  then have "pad4 n = pad4 (n mod 10000)" by (simp add: pad4_def digit_def)
  ultimately have "number (pad6 n) = (n div 10000) * 10000 + n mod 10000"
    using n by (simp add: pad6_def)
  then show ?thesis by simp
qed

lemma pad_digits:
  "length (pad2 n) = 2" "length (pad4 n) = 4" "length (pad6 n) = 6"
  "list_all is_digit (pad2 n)" "list_all is_digit (pad4 n)" "list_all is_digit (pad6 n)"
  by (simp_all add: pad2_def pad4_def pad6_def)

lemma Z_not_digit: "\<not> is_digit CHR ''Z''"
  by (simp add: is_digit_def)

lemma stamp_tail_fraction: "0 < us \<Longrightarrow> us < 1000000 \<Longrightarrow> stamp_tail (''.'' @ pad6 us @ ''Z'') = Some us"
proof -
  assume us: "0 < us" "us < 1000000"
  have "span is_digit (pad6 us @ ''Z'') = (pad6 us, ''Z'')"
    by (rule span_append) (simp_all add: pad_digits Z_not_digit)
  moreover have "pad6 us \<noteq> []" by (metis pad_digits(3) list.size(3) zero_neq_numeral)
  moreover have "take 6 (pad6 us @ ''000000'') = pad6 us" by (simp add: pad_digits)
  ultimately show ?thesis using us by (simp add: stamp_tail_def fraction_micro_def)
qed

lemma valid_bounds:
  assumes "valid_stamp t"
  shows "year t < 10000" "month t < 100" "day t < 100" "hour t < 100" "minute t < 100" "second t < 100"
    "micro t < 1000000"
  using assms by (auto simp: valid_stamp_def days_in_month_def split: if_splits)

lemma strict_utc_stamp_isoformat: "valid_stamp t \<Longrightarrow> strict_utc_stamp (isoformat t @ ''Z'') = Some t"
proof -
  assume v: "valid_stamp t"
  define dt where "dt = pad4 (year t) @ ''-'' @ pad2 (month t) @ ''-'' @ pad2 (day t) @ ''T'' @
     pad2 (hour t) @ '':'' @ pad2 (minute t) @ '':'' @ pad2 (second t)"
  define tl where "tl = (if micro t = 0 then [] else ''.'' @ pad6 (micro t)) @ ''Z''"
  have len: "length dt = 19" by (simp add: dt_def pad_digits)
  have iso: "isoformat t @ ''Z'' = dt @ tl" by (simp add: isoformat_def dt_def tl_def)
  have tail: "stamp_tail tl = Some (micro t)"
    using stamp_tail_fraction [of "micro t"] valid_bounds(7) [OF v] by (simp add: tl_def stamp_tail_def)
  have shape: "dated dt" by (simp add: dated_def dt_def pad2_def pad4_def)
  have fields: "take 4 dt = pad4 (year t)" "take 2 (drop 5 dt) = pad2 (month t)" "take 2 (drop 8 dt) = pad2 (day t)"
    "take 2 (drop 11 dt) = pad2 (hour t)" "take 2 (drop 14 dt) = pad2 (minute t)" "take 2 (drop 17 dt) = pad2 (second t)"
    by (simp_all add: dt_def pad2_def pad4_def)
  have same: "\<lparr>year = year t, month = month t, day = day t, hour = hour t, minute = minute t,
      second = second t, micro = micro t\<rparr> = t" by simp
  have "take 19 (dt @ tl) = dt" "drop 19 (dt @ tl) = tl" using len by simp_all
  then show ?thesis
    using v valid_bounds [OF v] unfolding iso strict_utc_stamp_def Let_def
    by (simp add: tail shape fields same)
qed

lemma strict_utc_stamp_valid: "strict_utc_stamp s = Some t \<Longrightarrow> valid_stamp t"
  by (auto simp: strict_utc_stamp_def Let_def split: if_splits option.splits)

lemma isoformat_strip: "strip (isoformat t @ ''Z'') = isoformat t @ ''Z''"
proof (rule strip_id)
  have "\<exists>r. isoformat t = digit (year t div 1000) # r" by (simp add: isoformat_def pad4_def)
  then obtain r where "isoformat t = digit (year t div 1000) # r" ..
  then show "\<not> is_space (hd (isoformat t @ ''Z''))" by simp
  show "\<not> is_space (last (isoformat t @ ''Z''))" by (simp add: is_space_def)
qed simp

lemma strict_iso_utc_fixed:
  assumes "strict_iso_utc v \<noteq> []"
  shows "strict_iso_utc (strict_iso_utc v) = strict_iso_utc v"
    and "iso_utc_sort_key (strict_iso_utc v) = iso_utc_sort_key v" and "iso_utc_sort_key v \<noteq> None"
proof -
  from assms obtain t where t: "strict_utc_stamp (strip v) = Some t" "strip v \<noteq> []"
    and iso: "strict_iso_utc v = isoformat t @ ''Z''"
    by (auto simp: strict_iso_utc_def Let_def split: if_splits option.splits)
  then have "strict_utc_stamp (isoformat t @ ''Z'') = Some t"
    using strict_utc_stamp_valid strict_utc_stamp_isoformat by blast
  with t show "strict_iso_utc (strict_iso_utc v) = strict_iso_utc v"
    "iso_utc_sort_key (strict_iso_utc v) = iso_utc_sort_key v" "iso_utc_sort_key v \<noteq> None"
    unfolding iso by (simp_all add: strict_iso_utc_def iso_utc_sort_key_def isoformat_strip)
qed

text \<open>
  The canonical spelling \<open>strict_iso_utc\<close> returns is a fixed point of it and keeps the instant:
  re-canonicalising gives the same text, and the sort key of the answer is the sort key of the
  input, so ordering by the stored spelling and by the original agree.
\<close>

theorem strict_iso_utc_canonical:
  assumes "strict_iso_utc v \<noteq> []"
  shows "strict_iso_utc (strict_iso_utc v) = strict_iso_utc v \<and>
    iso_utc_sort_key (strict_iso_utc v) = iso_utc_sort_key v \<and> iso_utc_sort_key v \<noteq> None"
  using strict_iso_utc_fixed [OF assms] by blast

theorem strict_iso_utc_canonical_witness:
  "strict_iso_utc '' 2026-08-21T10:00:00.9+00:00'' = ''2026-08-21T10:00:00.900000Z'' \<and>
   strict_iso_utc ''2026-08-21T10:00:00.900000Z'' = ''2026-08-21T10:00:00.900000Z'' \<and>
   strict_iso_utc ''2026-02-29T10:00:00Z'' = [] \<and> strict_iso_utc ''2026-08-21 10:00:00Z'' = []"
proof -
  have h: "strict_iso_utc '' 2026-08-21T10:00:00.9+00:00'' = ''2026-08-21T10:00:00.900000Z''"
    "strict_iso_utc ''2026-02-29T10:00:00Z'' = []" "strict_iso_utc ''2026-08-21 10:00:00Z'' = []"
    by code_simp+
  with strict_iso_utc_canonical [of "'' 2026-08-21T10:00:00.9+00:00''"] show ?thesis by simp
qed

end
