(* ===== verification/OpRecord.thy ===== *)
theory OpRecord
  imports Targets Stamps
begin

text \<open>
  The journal on disk and its one strict decoder: \<open>decode_operation_record\<close>,
  \<open>_decode_progress_sidecar\<close> and \<open>_merge_progress_sidecar\<close> of \<open>journal.py\<close>.  The two JSON files
  of an operation directory are kept as parsed documents, the staged payloads by file name; the
  decoder turns them into a typed record or a refusal.
\<close>

section \<open>Documents\<close>

datatype json =
    JNull | JBool bool | JInt int | JFloat string | JStr string
  | JList "json list" | is_obj: JObj "(string, json) dict"

text \<open>\<open>d.get(key)\<close>: a missing key and a null read alike.\<close>

definition jget :: "(string, json) dict \<Rightarrow> string \<Rightarrow> json" where
  "jget d k = (case dict_get d k of None \<Rightarrow> JNull | Some v \<Rightarrow> v)"

definition is_str :: "json \<Rightarrow> bool" where
  "is_str j = (case j of JStr _ \<Rightarrow> True | _ \<Rightarrow> False)"

definition the_str :: "json \<Rightarrow> string" where
  "the_str j = (case j of JStr s \<Rightarrow> s | _ \<Rightarrow> [])"

text \<open>A file is absent, unreadable as JSON, or a document.\<close>

type_synonym doc = "json option option"

record op_dir =
  manifest :: doc
  progress :: doc
  staged :: "(string, bytes) dict"

section \<open>The typed record\<close>

datatype status = PREPARED | APPLYING | VERIFIED | COMMITTED | ABORTED | CONFLICT | RESOLVED

definition status_name :: "status \<Rightarrow> string" where
  "status_name s = (case s of PREPARED \<Rightarrow> ''PREPARED'' | APPLYING \<Rightarrow> ''APPLYING'' | VERIFIED \<Rightarrow> ''VERIFIED''
     | COMMITTED \<Rightarrow> ''COMMITTED'' | ABORTED \<Rightarrow> ''ABORTED'' | CONFLICT \<Rightarrow> ''CONFLICT'' | RESOLVED \<Rightarrow> ''RESOLVED'')"

definition STATUS :: "status list" where
  "STATUS = [PREPARED, APPLYING, VERIFIED, COMMITTED, ABORTED, CONFLICT, RESOLVED]"

definition SETTLED :: "status list" where
  "SETTLED = [COMMITTED, ABORTED, RESOLVED]"

definition UNRESOLVED :: "status list" where
  "UNRESOLVED = [PREPARED, APPLYING, VERIFIED, CONFLICT]"

definition parse_status :: "json \<Rightarrow> status option" where
  "parse_status j = (case j of JStr s \<Rightarrow> find (\<lambda>st. status_name st = s) STATUS | _ \<Rightarrow> None)"

definition ROLES :: "string list" where
  "ROLES = [''log'', ''board'', ''state'', ''manifest'', ''report'', ''sweep'', ''contract'',
     ''contract_revision'', ''coverage'', ''generic'']"

definition VERIFICATION_POLICIES :: "string list" where
  "VERIFICATION_POLICIES = [''core_fast'', ''improve_atomic_file'', ''improve_retrospective_v1'',
     ''userperson'', ''sub_collect'', ''sub_disposition'', ''sub_lifecycle'', ''sub_clean'', ''sub_sync'',
     ''accepted_debt'', ''none'']"

definition action_name :: "action \<Rightarrow> string" where
  "action_name a = (case a of Write \<Rightarrow> ''write'' | Delete_File \<Rightarrow> ''delete_file'' | Delete_Dir \<Rightarrow> ''delete_dir'')"

definition TARGET_ACTIONS :: "action list" where
  "TARGET_ACTIONS = [Write, Delete_File, Delete_Dir]"

text \<open>An absent action is a write (the receipt format before actions); a present one is closed.\<close>

definition parse_action :: "(string, json) dict \<Rightarrow> action option" where
  "parse_action d =
     (case dict_get d ''action'' of
        None \<Rightarrow> Some Write
      | Some (JStr s) \<Rightarrow> find (\<lambda>a. action_name a = s) TARGET_ACTIONS
      | Some _ \<Rightarrow> None)"

record op_record =
  r_op_id :: string
  r_operation :: string
  r_created_at :: string
  r_agent :: string
  r_identity :: string
  r_lineage :: "string option"
  r_payload :: string
  r_pre :: "(string, string) dict"
  r_read :: "(string, string) dict"
  r_policy :: string
  r_status :: status
  r_progress :: int
  r_targets :: "target list"
  r_meta :: "(string, json) dict option"

datatype decode_error =
    Untrusted string  \<comment> \<open>\<open>RECOVERY_CONFLICT\<close>: evidence that cannot be read\<close>
  | Bad_Field string  \<comment> \<open>\<open>VALIDATION_FAILED\<close>: the field that breaks the contract\<close>

definition decode_code :: "decode_error \<Rightarrow> string" where
  "decode_code e = (case e of Untrusted _ \<Rightarrow> ''RECOVERY_CONFLICT'' | Bad_Field _ \<Rightarrow> ''VALIDATION_FAILED'')"

section \<open>Staged payloads\<close>

definition slug :: "string \<Rightarrow> string" where
  "slug rel = concat (map (\<lambda>c. if c = CHR ''/'' \<or> c = CHR 92 then ''__'' else [c]) rel)"

definition staged_name :: "os_env \<Rightarrow> nat \<Rightarrow> string \<Rightarrow> string" where
  "staged_name env i canonical = show_nat i @ ''_'' @ d_bytes env canonical @ ''.staged''"

definition legacy_staged_name :: "nat \<Rightarrow> string \<Rightarrow> string" where
  "legacy_staged_name i rel = show_nat i @ ''_'' @ slug rel @ ''.staged''"

definition staged_content :: "os_env \<Rightarrow> op_dir \<Rightarrow> nat \<Rightarrow> string \<Rightarrow> bytes option" where
  "staged_content env d i rel =
     (case dict_get (staged d) (staged_name env i (as_posix (target_parts env rel))) of
        Some b \<Rightarrow> Some b
      | None \<Rightarrow> dict_get (staged d) (legacy_staged_name i rel))"

section \<open>The strict decoder\<close>

definition string_map :: "json \<Rightarrow> (string, string) dict option" where
  "string_map j =
     (case j of
        JObj d \<Rightarrow> if list_all (\<lambda>(k, v). k \<noteq> [] \<and> is_str v) d then Some (map (\<lambda>(k, v). (k, the_str v)) d) else None
      | _ \<Rightarrow> None)"

text \<open>\<open>record.get(key, {})\<close>: an absent key is the empty map, a null is not.\<close>

definition precondition_map :: "(string, json) dict \<Rightarrow> string \<Rightarrow> (string, string) dict option" where
  "precondition_map d k = (case dict_get d k of None \<Rightarrow> Some [] | Some j \<Rightarrow> string_map j)"

definition canonical_receipt_metadata :: "json \<Rightarrow> string + (string, json) dict option" where
  "canonical_receipt_metadata v =
     (case v of
        JNull \<Rightarrow> Inr None
      | JObj d \<Rightarrow>
          (case dict_get d ''ticket_id'' of
             None \<Rightarrow> Inr (Some d)
           | Some t \<Rightarrow>
               if t = JNull \<or> t = JStr [] then Inr (Some (dict_pop ''ticket_id'' d))
               else if \<not> is_str t then Inl ''ticket_id must be a string or null''
               else Inr (Some d))
      | _ \<Rightarrow> Inl ''must be a JSON object or null'')"

definition METADATA_STRINGS :: "string list" where
  "METADATA_STRINGS =
     [''operation'', ''status'', ''event_id'', ''crew_epoch'', ''role'', ''stage'', ''verdict'', ''package_identity'',
      ''source_head'', ''source_tree_fingerprint'', ''undo_target'', ''undo_reason'', ''undo_current'',
      ''undo_restore_plan_hash'', ''resulting_source_head'', ''resulting_source_tree_fingerprint'', ''producer'',
      ''input_source'', ''input_source_fingerprint'', ''resulting_source'', ''resulting_source_fingerprint'']"

definition metadata_problem :: "(string, json) dict \<Rightarrow> string option" where
  "metadata_problem m =
     (case find (\<lambda>k. case dict_get m k of None \<Rightarrow> False | Some v \<Rightarrow> \<not> is_str v) METADATA_STRINGS of
        Some k \<Rightarrow> Some (''receipt_metadata.'' @ k)
      | None \<Rightarrow>
          (case dict_get m ''paths'' of
             None \<Rightarrow> None
           | Some (JObj ps) \<Rightarrow>
               if list_all (\<lambda>(k, v). k \<noteq> [] \<and> (v = JNull \<or> is_str v)) ps then None
               else Some ''receipt_metadata.paths''
           | Some _ \<Rightarrow> Some ''receipt_metadata.paths''))"

text \<open>
  One pass over the target array: every object typed, owned, unique by its resolved identity, in the
  closed role and action sets, and, for a write of an unresolved operation, backed by staged bytes.
\<close>

definition content_ok :: "(string, json) dict \<Rightarrow> bool" where
  "content_ok t = (case dict_get t ''content'' of None \<Rightarrow> True | Some c \<Rightarrow> is_str c)"

fun decode_targets ::
  "os_env \<Rightarrow> op_dir \<Rightarrow> bool \<Rightarrow> nat \<Rightarrow> ppath list \<Rightarrow> json list \<Rightarrow> decode_error + target list" where
  "decode_targets env d unresolved i seen [] = Inr []"
| "decode_targets env d unresolved i seen (j # js) =
     (let bad = (\<lambda>f. Inl (Bad_Field (''targets['' @ show_nat i @ '']'' @ f))) in
      case j of
        JObj t \<Rightarrow>
          (case find (\<lambda>k. \<not> is_str (jget t k)) [''path'', ''role'', ''before_hash'', ''after_hash''] of
             Some k \<Rightarrow> bad (''.'' @ k)
           | None \<Rightarrow>
             let path = the_str (jget t ''path'') in
             if path = [] then bad ''.path''
             else case owned_target_path lex_realpath (project_root env) path of
               Inl _ \<Rightarrow> bad ''.path''
             | Inr _ \<Rightarrow>
               if target_parts env path \<in> set seen then bad ''.path''
               else if the_str (jget t ''role'') \<notin> set ROLES then bad ''.role''
               else case parse_action t of
                 None \<Rightarrow> bad ''.action''
               | Some a \<Rightarrow>
                 (case jget t ''applied'' of
                    JBool applied \<Rightarrow>
                      if \<not> content_ok t then bad ''.content''
                      else if unresolved \<and> a = Write \<and> staged_content env d i path = None then bad ''.path''
                      else (case decode_targets env d unresolved (Suc i) (target_parts env path # seen) js of
                              Inl e \<Rightarrow> Inl e
                            | Inr ts \<Rightarrow>
                                Inr (\<lparr>t_path = path, t_role = the_str (jget t ''role''), t_action = a,
                                      t_before = the_str (jget t ''before_hash''),
                                      t_after = the_str (jget t ''after_hash''), t_applied = applied\<rparr> # ts))
                  | _ \<Rightarrow> bad ''.applied''))
      | _ \<Rightarrow> bad [])"

text \<open>\<open>isinstance(value, int)\<close> also admits a boolean.\<close>

definition as_int :: "json \<Rightarrow> int option" where
  "as_int j = (case j of JInt n \<Rightarrow> Some n | JBool b \<Rightarrow> Some (if b then 1 else 0) | _ \<Rightarrow> None)"

definition policy_of :: "(string, json) dict \<Rightarrow> json" where
  "policy_of r = (case dict_get r ''verification_policy'' of None \<Rightarrow> JStr ''none'' | Some p \<Rightarrow> p)"

text \<open>The first field of the record's header that breaks the contract, in the decoder's order.\<close>

definition header_problem :: "string \<Rightarrow> (string, json) dict \<Rightarrow> string option" where
  "header_problem name r =
     (let op_id = jget r ''op_id'' in
      if \<not> is_str op_id \<or> op_id = JStr [] then Some ''op_id''
      else if isl (validate_op_id (the_str op_id)) then Some ''op_id''
      else if name \<noteq> the_str op_id then Some ''op_id''
      else if parse_status (jget r ''status'') = None then Some ''status''
      else if \<not> is_str (jget r ''operation'') \<or> jget r ''operation'' = JStr [] then Some ''operation''
      else if \<not> is_str (jget r ''semantic_payload_hash'') then Some ''semantic_payload_hash''
      else if \<not> is_str (jget r ''created_at'') then Some ''created_at''
      else if the (parse_status (jget r ''status'')) \<in> set UNRESOLVED
              \<and> strict_iso_utc (the_str (jget r ''created_at'')) = [] then Some ''created_at''
      else if \<not> is_str (jget r ''agent'') then Some ''agent''
      else if \<not> is_str (jget r ''project_identity'') then Some ''project_identity''
      else if jget r ''project_lineage'' \<noteq> JNull \<and> \<not> is_str (jget r ''project_lineage'') then Some ''project_lineage''
      else if \<not> is_str (policy_of r) \<or> the_str (policy_of r) \<notin> set VERIFICATION_POLICIES
        then Some ''verification_policy''
      else None)"

definition body_problem :: "(string, json) dict \<Rightarrow> string option" where
  "body_problem r =
     (if precondition_map r ''preconditions'' = None then Some ''preconditions''
      else if precondition_map r ''read_preconditions'' = None then Some ''read_preconditions''
      else case canonical_receipt_metadata (jget r ''receipt_metadata'') of
        Inl _ \<Rightarrow> Some (if is_obj (jget r ''receipt_metadata'') then ''receipt_metadata.ticket_id'' else ''receipt_metadata'')
      | Inr meta \<Rightarrow>
          (case (case meta of None \<Rightarrow> None | Some m \<Rightarrow> metadata_problem m) of
             Some f \<Rightarrow> Some f
           | None \<Rightarrow>
               if as_int (jget r ''progress_index'') = None then Some ''progress_index''
               else (case jget r ''targets'' of JList _ \<Rightarrow> None | _ \<Rightarrow> Some ''targets'')))"

definition target_docs :: "(string, json) dict \<Rightarrow> json list" where
  "target_docs r = (case jget r ''targets'' of JList js \<Rightarrow> js | _ \<Rightarrow> [])"

definition decode_manifest :: "os_env \<Rightarrow> string \<Rightarrow> op_dir \<Rightarrow> decode_error + op_record" where
  "decode_manifest env name d =
     (case manifest d of
        None \<Rightarrow> Inl (Untrusted ''operation.json is unreadable'')
      | Some None \<Rightarrow> Inl (Untrusted ''operation.json is not valid JSON'')
      | Some (Some (JObj r)) \<Rightarrow>
          (case header_problem name r of
             Some f \<Rightarrow> Inl (Bad_Field f)
           | None \<Rightarrow>
             (case body_problem r of
                Some f \<Rightarrow> Inl (Bad_Field f)
              | None \<Rightarrow>
                let st = the (parse_status (jget r ''status''));
                    created = the_str (jget r ''created_at'');
                    stamp = strict_iso_utc created
                in case decode_targets env d (st \<in> set UNRESOLVED) 0 [] (target_docs r) of
                     Inl e \<Rightarrow> Inl e
                   | Inr ts \<Rightarrow>
                       Inr \<lparr>r_op_id = the_str (jget r ''op_id''), r_operation = the_str (jget r ''operation''),
                            r_created_at = (if stamp = [] then created else stamp),
                            r_agent = the_str (jget r ''agent''), r_identity = the_str (jget r ''project_identity''),
                            r_lineage = (if jget r ''project_lineage'' = JNull then None
                                         else Some (the_str (jget r ''project_lineage''))),
                            r_payload = the_str (jget r ''semantic_payload_hash''),
                            r_pre = the (precondition_map r ''preconditions''),
                            r_read = the (precondition_map r ''read_preconditions''),
                            r_policy = the_str (policy_of r), r_status = st,
                            r_progress = the (as_int (jget r ''progress_index'')), r_targets = ts,
                            r_meta = projr (canonical_receipt_metadata (jget r ''receipt_metadata''))\<rparr>))
      | Some (Some _) \<Rightarrow> Inl (Untrusted ''operation record is not a JSON object''))"

section \<open>The progress sidecar\<close>

record sidecar =
  s_status :: "status option"
  s_index :: "int option"
  s_frontier :: "int option"

text \<open>An optional bounded integer; a boolean is refused here.\<close>

definition bounded_int :: "json \<Rightarrow> int \<Rightarrow> int \<Rightarrow> int option option" where
  "bounded_int j lo hi =
     (case j of
        JNull \<Rightarrow> Some None
      | JInt n \<Rightarrow> if n < lo \<or> hi < n then None else Some (Some n)
      | _ \<Rightarrow> None)"

definition decode_progress_sidecar ::
  "nat \<Rightarrow> status \<Rightarrow> json option \<Rightarrow> bool \<Rightarrow> decode_error + sidecar" where
  "decode_progress_sidecar n base raw allow_settlement_fold =
     (case raw of
        Some (JObj p) \<Rightarrow>
          let st = jget p ''status'' in
          if st \<noteq> JNull \<and> parse_status st = None then Inl (Bad_Field ''progress.status'')
          else (case bounded_int (jget p ''progress_index'') 0 (int n) of
            None \<Rightarrow> Inl (Bad_Field ''progress.progress_index'')
          | Some index \<Rightarrow>
            (case bounded_int (jget p ''applied_frontier'') (-1) (max (int n - 1) (-1)) of
               None \<Rightarrow> Inl (Bad_Field ''progress.applied_frontier'')
             | Some frontier \<Rightarrow>
               if (case parse_status st of None \<Rightarrow> False | Some s \<Rightarrow> s \<in> set SETTLED \<and> base \<notin> set SETTLED)
                  \<and> \<not> allow_settlement_fold
               then Inl (Untrusted ''settlement did not fold'')
               else Inr \<lparr>s_status = parse_status st, s_index = index, s_frontier = frontier\<rparr>))
      | Some _ \<Rightarrow> Inl (Untrusted ''progress.json is not a JSON object'')
      | None \<Rightarrow> Inl (Untrusted ''progress.json is not valid JSON''))"

definition mark_applied :: "int option \<Rightarrow> target list \<Rightarrow> target list" where
  "mark_applied frontier ts =
     (case frontier of
        None \<Rightarrow> ts
      | Some k \<Rightarrow> map (\<lambda>t. t\<lparr>t_applied := True\<rparr>) (take (nat (k + 1)) ts) @ drop (nat (k + 1)) ts)"

definition merge_progress_sidecar :: "op_dir \<Rightarrow> op_record \<Rightarrow> bool \<Rightarrow> decode_error + op_record" where
  "merge_progress_sidecar d r allow_settlement_fold =
     (case progress d of
        None \<Rightarrow> Inr r
      | Some raw \<Rightarrow>
          (case decode_progress_sidecar (length (r_targets r)) (r_status r) raw allow_settlement_fold of
             Inl e \<Rightarrow> Inl e
           | Inr p \<Rightarrow>
               Inr (r\<lparr>r_status := (case s_status p of None \<Rightarrow> r_status r | Some s \<Rightarrow> s),
                      r_progress := (case s_index p of None \<Rightarrow> r_progress r | Some i \<Rightarrow> i),
                      r_targets := mark_applied (s_frontier p) (r_targets r)\<rparr>)))"

definition decode_operation_record :: "os_env \<Rightarrow> string \<Rightarrow> op_dir \<Rightarrow> bool \<Rightarrow> decode_error + op_record" where
  "decode_operation_record env name d allow_settlement_fold =
     (case decode_manifest env name d of
        Inl e \<Rightarrow> Inl e
      | Inr r \<Rightarrow> merge_progress_sidecar d r allow_settlement_fold)"

section \<open>Writing the documents\<close>

definition encode_target :: "target \<Rightarrow> json" where
  "encode_target t = JObj
     [(''path'', JStr (t_path t)), (''role'', JStr (t_role t)), (''action'', JStr (action_name (t_action t))),
      (''before_hash'', JStr (t_before t)), (''after_hash'', JStr (t_after t)), (''applied'', JBool (t_applied t))]"

definition encode_strings :: "(string, string) dict \<Rightarrow> json" where
  "encode_strings d = JObj (map (\<lambda>(k, v). (k, JStr v)) d)"

text \<open>The record \<open>Journal.start\<close> publishes and \<open>fold_progress\<close> rewrites.\<close>

definition encode_record :: "op_record \<Rightarrow> json" where
  "encode_record r = JObj
     ([(''op_id'', JStr (r_op_id r)), (''operation'', JStr (r_operation r)), (''created_at'', JStr (r_created_at r)),
       (''agent'', JStr (r_agent r)), (''project_identity'', JStr (r_identity r)),
       (''project_lineage'', (case r_lineage r of None \<Rightarrow> JNull | Some l \<Rightarrow> JStr l)),
       (''semantic_payload_hash'', JStr (r_payload r)),
       (''preconditions'', encode_strings (r_pre r)), (''read_preconditions'', encode_strings (r_read r)),
       (''verification_policy'', JStr (r_policy r)), (''status'', JStr (status_name (r_status r))),
       (''progress_index'', JInt (r_progress r)), (''targets'', JList (map encode_target (r_targets r)))] @
      (case r_meta r of None \<Rightarrow> [] | Some m \<Rightarrow> [(''receipt_metadata'', JObj m)]))"

definition sidecar_dict :: "op_dir \<Rightarrow> (string, json) dict" where
  "sidecar_dict d = (case progress d of Some (Some (JObj p)) \<Rightarrow> p | _ \<Rightarrow> [])"

text \<open>
  \<open>Journal.mark\<close> up to the sidecar write: the frontier only grows.  \<open>reconcile_progress\<close> publishes
  an exact frontier instead.
\<close>

definition mark_sidecar :: "status \<Rightarrow> int option \<Rightarrow> int option \<Rightarrow> op_dir \<Rightarrow> op_dir" where
  "mark_sidecar st progress_index target_index d =
     (let p0 = dict_set ''status'' (JStr (status_name st)) (sidecar_dict d);
          p1 = (case progress_index of None \<Rightarrow> p0 | Some i \<Rightarrow> dict_set ''progress_index'' (JInt i) p0);
          p2 = (case target_index of
                  None \<Rightarrow> p1
                | Some k \<Rightarrow>
                    let old = (case jget p1 ''applied_frontier'' of JInt n \<Rightarrow> n | _ \<Rightarrow> -1)
                    in dict_set ''applied_frontier'' (JInt (max old k)) p1)
      in d\<lparr>progress := Some (Some (JObj p2))\<rparr>)"

definition reconcile_progress :: "status \<Rightarrow> int \<Rightarrow> int \<Rightarrow> op_dir \<Rightarrow> op_dir" where
  "reconcile_progress st progress_index applied_frontier d =
     d\<lparr>progress := Some (Some (JObj
        (dict_set ''applied_frontier'' (JInt applied_frontier)
          (dict_set ''progress_index'' (JInt progress_index)
            (dict_set ''status'' (JStr (status_name st)) (sidecar_dict d))))))\<rparr>"

text \<open>
  \<open>fold_progress\<close> has two durable effects, the manifest and then the removal of the sidecar; a
  record the decoder refuses raises (\<open>None\<close>).
\<close>

definition fold_manifest :: "os_env \<Rightarrow> string \<Rightarrow> op_dir \<Rightarrow> op_dir option" where
  "fold_manifest env name d =
     (case decode_operation_record env name d True of
        Inl _ \<Rightarrow> None
      | Inr r \<Rightarrow> Some (d\<lparr>manifest := Some (Some (encode_record r))\<rparr>))"

definition fold_progress :: "os_env \<Rightarrow> string \<Rightarrow> op_dir \<Rightarrow> op_dir option" where
  "fold_progress env name d =
     (case progress d of
        None \<Rightarrow> Some d
      | Some _ \<Rightarrow> map_option (\<lambda>d'. d'\<lparr>progress := None\<rparr>) (fold_manifest env name d))"

end
