(* ===== verification/RecordLaws.thy ===== *)
theory RecordLaws
  imports OpRecord
begin

text \<open>
  What the strict decoder promises: it lets exactly the well-formed records through, a published
  record decodes to itself, and the progress sidecar of \<open>Journal.mark\<close> decodes to the status and
  frontier that were written.
\<close>

section \<open>Well-formed records\<close>

definition wf_target :: "os_env \<Rightarrow> target \<Rightarrow> bool" where
  "wf_target env t \<longleftrightarrow>
     t_path t \<noteq> [] \<and> \<not> isl (owned_target_path lex_realpath (project_root env) (t_path t)) \<and>
     t_role t \<in> set ROLES"

definition wf_staged :: "os_env \<Rightarrow> op_dir \<Rightarrow> nat \<Rightarrow> target list \<Rightarrow> bool" where
  "wf_staged env d k ts \<longleftrightarrow>
     (\<forall>i < length ts. t_action (ts ! i) = Write \<longrightarrow> staged_content env d (k + i) (t_path (ts ! i)) \<noteq> None)"

definition wf_targets :: "os_env \<Rightarrow> target list \<Rightarrow> bool" where
  "wf_targets env ts \<longleftrightarrow> list_all (wf_target env) ts \<and> distinct (map (\<lambda>t. target_parts env (t_path t)) ts)"

definition wf_meta :: "(string, json) dict option \<Rightarrow> bool" where
  "wf_meta m = (case m of None \<Rightarrow> True | Some d \<Rightarrow>
     canonical_receipt_metadata (JObj d) = Inr (Some d) \<and> metadata_problem d = None)"

definition wf_header :: "string \<Rightarrow> op_record \<Rightarrow> bool" where
  "wf_header name r \<longleftrightarrow>
     r_op_id r = name \<and> name \<noteq> [] \<and> \<not> isl (validate_op_id name) \<and> r_operation r \<noteq> [] \<and>
     (strict_iso_utc (r_created_at r) = r_created_at r \<and> r_created_at r \<noteq> [] \<or>
      r_status r \<in> set SETTLED \<and> strict_iso_utc (r_created_at r) = []) \<and>
     r_policy r \<in> set VERIFICATION_POLICIES \<and>
     list_all (\<lambda>(k, _). k \<noteq> []) (r_pre r) \<and> list_all (\<lambda>(k, _). k \<noteq> []) (r_read r) \<and> wf_meta (r_meta r)"

definition wf_record :: "os_env \<Rightarrow> string \<Rightarrow> op_dir \<Rightarrow> op_record \<Rightarrow> bool" where
  "wf_record env name d r \<longleftrightarrow>
     wf_header name r \<and> wf_targets env (r_targets r) \<and>
     (r_status r \<in> set UNRESOLVED \<longrightarrow> wf_staged env d 0 (r_targets r))"

lemma status_partition: "s \<in> set UNRESOLVED \<longleftrightarrow> s \<notin> set SETTLED"
  by (cases s) (auto simp: UNRESOLVED_def SETTLED_def)

lemma parse_status_name [simp]: "parse_status (JStr (status_name s)) = Some s"
  by (cases s) (simp_all add: parse_status_def status_name_def STATUS_def)

lemma parse_status_null [simp]: "parse_status JNull = None"
  by (simp add: parse_status_def)

lemma parse_action_name [simp]: "dict_get d ''action'' = Some (JStr (action_name a)) \<Longrightarrow> parse_action d = Some a"
  by (cases a) (simp_all add: parse_action_def action_name_def TARGET_ACTIONS_def)

lemma json_selectors [simp]: "is_str (JStr s)" "the_str (JStr s) = s" "\<not> is_str JNull" "\<not> is_str (JBool b)"
  "is_str j \<Longrightarrow> JStr (the_str j) = j"
  by (auto simp: is_str_def the_str_def split: json.splits)

section \<open>Round trip\<close>

lemma decode_encode_target:
  assumes "wf_target env t" and "target_parts env (t_path t) \<notin> set seen"
    and "unresolved \<Longrightarrow> t_action t = Write \<Longrightarrow> staged_content env d i (t_path t) \<noteq> None"
  shows "decode_targets env d unresolved i seen (encode_target t # js) =
    (case decode_targets env d unresolved (Suc i) (target_parts env (t_path t) # seen) js of
       Inl e \<Rightarrow> Inl e | Inr ts \<Rightarrow> Inr (t # ts))"
proof -
  obtain q where q: "owned_target_path lex_realpath (project_root env) (t_path t) = Inr q"
    using assms(1) by (cases "owned_target_path lex_realpath (project_root env) (t_path t)") (auto simp: wf_target_def)
  show ?thesis using assms q
    by (auto simp: encode_target_def jget_def wf_target_def content_ok_def Let_def split: sum.splits)
qed

lemma decode_encode_targets:
  assumes "list_all (wf_target env) ts" and "distinct (map (\<lambda>t. target_parts env (t_path t)) ts)"
    and "set (map (\<lambda>t. target_parts env (t_path t)) ts) \<inter> set seen = {}"
    and "unresolved \<Longrightarrow> wf_staged env d i ts"
  shows "decode_targets env d unresolved i seen (map encode_target ts) = Inr ts"
  using assms
proof (induction ts arbitrary: i seen)
  case (Cons t ts)
  have "wf_staged env d (Suc i) ts" if unresolved
    using Cons.prems(4) [OF that] by (auto simp: wf_staged_def dest: spec [of _ "Suc _"])
  then have "decode_targets env d unresolved (Suc i) (target_parts env (t_path t) # seen) (map encode_target ts) = Inr ts"
    using Cons.prems by (intro Cons.IH) auto
  moreover have "staged_content env d i (t_path t) \<noteq> None" if "unresolved" "t_action t = Write"
    using Cons.prems(4) [OF that(1)] that(2) by (auto simp: wf_staged_def dest: spec [of _ 0])
  ultimately show ?case
    using Cons.prems by (simp add: decode_encode_target del: decode_targets.simps)
qed simp

lemma string_map_encode: "list_all (\<lambda>(k, _). k \<noteq> []) m \<Longrightarrow> string_map (encode_strings m) = Some m"
  by (induction m) (auto simp: string_map_def encode_strings_def split: if_splits)

lemma jget_record [simp]:
  assumes "encode_record r = JObj j"
  shows "jget j ''op_id'' = JStr (r_op_id r)" "jget j ''operation'' = JStr (r_operation r)"
    "jget j ''created_at'' = JStr (r_created_at r)" "jget j ''agent'' = JStr (r_agent r)"
    "jget j ''project_identity'' = JStr (r_identity r)"
    "jget j ''project_lineage'' = (case r_lineage r of None \<Rightarrow> JNull | Some l \<Rightarrow> JStr l)"
    "jget j ''semantic_payload_hash'' = JStr (r_payload r)"
    "dict_get j ''preconditions'' = Some (encode_strings (r_pre r))"
    "dict_get j ''read_preconditions'' = Some (encode_strings (r_read r))"
    "dict_get j ''verification_policy'' = Some (JStr (r_policy r))"
    "jget j ''status'' = JStr (status_name (r_status r))"
    "jget j ''progress_index'' = JInt (r_progress r)"
    "jget j ''targets'' = JList (map encode_target (r_targets r))"
    "jget j ''receipt_metadata'' = (case r_meta r of None \<Rightarrow> JNull | Some m \<Rightarrow> JObj m)"
  using assms by (auto simp: encode_record_def jget_def map_add_def split: option.splits)

lemma header_problem_encode:
  assumes hd: "wf_header name r" and j: "encode_record r = JObj j"
  shows "header_problem name j = None"
proof -
  note get = jget_record [OF j]
  have "\<not> (r_status r \<in> set UNRESOLVED \<and> strict_iso_utc (r_created_at r) = [])"
    using hd by (auto simp: wf_header_def status_partition)
  then show ?thesis
    using hd by (simp add: header_problem_def get policy_of_def wf_header_def split: option.split)
qed

lemma body_problem_encode:
  assumes hd: "wf_header name r" and j: "encode_record r = JObj j"
  shows "body_problem j = None \<and> precondition_map j ''preconditions'' = Some (r_pre r) \<and>
    precondition_map j ''read_preconditions'' = Some (r_read r) \<and>
    canonical_receipt_metadata (jget j ''receipt_metadata'') = Inr (r_meta r)"
proof -
  note get = jget_record [OF j]
  have pre: "precondition_map j ''preconditions'' = Some (r_pre r)"
    "precondition_map j ''read_preconditions'' = Some (r_read r)"
    using hd by (simp_all add: precondition_map_def get string_map_encode wf_header_def)
  have meta: "canonical_receipt_metadata (jget j ''receipt_metadata'') = Inr (r_meta r)"
    "(case r_meta r of None \<Rightarrow> None | Some m \<Rightarrow> metadata_problem m) = None"
    using hd by (auto simp: get wf_header_def wf_meta_def canonical_receipt_metadata_def split: option.splits)
  show ?thesis by (simp add: body_problem_def pre meta get(12,13) as_int_def)
qed

lemma decode_manifest_encode:
  assumes wf: "wf_record env name d r" and m: "manifest d = Some (Some (encode_record r))"
  shows "decode_manifest env name d = Inr r"
proof -
  obtain j where j: "encode_record r = JObj j" by (simp add: encode_record_def)
  note get = jget_record [OF j]
  have hd: "wf_header name r" using wf by (simp add: wf_record_def)
  have ts: "decode_targets env d u 0 [] (map encode_target (r_targets r)) = Inr (r_targets r)"
    if "u \<Longrightarrow> r_status r \<in> set UNRESOLVED" for u
    using wf that by (intro decode_encode_targets) (auto simp: wf_record_def wf_targets_def)
  have created: "(if strict_iso_utc (r_created_at r) = [] then r_created_at r else strict_iso_utc (r_created_at r)) = r_created_at r"
    using hd by (auto simp: wf_header_def)
  have lin: "(if jget j ''project_lineage'' = JNull then None else Some (the_str (jget j ''project_lineage''))) = r_lineage r"
    by (auto simp: get split: option.splits)
  have docs: "target_docs j = map encode_target (r_targets r)" by (simp add: target_docs_def get)
  have pol: "the_str (policy_of j) = r_policy r" by (simp add: policy_of_def get)
  show ?thesis
    by (simp add: decode_manifest_def m j header_problem_encode [OF hd j] body_problem_encode [OF hd j]
        Let_def docs ts lin pol created get(1-5,7-13) as_int_def)
qed

section \<open>Soundness of the decoder\<close>

lemma decode_targets_sound:
  assumes "decode_targets env d unresolved i seen js = Inr ts"
  shows "list_all (wf_target env) ts \<and> distinct (map (\<lambda>t. target_parts env (t_path t)) ts) \<and>
    set (map (\<lambda>t. target_parts env (t_path t)) ts) \<inter> set seen = {} \<and> (unresolved \<longrightarrow> wf_staged env d i ts)"
  using assms
proof (induction js arbitrary: i seen ts)
  case (Cons j js)
  from Cons.prems obtain t where j: "j = JObj t" by (cases j) (auto simp: Let_def)
  let ?path = "the_str (jget t ''path'')"
  from Cons.prems j obtain a applied ts' q where
    own: "owned_target_path lex_realpath (project_root env) ?path = Inr q" "?path \<noteq> []"
    and role: "the_str (jget t ''role'') \<in> set ROLES" and new: "target_parts env ?path \<notin> set seen"
    and st: "\<not> (unresolved \<and> a = Write \<and> staged_content env d i ?path = None)"
    and rest: "decode_targets env d unresolved (Suc i) (target_parts env ?path # seen) js = Inr ts'"
    and ts: "ts = \<lparr>t_path = ?path, t_role = the_str (jget t ''role''), t_action = a,
       t_before = the_str (jget t ''before_hash''), t_after = the_str (jget t ''after_hash''), t_applied = applied\<rparr> # ts'"
    by (auto simp: Let_def split: option.split_asm if_split_asm sum.split_asm json.split_asm)
  note IH = Cons.IH [OF rest]
  have "wf_staged env d i ts" if unresolved
  proof -
    have "staged_content env d (i + k) (t_path (ts ! k)) \<noteq> None" if "k < length ts" "t_action (ts ! k) = Write" for k
      using that IH st \<open>unresolved\<close> by (cases k) (auto simp: ts wf_staged_def)
    then show ?thesis by (simp add: wf_staged_def)
  qed
  with IH own role new show ?case by (auto simp: ts wf_target_def)
qed (simp add: wf_staged_def)

lemma precondition_map_sound: "precondition_map d k = Some m \<Longrightarrow> list_all (\<lambda>(k, _). k \<noteq> []) m"
  by (auto simp: precondition_map_def string_map_def list_all_iff split: option.splits json.splits if_splits)

lemma canonical_metadata_sound:
  "canonical_receipt_metadata v = Inr (Some m) \<Longrightarrow> canonical_receipt_metadata (JObj m) = Inr (Some m)"
  by (cases v) (auto simp: canonical_receipt_metadata_def split: option.splits if_splits)

lemma canonical_metadata_wf:
  assumes "canonical_receipt_metadata v = Inr m" and "(case m of None \<Rightarrow> None | Some d \<Rightarrow> metadata_problem d) = None"
  shows "wf_meta m"
  using assms canonical_metadata_sound by (auto simp: wf_meta_def split: option.splits)

lemma strict_iso_fixed: "strict_iso_utc s \<noteq> [] \<Longrightarrow> strict_iso_utc (strict_iso_utc s) = strict_iso_utc s"
  using strict_iso_utc_fixed by blast

lemma header_problem_sound:
  assumes "header_problem name j = None"
  shows "the_str (jget j ''op_id'') = name \<and> name \<noteq> [] \<and> \<not> isl (validate_op_id name) \<and>
    the_str (jget j ''operation'') \<noteq> [] \<and> the_str (policy_of j) \<in> set VERIFICATION_POLICIES \<and>
    (the (parse_status (jget j ''status'')) \<in> set UNRESOLVED \<longrightarrow>
       strict_iso_utc (the_str (jget j ''created_at'')) \<noteq> [])"
  using assms by (auto simp: header_problem_def Let_def is_str_def the_str_def split: if_split_asm json.splits)

lemma body_problem_sound:
  assumes "body_problem j = None"
  shows "list_all (\<lambda>(k, _). k \<noteq> []) (the (precondition_map j ''preconditions'')) \<and>
    list_all (\<lambda>(k, _). k \<noteq> []) (the (precondition_map j ''read_preconditions'')) \<and>
    wf_meta (projr (canonical_receipt_metadata (jget j ''receipt_metadata'')))"
proof -
  from assms obtain pre read m where "precondition_map j ''preconditions'' = Some pre"
      "precondition_map j ''read_preconditions'' = Some read"
      and m: "canonical_receipt_metadata (jget j ''receipt_metadata'') = Inr m"
        "(case m of None \<Rightarrow> None | Some d \<Rightarrow> metadata_problem d) = None"
    by (auto simp: body_problem_def split: if_split_asm sum.split_asm option.split_asm)
  with precondition_map_sound canonical_metadata_wf [OF m] show ?thesis by simp
qed

lemma decode_manifest_sound:
  assumes "decode_manifest env name d = Inr r"
  shows "wf_record env name d r"
proof -
  from assms obtain j where m: "manifest d = Some (Some (JObj j))"
    by (auto simp: decode_manifest_def split: option.splits json.splits)
  let ?st = "the (parse_status (jget j ''status''))" and ?created = "the_str (jget j ''created_at'')"
  from assms have hb: "header_problem name j = None" "body_problem j = None"
    by (simp_all add: decode_manifest_def m split: option.split_asm)
  from assms obtain ts where ts: "decode_targets env d (?st \<in> set UNRESOLVED) 0 [] (target_docs j) = Inr ts"
    by (simp add: decode_manifest_def m hb Let_def split: sum.split_asm)
  have r: "r_op_id r = the_str (jget j ''op_id'')" "r_operation r = the_str (jget j ''operation'')"
    "r_created_at r = (if strict_iso_utc ?created = [] then ?created else strict_iso_utc ?created)"
    "r_pre r = the (precondition_map j ''preconditions'')" "r_read r = the (precondition_map j ''read_preconditions'')"
    "r_policy r = the_str (policy_of j)" "r_status r = ?st" "r_targets r = ts"
    "r_meta r = projr (canonical_receipt_metadata (jget j ''receipt_metadata''))"
    using assms by (auto simp: decode_manifest_def m hb ts Let_def)
  note hs = header_problem_sound [OF hb(1)] and bs = body_problem_sound [OF hb(2)]
  have "strict_iso_utc (r_created_at r) = r_created_at r \<and> r_created_at r \<noteq> [] \<or>
      r_status r \<in> set SETTLED \<and> strict_iso_utc (r_created_at r) = []"
    using hs strict_iso_fixed [of ?created] by (auto simp: r(3,7) status_partition)
  then have "wf_header name r" using hs bs by (simp add: wf_header_def r)
  moreover have "wf_targets env (r_targets r)" "r_status r \<in> set UNRESOLVED \<longrightarrow> wf_staged env d 0 (r_targets r)"
    using decode_targets_sound [OF ts] by (auto simp: wf_targets_def r)
  ultimately show ?thesis by (simp add: wf_record_def)
qed

section \<open>The sidecar\<close>

text \<open>The part of a record that no progress writer touches.\<close>

definition plan_of :: "op_record \<Rightarrow> op_record" where
  "plan_of r = r\<lparr>r_status := PREPARED, r_progress := 0,
     r_targets := map (\<lambda>t. t\<lparr>t_applied := False\<rparr>) (r_targets r)\<rparr>"

definition opt_int :: "json \<Rightarrow> int \<Rightarrow> int \<Rightarrow> bool" where
  "opt_int j lo hi = (case j of JNull \<Rightarrow> True | JInt n \<Rightarrow> lo \<le> n \<and> n \<le> hi | _ \<Rightarrow> False)"

text \<open>A sidecar as the writers leave it: a status and progress within the bounds of \<open>n\<close> targets.\<close>

definition good_sidecar :: "nat \<Rightarrow> status \<Rightarrow> op_dir \<Rightarrow> bool" where
  "good_sidecar n st d \<longleftrightarrow>
     (\<exists>p. progress d = Some (Some (JObj p)) \<and> jget p ''status'' = JStr (status_name st) \<and>
        opt_int (jget p ''progress_index'') 0 (int n) \<and>
        opt_int (jget p ''applied_frontier'') (-1) (max (int n - 1) (-1)))"

definition readable_sidecar :: "nat \<Rightarrow> op_dir \<Rightarrow> bool" where
  "readable_sidecar n d \<longleftrightarrow> progress d = None \<or> (\<exists>st. good_sidecar n st d)"

lemma jget_set [simp]: "jget (dict_set k v d) k' = (if k' = k then v else jget d k')"
  by (simp add: jget_def)

lemma mark_sidecar_files [simp]:
  "manifest (mark_sidecar st pi ti d) = manifest d" "staged (mark_sidecar st pi ti d) = staged d"
  "manifest (reconcile_progress st i k d) = manifest d" "staged (reconcile_progress st i k d) = staged d"
  by (simp_all add: mark_sidecar_def reconcile_progress_def Let_def)

lemma opt_int_frontier:
  "opt_int j (-1) hi \<Longrightarrow> 0 \<le> k \<Longrightarrow> k \<le> hi \<Longrightarrow>
    -1 \<le> max (case j of JInt n \<Rightarrow> n | _ \<Rightarrow> -1) k \<and> max (case j of JInt n \<Rightarrow> n | _ \<Rightarrow> -1) k \<le> hi"
  by (cases j) (simp_all add: opt_int_def)

lemma good_sidecar_mark:
  assumes "readable_sidecar n d" and pi: "pi = None \<or> (\<exists>i. pi = Some i \<and> 0 \<le> i \<and> i \<le> int n)"
    and ti: "ti = None \<or> (\<exists>k. ti = Some k \<and> 0 \<le> k \<and> k < int n)"
  shows "good_sidecar n st (mark_sidecar st pi ti d)"
proof -
  obtain p where p: "sidecar_dict d = p" "opt_int (jget p ''progress_index'') 0 (int n)"
    "opt_int (jget p ''applied_frontier'') (-1) (max (int n - 1) (-1))"
    using assms(1) by (auto simp: readable_sidecar_def good_sidecar_def sidecar_dict_def jget_def opt_int_def)
  define p1 where "p1 = (case pi of None \<Rightarrow> dict_set ''status'' (JStr (status_name st)) p
      | Some i \<Rightarrow> dict_set ''progress_index'' (JInt i) (dict_set ''status'' (JStr (status_name st)) p))"
  have p1: "opt_int (jget p1 ''progress_index'') 0 (int n)" "jget p1 ''status'' = JStr (status_name st)"
    "jget p1 ''applied_frontier'' = jget p ''applied_frontier''"
    using pi p(2) by (cases pi; simp add: p1_def opt_int_def)+
  define p2 where "p2 = (case ti of None \<Rightarrow> p1
      | Some k \<Rightarrow> dict_set ''applied_frontier''
          (JInt (max (case jget p1 ''applied_frontier'' of JInt n \<Rightarrow> n | _ \<Rightarrow> -1) k)) p1)"
  have "progress (mark_sidecar st pi ti d) = Some (Some (JObj p2))"
    unfolding mark_sidecar_def Let_def p(1) p1_def [symmetric] p2_def by simp
  moreover have "jget p2 ''status'' = JStr (status_name st)" "opt_int (jget p2 ''progress_index'') 0 (int n)"
    using p1 by (cases ti; simp add: p2_def)+
  moreover have "opt_int (jget p2 ''applied_frontier'') (-1) (max (int n - 1) (-1))"
  proof (cases ti)
    case None
    then show ?thesis using p1 p(3) by (simp add: p2_def)
  next
    case (Some k)
    with ti have "0 \<le> k" "k \<le> max (int n - 1) (-1)" by auto
    from opt_int_frontier [OF p(3) this] show ?thesis
      by (simp add: p2_def Some p1(3) opt_int_def)
  qed
  ultimately show ?thesis by (auto simp: good_sidecar_def)
qed

lemma good_sidecar_reconcile:
  assumes "0 \<le> i" "i \<le> int n" "-1 \<le> k" "k < int n"
  shows "good_sidecar n st (reconcile_progress st i k d)"
  using assms by (auto simp: good_sidecar_def reconcile_progress_def opt_int_def)

lemma good_readable: "good_sidecar n st d \<Longrightarrow> readable_sidecar n d"
  by (auto simp: readable_sidecar_def)

lemma bounded_opt_int: "opt_int j lo hi \<Longrightarrow> \<exists>v. bounded_int j lo hi = Some v"
  by (auto simp: opt_int_def bounded_int_def split: json.splits)

lemma plan_mark_applied:
  "map (\<lambda>t. t\<lparr>t_applied := False\<rparr>) (mark_applied f ts) = map (\<lambda>t. t\<lparr>t_applied := False\<rparr>) ts"
proof (cases f)
  case (Some k)
  have "map h (take m ts) @ map h (drop m ts) = map h ts" for h :: "target \<Rightarrow> target" and m
    by (metis append_take_drop_id map_append)
  with Some show ?thesis by (simp add: mark_applied_def comp_def)
qed (simp add: mark_applied_def)

lemma decode_good_sidecar:
  assumes "decode_manifest env name d = Inr r0" and "good_sidecar (length (r_targets r0)) st d"
    and "st \<in> set SETTLED \<Longrightarrow> r_status r0 \<notin> set SETTLED \<Longrightarrow> allow"
  shows "\<exists>r. decode_operation_record env name d allow = Inr r \<and> r_status r = st \<and> plan_of r = plan_of r0"
proof -
  obtain p where p: "progress d = Some (Some (JObj p))" "jget p ''status'' = JStr (status_name st)"
    and b: "opt_int (jget p ''progress_index'') 0 (int (length (r_targets r0)))"
      "opt_int (jget p ''applied_frontier'') (-1) (max (int (length (r_targets r0)) - 1) (-1))"
    using assms(2) by (auto simp: good_sidecar_def)
  obtain i k where "bounded_int (jget p ''progress_index'') 0 (int (length (r_targets r0))) = Some i"
    "bounded_int (jget p ''applied_frontier'') (-1) (max (int (length (r_targets r0)) - 1) (-1)) = Some k"
    using bounded_opt_int b by blast
  then have "decode_progress_sidecar (length (r_targets r0)) (r_status r0) (Some (JObj p)) allow =
      Inr \<lparr>s_status = Some st, s_index = i, s_frontier = k\<rparr>"
    using p assms(3) by (auto simp: decode_progress_sidecar_def)
  then show ?thesis
    using assms(1) p by (simp add: decode_operation_record_def merge_progress_sidecar_def plan_of_def plan_mark_applied)
qed

text \<open>
  C8: a record the journal publishes is what every reader decodes: encoding a well-formed record
  and decoding the directory gives the record back.
\<close>

theorem decode_roundtrip:
  assumes "wf_record env name d r" and "manifest d = Some (Some (encode_record r))" and "progress d = None"
  shows "decode_operation_record env name d allow = Inr r"
  using decode_manifest_encode [OF assms(1,2)] assms(3)
  by (simp add: decode_operation_record_def merge_progress_sidecar_def)

definition demo_record :: op_record where
  "demo_record = \<lparr>r_op_id = ''op-1'', r_operation = ''sub_clean'', r_created_at = ''2026-08-21T10:00:00Z'',
     r_agent = ''a'', r_identity = ''id'', r_lineage = None, r_payload = ''p'', r_pre = [], r_read = [],
     r_policy = ''none'', r_status = PREPARED, r_progress = 0, r_targets = demo_clean_targets, r_meta = None\<rparr>"

definition demo_dir :: op_dir where
  "demo_dir = \<lparr>manifest = Some (Some (encode_record demo_record)), progress = None, staged = []\<rparr>"

lemma demo_wf: "wf_record demo_env ''op-1'' demo_dir demo_record"
  by code_simp

theorem decode_roundtrip_witness:
  "decode_operation_record demo_env ''op-1'' demo_dir False = Inr demo_record"
  by (rule decode_roundtrip [OF demo_wf]) (simp_all add: demo_dir_def)

text \<open>
  C7: whatever bytes are on disk, a record the strict decoder lets through is well-formed (safe id
  equal to the directory name, closed status, role, action and policy sets, owned and pairwise
  distinct targets, staged bytes for every unfinished write); the sidecar can change only progress,
  and never turns an unresolved manifest into a settled record.
\<close>

theorem decoder_fail_closed:
  assumes "decode_operation_record env name d False = Inr r"
  shows "\<exists>r0. decode_manifest env name d = Inr r0 \<and> wf_record env name d r0 \<and> plan_of r = plan_of r0 \<and>
    (r_status r \<in> set SETTLED \<longrightarrow> r_status r0 \<in> set SETTLED)"
proof -
  from assms obtain r0 where r0: "decode_manifest env name d = Inr r0"
    and m: "merge_progress_sidecar d r0 False = Inr r"
    by (auto simp: decode_operation_record_def split: sum.splits)
  have "plan_of r = plan_of r0 \<and> (r_status r \<in> set SETTLED \<longrightarrow> r_status r0 \<in> set SETTLED)"
  proof (cases "progress d")
    case None
    with m show ?thesis by (simp add: merge_progress_sidecar_def)
  next
    case (Some raw)
    with m obtain p where p: "decode_progress_sidecar (length (r_targets r0)) (r_status r0) raw False = Inr p"
      and r: "r = r0\<lparr>r_status := (case s_status p of None \<Rightarrow> r_status r0 | Some s \<Rightarrow> s),
                      r_progress := (case s_index p of None \<Rightarrow> r_progress r0 | Some i \<Rightarrow> i),
                      r_targets := mark_applied (s_frontier p) (r_targets r0)\<rparr>"
      by (auto simp: merge_progress_sidecar_def split: sum.splits)
    have "case s_status p of None \<Rightarrow> True | Some s \<Rightarrow> s \<in> set SETTLED \<longrightarrow> r_status r0 \<in> set SETTLED"
      using p by (auto simp: decode_progress_sidecar_def Let_def split: option.splits json.splits if_splits)
    then show ?thesis by (auto simp: r plan_of_def plan_mark_applied split: option.splits)
  qed
  with r0 decode_manifest_sound [OF r0] show ?thesis by blast
qed

theorem decoder_fail_closed_witness:
  "\<exists>r0. decode_manifest demo_env ''op-1'' demo_dir = Inr r0 \<and> wf_record demo_env ''op-1'' demo_dir r0 \<and>
    plan_of demo_record = plan_of r0"
proof -
  have "decode_operation_record demo_env ''op-1'' demo_dir False = Inr demo_record" by code_simp
  from decoder_fail_closed [OF this] show ?thesis by blast
qed

end
