(* ===== verification/Journal.thy ===== *)
theory Journal
  imports RecordLaws
begin

text \<open>
  The journal namespaces and the writers of one operation directory: the class \<open>Journal\<close> of
  \<open>journal.py\<close> with \<open>mark\<close>, \<open>fold_progress\<close>, \<open>_drop_staged_payloads\<close> and \<open>_settle_journal\<close>.  Every
  writer returns the list of durable states it passes through, one per atomic write, rename or
  unlink; a crash leaves the project in one of them.
\<close>

section \<open>The durable world\<close>

text \<open>
  \<open>files\<close> is the project tree below the root, \<open>ops\<close> and \<open>settled\<close> the two receipt namespaces of
  \<open>.saipen/recovery\<close>, \<open>debts\<close> the markers of the cleanup queue.
\<close>

record world =
  files :: store
  ops :: "(string, op_dir) dict"
  settled :: "(string, op_dir) dict"
  debts :: "string list"

text \<open>
  What the engine asks of the machine and of code outside this model: renames and unlinks the
  operating system refuses, the digests of read-only dependencies, the identity carrier, the
  registered semantic verifiers and the release recovery.
\<close>

record engine_env =
  os :: os_env
  e_settle_refused :: "string \<Rightarrow> bool"
  e_unlink_refused :: "string \<Rightarrow> string \<Rightarrow> bool"
  e_source_identity :: "store \<Rightarrow> string option"
  e_listing :: "(string \<times> string) list \<Rightarrow> string"
  e_tree_files :: "(ppath \<times> bytes) list \<Rightarrow> string"
  e_receipts :: "world \<Rightarrow> string"
  e_outside :: "ppath \<Rightarrow> string \<Rightarrow> string"
  e_runtime :: string
  e_verify :: "string \<Rightarrow> store \<Rightarrow> target list \<Rightarrow> (string, json) dict option \<Rightarrow> string list"
  e_release :: "string \<Rightarrow> world \<Rightarrow> world list \<times> bool \<times> string"
  e_now :: string
  e_fresh_lineage :: string

text \<open>The state after a run of durable states.\<close>

definition final :: "world \<Rightarrow> world list \<Rightarrow> world" where
  "final w tr = last (w # tr)"

lemma final_simps [simp]: "final w [] = w" "final w (x # tr) = final x tr" "final w (tr @ tr') = final (final w tr) tr'"
  by (auto simp: final_def last_append)

section \<open>Which directory a journal object names\<close>

datatype place = In_Ops | In_Settled

definition dir_at :: "place \<Rightarrow> string \<Rightarrow> world \<Rightarrow> op_dir option" where
  "dir_at pl op_id w = dict_get (case pl of In_Ops \<Rightarrow> ops w | In_Settled \<Rightarrow> settled w) op_id"

definition put_dir :: "place \<Rightarrow> string \<Rightarrow> op_dir \<Rightarrow> world \<Rightarrow> world" where
  "put_dir pl op_id d w =
     (case pl of In_Ops \<Rightarrow> w\<lparr>ops := dict_set op_id d (ops w)\<rparr>
      | In_Settled \<Rightarrow> w\<lparr>settled := dict_set op_id d (settled w)\<rparr>)"

text \<open>
  \<open>Journal.__init__\<close>: a manifest in the ops namespace is authoritative; otherwise the settled
  directory, when there is one.
\<close>

definition journal_place :: "string \<Rightarrow> world \<Rightarrow> place" where
  "journal_place op_id w =
     (case dir_at In_Ops op_id w of
        Some d \<Rightarrow>
          if manifest d \<noteq> None then In_Ops
          else if dir_at In_Settled op_id w \<noteq> None then In_Settled else In_Ops
      | None \<Rightarrow> if dir_at In_Settled op_id w \<noteq> None then In_Settled else In_Ops)"

definition empty_dir :: op_dir where
  "empty_dir = \<lparr>manifest = None, progress = None, staged = []\<rparr>"

definition journal_dir :: "place \<Rightarrow> string \<Rightarrow> world \<Rightarrow> op_dir" where
  "journal_dir pl op_id w = (case dir_at pl op_id w of None \<Rightarrow> empty_dir | Some d \<Rightarrow> d)"

definition journal_exists :: "string \<Rightarrow> world \<Rightarrow> bool" where
  "journal_exists op_id w \<longleftrightarrow> manifest (journal_dir (journal_place op_id w) op_id w) \<noteq> None"

lemma dir_at_put [simp]:
  "dir_at pl op_id (put_dir pl op_id d w) = Some d"
  "pl \<noteq> pl' \<or> op_id \<noteq> op_id' \<Longrightarrow> dir_at pl' op_id' (put_dir pl op_id d w) = dir_at pl' op_id' w"
  by (auto simp: dir_at_def put_dir_def split: place.splits)

lemma files_put_dir [simp]: "files (put_dir pl op_id d w) = files w" "debts (put_dir pl op_id d w) = debts w"
  by (auto simp: put_dir_def split: place.splits)

lemma journal_dir_put [simp]:
  "journal_dir pl op_id (put_dir pl op_id d w) = d"
  by (simp add: journal_dir_def)

lemma dir_at_files [simp]: "dir_at pl op_id (w\<lparr>files := f\<rparr>) = dir_at pl op_id w"
  by (simp add: dir_at_def split: place.splits)

lemma journal_dir_files [simp]: "journal_dir pl op_id (w\<lparr>files := f\<rparr>) = journal_dir pl op_id w"
  by (simp add: journal_dir_def)

lemma journal_place_files [simp]: "journal_place op_id (w\<lparr>files := f\<rparr>) = journal_place op_id w"
  by (simp only: journal_place_def dir_at_files)

section \<open>Settlement\<close>

text \<open>
  \<open>_drop_staged_payloads\<close>: unlink what can be unlinked; a payload that stays is a cleanup debt.
\<close>

definition drop_staged :: "engine_env \<Rightarrow> place \<Rightarrow> string \<Rightarrow> world \<Rightarrow> world" where
  "drop_staged E pl op_id w =
     (let d = journal_dir pl op_id w;
          rest = filter (\<lambda>(name, _). e_unlink_refused E op_id name) (staged d);
          w' = put_dir pl op_id (d\<lparr>staged := rest\<rparr>) w
      in if rest = [] then w'
         else w'\<lparr>debts := (if op_id \<in> set (debts w') then debts w' else debts w' @ [op_id])\<rparr>)"

text \<open>
  \<open>_settle_journal\<close>: the rename into the settled namespace, which fails on an occupied name and
  is never fatal.
\<close>

definition settle_journal :: "engine_env \<Rightarrow> place \<Rightarrow> string \<Rightarrow> world \<Rightarrow> world" where
  "settle_journal E pl op_id w =
     (case (pl, dir_at In_Ops op_id w) of
        (In_Ops, Some d) \<Rightarrow>
          if e_settle_refused E op_id \<or> dir_at In_Settled op_id w \<noteq> None then w
          else w\<lparr>ops := dict_pop op_id (ops w), settled := dict_set op_id d (settled w)\<rparr>
      | _ \<Rightarrow> w)"

text \<open>
  \<open>Journal.mark\<close>: the sidecar, and for a settled status the fold into the manifest, the removal of
  the sidecar, the payload drop and the rename.  The flag is false where \<open>fold_progress\<close> raises.
\<close>

definition mark ::
  "engine_env \<Rightarrow> place \<Rightarrow> string \<Rightarrow> status \<Rightarrow> int option \<Rightarrow> int option \<Rightarrow> world \<Rightarrow> world list \<times> bool" where
  "mark E pl op_id st progress_index target_index w =
     (let d1 = mark_sidecar st progress_index target_index (journal_dir pl op_id w);
          w1 = put_dir pl op_id d1 w
      in if st \<notin> set SETTLED then ([w1], True)
         else case fold_manifest (os E) op_id d1 of
           None \<Rightarrow> ([w1], False)
         | Some d2 \<Rightarrow>
             let w2 = put_dir pl op_id d2 w;
                 w3 = put_dir pl op_id (d2\<lparr>progress := None\<rparr>) w;
                 w4 = (if st = COMMITTED then drop_staged E pl op_id w3 else w3)
             in ([w1, w2, w3] @ (if st = COMMITTED then [w4] else []) @ [settle_journal E pl op_id w4], True))"

definition mark_all ::
  "engine_env \<Rightarrow> place \<Rightarrow> string \<Rightarrow> status list \<Rightarrow> world \<Rightarrow> world list \<times> bool" where
  "mark_all E pl op_id sts w =
     foldl (\<lambda>(tr, ok) st. if ok then (let (tr', ok') = mark E pl op_id st None None (final w tr) in (tr @ tr', ok'))
                          else (tr, ok)) ([], True) sts"

lemma files_drop_staged [simp]: "files (drop_staged E pl op_id w) = files w"
  by (simp add: drop_staged_def Let_def)

lemma files_settle [simp]: "files (settle_journal E pl op_id w) = files w"
  by (auto simp: settle_journal_def split: place.splits option.splits)

lemma mark_files: "mark E pl op_id st pi ti w = (tr, ok) \<Longrightarrow> \<forall>w' \<in> set tr. files w' = files w"
  by (auto simp: mark_def Let_def split: if_splits option.splits)

lemma final_files: "\<forall>w' \<in> set tr. files w' = f \<Longrightarrow> files w = f \<Longrightarrow> files (final w tr) = f"
  by (auto simp: final_def)

lemma mark_final_files: "mark E pl op_id st pi ti w = (tr, ok) \<Longrightarrow> files (final w tr) = files w"
  using mark_files final_files by metis

lemma mark_unsettled:
  "st \<notin> set SETTLED \<Longrightarrow>
   mark E pl op_id st pi ti w = ([put_dir pl op_id (mark_sidecar st pi ti (journal_dir pl op_id w)) w], True)"
  by (simp add: mark_def Let_def)

section \<open>A concrete machine\<close>

text \<open>The environment the concrete runs of the development use.\<close>

definition demo_engine :: engine_env where
  "demo_engine = \<lparr>os = demo_env, e_settle_refused = (\<lambda>_. False), e_unlink_refused = (\<lambda>_ _. False),
     e_source_identity = (\<lambda>_. None), e_listing = (\<lambda>_. []), e_tree_files = (\<lambda>_. []), e_receipts = (\<lambda>_. []),
     e_outside = (\<lambda>_ _. []), e_runtime = ''id'', e_verify = (\<lambda>_ _ _ _. []),
     e_release = (\<lambda>_ _. ([], False, [])), e_now = ''2026-08-21T10:00:00Z'',
     e_fresh_lineage = ''lineage-'' @ replicate 32 CHR ''a''\<rparr>"

lemma demo_os: "os demo_engine = demo_env"
  by (simp add: demo_engine_def)

end
