(* ===== verification/Text.thy ===== *)
theory Text
  imports Prelude
begin

text \<open>
  The \<open>str\<close> methods the document parsers use: \<open>splitlines\<close> (with and without its line ends),
  \<open>replace\<close>, \<open>split\<close> with a longer separator, and the ticket reference \<open>T-\d+\<close> with \<open>re.findall\<close>.
  A text is \<open>canonical\<close> when every line is closed by one line feed, the form the writers produce.
\<close>

section \<open>Lines\<close>

text \<open>The line boundaries of \<open>str.splitlines\<close>; a carriage return swallows a following line feed.\<close>

definition is_line_end :: "char \<Rightarrow> bool" where
  "is_line_end c \<longleftrightarrow> (let n = (of_char c :: nat) in 10 \<le> n \<and> n \<le> 13 \<or> 28 \<le> n \<and> n \<le> 30 \<or> n = 133)"

fun splitlines_from :: "string \<Rightarrow> string \<Rightarrow> string list" where
  "splitlines_from acc [] = (if acc = [] then [] else [acc])"
| "splitlines_from acc (c # d # cs) =
     (if c = CHR 13 \<and> d = CHR 10 then acc # splitlines_from [] cs
      else if is_line_end c then acc # splitlines_from [] (d # cs)
      else splitlines_from (acc @ [c]) (d # cs))"
| "splitlines_from acc [c] = (if is_line_end c then [acc] else [acc @ [c]])"

definition splitlines :: "string \<Rightarrow> string list" where
  "splitlines s = splitlines_from [] s"

text \<open>\<open>splitlines(keepends=True)\<close>.\<close>

fun keeplines_from :: "string \<Rightarrow> string \<Rightarrow> string list" where
  "keeplines_from acc [] = (if acc = [] then [] else [acc])"
| "keeplines_from acc (c # d # cs) =
     (if c = CHR 13 \<and> d = CHR 10 then (acc @ [c, d]) # keeplines_from [] cs
      else if is_line_end c then (acc @ [c]) # keeplines_from [] (d # cs)
      else keeplines_from (acc @ [c]) (d # cs))"
| "keeplines_from acc [c] = [acc @ [c]]"

definition keeplines :: "string \<Rightarrow> string list" where
  "keeplines s = keeplines_from [] s"

definition plain_line :: "string \<Rightarrow> bool" where
  "plain_line l \<longleftrightarrow> list_all (\<lambda>c. \<not> is_line_end c) l"

definition unlines :: "string list \<Rightarrow> string" where
  "unlines ls = concat (map (\<lambda>l. l @ [CHR 10]) ls)"

lemma line_end_space: "is_line_end c \<Longrightarrow> is_space c"
  by (auto simp: is_line_end_def is_space_def Let_def)

lemma splitlines_from_line:
  "list_all (\<lambda>c. \<not> is_line_end c) l \<Longrightarrow> splitlines_from acc (l @ CHR 10 # rest) = (acc @ l) # splitlines_from [] rest"
proof (induction l arbitrary: acc)
  case Nil
  show ?case by (cases rest) (auto simp: is_line_end_def)
next
  case (Cons c l)
  then have "c \<noteq> CHR 13" by (auto simp: is_line_end_def)
  with Cons show ?case by (cases l) auto
qed

lemma keeplines_from_line:
  "plain_line l \<Longrightarrow> keeplines_from acc (l @ CHR 10 # rest) = (acc @ l @ [CHR 10]) # keeplines_from [] rest"
proof (induction l arbitrary: acc)
  case Nil
  show ?case by (cases rest) (auto simp: is_line_end_def)
next
  case (Cons c l)
  then have "c \<noteq> CHR 13" by (auto simp: plain_line_def is_line_end_def)
  with Cons show ?case by (cases l) (auto simp: plain_line_def)
qed

lemma splitlines_unlines: "list_all plain_line ls \<Longrightarrow> splitlines (unlines ls) = ls"
  by (induction ls) (simp_all add: splitlines_def unlines_def splitlines_from_line plain_line_def)

lemma keeplines_unlines: "list_all plain_line ls \<Longrightarrow> keeplines (unlines ls) = map (\<lambda>l. l @ [CHR 10]) ls"
  by (induction ls) (simp_all add: keeplines_def unlines_def keeplines_from_line)

lemma concat_keeplines_from: "concat (keeplines_from acc s) = acc @ s"
  by (induction acc s rule: keeplines_from.induct) auto

lemma concat_keeplines [simp]: "concat (keeplines s) = s"
  by (simp add: keeplines_def concat_keeplines_from)

lemma splitlines_from_plain:
  "plain_line acc \<Longrightarrow> list_all plain_line (splitlines_from acc s)"
  by (induction acc s rule: splitlines_from.induct) (auto simp: plain_line_def)

lemma splitlines_from_single: "plain_line l \<Longrightarrow> acc @ l \<noteq> [] \<Longrightarrow> splitlines_from acc l = [acc @ l]"
proof (induction acc l rule: splitlines_from.induct)
  case (2 acc c d cs)
  then show ?case by (auto simp: plain_line_def is_line_end_def Let_def)
qed (auto simp: plain_line_def)

lemma splitlines_single: "plain_line l \<Longrightarrow> l \<noteq> [] \<Longrightarrow> splitlines l = [l]"
  using splitlines_from_single [of l "[]"] by (simp add: splitlines_def)

lemma splitlines_plain: "l \<in> set (splitlines s) \<Longrightarrow> plain_line l"
  using splitlines_from_plain [of "[]" s] by (auto simp: splitlines_def plain_line_def list_all_iff)

lemma plain_append [simp]: "plain_line (a @ b) \<longleftrightarrow> plain_line a \<and> plain_line b"
  by (simp add: plain_line_def)

lemma plain_Cons [simp]: "plain_line (c # s) \<longleftrightarrow> \<not> is_line_end c \<and> plain_line s"
  by (simp add: plain_line_def)

lemma plain_Nil [simp]: "plain_line []"
  by (simp add: plain_line_def)

section \<open>Trimmed text\<close>

lemma rstrip_split: "\<exists>t. s = rstrip s @ t \<and> list_all is_space t"
proof -
  have "s = rev (dropWhile is_space (rev s)) @ rev (takeWhile is_space (rev s))"
    by (metis rev_append rev_rev_ident takeWhile_dropWhile_id)
  then show ?thesis
    by (intro exI [of _ "rev (takeWhile is_space (rev s))"]) (auto simp: rstrip_def list_all_iff dest: set_takeWhileD)
qed

lemma rstrip_last: "rstrip s \<noteq> [] \<Longrightarrow> \<not> is_space (last (rstrip s))"
  by (simp add: rstrip_def last_rev hd_dropWhile)

lemma strip_ends: "strip s \<noteq> [] \<Longrightarrow> \<not> is_space (hd (strip s)) \<and> \<not> is_space (last (strip s))"
proof -
  assume ne: "strip s \<noteq> []"
  obtain t where t: "lstrip s = rstrip (lstrip s) @ t" using rstrip_split by blast
  have "lstrip s \<noteq> []" using ne by (auto simp: strip_def rstrip_def)
  then have "\<not> is_space (hd (lstrip s))" unfolding lstrip_def by (rule hd_dropWhile)
  moreover have "hd (lstrip s) = hd (strip s)" using ne t by (metis hd_append2 strip_def)
  ultimately show ?thesis using rstrip_last ne by (simp add: strip_def)
qed

lemma strip_Nil: "strip l = [] \<longleftrightarrow> list_all is_space l"
proof -
  have "rstrip x = [] \<longleftrightarrow> list_all is_space x" for x
    by (simp add: rstrip_def dropWhile_eq_Nil_conv list_all_iff)
  moreover have "list_all is_space (dropWhile is_space l) \<longleftrightarrow> list_all is_space l"
    by (induction l) auto
  ultimately show ?thesis by (simp add: strip_def lstrip_def)
qed

lemma splitlines_from_space:
  "list_all is_space acc \<Longrightarrow> list_all is_space s \<Longrightarrow> list_all (list_all is_space) (splitlines_from acc s)"
  by (induction acc s rule: splitlines_from.induct) auto

lemma blank_text_lines: "strip s = [] \<Longrightarrow> list_all (\<lambda>l. strip l = []) (splitlines s)"
  unfolding strip_Nil splitlines_def by (rule splitlines_from_space) simp_all

definition trimmed :: "string \<Rightarrow> bool" where
  "trimmed s \<longleftrightarrow> s \<noteq> [] \<and> \<not> is_space (hd s) \<and> \<not> is_space (last s)"

lemma trimmed_strip: "trimmed s \<Longrightarrow> strip s = s"
  by (simp add: trimmed_def strip_id)

lemma trimmed_lstrip: "trimmed s \<Longrightarrow> lstrip s = s"
  by (cases s) (auto simp: trimmed_def lstrip_def)

lemma trimmed_rstrip: "trimmed s \<Longrightarrow> rstrip s = s"
  using trimmed_strip [of s] trimmed_lstrip [of s] by (simp add: strip_def)

lemma trimmed_iff: "trimmed s \<longleftrightarrow> s \<noteq> [] \<and> strip s = s"
  using strip_ends [of s] trimmed_strip [of s] by (auto simp: trimmed_def)

lemma trimmed_append: "trimmed a \<Longrightarrow> trimmed b \<Longrightarrow> trimmed (a @ c @ b)"
  by (auto simp: trimmed_def)

lemma trimmed_join: "ps \<noteq> [] \<Longrightarrow> list_all trimmed ps \<Longrightarrow> trimmed (join sep ps)"
  by (induction sep ps rule: join.induct) (auto intro: trimmed_append)

section \<open>Replacing and splitting\<close>

text \<open>\<open>s.replace(old, new)\<close> and \<open>s.split(sep)\<close> for a non-empty \<open>old\<close> and \<open>sep\<close>.\<close>

fun replace_all :: "string \<Rightarrow> string \<Rightarrow> string \<Rightarrow> string" where
  "replace_all old new [] = []"
| "replace_all old new (c # s) =
     (if startswith (c # s) old then new @ replace_all old new (drop (length old - 1) s)
      else c # replace_all old new s)"

text \<open>\<open>s.replace(old, new, 1)\<close>.\<close>

fun replace_once :: "string \<Rightarrow> string \<Rightarrow> string \<Rightarrow> string" where
  "replace_once old new [] = []"
| "replace_once old new (c # s) =
     (if startswith (c # s) old then new @ drop (length old - 1) s else c # replace_once old new s)"

fun split_str :: "string \<Rightarrow> string \<Rightarrow> string list" where
  "split_str sep [] = [[]]"
| "split_str sep (c # s) =
     (if startswith (c # s) sep then [] # split_str sep (drop (length sep - 1) s)
      else case split_str sep s of [] \<Rightarrow> [[c]] | y # ys \<Rightarrow> (c # y) # ys)"

lemma split_str_nonempty [simp]: "split_str sep s \<noteq> []"
  by (induction sep s rule: split_str.induct) (auto split: list.splits)

lemma join_cons: "ys \<noteq> [] \<Longrightarrow> join sep (x # ys) = x @ sep @ join sep ys"
  by (cases ys) auto

lemma startswith_drop: "startswith s p \<Longrightarrow> p @ drop (length p) s = s"
  by (auto simp: startswith_iff_prefix prefix_def)

lemma join_split_str: "sep \<noteq> [] \<Longrightarrow> join sep (split_str sep s) = s"
proof (induction sep s rule: split_str.induct)
  case (2 sep c s)
  show ?case
  proof (cases "startswith (c # s) sep")
    case True
    from \<open>sep \<noteq> []\<close> obtain n where n: "length sep = Suc n" by (cases sep) auto
    from startswith_drop [OF True] n have "sep @ drop (length sep - 1) s = c # s" by simp
    with 2 True show ?thesis by (simp add: join_cons)
  next
    case False
    then obtain y ys where y: "split_str sep s = y # ys" by (cases "split_str sep s") auto
    from 2 False y have j: "join sep (y # ys) = s" by simp
    have "join sep ((c # y) # ys) = c # join sep (y # ys)" by (cases ys) auto
    with False y j show ?thesis by simp
  qed
qed simp

section \<open>Ticket references\<close>

text \<open>\<open>T-\d+\<close> at the start of a text, and \<open>re.findall(r"T-\d+", s)\<close>.\<close>

definition ticket_ref :: "string \<Rightarrow> (string \<times> string) option" where
  "ticket_ref s =
     (if startswith s ''T-'' then
        (case span is_digit (drop 2 s) of (ds, rest) \<Rightarrow>
           if ds = [] then None else Some (''T-'' @ ds, rest))
      else None)"

definition ticket_name :: "string \<Rightarrow> bool" where
  "ticket_name s \<longleftrightarrow> startswith s ''T-'' \<and> drop 2 s \<noteq> [] \<and> list_all is_digit (drop 2 s)"

lemma ticket_ref_shorter: "ticket_ref s = Some (t, rest) \<Longrightarrow> length rest < length s"
proof -
  assume p: "ticket_ref s = Some (t, rest)"
  then have "startswith s ''T-''" and r: "rest = dropWhile is_digit (drop 2 s)"
    by (auto simp: ticket_ref_def span_def split: if_splits)
  then have "2 \<le> length s" by (auto simp: startswith_iff_prefix dest: prefix_length_le)
  then show ?thesis unfolding r using length_dropWhile_le [of is_digit "drop 2 s"] by simp
qed

function find_tickets :: "string \<Rightarrow> string list" where
  "find_tickets s =
     (case s of [] \<Rightarrow> []
      | c # cs \<Rightarrow> (case ticket_ref s of
          Some (t, rest) \<Rightarrow> t # find_tickets rest
        | None \<Rightarrow> find_tickets cs))"
  by pat_completeness auto
termination
  by (relation "measure length") (auto dest: ticket_ref_shorter)

declare find_tickets.simps [simp del]

lemma ticket_ref_name: "ticket_ref s = Some (t, rest) \<Longrightarrow> ticket_name t \<and> s = t @ rest"
proof -
  assume p: "ticket_ref s = Some (t, rest)"
  then have s: "startswith s ''T-''" and t: "t = ''T-'' @ takeWhile is_digit (drop 2 s)"
    and ne: "takeWhile is_digit (drop 2 s) \<noteq> []" and r: "rest = dropWhile is_digit (drop 2 s)"
    by (auto simp: ticket_ref_def span_def split: if_splits)
  from startswith_drop [OF s] have "s = ''T-'' @ drop 2 s" by (simp add: numeral_2_eq_2)
  then have "s = t @ rest" unfolding t r by simp
  moreover have "ticket_name t"
    using ne by (auto simp: ticket_name_def t list_all_iff dest: set_takeWhileD)
  ultimately show ?thesis by simp
qed

lemma find_tickets_names: "t \<in> set (find_tickets s) \<Longrightarrow> ticket_name t"
proof (induction s rule: find_tickets.induct)
  case (1 s)
  show ?case
  proof (cases s)
    case Nil
    with "1.prems" show ?thesis by (simp add: find_tickets.simps [of "[]"])
  next
    case (Cons c cs)
    with 1 show ?thesis
      by (cases "ticket_ref s")
         (auto simp: find_tickets.simps [of "c # cs"] dest: ticket_ref_name)
  qed
qed

end
