(* ===== verification/Identity.thy ===== *)
theory Identity
  imports Store Text
begin

text \<open>
  The portable identity carrier \<open>.saipen/IDENTITY.md\<close>: \<open>parse_identity_content\<close>,
  \<open>identity_file_content\<close> and \<open>project_lineage_identity\<close> of \<open>paths.py\<close> and \<open>_read_lineage_strict\<close> of
  \<open>journal.py\<close>.  A file is a list of bytes, a text a list of code points below 256; text beyond
  them decodes as nothing.
\<close>

section \<open>Text\<close>

fun utf8_decode :: "bytes \<Rightarrow> string option" where
  "utf8_decode [] = Some []"
| "utf8_decode (c # cs) =
     (let n = (of_char c :: nat) in
      if n < 128 then map_option (\<lambda>t. c # t) (utf8_decode cs)
      else case cs of
        [] \<Rightarrow> None
      | d # ds \<Rightarrow>
          let m = (of_char d :: nat) in
          if (n = 194 \<or> n = 195) \<and> 128 \<le> m \<and> m < 192
          then map_option (\<lambda>t. char_of ((n - 192) * 64 + (m - 128)) # t) (utf8_decode ds)
          else None)"

section \<open>The carrier\<close>

definition is_hex :: "char \<Rightarrow> bool" where
  "is_hex c \<longleftrightarrow> is_digit c \<or> (let n = (of_char c :: nat) in 97 \<le> n \<and> n \<le> 102)"

definition LINEAGE_PREFIX :: string where
  "LINEAGE_PREFIX = ''lineage-''"

definition lineage_re :: "string \<Rightarrow> bool" where
  "lineage_re s \<longleftrightarrow> (\<exists>h \<in> {drop 8 s}. s = LINEAGE_PREFIX @ h \<and> length h = 32 \<and> list_all is_hex h)"

definition LINEAGE_FIELD :: string where
  "LINEAGE_FIELD = ''project_lineage''"

definition identity_file_content :: "string \<Rightarrow> string" where
  "identity_file_content lineage =
     ''---'' @ [CHR 10] @ LINEAGE_FIELD @ '': '' @ lineage @ [CHR 10] @ ''---'' @ [CHR 10]"

text \<open>\<open>project_lineage:\s*(\S+)\s*\<close>, matched against the whole line.\<close>

definition lineage_line :: "string \<Rightarrow> string option" where
  "lineage_line l =
     (let key = LINEAGE_FIELD @ '':'' in
      if \<not> startswith l key then None
      else let value = strip (drop (length key) l)
           in if value = [] \<or> list_ex is_space value then None else Some value)"

datatype identity_error = Empty_File | No_Opening | No_Closing | Not_One_Field | Bad_Line | Bad_Lineage

definition parse_identity_content :: "string \<Rightarrow> identity_error + string" where
  "parse_identity_content text =
     (if strip text = [] then Inl Empty_File
      else let lines = splitlines text in
        if strip (hd lines) \<noteq> ''---'' then Inl No_Opening
        else if length lines < 3 \<or> strip (last lines) \<noteq> ''---'' then Inl No_Closing
        else let body = filter (\<lambda>l. strip l \<noteq> []) (butlast (tl lines)) in
          if length body \<noteq> 1 then Inl Not_One_Field
          else case lineage_line (hd body) of
            None \<Rightarrow> Inl Bad_Line
          | Some value \<Rightarrow> if lineage_re value then Inr value else Inl Bad_Lineage)"

definition IDENTITY_PATH :: ppath where
  "IDENTITY_PATH = [''.saipen'', ''IDENTITY.md'']"

datatype carrier = Absent | Malformed | Carries string

text \<open>
  The bootstrap reads the carrier with no bound; the recovery binding reads at most 4096 bytes.
\<close>

definition read_lineage_strict :: "store \<Rightarrow> carrier" where
  "read_lineage_strict st =
     (case dict_get st IDENTITY_PATH of
        Some (File b) \<Rightarrow>
          (case utf8_decode b of
             None \<Rightarrow> Malformed
           | Some text \<Rightarrow> (case parse_identity_content text of Inl _ \<Rightarrow> Malformed | Inr l \<Rightarrow> Carries l))
      | _ \<Rightarrow> Absent)"

definition project_lineage_identity :: "store \<Rightarrow> string option" where
  "project_lineage_identity st =
     (case (dict_get st [''.saipen''], dict_get st IDENTITY_PATH) of
        (Some Dir, Some (File b)) \<Rightarrow>
          if length b > 4096 then None
          else (case utf8_decode b of
             None \<Rightarrow> None
           | Some text \<Rightarrow> (case parse_identity_content text of Inl _ \<Rightarrow> None | Inr l \<Rightarrow> Some l))
      | _ \<Rightarrow> None)"

section \<open>Lemmas\<close>

lemma hex_plain: "is_hex c \<Longrightarrow> \<not> is_line_end c \<and> \<not> is_space c \<and> (of_char c :: nat) < 128"
  by (auto simp: is_hex_def is_digit_def is_line_end_def is_space_def Let_def)

lemma lineage_chars:
  assumes "lineage_re l"
  shows "list_all (\<lambda>c. \<not> is_line_end c \<and> \<not> is_space c \<and> (of_char c :: nat) < 128) l"
proof -
  from assms obtain h where l: "l = LINEAGE_PREFIX @ h" and h: "list_all is_hex h"
    by (auto simp: lineage_re_def)
  have "list_all (\<lambda>c. \<not> is_line_end c \<and> \<not> is_space c \<and> (of_char c :: nat) < 128) LINEAGE_PREFIX"
    by (simp add: LINEAGE_PREFIX_def is_line_end_def is_space_def)
  moreover have "list_all (\<lambda>c. \<not> is_line_end c \<and> \<not> is_space c \<and> (of_char c :: nat) < 128) h"
    using h hex_plain by (auto simp: list_all_iff)
  ultimately show ?thesis by (simp add: l)
qed

lemma lineage_shape:
  assumes "lineage_re l"
  shows "l \<noteq> [] \<and> strip l = l"
proof -
  have ne: "l \<noteq> []" using assms by (auto simp: lineage_re_def)
  then have "\<not> is_space (hd l)" "\<not> is_space (last l)"
    using lineage_chars [OF assms] by (simp_all add: list_all_iff)
  with ne show ?thesis using strip_id by blast
qed

lemma utf8_decode_ascii: "list_all (\<lambda>c. (of_char c :: nat) < 128) s \<Longrightarrow> utf8_decode s = Some s"
  by (induction s) (auto simp: Let_def)

lemma strip_blanks: "strip (replicate n CHR '' '' @ s) = strip s"
  by (induction n) (simp_all add: strip_def lstrip_def is_space_def)

lemma strip_replicate: "strip (CHR '' '' # s) = strip s"
  using strip_blanks [of 1 s] by simp

lemma field_line:
  assumes "lineage_re l"
  shows "lineage_line (LINEAGE_FIELD @ '': '' @ l) = Some l"
proof -
  have f: "LINEAGE_FIELD @ '': '' @ l = (LINEAGE_FIELD @ '':'') @ CHR '' '' # l" by simp
  have "drop (length k) (k @ m) = m" for k m :: string by simp
  moreover have "\<not> list_ex is_space l" "l \<noteq> []"
    using lineage_chars [OF assms] lineage_shape [OF assms] by (auto simp: list_all_iff list_ex_iff)
  ultimately show ?thesis
    unfolding lineage_line_def Let_def f
    using lineage_shape [OF assms]
    by (simp only: startswith_append not_True_eq_False if_False strip_replicate simp_thms)
qed

lemma parse_padded:
  assumes "lineage_re l"
  shows "parse_identity_content (replicate n CHR '' '' @ identity_file_content l) = Inr l"
proof -
  let ?text = "replicate n CHR '' '' @ identity_file_content l"
  let ?first = "replicate n CHR '' '' @ ''---''"
  let ?field = "LINEAGE_FIELD @ '': '' @ l"
  have body: "?text = ?first @ CHR 10 # ?field @ CHR 10 # ''---'' @ CHR 10 # []"
    by (simp add: identity_file_content_def)
  have "list_all (\<lambda>c. \<not> is_line_end c) ?first" by (simp add: is_line_end_def list_all_iff)
  moreover have "list_all (\<lambda>c. \<not> is_line_end c) ?field"
    using lineage_chars [OF assms] by (auto simp: list_all_iff LINEAGE_FIELD_def is_line_end_def)
  moreover have "list_all (\<lambda>c. \<not> is_line_end c) ''---''" by (simp add: is_line_end_def)
  ultimately have lines: "splitlines ?text = [?first, ?field, ''---'']"
    unfolding splitlines_def body by (simp only: splitlines_from_line append_Nil splitlines_from.simps if_True simp_thms)
  have dash: "strip ''---'' = ''---''" by (rule strip_id) (simp_all add: is_space_def)
  then have first: "strip ?first = ''---''" using strip_blanks by metis
  have "hd ?field = CHR ''p''" "last ?field = last l"
    using lineage_shape [OF assms] by (simp_all add: LINEAGE_FIELD_def)
  moreover have "\<not> is_space (last l)"
    using lineage_chars [OF assms] lineage_shape [OF assms] by (simp add: list_all_iff)
  ultimately have field: "strip ?field = ?field"
    by (intro strip_id) (simp_all add: LINEAGE_FIELD_def is_space_def)
  have "strip ?text \<noteq> []"
  proof -
    have "strip ?text = strip (identity_file_content l)" by (rule strip_blanks)
    also have "\<dots> \<noteq> []"
      by (simp add: strip_def lstrip_def rstrip_def identity_file_content_def is_space_def dropWhile_eq_Nil_conv)
    finally show ?thesis .
  qed
  moreover have "?field \<noteq> []" by (simp add: LINEAGE_FIELD_def)
  ultimately show ?thesis
    using assms field_line [OF assms]
    by (simp add: parse_identity_content_def Let_def lines first dash field [simplified])
qed

text \<open>
  The identity carrier round-trips: the file the bootstrap writes for a lineage parses back to
  exactly that lineage, and whatever text parses, the lineage it yields is in the closed grammar
  (so a malformed carrier never yields an identity).
\<close>

theorem identity_roundtrip:
  "(parse_identity_content (identity_file_content l) = Inr l \<longleftrightarrow> lineage_re l) \<and>
   (\<forall>l'. parse_identity_content t = Inr l' \<longrightarrow> lineage_re l')"
proof -
  have sound: "parse_identity_content t = Inr l' \<Longrightarrow> lineage_re l'" for t l'
    by (simp add: parse_identity_content_def Let_def split: if_split_asm option.split_asm)
  with parse_padded [of l 0] show ?thesis by auto
qed

theorem identity_roundtrip_witness:
  "parse_identity_content (identity_file_content (''lineage-'' @ replicate 32 CHR ''a''))
     = Inr (''lineage-'' @ replicate 32 CHR ''a'')"
proof -
  have "lineage_re (''lineage-'' @ replicate 32 CHR ''a'')" by code_simp
  then show ?thesis using identity_roundtrip by blast
qed

text \<open>
  The two readers of the carrier disagree on a large one: padded beyond 4096 bytes the bootstrap
  still reads the lineage, while the recovery binding sees no lineage at all.
\<close>

theorem carrier_size_gap:
  assumes "lineage_re l" and "4096 \<le> n"
  defines "st \<equiv> [([''.saipen''], Dir), (IDENTITY_PATH, File (replicate n CHR '' '' @ identity_file_content l))]"
  shows "read_lineage_strict st = Carries l \<and> project_lineage_identity st = None"
proof -
  let ?b = "replicate n CHR '' '' @ identity_file_content l"
  have get: "dict_get st IDENTITY_PATH = Some (File ?b)" "dict_get st [''.saipen''] = Some Dir"
    by (simp_all add: st_def IDENTITY_PATH_def)
  have "list_all (\<lambda>c. (of_char c :: nat) < 128) (replicate n CHR '' '')"
    by (induction n) simp_all
  then have "list_all (\<lambda>c. (of_char c :: nat) < 128) ?b"
    using lineage_chars [OF assms(1)]
    by (simp add: identity_file_content_def LINEAGE_FIELD_def) (simp add: list_all_iff)
  then have "utf8_decode ?b = Some ?b" by (rule utf8_decode_ascii)
  moreover have "length ?b > 4096" using assms(2) by (simp add: identity_file_content_def)
  ultimately show ?thesis
    using parse_padded [OF assms(1), of n]
    by (simp add: read_lineage_strict_def project_lineage_identity_def get)
qed

theorem carrier_size_gap_witness:
  "read_lineage_strict [([''.saipen''], Dir), (IDENTITY_PATH,
      File (replicate 4096 CHR '' '' @ identity_file_content (''lineage-'' @ replicate 32 CHR ''a'')))]
    = Carries (''lineage-'' @ replicate 32 CHR ''a'')"
proof -
  have "lineage_re (''lineage-'' @ replicate 32 CHR ''a'')" by code_simp
  from carrier_size_gap [OF this order_refl] show ?thesis by blast
qed

end
