(* ===== verification/Dependencies.thy ===== *)
theory Dependencies
  imports Journal Identity
begin

text \<open>
  Read-only dependencies and the project binding of \<open>journal.py\<close>: \<open>hash_file_dependency\<close>,
  \<open>_hash_tree\<close>, \<open>hash_tree_dependency\<close>, \<open>hash_directory_listing_dependency\<close>, the dispatcher
  \<open>_hash_dependency\<close>, and \<open>_recovery_identity_binding\<close>.
\<close>

section \<open>Tokens\<close>

definition MISSING_TREE_DEPENDENCY :: string where
  "MISSING_TREE_DEPENDENCY = ''tree-missing-v1''"

definition MISSING_FILE_DEPENDENCY :: string where
  "MISSING_FILE_DEPENDENCY = ''file-missing-v1''"

definition SOURCE_IDENTITY_PREFIX :: string where
  "SOURCE_IDENTITY_PREFIX = ''source-identity-v1:''"

definition DIRECTORY_LISTING_PREFIX :: string where
  "DIRECTORY_LISTING_PREFIX = ''directory-listing-sha256:''"

definition hash_file_dependency :: "os_env \<Rightarrow> store \<Rightarrow> ppath \<Rightarrow> string" where
  "hash_file_dependency env st p =
     (case dict_get st p of
        None \<Rightarrow> absent_token st p MISSING_FILE_DEPENDENCY
      | Some (File b) \<Rightarrow> d_bytes env b
      | Some n \<Rightarrow> ''object:'' @ d_mode env n)"

definition hash_tree :: "engine_env \<Rightarrow> store \<Rightarrow> ppath \<Rightarrow> string" where
  "hash_tree E st p =
     (if dict_get st p \<noteq> Some Dir then []
      else ''tree-sha256:'' @ e_tree_files E
        (sort_key fst (concat (map (\<lambda>(q, n). case n of File b \<Rightarrow> [(q, b)] | _ \<Rightarrow> []) (below st p)))))"

definition hash_tree_dependency :: "os_env \<Rightarrow> store \<Rightarrow> ppath \<Rightarrow> string" where
  "hash_tree_dependency env st p =
     (let digest = hash_delete_tree env st p in
      if digest = [] \<and> dict_get st p = None then MISSING_TREE_DEPENDENCY else digest)"

definition child_kind :: "node \<Rightarrow> string" where
  "child_kind n = (case n of File _ \<Rightarrow> ''F'' | Dir \<Rightarrow> ''D'' | Special \<Rightarrow> ''O'')"

definition hash_directory_listing_dependency :: "engine_env \<Rightarrow> store \<Rightarrow> ppath \<Rightarrow> string" where
  "hash_directory_listing_dependency E st p =
     (case dict_get st p of
        None \<Rightarrow> absent_token st p (DIRECTORY_LISTING_PREFIX @ ''missing'')
      | Some Dir \<Rightarrow>
          DIRECTORY_LISTING_PREFIX @ e_listing E
            (sort_key fst (map (\<lambda>(q, n). (hd q, child_kind n)) (filter (\<lambda>(q, _). length q = 1) (below st p))))
      | Some n \<Rightarrow> ''object:'' @ d_mode (os E) n)"

text \<open>Where a dependency key points: below the project root, or outside it.\<close>

datatype location = Inside ppath | Outside ppath

definition dependency_location :: "os_env \<Rightarrow> string \<Rightarrow> location" where
  "dependency_location env s =
     (if startswith s ''/'' then
        let p = lex_realpath (posix_parts s) in
        if prefix (project_root env) p then Inside (drop (length (project_root env)) p) else Outside p
      else Inside (target_parts env s))"

definition hash_dependency :: "engine_env \<Rightarrow> world \<Rightarrow> string \<Rightarrow> string \<Rightarrow> string" where
  "hash_dependency E w path expected =
     (case dependency_location (os E) path of
        Outside p \<Rightarrow> e_outside E p expected
      | Inside p \<Rightarrow>
          let env = os E; st = files w in
          if startswith expected SOURCE_IDENTITY_PREFIX then
            (case e_source_identity E st of None \<Rightarrow> [] | Some token \<Rightarrow> SOURCE_IDENTITY_PREFIX @ token)
          else if startswith expected DIRECTORY_LISTING_PREFIX then hash_directory_listing_dependency E st p
          else if startswith expected ''ops-receipt-sha256:'' then e_receipts E w
          else if expected = MISSING_TREE_DEPENDENCY then hash_tree_dependency env st p
          else if expected = MISSING_FILE_DEPENDENCY then hash_file_dependency env st p
          else if startswith expected ''delete-tree-sha256:'' then hash_delete_tree env st p
          else if startswith expected ''tree-sha256:'' then hash_tree E st p
          else if expected = [] then hash_file env st p
          else hash_file_dependency env st p)"

text \<open>The first dependency whose live token is not the one the plan was made against.\<close>

definition stale_dependency :: "engine_env \<Rightarrow> world \<Rightarrow> (string, string) dict \<Rightarrow> (string \<times> string) option" where
  "stale_dependency E w deps = find (\<lambda>(path, expected). hash_dependency E w path expected \<noteq> expected) deps"

section \<open>Binding a receipt to the project\<close>

text \<open>
  \<open>_recovery_identity_binding\<close>: the receipt's lineage must be the live one; a receipt without a
  lineage is bound to the runtime path that created it.
\<close>

definition recovery_identity_binding :: "engine_env \<Rightarrow> store \<Rightarrow> op_record \<Rightarrow> bool" where
  "recovery_identity_binding E st r =
     (case r_lineage r of
        Some l \<Rightarrow>
          if l \<noteq> [] then project_lineage_identity st = Some l
          else r_identity r \<noteq> [] \<and> r_identity r = e_runtime E
      | None \<Rightarrow> r_identity r \<noteq> [] \<and> r_identity r = e_runtime E)"

lemma stale_dependency_None:
  "stale_dependency E w deps = None \<longleftrightarrow> (\<forall>(path, expected) \<in> set deps. hash_dependency E w path expected = expected)"
  by (auto simp: stale_dependency_def find_None_iff)

end
