(* ===== verification/Recovery.thy ===== *)
theory Recovery
  imports Dependencies
begin

text \<open>
  Roll-forward recovery: \<open>_recover_locked\<close> of \<open>journal.py\<close> in its phases, \<open>scan_pending\<close>,
  \<open>inspect_op\<close>, \<open>recovery_preflight\<close> and \<open>auto_recover_pending\<close>.  Every mutating definition returns
  the durable states it passes through with its answer.
\<close>

section \<open>Answers\<close>

text \<open>
  The structured part of an answer: the code, whether recovery is still required, the target a
  conflict was found at with the live hash there, the operations it names, the files it changed.
\<close>

record reply =
  a_ok :: bool
  a_code :: string
  a_required :: bool
  a_at :: "(nat \<times> string) option"
  a_frontier :: "int option"
  a_ops :: "string list"
  a_changed :: "string list"
  a_cleanup :: bool

definition answer :: "bool \<Rightarrow> string \<Rightarrow> bool \<Rightarrow> reply" where
  "answer ok code required = \<lparr>a_ok = ok, a_code = code, a_required = required, a_at = None,
     a_frontier = None, a_ops = [], a_changed = [], a_cleanup = False\<rparr>"

definition refuse :: "string \<Rightarrow> reply" where
  "refuse code = answer False code True"

definition refuse_at :: "string \<Rightarrow> nat \<Rightarrow> string \<Rightarrow> int \<Rightarrow> reply" where
  "refuse_at code i actual frontier = (refuse code)\<lparr>a_at := Some (i, actual), a_frontier := Some frontier\<rparr>"

text \<open>An exception that leaves the function.\<close>

definition raised :: "string \<Rightarrow> reply" where
  "raised exc = answer False (''RAISED '' @ exc) True"

section \<open>The gates before any byte decision\<close>

definition paths_owned :: "os_env \<Rightarrow> op_record \<Rightarrow> bool" where
  "paths_owned env r \<longleftrightarrow>
     list_all (\<lambda>t. \<not> isl (owned_target_path lex_realpath (project_root env) (t_path t))) (r_targets r) \<and>
     list_all (\<lambda>(p, _). \<not> isl (read_dependency_path lex_realpath (project_root env) p)) (r_read r)"

text \<open>
  Decoder, owned paths, project binding and settled status, in this order; the answer is the
  refusal or the record that may be replayed.
\<close>

definition recover_gate :: "engine_env \<Rightarrow> string \<Rightarrow> world \<Rightarrow> reply + op_record" where
  "recover_gate E op_id w =
     (let d = journal_dir (journal_place op_id w) op_id w in
      if \<not> journal_exists op_id w then Inl (answer False ''TICKET_NOT_FOUND'' False)
      else case decode_operation_record (os E) op_id d False of
        Inl e \<Rightarrow> Inl (refuse (decode_code e))
      | Inr r \<Rightarrow>
          if \<not> paths_owned (os E) r then Inl (refuse ''VALIDATION_FAILED'')
          else if \<not> recovery_identity_binding E (files w) r then Inl (refuse ''PROJECT_MISMATCH'')
          else if r_status r = COMMITTED then Inl (answer True ''ALREADY_APPLIED'' False)
          else if r_status r \<in> set SETTLED then Inl (refuse (status_name (r_status r)))
          else Inr r)"

section \<open>The decision from live bytes\<close>

definition classify_all :: "os_env \<Rightarrow> store \<Rightarrow> target list \<Rightarrow> tclass list" where
  "classify_all env st ts = defer_unreached_targets ts (map (classify_live env st) ts)"

definition first_index :: "(nat \<Rightarrow> bool) \<Rightarrow> nat \<Rightarrow> nat option" where
  "first_index P n = find P [0..<n]"

text \<open>
  Phase 2 derives the materialised prefix; phase 6 finds the first third state; phase 2E the first
  target that materialised out of order; the phase 4 guard recognises an untouched plan.
\<close>

definition materialised_prefix :: "tclass list \<Rightarrow> nat" where
  "materialised_prefix cs = leading (\<lambda>c. c = ALREADY_APPLIED) cs"

definition third_state :: "tclass list \<Rightarrow> nat option" where
  "third_state cs = first_index (\<lambda>i. cs ! i = CONFLICTED) (length cs)"

definition out_of_order :: "target list \<Rightarrow> tclass list \<Rightarrow> nat option" where
  "out_of_order ts cs =
     first_index (\<lambda>i. materialised_prefix cs \<le> i \<and> cs ! i = ALREADY_APPLIED \<and> \<not> is_noop_target (ts ! i))
       (length cs)"

definition nothing_materialised :: "target list \<Rightarrow> tclass list \<Rightarrow> bool" where
  "nothing_materialised ts cs \<longleftrightarrow> list_all (\<lambda>(c, t). c = PENDING \<or> is_noop_target t) (zip cs ts)"

datatype verdict = Conflict_At nat | Abort | Roll_Forward nat

definition decide :: "os_env \<Rightarrow> store \<Rightarrow> op_record \<Rightarrow> verdict" where
  "decide env st r =
     (let ts = r_targets r; cs = classify_all env st ts in
      case third_state cs of
        Some i \<Rightarrow> Conflict_At i
      | None \<Rightarrow>
          (case out_of_order ts cs of
             Some i \<Rightarrow> Conflict_At i
           | None \<Rightarrow>
               if r_status r = PREPARED \<and> nothing_materialised ts cs then Abort
               else Roll_Forward (materialised_prefix cs)))"

section \<open>Repairing the bookkeeping and replaying the suffix\<close>

text \<open>\<open>persisted.get("applied_frontier", -1)\<close> compared with the derived frontier.\<close>

definition frontier_is :: "op_dir \<Rightarrow> int \<Rightarrow> bool" where
  "frontier_is d k =
     (case dict_get (sidecar_dict d) ''applied_frontier'' of
        None \<Rightarrow> k = -1
      | Some (JInt n) \<Rightarrow> n = k
      | Some _ \<Rightarrow> False)"

definition needs_repair :: "op_record \<Rightarrow> nat \<Rightarrow> op_dir \<Rightarrow> bool" where
  "needs_repair r k d \<longleftrightarrow>
     r_progress r \<noteq> int k \<or> \<not> frontier_is d (int k - 1) \<or> list_ex (\<lambda>t. \<not> t_applied t) (take k (r_targets r))"

definition repair :: "place \<Rightarrow> string \<Rightarrow> op_record \<Rightarrow> nat \<Rightarrow> world \<Rightarrow> world list" where
  "repair pl op_id r k w =
     (let d = journal_dir pl op_id w in
      if needs_repair r k d then [put_dir pl op_id (reconcile_progress APPLYING (int k) (int k - 1) d) w] else [])"

datatype replayed = Acted store | Corrupt_Staged string | Action_Failed | Action_Raised

text \<open>One target of the suffix: a write takes its staged bytes, which must hash to the plan.\<close>

definition replay_action :: "os_env \<Rightarrow> op_dir \<Rightarrow> nat \<Rightarrow> target \<Rightarrow> store \<Rightarrow> replayed" where
  "replay_action env d i t st =
     (let p = target_parts env (t_path t) in
      case t_action t of
        Write \<Rightarrow>
          (case staged_content env d i (t_path t) of
             None \<Rightarrow> Action_Failed
           | Some b \<Rightarrow>
               if d_bytes env b \<noteq> t_after t then Corrupt_Staged (d_bytes env b)
               else (case perform env st Write p b of
                       Done st' \<Rightarrow> Acted st' | OSError \<Rightarrow> Action_Failed | ValueError \<Rightarrow> Action_Raised))
      | a \<Rightarrow> (case perform env st a p [] of
                Done st' \<Rightarrow> Acted st' | OSError \<Rightarrow> Action_Failed | ValueError \<Rightarrow> Action_Raised))"

definition mark_conflict :: "engine_env \<Rightarrow> place \<Rightarrow> string \<Rightarrow> world \<Rightarrow> world list" where
  "mark_conflict E pl op_id w = fst (mark E pl op_id CONFLICT None None w)"

text \<open>
  Phase 5 from index \<open>i\<close> on; \<open>k\<close> is the frontier the pass started from, for the answers.
\<close>

fun replay :: "engine_env \<Rightarrow> place \<Rightarrow> string \<Rightarrow> nat \<Rightarrow> nat \<Rightarrow> target list \<Rightarrow> world \<Rightarrow> world list \<times> reply option" where
  "replay E pl op_id k i [] w = ([], None)"
| "replay E pl op_id k i (t # ts) w =
     (case replay_action (os E) (journal_dir pl op_id w) i t (files w) of
        Acted st \<Rightarrow>
          let w1 = w\<lparr>files := st\<rparr>;
              tr = w1 # fst (mark E pl op_id APPLYING (Some (int i + 1)) (Some (int i)) w1);
              (tr', res) = replay E pl op_id k (Suc i) ts (final w tr)
          in (tr @ tr', res)
      | Corrupt_Staged h \<Rightarrow> (mark_conflict E pl op_id w, Some (refuse_at ''CONFLICT'' i h (int k - 1)))
      | Action_Failed \<Rightarrow>
          (mark_conflict E pl op_id w,
           Some (refuse_at ''RECOVERY_CONFLICT'' i (target_live_hash (os E) (files w) t) (int k - 1)))
      | Action_Raised \<Rightarrow> ([], Some (raised ''ValueError'')))"

section \<open>Verification and settlement\<close>

definition semantic_errors :: "engine_env \<Rightarrow> store \<Rightarrow> op_record \<Rightarrow> string list" where
  "semantic_errors E st r =
     (if r_policy r = ''none'' then [] else e_verify E (r_policy r) st (r_targets r) (r_meta r))"

definition settle_committed :: "engine_env \<Rightarrow> place \<Rightarrow> string \<Rightarrow> op_record \<Rightarrow> bool \<Rightarrow> world \<Rightarrow> world list \<times> reply" where
  "settle_committed E pl op_id r required w =
     (let (tr, ok) = mark_all E pl op_id [VERIFIED, COMMITTED] w in
      (tr, if ok then (answer True ''COMMITTED'' required)
                        \<lparr>a_changed := map t_path (r_targets r), a_cleanup := op_id \<in> set (debts (final w tr))\<rparr>
           else raised ''JournalDecodeRefusal''))"

definition verify_and_settle :: "engine_env \<Rightarrow> place \<Rightarrow> string \<Rightarrow> op_record \<Rightarrow> world \<Rightarrow> world list \<times> reply" where
  "verify_and_settle E pl op_id r w =
     (if verify_target_bytes (os E) (files w) (r_targets r) \<noteq> None
      then (mark_conflict E pl op_id w, refuse ''CONFLICT'')
      else if semantic_errors E (files w) r \<noteq> []
      then (mark_conflict E pl op_id w, refuse ''CONFLICT'')
      else settle_committed E pl op_id r True w)"

section \<open>Recovery of one operation\<close>

definition roll_forward :: "engine_env \<Rightarrow> place \<Rightarrow> string \<Rightarrow> op_record \<Rightarrow> nat \<Rightarrow> world \<Rightarrow> world list \<times> reply" where
  "roll_forward E pl op_id r k w =
     (if stale_dependency E w (r_read r) \<noteq> None then (mark_conflict E pl op_id w, refuse ''CONFLICT'')
      else let tr1 = repair pl op_id r k w;
               (tr2, stop) = replay E pl op_id k k (drop k (r_targets r)) (final w tr1)
           in case stop of
                Some a \<Rightarrow> (tr1 @ tr2, a)
              | None \<Rightarrow>
                  let (tr3, a) = verify_and_settle E pl op_id r (final w (tr1 @ tr2))
                  in (tr1 @ tr2 @ tr3, a))"

definition recover_record :: "engine_env \<Rightarrow> place \<Rightarrow> string \<Rightarrow> op_record \<Rightarrow> world \<Rightarrow> world list \<times> reply" where
  "recover_record E pl op_id r w =
     (let ts = r_targets r; k = materialised_prefix (classify_all (os E) (files w) ts) in
      case decide (os E) (files w) r of
        Conflict_At i \<Rightarrow>
          (mark_conflict E pl op_id w,
           refuse_at ''RECOVERY_CONFLICT'' i (target_live_hash (os E) (files w) (ts ! i)) (int k - 1))
      | Abort \<Rightarrow>
          let (tr, ok) = mark E pl op_id ABORTED None None w
          in (tr, if ok then answer True ''ABORTED'' False else raised ''JournalDecodeRefusal'')
      | Roll_Forward k' \<Rightarrow> roll_forward E pl op_id r k' w)"

definition recover_locked :: "engine_env \<Rightarrow> string \<Rightarrow> world \<Rightarrow> world list \<times> reply" where
  "recover_locked E op_id0 w =
     (case validate_op_id op_id0 of
        Inl _ \<Rightarrow> ([], refuse ''VALIDATION_FAILED'')
      | Inr op_id \<Rightarrow>
          (case recover_gate E op_id w of
             Inl a \<Rightarrow> ([], a)
           | Inr r \<Rightarrow>
               if r_operation r = ''release'' then
                 let (tr, ok, code) = e_release E op_id w in (tr, answer ok code (\<not> ok))
               else recover_record E (journal_place op_id w) op_id r w))"

end
