(* ===== verification/Plans.thy ===== *)
theory Plans
  imports Recovery
begin

text \<open>
  The abstract plan behind a journaled operation: \<open>run_plan\<close> performs the targets in order, each
  found pending and left in its planned state.  The lemmas say what a plan that runs to its end
  looks like from any of its intermediate trees: the materialised prefix is exactly the steps
  performed, and the byte classifier finds the rest due.
\<close>

section \<open>Running a plan\<close>

definition plan_step :: "os_env \<Rightarrow> store \<Rightarrow> prepared \<Rightarrow> store option" where
  "plan_step env st t =
     (if classify_live env st t = PENDING then
        (case perform env st (t_action t) (target_parts env (t_path t)) (t_content t) of
           Done st' \<Rightarrow> if target_live_hash env st' t = t_after t then Some st' else None
         | _ \<Rightarrow> None)
      else None)"

fun run_plan :: "os_env \<Rightarrow> store \<Rightarrow> prepared list \<Rightarrow> store option" where
  "run_plan env st [] = Some st"
| "run_plan env st (t # ts) = (case plan_step env st t of None \<Rightarrow> None | Some st' \<Rightarrow> run_plan env st' ts)"

definition parts :: "os_env \<Rightarrow> 'a target_scheme \<Rightarrow> ppath" where
  "parts env t = target_parts env (t_path t)"

text \<open>
  The plans a mutation publishes: distinct owned objects, spelled canonically, and a deletion whose
  planned state is absence.
\<close>

definition plan_ok :: "os_env \<Rightarrow> prepared list \<Rightarrow> bool" where
  "plan_ok env ts \<longleftrightarrow>
     distinct (map (parts env) ts) \<and>
     list_all (\<lambda>t. pure_parts (t_path t) = parts env t \<and>
                   t_after t = (if t_action t = Write then d_bytes env (t_content t) else [])) ts"

lemma plan_stepD:
  assumes "plan_step env st t = Some st'"
  shows "target_live_hash env st t = t_before t" "t_before t \<noteq> t_after t"
    "perform env st (t_action t) (parts env t) (t_content t) = Done st'"
    "target_live_hash env st' t = t_after t"
  using assms
  by (auto simp: plan_step_def parts_def classify_live_def classify_target_def split: if_splits io.splits)

lemma run_plan_append:
  "run_plan env st (ts @ us) = Some st'' \<longleftrightarrow> (\<exists>st'. run_plan env st ts = Some st' \<and> run_plan env st' us = Some st'')"
  by (induction ts arbitrary: st) (auto split: option.splits)

text \<open>Off its own paths a plan only turns absent ancestors into directories.\<close>

lemma run_plan_elsewhere:
  assumes "run_plan env st ts = Some st'" and "q \<notin> parts env ` set ts"
  shows "dict_get st' q = dict_get st q \<or> dict_get st q = None \<and> dict_get st' q = Some Dir"
  using assms
proof (induction ts arbitrary: st)
  case (Cons t ts)
  then obtain s1 where s1: "plan_step env st t = Some s1" "run_plan env s1 ts = Some st'"
    by (auto split: option.splits)
  have "dict_get s1 q = dict_get st q \<or> dict_get st q = None \<and> dict_get s1 q = Some Dir"
    using perform_elsewhere [OF plan_stepD(3) [OF s1(1)], of q] Cons.prems(2) by auto
  moreover have "dict_get st' q = dict_get s1 q \<or> dict_get s1 q = None \<and> dict_get st' q = Some Dir"
    using Cons.IH [OF s1(2)] Cons.prems(2) by simp
  ultimately show ?case by auto
qed simp

text \<open>A directory that appears on the way is there because of a written file that stays below it.\<close>

lemma run_plan_new_dir:
  assumes "run_plan env st ts = Some st'" and "distinct (map (parts env) ts)" and "q \<notin> parts env ` set ts"
    and "dict_get st q = None" and "dict_get st' q = Some Dir"
  shows "\<exists>t \<in> set ts. strict_prefix q (parts env t) \<and> dict_get st' (parts env t) \<noteq> None"
  using assms
proof (induction ts arbitrary: st)
  case (Cons t ts)
  then obtain s1 where s1: "plan_step env st t = Some s1" "run_plan env s1 ts = Some st'"
    by (auto split: option.splits)
  note p = plan_stepD(3) [OF s1(1)]
  show ?case
  proof (cases "dict_get s1 q")
    case None
    with Cons.IH [OF s1(2)] Cons.prems show ?thesis by auto
  next
    case (Some n)
    with perform_elsewhere [OF p, of q] Cons.prems(3,4)
    have w: "t_action t = Write" "strict_prefix q (parts env t)" by auto
    have "dict_get s1 (parts env t) = Some (File (t_content t))"
      using perform_at [OF p] by (simp add: w planned_node_def)
    moreover have "parts env t \<notin> parts env ` set ts" using Cons.prems(2) by simp
    ultimately have "dict_get st' (parts env t) \<noteq> None"
      using run_plan_elsewhere [OF s1(2), of "parts env t"] by auto
    with w show ?thesis by auto
  qed
qed simp

lemma below_step:
  assumes "perform env st a p b = Done st'" and "\<not> strict_prefix q p"
  shows "below st' q = below st q"
proof -
  have set: "filter (\<lambda>(x, _). strict_prefix q x) (dict_set x n d) = filter (\<lambda>(x, _). strict_prefix q x) d"
    if "\<not> strict_prefix q x" for x n and d :: store
    using that by (induction d) auto
  have pop: "filter (\<lambda>(x, _). strict_prefix q x) (dict_pop x d) = filter (\<lambda>(x, _). strict_prefix q x) d"
    if "\<not> strict_prefix q x" for x and d :: store
    using that by (induction d) (auto simp: dict_pop_def)
  have anc: "\<not> strict_prefix q x" if "x \<in> set (ancestors p)" for x
    using ancestors_strict [OF that] assms(2) by (meson prefix_order.less_trans)
  have mk: "filter (\<lambda>(x, _). strict_prefix q x) (mkdirs ps d) = filter (\<lambda>(x, _). strict_prefix q x) d"
    if "\<forall>x \<in> set ps. \<not> strict_prefix q x" for ps and d :: store
    using that by (induction ps arbitrary: d) (auto simp: set split: option.split)
  have "filter (\<lambda>(x, _). strict_prefix q x) st' = filter (\<lambda>(x, _). strict_prefix q x) st"
    using assms anc
    by (auto simp: perform_def atomic_write_def unlink_def rmdir_def set pop mk
        split: action.splits if_splits option.splits node.splits)
  then show ?thesis by (simp add: below_def)
qed

lemma run_plan_below:
  assumes "run_plan env st ts = Some st'" and "\<forall>t \<in> set ts. \<not> strict_prefix q (parts env t)"
  shows "below st' q = below st q"
  using assms
proof (induction ts arbitrary: st)
  case (Cons t ts)
  then obtain s1 where s1: "plan_step env st t = Some s1" "run_plan env s1 ts = Some st'"
    by (auto split: option.splits)
  with Cons below_step [OF plan_stepD(3) [OF s1(1)], of q] show ?case by auto
qed simp

lemma below_Nil: "below st q = [] \<longleftrightarrow> filter (\<lambda>(x, _). strict_prefix q x) st = []"
proof -
  have "length (below st q) = length (filter (\<lambda>(x, _). strict_prefix q x) st)" by (simp add: below_def)
  then show ?thesis by (metis length_0_conv)
qed

section \<open>Classification at an intermediate tree\<close>

lemma hash_delete_tree_Dir: "dict_get st p = Some Dir \<Longrightarrow> hash_delete_tree env st p \<noteq> []"
  by (auto simp: hash_delete_tree_def split: option.splits)

text \<open>A path blocked on the way stays blocked while no target of the plan is what blocks it.\<close>

lemma blockedE:
  assumes "blocked st p"
  obtains q n where "q \<in> set (ancestors p)" "dict_get st q = Some n" "n \<noteq> Dir"
  using assms by (auto simp: blocked_def list_ex_iff split: option.splits)

lemma blockedI: "q \<in> set (ancestors p) \<Longrightarrow> dict_get st q = Some n \<Longrightarrow> n \<noteq> Dir \<Longrightarrow> blocked st p"
  by (force simp: blocked_def list_ex_iff)

lemma absent_clear: "absent_token st p [] = [] \<longleftrightarrow> \<not> blocked st p"
  by (simp add: absent_token_def)

text \<open>A step already performed is still in its planned state.\<close>

lemma performed_stays:
  assumes ok: "plan_ok env (t # us)" and run: "plan_step env st t = Some s1" "run_plan env s1 us = Some s2"
    "run_plan env s2 vs = Some s3" and vs: "parts env ` set (t # us) \<inter> parts env ` set vs = {}"
    and last: "target_live_hash env s3 t = t_after t"
  shows "target_live_hash env s2 t = t_after t"
proof -
  let ?p = "parts env t"
  have after: "t_after t = (if t_action t = Write then d_bytes env (t_content t) else [])"
    using ok by (simp add: plan_ok_def)
  have us: "?p \<notin> parts env ` set us" using ok by (simp add: plan_ok_def)
  have pv: "?p \<notin> parts env ` set vs" using vs by auto
  note live = live_hash_planned [of _ ?p "t_action t" "t_content t" env]
  have at: "dict_get s1 ?p = planned_node (t_action t) (t_content t)"
    by (rule perform_at [OF plan_stepD(3) [OF run(1)]])
  have at2: "dict_get s2 ?p = planned_node (t_action t) (t_content t)"
  proof (rule ccontr)
    assume "dict_get s2 ?p \<noteq> planned_node (t_action t) (t_content t)"
    with run_plan_elsewhere [OF run(2) us] at
    have d: "dict_get s2 ?p = Some Dir" and a: "t_action t \<noteq> Write"
      by (auto simp: planned_node_def split: action.splits)
    with run_plan_elsewhere [OF run(3) pv] have "dict_get s3 ?p = Some Dir" by auto
    with a hash_delete_tree_Dir have "target_live_hash env s3 t \<noteq> []"
      by (cases "t_action t") (auto simp: target_live_hash_def live_hash_def parts_def)
    with last after a show False by simp
  qed
  have "\<not> blocked s2 ?p" if a: "t_action t \<noteq> Write"
  proof
    assume "blocked s2 ?p"
    then obtain q n where q: "q \<in> set (ancestors ?p)" "dict_get s2 q = Some n" "n \<noteq> Dir" by (rule blockedE)
    have "\<not> blocked s1 ?p"
      using live [OF at] plan_stepD(4) [OF run(1)] a after absent_clear [of s1 ?p] by (simp add: target_live_hash_def parts_def)
    then have "dict_get s1 q \<noteq> Some n" using q blockedI by blast
    then have "q \<in> parts env ` set us" using run_plan_elsewhere [OF run(2), of q] q by auto
    then have "q \<notin> parts env ` set vs" using vs by auto
    from run_plan_elsewhere [OF run(3) this] q have "blocked s3 ?p" by (auto intro: blockedI)
    moreover have "dict_get s3 ?p = None \<or> dict_get s3 ?p = Some Dir"
      using run_plan_elsewhere [OF run(3) pv] at2 a by (auto simp: planned_node_def split: action.splits)
    ultimately have "target_live_hash env s3 t \<noteq> []"
      using a hash_delete_tree_Dir [of s3 ?p env]
      by (cases "t_action t") (auto simp: target_live_hash_def live_hash_def parts_def hash_delete_tree_def absent_token_def)
    with last after a show False by simp
  qed
  then show ?thesis using live [OF at2] absent_clear [of s2 ?p] after by (simp add: target_live_hash_def parts_def)
qed

text \<open>A step still to come is not in its planned state, and where it looks like a third state an
  earlier step to come lies inside it.\<close>

lemma due_step:
  assumes ok: "distinct (map (parts env) (us @ [t]))" and del: "t_action t \<noteq> Write \<Longrightarrow> t_after t = []"
    and run: "run_plan env st us = Some s1" "plan_step env s1 t = Some s2"
  shows "classify_live env st t = PENDING \<or>
    classify_live env st t = CONFLICTED \<and> (\<exists>u \<in> set us. strict_prefix (parts env t) (parts env u))"
proof -
  let ?p = "parts env t"
  have us: "?p \<notin> parts env ` set us" using ok by auto
  note step = plan_stepD [OF run(2)]
  note same = run_plan_elsewhere [OF run(1) us]
  show ?thesis
  proof (cases "t_action t = Delete_Dir")
    case False
    have "dict_get s1 ?p = dict_get st ?p"
    proof (rule ccontr)
      assume "dict_get s1 ?p \<noteq> dict_get st ?p"
      with same have "dict_get s1 ?p = Some Dir" by auto
      with step(3) False show False
        by (cases "t_action t") (auto simp: perform_def atomic_write_def unlink_def split: if_splits)
    qed
    moreover have "dict_get s1 ?p \<noteq> None" if "t_action t = Delete_File"
      using step(3) that by (auto simp: perform_def unlink_def split: option.splits)
    ultimately have "target_live_hash env st t = target_live_hash env s1 t"
      using False by (cases "t_action t") (auto simp: target_live_hash_def live_hash_def hash_file_def parts_def)
    with step(1,2) show ?thesis by (auto simp: classify_live_def classify_target_def)
  next
    case True
    have d1: "dict_get s1 ?p = Some Dir" and b1: "below s1 ?p = []"
      using step(3) True by (auto simp: perform_def rmdir_def split: if_splits)
    have d: "dict_get st ?p = Some Dir"
    proof (rule ccontr)
      assume "dict_get st ?p \<noteq> Some Dir"
      with same d1 have "dict_get st ?p = None" by auto
      from run_plan_new_dir [OF run(1) _ us this d1] ok obtain u
        where u: "u \<in> set us" "strict_prefix ?p (parts env u)" "dict_get s1 (parts env u) \<noteq> None" by auto
      then obtain n where "(parts env u, n) \<in> set s1" by (auto dest: map_of_SomeD)
      with u(2) have "filter (\<lambda>(x, _). strict_prefix ?p x) s1 \<noteq> []" by (auto simp: filter_empty_conv)
      with b1 show False by (simp add: below_Nil)
    qed
    have live: "target_live_hash env st t \<noteq> t_after t"
      using d hash_delete_tree_Dir True del by (simp add: target_live_hash_def live_hash_def parts_def)
    show ?thesis
    proof (cases "\<forall>u \<in> set us. \<not> strict_prefix ?p (parts env u)")
      case True
      then have "below s1 ?p = below st ?p" by (rule run_plan_below [OF run(1)])
      with d d1 \<open>t_action t = Delete_Dir\<close> have "target_live_hash env st t = target_live_hash env s1 t"
        by (simp add: target_live_hash_def live_hash_def hash_delete_tree_def parts_def cong: option.case_cong)
      with step(1) live show ?thesis by (auto simp: classify_live_def classify_target_def)
    next
      case False
      with live show ?thesis by (auto simp: classify_live_def classify_target_def)
    qed
  qed
qed

text \<open>
  The tree after the first \<open>k\<close> steps of a plan that runs to its end with every target in its planned
  state.
\<close>

definition plan_at :: "os_env \<Rightarrow> prepared list \<Rightarrow> store \<Rightarrow> store \<Rightarrow> nat \<Rightarrow> store \<Rightarrow> bool" where
  "plan_at env ts s0 sn k sk \<longleftrightarrow>
     plan_ok env ts \<and> k \<le> length ts \<and> run_plan env s0 (take k ts) = Some sk \<and>
     run_plan env sk (drop k ts) = Some sn \<and> (\<forall>t \<in> set ts. target_live_hash env sn t = t_after t)"

lemma split_run:
  assumes "run_plan env st ts = Some st'" and "i < length ts"
  shows "\<exists>a b. run_plan env st (take i ts) = Some a \<and> plan_step env a (ts ! i) = Some b \<and>
    run_plan env b (drop (Suc i) ts) = Some st'"
proof -
  have "ts = take i ts @ ts ! i # drop (Suc i) ts" using assms(2) by (simp add: id_take_nth_drop)
  with assms(1) have "run_plan env st (take i ts @ ts ! i # drop (Suc i) ts) = Some st'" by simp
  then show ?thesis by (auto simp: run_plan_append split: option.splits)
qed

lemma parts_distinct_segments:
  assumes "distinct (map (parts env) ts)" and "i < length ts"
  shows "parts env (ts ! i) \<notin> parts env ` set (take i ts)" "parts env (ts ! i) \<notin> parts env ` set (drop (Suc i) ts)"
proof -
  have "ts = take i ts @ ts ! i # drop (Suc i) ts" using assms(2) by (simp add: id_take_nth_drop)
  with assms(1) have "distinct (map (parts env) (take i ts @ ts ! i # drop (Suc i) ts))" by simp
  then show "parts env (ts ! i) \<notin> parts env ` set (take i ts)" "parts env (ts ! i) \<notin> parts env ` set (drop (Suc i) ts)"
    by auto
qed

lemma applied_below:
  assumes at: "plan_at env ts s0 sn k sk" and i: "i < k"
  shows "target_live_hash env sk (ts ! i) = t_after (ts ! i)"
proof -
  from at have ok: "plan_ok env ts" and k: "k \<le> length ts" and pre: "run_plan env s0 (take k ts) = Some sk"
    and post: "run_plan env sk (drop k ts) = Some sn" and all: "\<forall>t \<in> set ts. target_live_hash env sn t = t_after t"
    by (simp_all add: plan_at_def)
  from split_run [OF pre, of i] i k obtain a b where b: "plan_step env a (ts ! i) = Some b"
    "run_plan env b (drop (Suc i) (take k ts)) = Some sk" by auto
  have ts: "drop i (take k ts) = ts ! i # drop (Suc i) (take k ts)"
    using i k by (metis Cons_nth_drop_Suc length_take min.absorb2 nth_take)
  have "plan_ok env (ts ! i # drop (Suc i) (take k ts))"
  proof -
    have "distinct (map (parts env) (drop i (take k ts)))"
      using ok by (simp add: plan_ok_def drop_map take_map flip: drop_map take_map)
    moreover have "set (drop i (take k ts)) \<subseteq> set ts" by (meson in_set_dropD in_set_takeD subsetI)
    ultimately show ?thesis using ok unfolding ts plan_ok_def list_all_iff by blast
  qed
  moreover have "parts env ` set (ts ! i # drop (Suc i) (take k ts)) \<inter> parts env ` set (drop k ts) = {}"
  proof -
    have "distinct (map (parts env) (take k ts @ drop k ts))" using ok by (simp add: plan_ok_def)
    then have "parts env ` set (take k ts) \<inter> parts env ` set (drop k ts) = {}" by (simp only: map_append distinct_append set_map)
    moreover have "set (ts ! i # drop (Suc i) (take k ts)) \<subseteq> set (take k ts)"
      using set_drop_subset [of i "take k ts"] by (simp only: ts)
    ultimately show ?thesis by blast
  qed
  moreover have "target_live_hash env sn (ts ! i) = t_after (ts ! i)" using all i k by simp
  ultimately show ?thesis using performed_stays [OF _ b(1) b(2) post] by blast
qed

lemma due_above:
  assumes at: "plan_at env ts s0 sn k sk" and i: "k \<le> i" "i < length ts"
  shows "classify_live env sk (ts ! i) = PENDING \<or>
    classify_live env sk (ts ! i) = CONFLICTED \<and>
    (\<exists>j. k \<le> j \<and> j < i \<and> strict_prefix (parts env (ts ! i)) (parts env (ts ! j)))"
proof -
  from at have ok: "plan_ok env ts" and post: "run_plan env sk (drop k ts) = Some sn"
    by (simp_all add: plan_at_def)
  let ?us = "take (i - k) (drop k ts)"
  have "i - k < length (drop k ts)" using i by simp
  from split_run [OF post this] i obtain a b where a: "run_plan env sk ?us = Some a"
    and b: "plan_step env a (ts ! i) = Some b" by fastforce
  have us: "?us @ [ts ! i] = take (Suc (i - k)) (drop k ts)"
    using i by (simp add: take_Suc_conv_app_nth)
  have "distinct (map (parts env) (?us @ [ts ! i]))"
    using ok unfolding us plan_ok_def by (simp add: drop_map take_map flip: drop_map take_map)
  moreover have "t_action (ts ! i) \<noteq> Write \<Longrightarrow> t_after (ts ! i) = []"
    using ok i by (simp add: plan_ok_def list_all_length)
  ultimately have "classify_live env sk (ts ! i) = PENDING \<or>
    classify_live env sk (ts ! i) = CONFLICTED \<and> (\<exists>u \<in> set ?us. strict_prefix (parts env (ts ! i)) (parts env u))"
    by (rule due_step [OF _ _ a b])
  moreover have "\<exists>j. k \<le> j \<and> j < i \<and> strict_prefix (parts env (ts ! i)) (parts env (ts ! j))"
    if u: "u \<in> set ?us" "strict_prefix (parts env (ts ! i)) (parts env u)" for u
  proof -
    from u(1) obtain m where "m < i - k" "u = ts ! (k + m)" using i by (auto simp: in_set_conv_nth)
    with u(2) show ?thesis by (intro exI [of _ "k + m"]) auto
  qed
  ultimately show ?thesis by blast
qed

lemma classify_at:
  assumes at: "plan_at env ts s0 sn k sk"
  shows "defer_unreached_targets ts (map (classify_live env sk) ts) =
    replicate k ALREADY_APPLIED @ replicate (length ts - k) PENDING"
    (is "?cs = _")
proof (rule nth_equalityI)
  from at have ok: "plan_ok env ts" and k: "k \<le> length ts" by (simp_all add: plan_at_def)
  show "length ?cs = length (replicate k ALREADY_APPLIED @ replicate (length ts - k) PENDING)"
    using k by simp
  fix i assume "i < length ?cs"
  then have i: "i < length ts" by simp
  let ?raw = "map (classify_live env sk) ts"
  show "?cs ! i = (replicate k ALREADY_APPLIED @ replicate (length ts - k) PENDING) ! i"
  proof (cases "i < k")
    case True
    then have "?raw ! i = ALREADY_APPLIED"
      using applied_below [OF at True] i by (simp add: classify_live_def classify_target_def)
    with True i show ?thesis using defer_unreached_applied [of ?raw ts i] by (simp add: nth_append)
  next
    case False
    then have ki: "k \<le> i" by simp
    have "?cs ! i = PENDING"
    proof (rule ccontr)
      assume np: "?cs ! i \<noteq> PENDING"
      with defer_unreached_keeps [of ?raw ts i] i due_above [OF at ki i]
      have c: "?cs ! i = CONFLICTED" and r: "?raw ! i = CONFLICTED" by auto
      from r due_above [OF at ki i] i obtain j where j: "k \<le> j" "j < i"
        "strict_prefix (parts env (ts ! i)) (parts env (ts ! j))" by auto
      have "pure_parts (t_path (ts ! i)) = parts env (ts ! i)" "pure_parts (t_path (ts ! j)) = parts env (ts ! j)"
        using ok i j by (simp_all add: plan_ok_def list_all_length)
      with j c classification_by_bytes_conflict [OF i refl c] have "?cs ! j = ALREADY_APPLIED" by simp
      then have "?raw ! j = ALREADY_APPLIED" using defer_unreached_applied [of ?raw ts j] i j by simp
      with due_above [OF at j(1)] i j show False by auto
    qed
    with False i k show ?thesis by (simp add: nth_append)
  qed
qed

end
