(* ===== verification/Settlement.thy ===== *)
theory Settlement
  imports Recovery
begin

text \<open>
  The life of one operation directory: which durable states \<open>Journal.mark\<close> leaves behind, and what
  the strict decoder reads in each of them.
\<close>

section \<open>Reading a directory while it is in flight\<close>

lemma staged_content_progress [simp]:
  "staged_content env (d\<lparr>progress := p\<rparr>) i rel = staged_content env d i rel"
  by (simp add: staged_content_def cong: option.case_cong)

lemma decode_targets_progress [simp]:
  "decode_targets env (d\<lparr>progress := p\<rparr>) u i seen js = decode_targets env d u i seen js"
  by (induction js arbitrary: i seen) (simp_all only: decode_targets.simps staged_content_progress)

lemma decode_manifest_progress:
  "decode_manifest env name (d\<lparr>progress := p\<rparr>) = decode_manifest env name d"
  unfolding decode_manifest_def decode_targets_progress by simp

lemma decode_manifest_same:
  assumes "manifest d' = manifest d" and "staged d' = staged d"
  shows "decode_manifest env name d' = decode_manifest env name d"
proof -
  have "d' = d\<lparr>progress := progress d'\<rparr>" using assms by (cases d; cases d') simp
  then show ?thesis by (metis decode_manifest_progress)
qed

lemma decode_manifest_marked [simp]:
  "decode_manifest env name (mark_sidecar st pi ti d) = decode_manifest env name d"
  "decode_manifest env name (reconcile_progress st i k d) = decode_manifest env name d"
  by (rule decode_manifest_same; simp)+

text \<open>
  A directory in flight: the manifest decodes to the published record, still \<open>PREPARED\<close>; the status
  the reader sees is the one of the sidecar, when there is one.
\<close>

definition dir_in_flight :: "os_env \<Rightarrow> string \<Rightarrow> op_record \<Rightarrow> status \<Rightarrow> op_dir \<Rightarrow> bool" where
  "dir_in_flight env name r0 st d \<longleftrightarrow>
     decode_manifest env name d = Inr r0 \<and> r_status r0 = PREPARED \<and>
     (progress d = None \<and> st = PREPARED \<or> good_sidecar (length (r_targets r0)) st d)"

lemma in_flight_readable:
  "dir_in_flight env name r0 st d \<Longrightarrow> readable_sidecar (length (r_targets r0)) d"
  by (auto simp: dir_in_flight_def readable_sidecar_def)

lemma PREPARED_unsettled [simp]: "PREPARED \<notin> set SETTLED" "APPLYING \<notin> set SETTLED" "VERIFIED \<notin> set SETTLED"
  "CONFLICT \<notin> set SETTLED" "COMMITTED \<in> set SETTLED" "ABORTED \<in> set SETTLED" "RESOLVED \<in> set SETTLED"
  by (simp_all add: SETTLED_def)

lemma in_flight_decode:
  assumes f: "dir_in_flight env name r0 st d" and "st \<notin> set SETTLED \<or> allow"
  shows "\<exists>r. decode_operation_record env name d allow = Inr r \<and> r_status r = st \<and> plan_of r = plan_of r0"
proof (cases "progress d = None \<and> st = PREPARED")
  case True
  with f show ?thesis by (auto simp: dir_in_flight_def decode_operation_record_def merge_progress_sidecar_def)
next
  case False
  with f have "good_sidecar (length (r_targets r0)) st d" and m: "decode_manifest env name d = Inr r0"
    by (auto simp: dir_in_flight_def)
  then show ?thesis using decode_good_sidecar [OF m] assms(2) by blast
qed

lemma in_flight_mark:
  assumes "dir_in_flight env name r0 st d" and "i < length (r_targets r0)"
  shows "dir_in_flight env name r0 st' (mark_sidecar st' (Some (int i + 1)) (Some (int i)) d)"
  using assms good_sidecar_mark [OF in_flight_readable [OF assms(1)], of "Some (int i + 1)" "Some (int i)" st']
  by (auto simp: dir_in_flight_def)

lemma in_flight_mark_plain:
  assumes "dir_in_flight env name r0 st d"
  shows "dir_in_flight env name r0 st' (mark_sidecar st' None None d)"
  using assms good_sidecar_mark [OF in_flight_readable [OF assms], of None None st'] by (auto simp: dir_in_flight_def)

lemma in_flight_reconcile:
  assumes "dir_in_flight env name r0 st d" and "k \<le> length (r_targets r0)"
  shows "dir_in_flight env name r0 st' (reconcile_progress st' (int k) (int k - 1) d)"
  using assms good_sidecar_reconcile [of "int k" "length (r_targets r0)" "int k - 1"] by (auto simp: dir_in_flight_def)

section \<open>Records of the same plan\<close>

definition strip_applied :: "target \<Rightarrow> target" where
  "strip_applied t = t\<lparr>t_applied := False\<rparr>"

lemma strip_simps [simp]:
  "t_path (strip_applied t) = t_path t" "t_role (strip_applied t) = t_role t" "t_action (strip_applied t) = t_action t"
  "t_before (strip_applied t) = t_before t" "t_after (strip_applied t) = t_after t"
  by (simp_all add: strip_applied_def)

lemma plan_of_fields:
  assumes "plan_of r = plan_of r0"
  shows "r_op_id r = r_op_id r0" "r_operation r = r_operation r0" "r_created_at r = r_created_at r0"
    "r_agent r = r_agent r0" "r_identity r = r_identity r0" "r_lineage r = r_lineage r0"
    "r_payload r = r_payload r0" "r_pre r = r_pre r0" "r_read r = r_read r0" "r_policy r = r_policy r0"
    "r_meta r = r_meta r0" "map strip_applied (r_targets r) = map strip_applied (r_targets r0)"
proof -
  show "r_op_id r = r_op_id r0" "r_operation r = r_operation r0" "r_created_at r = r_created_at r0"
    "r_agent r = r_agent r0" "r_identity r = r_identity r0" "r_lineage r = r_lineage r0"
    "r_payload r = r_payload r0" "r_pre r = r_pre r0" "r_read r = r_read r0" "r_policy r = r_policy r0"
    "r_meta r = r_meta r0" "map strip_applied (r_targets r) = map strip_applied (r_targets r0)"
    using arg_cong [OF assms, of r_op_id] arg_cong [OF assms, of r_operation] arg_cong [OF assms, of r_created_at]
      arg_cong [OF assms, of r_agent] arg_cong [OF assms, of r_identity] arg_cong [OF assms, of r_lineage]
      arg_cong [OF assms, of r_payload] arg_cong [OF assms, of r_pre] arg_cong [OF assms, of r_read]
      arg_cong [OF assms, of r_policy] arg_cong [OF assms, of r_meta] arg_cong [OF assms, of r_targets]
    by (simp_all add: plan_of_def strip_applied_def [abs_def])
qed

lemma plan_of_length: "plan_of r = plan_of r0 \<Longrightarrow> length (r_targets r) = length (r_targets r0)"
  using plan_of_fields(12) by (metis length_map)

lemma list_all_strip:
  assumes "map strip_applied ts = map strip_applied us" and "\<And>t. P (strip_applied t) = P t"
  shows "list_all P ts = list_all P us"
proof -
  have "list_all P xs = list_all P (map strip_applied xs)" for xs
    by (simp add: list.pred_map comp_def assms(2))
  then show ?thesis using assms(1) by metis
qed

lemma map_strip:
  assumes "map strip_applied ts = map strip_applied us" and "\<And>t. f (strip_applied t) = f t"
  shows "map f ts = map f us"
proof -
  have "map f xs = map f (map strip_applied xs)" for xs by (simp add: assms(2))
  then show ?thesis using assms(1) by metis
qed

lemma wf_settled:
  assumes "wf_record env name d r0" and "plan_of r = plan_of r0" and "r_status r0 = PREPARED" and "r_status r \<in> set SETTLED"
  shows "wf_record env name d' r"
proof -
  note f = plan_of_fields [OF assms(2)]
  have "list_all (wf_target env) (r_targets r) = list_all (wf_target env) (r_targets r0)"
    by (rule list_all_strip [OF f(12)]) (simp add: wf_target_def)
  moreover have "map (\<lambda>t. target_parts env (t_path t)) (r_targets r) = map (\<lambda>t. target_parts env (t_path t)) (r_targets r0)"
    by (rule map_strip [OF f(12)]) simp
  ultimately have "wf_targets env (r_targets r)" using assms(1) by (simp add: wf_record_def wf_targets_def)
  moreover have "wf_header name r" using assms(1,3,4) by (auto simp: wf_record_def wf_header_def f)
  ultimately show ?thesis using assms(4) by (simp add: wf_record_def status_partition)
qed

section \<open>Settling\<close>

text \<open>What a reader sees of an operation, wherever its directory is.\<close>

definition reads_as :: "engine_env \<Rightarrow> string \<Rightarrow> op_record \<Rightarrow> status \<Rightarrow> world \<Rightarrow> bool" where
  "reads_as E op_id r0 st w \<longleftrightarrow>
     journal_exists op_id w \<and>
     (\<exists>r. decode_operation_record (os E) op_id (journal_dir (journal_place op_id w) op_id w) False = Inr r \<and>
        r_status r = st \<and> plan_of r = plan_of r0)"

text \<open>
  The window between the settled sidecar and its fold: the decoder refuses the directory.
\<close>

definition unfolded :: "engine_env \<Rightarrow> string \<Rightarrow> world \<Rightarrow> bool" where
  "unfolded E op_id w \<longleftrightarrow>
     journal_exists op_id w \<and>
     decode_operation_record (os E) op_id (journal_dir (journal_place op_id w) op_id w) False =
       Inl (Untrusted ''settlement did not fold'')"

lemma journal_place_ops: "dir_at In_Ops op_id w = Some d \<Longrightarrow> manifest d \<noteq> None \<Longrightarrow> journal_place op_id w = In_Ops"
  by (auto simp: journal_place_def)

lemma journal_at_ops:
  assumes "dir_at In_Ops op_id w = Some d" and "manifest d \<noteq> None"
  shows "journal_exists op_id w" "journal_dir (journal_place op_id w) op_id w = d"
  using assms by (simp_all add: journal_exists_def journal_place_ops journal_dir_def)

lemma decode_settled:
  assumes "decode_manifest env name d = Inr r" "r_status r \<in> set SETTLED"
    and "progress d = None \<or> good_sidecar (length (r_targets r)) (r_status r) d"
  shows "\<exists>r'. decode_operation_record env name d False = Inr r' \<and> r_status r' = r_status r \<and> plan_of r' = plan_of r"
proof (cases "progress d")
  case None
  with assms show ?thesis by (simp add: decode_operation_record_def merge_progress_sidecar_def)
next
  case (Some p)
  with assms show ?thesis using decode_good_sidecar [OF assms(1)] by auto
qed

lemma decode_unfolded:
  assumes "decode_manifest env name d = Inr r0" and "r_status r0 = PREPARED"
    and g: "good_sidecar (length (r_targets r0)) st d" and "st \<in> set SETTLED"
  shows "decode_operation_record env name d False = Inl (Untrusted ''settlement did not fold'')"
proof -
  obtain p where p: "progress d = Some (Some (JObj p))" "jget p ''status'' = JStr (status_name st)"
    and b: "opt_int (jget p ''progress_index'') 0 (int (length (r_targets r0)))"
      "opt_int (jget p ''applied_frontier'') (-1) (max (int (length (r_targets r0)) - 1) (-1))"
    using g by (auto simp: good_sidecar_def)
  obtain i k where "bounded_int (jget p ''progress_index'') 0 (int (length (r_targets r0))) = Some i"
    "bounded_int (jget p ''applied_frontier'') (-1) (max (int (length (r_targets r0)) - 1) (-1)) = Some k"
    using bounded_opt_int b by blast
  then show ?thesis
    using p assms by (simp add: decode_operation_record_def merge_progress_sidecar_def decode_progress_sidecar_def)
qed

lemma decode_settled_record:
  assumes "wf_record env name d0 r0" "plan_of r = plan_of r0" "r_status r0 = PREPARED" "r_status r \<in> set SETTLED"
    and "manifest d = Some (Some (encode_record r))"
    and "progress d = None \<or> good_sidecar (length (r_targets r0)) (r_status r) d"
  shows "\<exists>r'. decode_operation_record env name d False = Inr r' \<and> r_status r' = r_status r \<and> plan_of r' = plan_of r0"
proof -
  have "decode_manifest env name d = Inr r"
    by (rule decode_manifest_encode [OF wf_settled [OF assms(1-4)] assms(5)])
  from decode_settled [OF this assms(4)] assms(2,6) plan_of_length [OF assms(2)] show ?thesis by auto
qed

lemma reads_as_at:
  assumes "dir_at In_Ops op_id w = Some d" "manifest d \<noteq> None"
    and "decode_operation_record (os E) op_id d False = Inr r" "r_status r = st" "plan_of r = plan_of r0"
  shows "reads_as E op_id r0 st w"
  using assms journal_at_ops [OF assms(1,2)] by (auto simp: reads_as_def)

lemma settle_reads_as:
  assumes "reads_as E op_id r0 st w" and "dir_at In_Ops op_id w = Some d" and "manifest d \<noteq> None"
  shows "reads_as E op_id r0 st (settle_journal E In_Ops op_id w)"
proof (cases "e_settle_refused E op_id \<or> dir_at In_Settled op_id w \<noteq> None")
  case True
  with assms show ?thesis by (simp add: settle_journal_def)
next
  case False
  let ?w = "settle_journal E In_Ops op_id w"
  from False assms(2) have w: "?w = w\<lparr>ops := dict_pop op_id (ops w), settled := dict_set op_id d (settled w)\<rparr>"
    by (simp add: settle_journal_def)
  have "dir_at In_Ops op_id ?w = None" "dir_at In_Settled op_id ?w = Some d"
    by (simp_all add: w dir_at_def)
  then have "journal_place op_id ?w = In_Settled" "journal_dir In_Settled op_id ?w = d"
    by (simp_all add: journal_place_def journal_dir_def)
  with assms journal_at_ops [OF assms(2,3)] show ?thesis by (simp add: reads_as_def journal_exists_def)
qed

text \<open>
  \<open>mark(COMMITTED)\<close> and \<open>mark(ABORTED)\<close> on a directory in flight: the first durable state is the
  unfolded window, every later one reads as settled, and no project file changes.
\<close>

lemma mark_settled:
  assumes at: "dir_at In_Ops op_id w = Some d" and f: "dir_in_flight (os E) op_id r0 st0 d"
    and st: "st \<in> set SETTLED"
  shows "\<exists>w1 tr. mark E In_Ops op_id st None None w = (w1 # tr, True) \<and> tr \<noteq> [] \<and> unfolded E op_id w1 \<and>
    (\<forall>w' \<in> set tr. reads_as E op_id r0 st w') \<and> (\<forall>w' \<in> set (w1 # tr). files w' = files w)"
proof -
  let ?d1 = "mark_sidecar st None None d" and ?env = "os E"
  let ?w1 = "put_dir In_Ops op_id ?d1 w"
  have dir: "journal_dir In_Ops op_id w = d" by (simp add: journal_dir_def at)
  have f1: "dir_in_flight ?env op_id r0 st ?d1" by (rule in_flight_mark_plain [OF f])
  then have m1: "decode_manifest ?env op_id ?d1 = Inr r0" and p0: "r_status r0 = PREPARED"
    and g1: "good_sidecar (length (r_targets r0)) st ?d1"
    using st by (auto simp: dir_in_flight_def)
  have wf: "wf_record ?env op_id ?d1 r0" by (rule decode_manifest_sound [OF m1])
  have man: "manifest ?d1 \<noteq> None" using m1 by (auto simp: decode_manifest_def split: option.splits)
  obtain r where r: "decode_operation_record ?env op_id ?d1 True = Inr r" "r_status r = st" "plan_of r = plan_of r0"
    using in_flight_decode [OF f1, of True] by auto
  define d2 where "d2 = ?d1\<lparr>manifest := Some (Some (encode_record r))\<rparr>"
  define d3 where "d3 = d2\<lparr>progress := None\<rparr>"
  define w2 where "w2 = put_dir In_Ops op_id d2 w"
  define w3 where "w3 = put_dir In_Ops op_id d3 w"
  define w4 where "w4 = (if st = COMMITTED then drop_staged E In_Ops op_id w3 else w3)"
  define tr where "tr = [w2, w3] @ (if st = COMMITTED then [w4] else []) @ [settle_journal E In_Ops op_id w4]"
  have mark: "mark E In_Ops op_id st None None w = (?w1 # tr, True)"
    using st r(1) by (simp add: mark_def dir Let_def fold_manifest_def tr_def w2_def w3_def w4_def d2_def d3_def)
  have g2: "good_sidecar (length (r_targets r0)) st d2" using g1 by (simp add: good_sidecar_def d2_def)
  have st': "r_status r \<in> set SETTLED" using st r(2) by simp
  have rec: "\<exists>r'. decode_operation_record ?env op_id d' False = Inr r' \<and> r_status r' = st \<and> plan_of r' = plan_of r0"
    if "manifest d' = Some (Some (encode_record r))" "progress d' = None \<or> good_sidecar (length (r_targets r0)) st d'" for d'
    using decode_settled_record [OF wf r(3) p0 st' that(1)] that(2) r(2) by simp
  have "unfolded E op_id ?w1"
    using decode_unfolded [OF m1 p0 g1 st] journal_at_ops [of op_id ?w1 ?d1] man by (simp add: unfolded_def)
  moreover have r2: "reads_as E op_id r0 st w2"
    using rec [of d2] g2 by (auto simp: w2_def d2_def intro: reads_as_at)
  moreover have r3: "reads_as E op_id r0 st w3"
    using rec [of d3] by (auto simp: w3_def d3_def d2_def intro: reads_as_at)
  moreover have "\<exists>d4. dir_at In_Ops op_id w4 = Some d4 \<and> manifest d4 \<noteq> None \<and> reads_as E op_id r0 st w4"
  proof (cases "st = COMMITTED")
    case True
    let ?d4 = "d3\<lparr>staged := filter (\<lambda>(name, _). e_unlink_refused E op_id name) (staged d3)\<rparr>"
    have "dir_at In_Ops op_id w4 = Some ?d4"
      using True by (auto simp: w4_def drop_staged_def w3_def Let_def dir_at_def put_dir_def journal_dir_def)
    moreover have "manifest ?d4 = Some (Some (encode_record r))" "progress ?d4 = None"
      by (simp_all add: d3_def d2_def)
    ultimately show ?thesis using rec [of ?d4] by (auto intro: reads_as_at)
  next
    case False
    then show ?thesis using r3 by (simp add: w4_def) (simp add: w3_def d3_def d2_def)
  qed
  ultimately have "\<forall>w' \<in> set tr. reads_as E op_id r0 st w'"
    using settle_reads_as unfolding tr_def by (auto simp: w4_def split: if_splits)
  moreover have "\<forall>w' \<in> set (?w1 # tr). files w' = files w" using mark_files [OF mark] .
  moreover have "tr \<noteq> []" by (simp add: tr_def)
  ultimately show ?thesis using mark \<open>unfolded E op_id ?w1\<close> by blast
qed

end
