(* ===== verification/Request.thy ===== *)
theory Request
  imports Recovery
begin

text \<open>
  The one validation gate of a mutation: \<open>validate_mutation_request\<close> of \<open>journal.py\<close>.  The fields
  of the call whose type the gate checks are documents; a payload (text or bytes) is a \<open>JStr\<close>.
\<close>

record request =
  q_op_id :: string
  q_operation :: json
  q_agent :: json
  q_identity :: json
  q_payload :: json
  q_targets :: json
  q_pre :: json
  q_policy :: string
  q_read :: json
  q_meta :: json

text \<open>One admitted target; \<open>planned_before_hash\<close> is only read for a \<open>delete_dir\<close>.\<close>

record asked =
  k_path :: string
  k_role :: string
  k_action :: action
  k_content :: bytes
  k_planned :: string

record admitted =
  v_targets :: "asked list"
  v_pre :: "(string, string) dict"
  v_read :: "(string, string) dict"
  v_meta :: "(string, json) dict option"

definition ACCEPTED_DEBT_DIR_PREFIX :: string where
  "ACCEPTED_DEBT_DIR_PREFIX = ''.saipen/recovery/conformance/accepted_debt/''"

definition ACCEPTED_DEBT_OPERATIONS :: "string list" where
  "ACCEPTED_DEBT_OPERATIONS = [''accepted_debt.register'', ''accepted_debt.rebind'']"

fun strip_dot_slash :: "string \<Rightarrow> string" where
  "strip_dot_slash (c # d # s) = (if c = CHR ''.'' \<and> d = CHR ''/'' then strip_dot_slash s else c # d # s)"
| "strip_dot_slash s = s"

definition claims_accepted_debt :: "json \<Rightarrow> bool" where
  "claims_accepted_debt j =
     (case j of
        JObj t \<Rightarrow>
          startswith
            (strip_dot_slash (map (\<lambda>c. if c = CHR 92 then CHR ''/'' else c) (the_str (jget t ''path''))))
            ACCEPTED_DEBT_DIR_PREFIX
      | _ \<Rightarrow> False)"

definition text_problem :: "request \<Rightarrow> string option" where
  "text_problem q =
     (if isl (validate_op_id (q_op_id q)) then Some ''op_id''
      else map_option fst (find (\<lambda>(_, v). \<not> is_str v \<or> v = JStr [])
        [(''operation'', q_operation q), (''agent'', q_agent q), (''project_identity'', q_identity q),
         (''semantic_payload_hash'', q_payload q)]))"

definition is_map :: "json \<Rightarrow> bool" where
  "is_map j \<longleftrightarrow> j = JNull \<or> is_obj j"

definition entries :: "json \<Rightarrow> (string, json) dict" where
  "entries j = (case j of JObj d \<Rightarrow> d | _ \<Rightarrow> [])"

definition shape_problem :: "request \<Rightarrow> string option" where
  "shape_problem q =
     (if q_policy q \<notin> set VERIFICATION_POLICIES then Some ''verification_policy''
      else if \<not> is_map (q_pre q) then Some ''preconditions''
      else if \<not> is_map (q_read q) then Some ''read_preconditions''
      else if isl (canonical_receipt_metadata (q_meta q)) then Some ''receipt_metadata''
      else case q_targets q of
        JList js \<Rightarrow>
          if the_str (q_operation q) \<notin> set ACCEPTED_DEBT_OPERATIONS \<and> list_ex claims_accepted_debt js
          then Some ''accepted_debt'' else None
      | _ \<Rightarrow> Some ''targets'')"

section \<open>Targets\<close>

text \<open>\<open>owned_target_path(root, path).relative_to(root).as_posix()\<close>.\<close>

definition canonical_path :: "os_env \<Rightarrow> string \<Rightarrow> string + string" where
  "canonical_path env path =
     (case owned_target_path lex_realpath (project_root env) path of
        Inl _ \<Rightarrow> Inl ''path escapes the project''
      | Inr _ \<Rightarrow> Inr (as_posix (target_parts env path)))"

definition role_of :: "(string, json) dict \<Rightarrow> json" where
  "role_of t = (case dict_get t ''role'' of None \<Rightarrow> JStr ''generic'' | Some r \<Rightarrow> r)"

definition admit_target :: "os_env \<Rightarrow> string list \<Rightarrow> json \<Rightarrow> string + asked" where
  "admit_target env seen j =
     (case j of
        JObj t \<Rightarrow>
          let path = the_str (jget t ''path'') in
          if path = [] then Inl ''target path must be a non-empty string''
          else (case canonical_path env path of
            Inl e \<Rightarrow> Inl e
          | Inr canonical \<Rightarrow>
            if canonical \<in> set seen then Inl ''duplicate target path''
            else if the_str (role_of t) \<notin> set ROLES then Inl ''role''
            else (case parse_action t of
              None \<Rightarrow> Inl ''action''
            | Some a \<Rightarrow>
              if a = Write \<and> \<not> is_str (jget t ''content'') then Inl ''write content''
              else Inr \<lparr>k_path = canonical, k_role = the_str (role_of t), k_action = a,
                        k_content = the_str (jget t ''content''),
                        k_planned = the_str (jget t ''planned_before_hash'')\<rparr>))
      | _ \<Rightarrow> Inl ''every target must be a mapping'')"

fun admit_targets :: "os_env \<Rightarrow> string list \<Rightarrow> json list \<Rightarrow> string + asked list" where
  "admit_targets env seen [] = Inr []"
| "admit_targets env seen (j # js) =
     (case admit_target env seen j of
        Inl e \<Rightarrow> Inl e
      | Inr k \<Rightarrow>
          (case admit_targets env (k_path k # seen) js of Inl e \<Rightarrow> Inl e | Inr ks \<Rightarrow> Inr (k # ks)))"

section \<open>Preconditions\<close>

text \<open>A later spelling of the same canonical key overwrites the earlier one.\<close>

fun admit_map :: "(string \<Rightarrow> string + string) \<Rightarrow> (string, json) dict \<Rightarrow> (string, string) dict \<Rightarrow> string + (string, string) dict" where
  "admit_map canonical [] acc = Inr acc"
| "admit_map canonical ((path, v) # rest) acc =
     (if path = [] then Inl ''precondition key''
      else if \<not> is_str v then Inl ''precondition value''
      else case canonical path of
        Inl e \<Rightarrow> Inl e
      | Inr key \<Rightarrow> admit_map canonical rest (dict_set key (the_str v) acc))"

text \<open>An explicitly absolute read stays absolute; a relative one gets the owned spelling.\<close>

definition canonical_read :: "os_env \<Rightarrow> string \<Rightarrow> string + string" where
  "canonical_read env path =
     (if startswith path ''/'' then Inr (CHR ''/'' # join ''/'' (posix_parts path)) else canonical_path env path)"

section \<open>The gate\<close>

definition admit_bodies :: "os_env \<Rightarrow> request \<Rightarrow> json list \<Rightarrow> string + admitted" where
  "admit_bodies env q js =
     (case admit_targets env [] js of
        Inl e \<Rightarrow> Inl e
      | Inr ks \<Rightarrow>
          (case admit_map (canonical_path env) (entries (q_pre q)) [] of
             Inl e \<Rightarrow> Inl e
           | Inr pre \<Rightarrow>
               (case admit_map (canonical_read env) (entries (q_read q)) [] of
                  Inl e \<Rightarrow> Inl e
                | Inr rd \<Rightarrow>
                    if list_ex (\<lambda>k. k_path k \<in> set (dict_keys rd)) ks then Inl ''owned and read-only''
                    else Inr \<lparr>v_targets = ks, v_pre = pre, v_read = rd,
                              v_meta = projr (canonical_receipt_metadata (q_meta q))\<rparr>)))"

definition validate_mutation_request :: "os_env \<Rightarrow> request \<Rightarrow> string + admitted" where
  "validate_mutation_request env q =
     (case text_problem q of
        Some f \<Rightarrow> Inl f
      | None \<Rightarrow>
          (case shape_problem q of
             Some f \<Rightarrow> Inl f
           | None \<Rightarrow> admit_bodies env q (target_docs [(''targets'', q_targets q)])))"

section \<open>What the gate promises\<close>

definition wf_asked :: "os_env \<Rightarrow> asked \<Rightarrow> bool" where
  "wf_asked env k \<longleftrightarrow>
     (\<exists>path. path \<noteq> [] \<and> \<not> isl (owned_target_path lex_realpath (project_root env) path) \<and>
        k_path k = as_posix (target_parts env path)) \<and>
     k_role k \<in> set ROLES"

lemma canonical_pathD:
  "canonical_path env path = Inr c \<Longrightarrow>
     \<not> isl (owned_target_path lex_realpath (project_root env) path) \<and> c = as_posix (target_parts env path)"
  by (auto simp: canonical_path_def split: sum.splits)

lemma admit_targetD:
  assumes "admit_target env seen j = Inr k"
  shows "wf_asked env k \<and> k_path k \<notin> set seen"
proof -
  obtain t where j: "j = JObj t" using assms by (cases j) (auto simp: admit_target_def)
  let ?path = "the_str (jget t ''path'')"
  have ne: "?path \<noteq> []" using assms by (auto simp: admit_target_def j)
  with assms obtain c where c: "canonical_path env ?path = Inr c"
    by (auto simp: admit_target_def j Let_def split: sum.splits)
  from assms ne c have s: "c \<notin> set seen" "the_str (role_of t) \<in> set ROLES"
    by (auto simp: admit_target_def j Let_def split: if_splits)
  with assms ne c obtain a where a: "parse_action t = Some a"
    by (auto simp: admit_target_def j Let_def split: option.splits)
  from assms ne c s a have k: "k_path k = c" "k_role k = the_str (role_of t)"
    by (auto simp: admit_target_def j Let_def split: if_splits)
  show ?thesis
    using k s ne canonical_pathD [OF c] by (auto simp: wf_asked_def)
qed

lemma admit_targetsD:
  "admit_targets env seen js = Inr ks \<Longrightarrow>
     list_all (wf_asked env) ks \<and> distinct (map k_path ks) \<and> set (map k_path ks) \<inter> set seen = {} \<and>
     length ks = length js"
proof (induction env seen js arbitrary: ks rule: admit_targets.induct)
  case (2 env seen j js)
  from "2.prems" obtain k ks' where k: "admit_target env seen j = Inr k"
    and ks': "admit_targets env (k_path k # seen) js = Inr ks'" and ks: "ks = k # ks'"
    by (auto split: sum.splits)
  from "2.IH" [OF k ks'] admit_targetD [OF k] show ?case by (auto simp: ks)
qed simp

text \<open>
  C10: what the gate admits is sound: every admitted target is the canonical spelling of an owned
  path in a closed role, no path is planned twice, none is also a read-only dependency, and no
  target of the call is lost.
\<close>

theorem admitted_request_sound:
  assumes "validate_mutation_request env q = Inr v"
  shows "list_all (wf_asked env) (v_targets v) \<and> distinct (map k_path (v_targets v)) \<and>
    set (map k_path (v_targets v)) \<inter> set (dict_keys (v_read v)) = {} \<and>
    JList (target_docs [(''targets'', q_targets q)]) = q_targets q \<and>
    length (v_targets v) = length (target_docs [(''targets'', q_targets q)]) \<and>
    \<not> isl (validate_op_id (q_op_id q))"
proof -
  let ?js = "target_docs [(''targets'', q_targets q)]"
  from assms have t: "text_problem q = None" and s: "shape_problem q = None"
    and b: "admit_bodies env q ?js = Inr v"
    by (auto simp: validate_mutation_request_def split: option.splits)
  from b obtain ks where ks: "admit_targets env [] ?js = Inr ks"
    by (auto simp: admit_bodies_def split: sum.splits)
  with b obtain pre where pre: "admit_map (canonical_path env) (entries (q_pre q)) [] = Inr pre"
    by (auto simp: admit_bodies_def split: sum.splits)
  with b ks obtain rd where rd: "admit_map (canonical_read env) (entries (q_read q)) [] = Inr rd"
    by (auto simp: admit_bodies_def split: sum.splits)
  have no: "\<not> list_ex (\<lambda>k. k_path k \<in> set (dict_keys rd)) ks" and v: "v_targets v = ks" "v_read v = rd"
    using b by (auto simp: admit_bodies_def ks pre rd split: if_splits)
  have "JList ?js = q_targets q"
    using s by (auto simp: shape_problem_def target_docs_def jget_def split: if_splits json.splits)
  moreover have "\<not> isl (validate_op_id (q_op_id q))" using t by (auto simp: text_problem_def split: if_splits)
  moreover have "set (map k_path ks) \<inter> set (dict_keys rd) = {}" using no by (auto simp: list_ex_iff)
  ultimately show ?thesis using admit_targetsD [OF ks] by (simp add: v)
qed

definition demo_request :: "string \<Rightarrow> request" where
  "demo_request path = \<lparr>q_op_id = ''op-1'', q_operation = JStr ''note'', q_agent = JStr ''a'', q_identity = JStr ''id'',
     q_payload = JStr ''h'', q_targets = JList [JObj [(''path'', JStr path), (''content'', JStr ''x'')]],
     q_pre = JNull, q_policy = ''none'', q_read = JNull, q_meta = JNull\<rparr>"

theorem admitted_request_sound_witness:
  "\<exists>v. validate_mutation_request demo_env (demo_request ''d/./f'') = Inr v \<and> map k_path (v_targets v) = [''d/f''] \<and>
     list_all (wf_asked demo_env) (v_targets v)"
proof -
  have "case validate_mutation_request demo_env (demo_request ''d/./f'') of
      Inl _ \<Rightarrow> False | Inr v \<Rightarrow> map k_path (v_targets v) = [''d/f'']"
    by code_simp
  then have "\<exists>v. validate_mutation_request demo_env (demo_request ''d/./f'') = Inr v \<and> map k_path (v_targets v) = [''d/f'']"
    by (rule evaluated_Inr)
  then obtain v where v: "validate_mutation_request demo_env (demo_request ''d/./f'') = Inr v"
    and k: "map k_path (v_targets v) = [''d/f'']" by (elim exE conjE)
  from admitted_request_sound [OF v] have "list_all (wf_asked demo_env) (v_targets v)" by (elim conjE)
  with v k show ?thesis by (intro exI conjI)
qed

text \<open>
  The accepted-debt guard reads the spelling, not the object: an ordinary operation is refused
  the plain path of a record, and admitted to the very same owned path when a component is written
  twice-separated.
\<close>

theorem accepted_debt_guard_bypassed:
  "validate_mutation_request demo_env (demo_request ''.saipen/recovery/conformance/accepted_debt/AD-000002.json'')
     = Inl ''accepted_debt'' \<and>
   (\<exists>v. validate_mutation_request demo_env (demo_request ''.saipen//recovery/conformance/accepted_debt/AD-000002.json'') = Inr v \<and>
      map k_path (v_targets v) = [''.saipen/recovery/conformance/accepted_debt/AD-000002.json''])"
proof -
  have "validate_mutation_request demo_env (demo_request ''.saipen/recovery/conformance/accepted_debt/AD-000002.json'')
     = Inl ''accepted_debt''" by code_simp
  moreover have "case validate_mutation_request demo_env
        (demo_request ''.saipen//recovery/conformance/accepted_debt/AD-000002.json'') of
      Inl _ \<Rightarrow> False
    | Inr v \<Rightarrow> map k_path (v_targets v) = [''.saipen/recovery/conformance/accepted_debt/AD-000002.json'']"
    by code_simp
  ultimately show ?thesis by (intro conjI) (assumption, rule evaluated_Inr)
qed

end
