(* ===== verification/Pending.thy ===== *)
theory Pending
  imports Recovery "HOL-Library.Product_Lexorder"
begin

text \<open>
  The mandatory scan before a mutation: \<open>scan_pending\<close>, \<open>inspect_op\<close>, \<open>_conflict_diverges\<close>,
  \<open>recovery_preflight\<close> and \<open>auto_recover_pending\<close> of \<open>journal.py\<close>.  The namespace is a directory of
  operation directories; links and unreadable containers are outside the model.
\<close>

section \<open>One traversal\<close>

text \<open>A status of \<open>None\<close> is \<open>CORRUPT_JOURNAL\<close>.\<close>

record pend =
  p_id :: string
  p_status :: "status option"
  p_created :: string

definition pend_of :: "os_env \<Rightarrow> string \<times> op_dir \<Rightarrow> pend list" where
  "pend_of env e =
     (case e of (name, d) \<Rightarrow>
        if manifest d = None then [\<lparr>p_id = name, p_status = None, p_created = []\<rparr>]
        else case decode_operation_record env name d False of
          Inl _ \<Rightarrow> [\<lparr>p_id = name, p_status = None, p_created = []\<rparr>]
        | Inr r \<Rightarrow>
            if r_status r \<in> set SETTLED then []
            else [\<lparr>p_id = r_op_id r, p_status = Some (r_status r), p_created = r_created_at r\<rparr>])"

definition earliest :: stamp where
  "earliest = \<lparr>year = 1, month = 1, day = 1, hour = 0, minute = 0, second = 0, micro = 0\<rparr>"

definition pend_key :: "pend \<Rightarrow> nat \<times> string" where
  "pend_key p = (instant (case iso_utc_sort_key (p_created p) of None \<Rightarrow> earliest | Some t \<Rightarrow> t), p_id p)"

definition scan_pending :: "os_env \<Rightarrow> world \<Rightarrow> pend list \<times> pend list" where
  "scan_pending env w =
     (let found = sort_key pend_key (concat (map (pend_of env) (ops w)))
      in (found, filter (\<lambda>p. p_status p = Some CONFLICT) found))"

section \<open>Inspection\<close>

record inspected =
  i_path :: string
  i_current :: string
  i_conflicts :: bool

record inspection =
  n_status :: status
  n_targets :: "inspected list"
  n_conflicting :: "string list"
  n_classes :: "string list"

definition RESOLUTION_CLASSES :: "string list" where
  "RESOLUTION_CLASSES = [''accept_live'', ''replan'', ''reconcile'']"

definition inspect_target :: "os_env \<Rightarrow> store \<Rightarrow> target \<Rightarrow> inspected" where
  "inspect_target env st t =
     (let live = target_live_hash env st t;
          expected = (if t_applied t then t_after t else t_before t)
      in \<lparr>i_path = t_path t, i_current = live, i_conflicts = (live \<noteq> expected)\<rparr>)"

definition inspect_op :: "os_env \<Rightarrow> string \<Rightarrow> world \<Rightarrow> string + inspection" where
  "inspect_op env op_id0 w =
     (case validate_op_id op_id0 of
        Inl _ \<Rightarrow> Inl ''VALIDATION_FAILED''
      | Inr op_id \<Rightarrow>
          if \<not> journal_exists op_id w then Inl ''TICKET_NOT_FOUND''
          else case decode_operation_record env op_id (journal_dir (journal_place op_id w) op_id w) False of
            Inl e \<Rightarrow> Inl (decode_code e)
          | Inr r \<Rightarrow>
              let ts = map (inspect_target env (files w)) (r_targets r) in
              Inr \<lparr>n_status = r_status r, n_targets = ts,
                   n_conflicting = map i_path (filter i_conflicts ts),
                   n_classes = (if r_status r = CONFLICT then RESOLUTION_CLASSES else [])\<rparr>)"

definition conflict_diverges :: "os_env \<Rightarrow> world \<Rightarrow> string \<Rightarrow> bool" where
  "conflict_diverges env w op_id =
     (case inspect_op env op_id w of Inl _ \<Rightarrow> True | Inr n \<Rightarrow> n_conflicting n \<noteq> [])"

section \<open>The gate before a mutation\<close>

datatype conflict_advice = Bare_Recover | Explicit_Resolve

definition conflict_route :: "os_env \<Rightarrow> world \<Rightarrow> string \<Rightarrow> conflict_advice" where
  "conflict_route env w op_id = (if conflict_diverges env w op_id then Explicit_Resolve else Bare_Recover)"

definition recovery_preflight :: "engine_env \<Rightarrow> world \<Rightarrow> string \<Rightarrow> world list \<times> reply" where
  "recovery_preflight E w exclude =
     (let (pending, conflicts) = scan_pending (os E) w;
          corrupt = filter (\<lambda>p. p_status p = None) pending;
          conflicts' = filter (\<lambda>p. p_id p \<noteq> exclude) conflicts;
          pending' = filter (\<lambda>p. p_id p \<noteq> exclude) pending
      in if corrupt \<noteq> [] then ([], (refuse ''CORRUPT_JOURNAL'')\<lparr>a_ops := map p_id corrupt\<rparr>)
         else if conflicts' \<noteq> [] then ([], (refuse ''RECOVERY_CONFLICT'')\<lparr>a_ops := map p_id conflicts'\<rparr>)
         else case pending' of
           [] \<Rightarrow> ([], answer True ''OK'' False)
         | [p] \<Rightarrow>
             let (tr, a) = recover_locked E (p_id p) w
             in (tr, if a_ok a then (answer True ''OK'' False)\<lparr>a_ops := [p_id p]\<rparr> else a)
         | ps \<Rightarrow> ([], (refuse ''RECOVERY_REQUIRED'')\<lparr>a_ops := map p_id ps\<rparr>))"

section \<open>Recovering everything\<close>

fun recover_each :: "engine_env \<Rightarrow> pend list \<Rightarrow> string list \<Rightarrow> world \<Rightarrow> world list \<times> reply" where
  "recover_each E [] recovered w = ([], (answer True ''RECOVERED'' False)\<lparr>a_ops := recovered\<rparr>)"
| "recover_each E (p # ps) recovered w =
     (if p_status p = None then ([], (refuse ''CORRUPT_JOURNAL'')\<lparr>a_ops := [p_id p]\<rparr>)
      else let (tr, a) = recover_locked E (p_id p) w; w' = final w tr in
        if \<not> a_ok a then (tr, a\<lparr>a_ops := map p_id (fst (scan_pending (os E) w'))\<rparr>)
        else let (tr', a') = recover_each E ps (recovered @ [p_id p]) w' in (tr @ tr', a'))"

definition auto_recover_pending :: "engine_env \<Rightarrow> world \<Rightarrow> world list \<times> reply" where
  "auto_recover_pending E w =
     (let pending = fst (scan_pending (os E) w) in
      if pending = [] then ([], answer True ''CLEAN'' False) else recover_each E pending [] w)"

section \<open>What the scan and the gate promise\<close>

definition reported :: "os_env \<Rightarrow> world \<Rightarrow> string \<Rightarrow> status option \<Rightarrow> bool" where
  "reported env w name st \<longleftrightarrow> (\<exists>p \<in> set (fst (scan_pending env w)). p_id p = name \<and> p_status p = st)"

lemma scan_set: "set (fst (scan_pending env w)) = (\<Union>e \<in> set (ops w). set (pend_of env e))"
  by (simp add: scan_pending_def Let_def)

lemma decoded_name:
  assumes "decode_operation_record env name d allow = Inr r"
  shows "r_op_id r = name"
proof -
  from assms obtain r0 where "decode_manifest env name d = Inr r0" and m: "merge_progress_sidecar d r0 allow = Inr r"
    by (auto simp: decode_operation_record_def split: sum.splits)
  then have "r_op_id r0 = name" using decode_manifest_sound by (auto simp: wf_record_def wf_header_def)
  with m show ?thesis by (auto simp: merge_progress_sidecar_def split: option.splits sum.splits)
qed

text \<open>
  the scan launders nothing and reports in order: every operation directory that is not a
  readable settled receipt is reported, as corrupt when the decoder refuses it and with its status
  otherwise; what is reported is oldest first, by instant and then by id.
\<close>

theorem scan_complete_ordered:
  "(\<forall>(name, d) \<in> set (ops w).
      (case decode_operation_record env name d False of
         Inl _ \<Rightarrow> reported env w name None
       | Inr r \<Rightarrow> r_status r \<in> set SETTLED \<or> reported env w name (Some (r_status r)))) \<and>
   sorted (map pend_key (fst (scan_pending env w))) \<and>
   snd (scan_pending env w) = filter (\<lambda>p. p_status p = Some CONFLICT) (fst (scan_pending env w))"
proof -
  have "case decode_operation_record env name d False of
         Inl _ \<Rightarrow> reported env w name None
       | Inr r \<Rightarrow> r_status r \<in> set SETTLED \<or> reported env w name (Some (r_status r))"
    if e: "(name, d) \<in> set (ops w)" for name d
  proof -
    have rep: "reported env w name (p_status p)" if "p \<in> set (pend_of env (name, d))" "p_id p = name" for p
      unfolding reported_def scan_set using e that by blast
    show ?thesis
    proof (cases "decode_operation_record env name d False")
      case (Inl x)
      have "\<lparr>p_id = name, p_status = None, p_created = []\<rparr> \<in> set (pend_of env (name, d))"
        by (simp add: pend_of_def Inl)
      from rep [OF this] Inl show ?thesis by simp
    next
      case (Inr r)
      have m: "manifest d \<noteq> None"
        using Inr by (cases "manifest d") (simp_all add: decode_operation_record_def decode_manifest_def)
      show ?thesis
      proof (cases "r_status r \<in> set SETTLED")
        case False
        then have "\<lparr>p_id = r_op_id r, p_status = Some (r_status r), p_created = r_created_at r\<rparr> \<in> set (pend_of env (name, d))"
          by (simp add: pend_of_def Inr m)
        from rep [OF this] decoded_name [OF Inr] Inr show ?thesis by simp
      qed (simp add: Inr)
    qed
  qed
  moreover have "sorted (map pend_key (fst (scan_pending env w)))"
    by (simp add: scan_pending_def Let_def)
  ultimately show ?thesis by (auto simp: scan_pending_def Let_def)
qed

text \<open>The directories of the journal, read one by one: the reference the gate is measured against.\<close>

definition clean_dir :: "engine_env \<Rightarrow> string \<Rightarrow> string \<times> op_dir \<Rightarrow> bool" where
  "clean_dir E exclude = (\<lambda>(name, d).
     case decode_operation_record (os E) name d False of
       Inl _ \<Rightarrow> False
     | Inr r \<Rightarrow> r_status r = CONFLICT \<longrightarrow> name = exclude)"

definition open_dir :: "engine_env \<Rightarrow> string \<Rightarrow> string \<times> op_dir \<Rightarrow> bool" where
  "open_dir E exclude = (\<lambda>(name, d).
     name \<noteq> exclude \<and>
     (case decode_operation_record (os E) name d False of Inl _ \<Rightarrow> True | Inr r \<Rightarrow> r_status r \<notin> set SETTLED))"

lemma pend_of_decoded:
  assumes "decode_operation_record env name d False = Inr r"
  shows "pend_of env (name, d) =
    (if r_status r \<in> set SETTLED then []
     else [\<lparr>p_id = name, p_status = Some (r_status r), p_created = r_created_at r\<rparr>])"
proof -
  have "manifest d \<noteq> None"
    using assms by (cases "manifest d") (simp_all add: decode_operation_record_def decode_manifest_def)
  then obtain m where "manifest d = Some m" by blast
  then show ?thesis using assms decoded_name [OF assms] by (simp add: pend_of_def)
qed

lemma pend_of_refused:
  "decode_operation_record env name d False = Inl e \<Longrightarrow>
     pend_of env (name, d) = [\<lparr>p_id = name, p_status = None, p_created = []\<rparr>]"
  by (simp add: pend_of_def)

lemma scan_corrupt_free:
  "(\<forall>p \<in> set (fst (scan_pending (os E) w)). p_status p \<noteq> None \<and> (p_id p \<noteq> exclude \<longrightarrow> p_status p \<noteq> Some CONFLICT)) \<longleftrightarrow>
   list_all (clean_dir E exclude) (ops w)"
proof -
  have "(\<forall>p \<in> set (pend_of (os E) e). p_status p \<noteq> None \<and> (p_id p \<noteq> exclude \<longrightarrow> p_status p \<noteq> Some CONFLICT)) \<longleftrightarrow>
      clean_dir E exclude e" for e
  proof (cases e)
    case (Pair name d)
    show ?thesis
      by (cases "decode_operation_record (os E) name d False")
         (auto simp: Pair clean_dir_def pend_of_decoded pend_of_refused SETTLED_def)
  qed
  then show ?thesis unfolding scan_set by (auto simp: list_all_iff)
qed

lemma scan_others:
  "map p_id (filter (\<lambda>p. p_id p \<noteq> exclude) (concat (map (pend_of (os E)) es))) = map fst (filter (open_dir E exclude) es)"
proof (induction es)
  case (Cons e es)
  obtain name d where e: "e = (name, d)" by fastforce
  show ?case using Cons
    by (cases "decode_operation_record (os E) name d False")
       (simp_all add: e open_dir_def pend_of_decoded pend_of_refused)
qed simp

lemma preflight_scan:
  "recovery_preflight E w exclude = (tr, a) \<and> a_ok a \<longleftrightarrow>
   list_all (clean_dir E exclude) (ops w) \<and>
   (let others = filter (\<lambda>p. p_id p \<noteq> exclude) (fst (scan_pending (os E) w)) in
     others = [] \<and> tr = [] \<and> a = answer True ''OK'' False \<or>
     (\<exists>p. others = [p] \<and> tr = fst (recover_locked E (p_id p) w) \<and> a_ok (snd (recover_locked E (p_id p) w)) \<and>
        a = (answer True ''OK'' False)\<lparr>a_ops := [p_id p]\<rparr>))"
proof -
  let ?all = "fst (scan_pending (os E) w)"
  let ?others = "filter (\<lambda>p. p_id p \<noteq> exclude) ?all"
  let ?c = "filter (\<lambda>p. p_status p = None) ?all"
  let ?k = "filter (\<lambda>p. p_id p \<noteq> exclude) (filter (\<lambda>p. p_status p = Some CONFLICT) ?all)"
  have unf: "recovery_preflight E w exclude =
    (if ?c \<noteq> [] then ([], (refuse ''CORRUPT_JOURNAL'')\<lparr>a_ops := map p_id ?c\<rparr>)
     else if ?k \<noteq> [] then ([], (refuse ''RECOVERY_CONFLICT'')\<lparr>a_ops := map p_id ?k\<rparr>)
     else case ?others of
       [] \<Rightarrow> ([], answer True ''OK'' False)
     | [p] \<Rightarrow> let (tr, a) = recover_locked E (p_id p) w
         in (tr, if a_ok a then (answer True ''OK'' False)\<lparr>a_ops := [p_id p]\<rparr> else a)
     | ps \<Rightarrow> ([], (refuse ''RECOVERY_REQUIRED'')\<lparr>a_ops := map p_id ps\<rparr>))"
    by (simp add: recovery_preflight_def scan_pending_def Let_def)
  have clean: "list_all (clean_dir E exclude) (ops w) \<longleftrightarrow> ?c = [] \<and> ?k = []"
    unfolding scan_corrupt_free [symmetric] by (auto simp: filter_empty_conv)
  show ?thesis
  proof (cases "?c = [] \<and> ?k = []")
    case True
    then show ?thesis unfolding unf clean Let_def
      by (auto simp: refuse_def answer_def case_prod_unfold split: list.split if_split)
  next
    case False
    then show ?thesis unfolding unf clean by (auto simp: refuse_def answer_def)
  qed
qed

text \<open>
  C9: the preflight is exact.  It admits a mutation exactly when every directory of the journal decodes
  strictly, none of them is in CONFLICT but possibly the excluded operation's own, and besides that
  operation either none is unsettled, and then nothing is written, or exactly one is, and then its
  recovery has run and succeeded.
\<close>

theorem preflight_admits_clean_only:
  "recovery_preflight E w exclude = (tr, a) \<and> a_ok a \<longleftrightarrow>
   list_all (clean_dir E exclude) (ops w) \<and>
   (filter (open_dir E exclude) (ops w) = [] \<and> tr = [] \<and> a = answer True ''OK'' False \<or>
    (\<exists>name d. filter (open_dir E exclude) (ops w) = [(name, d)] \<and> tr = fst (recover_locked E name w) \<and>
       a_ok (snd (recover_locked E name w)) \<and> a = (answer True ''OK'' False)\<lparr>a_ops := [name]\<rparr>))"
proof -
  let ?others = "filter (\<lambda>p. p_id p \<noteq> exclude) (fst (scan_pending (os E) w))"
  let ?found = "filter (\<lambda>p. p_id p \<noteq> exclude) (concat (map (pend_of (os E)) (ops w)))"
  let ?open = "filter (open_dir E exclude) (ops w)"
  have names: "map p_id ?found = map fst ?open" by (rule scan_others)
  have ord: "?others = sort_key pend_key ?found" by (simp add: scan_pending_def Let_def filter_sort)
  have len: "length ?others = length ?open" using arg_cong [OF names, of length] unfolding ord by simp
  have empty: "?others = [] \<longleftrightarrow> ?open = []"
    by (simp only: length_0_conv [symmetric] len)
  have single: "(\<exists>p. ?others = [p] \<and> P (p_id p)) \<longleftrightarrow> (\<exists>name d. ?open = [(name, d)] \<and> P name)" for P
  proof (cases "length ?open = 1")
    case True
    then obtain name d where o: "?open = [(name, d)]" by (auto simp: length_Suc_conv)
    with names obtain p where "?found = [p]" "p_id p = name" by (auto simp: map_eq_Cons_conv)
    with o show ?thesis unfolding ord by simp
  next
    case False
    then have "?others \<noteq> [p]" "?open \<noteq> [e]" for p e using len by (metis One_nat_def length_Cons list.size(3))+
    then show ?thesis by blast
  qed
  show ?thesis unfolding preflight_scan Let_def empty
    by (simp only: single [of "\<lambda>n. tr = fst (recover_locked E n w) \<and> a_ok (snd (recover_locked E n w)) \<and>
      a = (answer True ''OK'' False)\<lparr>a_ops := [n]\<rparr>"])
qed

definition demo_pending :: world where
  "demo_pending = \<lparr>files = [], ops = [(''op-1'', demo_dir), (''op-0'', empty_dir)], settled = [], debts = []\<rparr>"

definition demo_own :: world where
  "demo_own = \<lparr>files = [], ops = [(''op-1'', demo_dir)], settled = [], debts = []\<rparr>"

theorem scan_complete_ordered_witness:
  "reported demo_env demo_pending ''op-1'' (Some PREPARED) \<and> reported demo_env demo_pending ''op-0'' None"
proof -
  have e: "(''op-1'', demo_dir) \<in> set (ops demo_pending)" "(''op-0'', empty_dir) \<in> set (ops demo_pending)"
    by (simp_all add: demo_pending_def)
  have "decode_operation_record demo_env ''op-1'' demo_dir False = Inr demo_record" by code_simp
  moreover have "r_status demo_record = PREPARED" by (simp add: demo_record_def)
  moreover have "\<exists>x. decode_operation_record demo_env ''op-0'' empty_dir False = Inl x"
    by (simp add: decode_operation_record_def decode_manifest_def empty_dir_def)
  ultimately show ?thesis
    using scan_complete_ordered [of demo_pending demo_env] e by (fastforce simp: SETTLED_def)
qed

theorem preflight_admits_clean_only_witness:
  "list_all (clean_dir demo_engine ''op-1'') (ops demo_own) \<and> filter (open_dir demo_engine ''op-1'') (ops demo_own) = [] \<and>
   \<not> a_ok (snd (recovery_preflight demo_engine demo_pending ''op-1''))"
proof -
  have ok: "a_ok (snd (recovery_preflight demo_engine demo_own ''op-1''))" by code_simp
  have none: "fst (recovery_preflight demo_engine demo_own ''op-1'') = []" by code_simp
  have one: "filter (open_dir demo_engine ''op-1'') (ops demo_own) = []" by code_simp
  have bad: "\<not> list_all (clean_dir demo_engine ''op-1'') (ops demo_pending)" by code_simp
  from ok none one bad show ?thesis
    using preflight_admits_clean_only [of demo_engine demo_own "''op-1''"]
      preflight_admits_clean_only [of demo_engine demo_pending "''op-1''"] by (metis prod.collapse)
qed

end
