(* ===== verification/Mutation.thy ===== *)
theory Mutation
  imports Request Pending
begin

text \<open>
  The journaled mutation: \<open>run_mutation\<close>, \<open>Journal.start\<close>, \<open>ensure_project_lineage\<close> and the retry
  identity of \<open>journal.py\<close>.  A lineage bootstrap is
  itself a mutation with no lineage, so the common body takes the bootstrap as an argument.
\<close>

section \<open>The retry identity\<close>

definition REQUEST_METADATA_KEYS :: "string list" where
  "REQUEST_METADATA_KEYS =
     [''goal_authority_transition'', ''crew_epoch'', ''ticket_id'', ''producer'', ''package_identity'', ''input_source'',
      ''input_source_fingerprint'', ''role'', ''stage'', ''verdict'', ''source_head'', ''source_tree_fingerprint'',
      ''undo_target'', ''undo_reason'', ''undo_current'', ''undo_restore_plan_hash'']"

text \<open>\<open>json.dumps(x, sort_keys=True)\<close> identifies documents up to the order of keys.\<close>

fun json_norm :: "json \<Rightarrow> json" where
  "json_norm (JObj d) = JObj (sort_key fst (map (\<lambda>(k, v). (k, json_norm v)) d))"
| "json_norm (JList js) = JList (map json_norm js)"
| "json_norm j = j"

record fingerprint =
  fp_operation :: string
  fp_payload :: string
  fp_policy :: string
  fp_targets :: "(string \<times> string \<times> action \<times> string) list"
  fp_pre :: "(string, string) dict"
  fp_read :: "(string, string) dict"
  fp_meta :: "(string, json) dict"

definition meta_identity :: "(string, json) dict option \<Rightarrow> (string, json) dict" where
  "meta_identity m =
     (case m of
        None \<Rightarrow> []
      | Some d \<Rightarrow> concat (map (\<lambda>k. case dict_get d k of None \<Rightarrow> [] | Some v \<Rightarrow> [(k, json_norm v)]) REQUEST_METADATA_KEYS))"

definition asked_after :: "os_env \<Rightarrow> asked \<Rightarrow> string" where
  "asked_after env k = (if k_action k = Write then d_bytes env (k_content k) else [])"

text \<open>
  A committed receipt keeps only the bindings the retry names, and the retry only those the receipt
  holds.
\<close>

definition restrict_pre :: "bool \<Rightarrow> (string, string) dict \<Rightarrow> (string, string) dict \<Rightarrow> (string, string) dict" where
  "restrict_pre committed keys d = (if committed then filter (\<lambda>(k, _). k \<in> set (dict_keys keys)) d else d)"

definition request_fingerprint :: "os_env \<Rightarrow> request \<Rightarrow> admitted \<Rightarrow> op_record \<Rightarrow> fingerprint" where
  "request_fingerprint env q v r =
     (let committed = (r_status r = COMMITTED) in
      \<lparr>fp_operation = the_str (q_operation q), fp_payload = the_str (q_payload q), fp_policy = q_policy q,
       fp_targets = map (\<lambda>k. (k_path k, k_role k, k_action k, asked_after env k)) (v_targets v),
       fp_pre = sort_key fst (restrict_pre committed (r_pre r) (v_pre v)),
       fp_read = sort_key fst (restrict_pre committed (r_read r) (v_read v)),
       fp_meta = meta_identity (v_meta v)\<rparr>)"

definition record_fingerprint :: "admitted \<Rightarrow> op_record \<Rightarrow> fingerprint" where
  "record_fingerprint v r =
     (let committed = (r_status r = COMMITTED);
          pre = restrict_pre committed (r_pre r) (v_pre v); rd = restrict_pre committed (r_read r) (v_read v) in
      \<lparr>fp_operation = r_operation r, fp_payload = r_payload r, fp_policy = r_policy r,
       fp_targets = map (\<lambda>t. (t_path t, t_role t, t_action t, t_after t)) (r_targets r),
       fp_pre = sort_key fst (restrict_pre committed pre (r_pre r)),
       fp_read = sort_key fst (restrict_pre committed rd (r_read r)),
       fp_meta = meta_identity (r_meta r)\<rparr>)"

section \<open>Preparing the plan\<close>

definition prepare_target :: "os_env \<Rightarrow> store \<Rightarrow> asked \<Rightarrow> prepared" where
  "prepare_target env st k =
     \<lparr>t_path = k_path k, t_role = k_role k, t_action = k_action k,
      t_before = (if k_action k = Delete_Dir then k_planned k
                  else live_hash env st (k_action k) (target_parts env (k_path k))),
      t_after = asked_after env k, t_applied = False, t_content = k_content k\<rparr>"

definition prepare :: "os_env \<Rightarrow> store \<Rightarrow> asked list \<Rightarrow> prepared list" where
  "prepare env st ks = map (prepare_target env st) ks"

text \<open>Write preconditions are compared with the target's live hash, the rest by their token.\<close>

definition precondition_live :: "engine_env \<Rightarrow> world \<Rightarrow> prepared list \<Rightarrow> string \<Rightarrow> string \<Rightarrow> string" where
  "precondition_live E w ps path expected =
     (case find (\<lambda>t. t_path t = path) ps of
        Some t \<Rightarrow> target_live_hash (os E) (files w) t
      | None \<Rightarrow> hash_dependency E w path expected)"

definition stale_state :: "engine_env \<Rightarrow> world \<Rightarrow> prepared list \<Rightarrow> admitted \<Rightarrow> bool" where
  "stale_state E w ps v \<longleftrightarrow>
     list_ex (\<lambda>(path, expected). precondition_live E w ps path expected \<noteq> expected) (v_pre v) \<or>
     stale_dependency E w (v_read v) \<noteq> None"

section \<open>Publishing the journal\<close>

definition bare_target :: "prepared \<Rightarrow> target" where
  "bare_target t = \<lparr>t_path = t_path t, t_role = t_role t, t_action = t_action t, t_before = t_before t,
     t_after = t_after t, t_applied = False\<rparr>"

definition start_record ::
  "engine_env \<Rightarrow> string \<Rightarrow> request \<Rightarrow> admitted \<Rightarrow> string option \<Rightarrow> prepared list \<Rightarrow> op_record" where
  "start_record E op_id q v lineage ps =
     \<lparr>r_op_id = op_id, r_operation = the_str (q_operation q), r_created_at = e_now E,
      r_agent = the_str (q_agent q), r_identity = the_str (q_identity q), r_lineage = lineage,
      r_payload = the_str (q_payload q), r_pre = v_pre v, r_read = v_read v, r_policy = q_policy q,
      r_status = PREPARED, r_progress = 0, r_targets = map bare_target ps, r_meta = v_meta v\<rparr>"

fun stage :: "os_env \<Rightarrow> nat \<Rightarrow> prepared list \<Rightarrow> op_dir \<Rightarrow> op_dir list" where
  "stage env i [] d = []"
| "stage env i (t # ts) d =
     (if t_action t = Write then
        let d' = d\<lparr>staged := dict_set (staged_name env i (as_posix (target_parts env (t_path t)))) (t_content t) (staged d)\<rparr>
        in d' # stage env (Suc i) ts d'
      else stage env (Suc i) ts d)"

text \<open>
  \<open>Journal.start\<close>: the directory, one exclusive file per staged payload, then the manifest.
\<close>

definition start :: "engine_env \<Rightarrow> string \<Rightarrow> op_record \<Rightarrow> prepared list \<Rightarrow> world \<Rightarrow> world list" where
  "start E op_id r ps w =
     (let ds = empty_dir # stage (os E) 0 ps empty_dir in
      map (\<lambda>d. put_dir In_Ops op_id d w) (ds @ [(last ds)\<lparr>manifest := Some (Some (encode_record r))\<rparr>]))"

section \<open>Applying\<close>

fun apply_targets :: "engine_env \<Rightarrow> string \<Rightarrow> nat \<Rightarrow> prepared list \<Rightarrow> world \<Rightarrow> world list \<times> reply option" where
  "apply_targets E op_id i [] w = ([], None)"
| "apply_targets E op_id i (t # ts) w =
     (case classify_live (os E) (files w) t of
        ALREADY_APPLIED \<Rightarrow>
          let tr = fst (mark E In_Ops op_id APPLYING (Some (int i + 1)) (Some (int i)) w);
              (tr', res) = apply_targets E op_id (Suc i) ts (final w tr)
          in (tr @ tr', res)
      | CONFLICTED \<Rightarrow> (mark_conflict E In_Ops op_id w, Some (refuse ''CONFLICT''))
      | PENDING \<Rightarrow>
          (case perform (os E) (files w) (t_action t) (target_parts (os E) (t_path t)) (t_content t) of
             Done st \<Rightarrow>
               let w1 = w\<lparr>files := st\<rparr> in
               if target_live_hash (os E) st t \<noteq> t_after t
               then (w1 # mark_conflict E In_Ops op_id w1, Some (refuse ''CONFLICT''))
               else let tr = w1 # fst (mark E In_Ops op_id APPLYING (Some (int i + 1)) (Some (int i)) w1);
                        (tr', res) = apply_targets E op_id (Suc i) ts (final w tr)
                    in (tr @ tr', res)
           | _ \<Rightarrow> (mark_conflict E In_Ops op_id w, Some (refuse ''CONFLICT''))))"

text \<open>
  Metadata that is known only after the bytes: the finalizer's document, normalised and written into
  the manifest through the strict decoder.  \<open>None\<close> is any exception of the block.
\<close>

type_synonym finalizer = "store \<Rightarrow> (string, json) dict \<Rightarrow> json option"

definition finalized_metadata :: "finalizer \<Rightarrow> store \<Rightarrow> (string, json) dict option \<Rightarrow> (string, json) dict option" where
  "finalized_metadata fin st meta =
     (case fin st (case meta of None \<Rightarrow> [] | Some m \<Rightarrow> m) of
        Some (JObj d) \<Rightarrow>
          (case canonical_receipt_metadata (JObj d) of
             Inl _ \<Rightarrow> None
           | Inr None \<Rightarrow> Some []
           | Inr (Some m) \<Rightarrow> Some m)
      | _ \<Rightarrow> None)"

definition finalize :: "engine_env \<Rightarrow> string \<Rightarrow> finalizer option \<Rightarrow> op_record \<Rightarrow> world \<Rightarrow> world list \<times> op_record option" where
  "finalize E op_id fin r w =
     (case fin of
        None \<Rightarrow> ([], Some r)
      | Some f \<Rightarrow>
          (case finalized_metadata f (files w) (r_meta r) of
             None \<Rightarrow> (mark_conflict E In_Ops op_id w, None)
           | Some m \<Rightarrow>
               let d = journal_dir In_Ops op_id w in
               (case decode_operation_record (os E) op_id d False of
                  Inl _ \<Rightarrow> (mark_conflict E In_Ops op_id w, None)
                | Inr cur \<Rightarrow>
                    ([put_dir In_Ops op_id (d\<lparr>manifest := Some (Some (encode_record (cur\<lparr>r_meta := Some m\<rparr>)))\<rparr>) w],
                     Some (r\<lparr>r_meta := Some m\<rparr>)))))"

definition apply_errors :: "engine_env \<Rightarrow> (store \<Rightarrow> string list) option \<Rightarrow> store \<Rightarrow> op_record \<Rightarrow> string list" where
  "apply_errors E verify st r =
     (if r_policy r \<noteq> ''none'' then e_verify E (r_policy r) st (r_targets r) (r_meta r)
      else case verify of None \<Rightarrow> [] | Some f \<Rightarrow> f st)"

definition commit :: "engine_env \<Rightarrow> string \<Rightarrow> finalizer option \<Rightarrow> (store \<Rightarrow> string list) option \<Rightarrow> op_record \<Rightarrow>
    world \<Rightarrow> world list \<times> reply" where
  "commit E op_id fin verify r w =
     (if verify_target_bytes (os E) (files w) (r_targets r) \<noteq> None
      then (mark_conflict E In_Ops op_id w, refuse ''CONFLICT'')
      else let (tr1, fr) = finalize E op_id fin r w; w1 = final w tr1 in
        case fr of
          None \<Rightarrow> (tr1, refuse ''CONFLICT'')
        | Some r1 \<Rightarrow>
            if apply_errors E verify (files w1) r1 \<noteq> []
            then (tr1 @ mark_conflict E In_Ops op_id w1, refuse ''CONFLICT'')
            else let (tr2, a) = settle_committed E In_Ops op_id r1 False w1 in (tr1 @ tr2, a))"

text \<open>The journaled part, from the published manifest to the terminal status.\<close>

definition apply_journaled :: "engine_env \<Rightarrow> string \<Rightarrow> finalizer option \<Rightarrow> (store \<Rightarrow> string list) option \<Rightarrow>
    op_record \<Rightarrow> prepared list \<Rightarrow> world \<Rightarrow> world list \<times> reply" where
  "apply_journaled E op_id fin verify r ps w =
     (let tr1 = fst (mark E In_Ops op_id APPLYING None None w);
          (tr2, stop) = apply_targets E op_id 0 ps (final w tr1) in
      case stop of
        Some a \<Rightarrow> (tr1 @ tr2, a)
      | None \<Rightarrow>
          let (tr3, a) = commit E op_id fin verify r (final w (tr1 @ tr2)) in (tr1 @ tr2 @ tr3, a))"

section \<open>The mutation\<close>

text \<open>What the caller supplies beside the request, and how the lineage is obtained.\<close>

record hooks =
  h_finalize :: "finalizer option"
  h_verify :: "(store \<Rightarrow> string list) option"
  h_skip_preflight :: bool

type_synonym ensurer = "world \<Rightarrow> world list \<times> (string + string)"

text \<open>
  An existing receipt: the strict decoder, the project binding, the lineage, then the semantic
  identity decide between a collision, \<open>ALREADY_APPLIED\<close> and \<open>RECOVERY_REQUIRED\<close>.
\<close>

definition retry_identity :: "engine_env \<Rightarrow> request \<Rightarrow> admitted \<Rightarrow> op_record \<Rightarrow> reply" where
  "retry_identity E q v r =
     (if request_fingerprint (os E) q v r \<noteq> record_fingerprint v r then answer False ''VALIDATION_FAILED'' False
      else if r_status r = COMMITTED then answer True ''ALREADY_APPLIED'' False
      else refuse ''RECOVERY_REQUIRED'')"

definition retry :: "engine_env \<Rightarrow> ensurer option \<Rightarrow> string \<Rightarrow> request \<Rightarrow> admitted \<Rightarrow> world \<Rightarrow> world list \<times> reply" where
  "retry E ensure op_id q v w =
     (case decode_operation_record (os E) op_id (journal_dir (journal_place op_id w) op_id w) False of
        Inl e \<Rightarrow> ([], refuse (decode_code e))
      | Inr r \<Rightarrow>
          if \<not> recovery_identity_binding E (files w) r then ([], refuse ''PROJECT_MISMATCH'')
          else (case (ensure, r_lineage r) of
            (Some ens, Some l) \<Rightarrow>
              if l = [] then ([], retry_identity E q v r)
              else (case ens w of
                (tr, Inl code) \<Rightarrow> (tr, refuse code)
              | (tr, Inr live) \<Rightarrow>
                  if live \<noteq> l then (tr, answer False ''PROJECT_MISMATCH'' False) else (tr, retry_identity E q v r))
          | _ \<Rightarrow> ([], retry_identity E q v r)))"

text \<open>A new operation, once the lineage is known.\<close>

definition begin_mutation :: "engine_env \<Rightarrow> hooks \<Rightarrow> string \<Rightarrow> request \<Rightarrow> admitted \<Rightarrow> string option \<Rightarrow> world \<Rightarrow>
    world list \<times> reply" where
  "begin_mutation E h op_id q v lineage w =
     (let ps = prepare (os E) (files w) (v_targets v) in
      if stale_state E w ps v then ([], answer False ''STALE_STATE'' False)
      else if dir_at (journal_place op_id w) op_id w \<noteq> None then ([], refuse ''CORRUPT_JOURNAL'')
      else let r = start_record E op_id q v lineage ps;
               tr1 = start E op_id r ps w;
               (tr2, a) = apply_journaled E op_id (h_finalize h) (h_verify h) r ps (final w tr1)
           in (tr1 @ tr2, a))"

definition run_mutation_with ::
  "engine_env \<Rightarrow> ensurer option \<Rightarrow> hooks \<Rightarrow> request \<Rightarrow> world \<Rightarrow> world list \<times> reply" where
  "run_mutation_with E ensure h q w =
     (case validate_mutation_request (os E) q of
        Inl _ \<Rightarrow> ([], answer False ''VALIDATION_FAILED'' False)
      | Inr v \<Rightarrow>
          let op_id = projr (validate_op_id (q_op_id q)) in
          if journal_exists op_id w then retry E ensure op_id q v w
          else
            let (tr1, pre) = (if h_skip_preflight h then ([], answer True ''OK'' False) else recovery_preflight E w (q_op_id q)) in
            if \<not> a_ok pre then (tr1, pre)
            else (case ensure of
              None \<Rightarrow> let (tr2, a) = begin_mutation E h op_id q v None (final w tr1) in (tr1 @ tr2, a)
            | Some ens \<Rightarrow>
                (case ens (final w tr1) of
                   (tr2, Inl code) \<Rightarrow> (tr1 @ tr2, refuse code)
                 | (tr2, Inr lineage) \<Rightarrow>
                     let (tr3, a) = begin_mutation E h op_id q v (Some lineage) (final w (tr1 @ tr2))
                     in (tr1 @ tr2 @ tr3, a))))"

section \<open>The lineage bootstrap\<close>

definition LINEAGE_MIGRATION_OP :: string where
  "LINEAGE_MIGRATION_OP = ''op-migrate-lineage''"

definition migration_request :: "engine_env \<Rightarrow> request" where
  "migration_request E =
     \<lparr>q_op_id = LINEAGE_MIGRATION_OP, q_operation = JStr ''migrate_lineage'', q_agent = JStr ''saipen'',
      q_identity = JStr (e_runtime E), q_payload = JStr ''lineage-migration'',
      q_targets = JList [JObj [(''path'', JStr ''.saipen/IDENTITY.md''), (''role'', JStr ''manifest''),
        (''action'', JStr ''write''), (''content'', JStr (identity_file_content (e_fresh_lineage E)))]],
      q_pre = JNull, q_policy = ''none'', q_read = JNull, q_meta = JNull\<rparr>"

definition no_hooks :: hooks where
  "no_hooks = \<lparr>h_finalize = None, h_verify = None, h_skip_preflight = False\<rparr>"

definition persisted_lineage :: "store \<Rightarrow> string + string" where
  "persisted_lineage st = (case read_lineage_strict st of Carries l \<Rightarrow> Inr l | _ \<Rightarrow> Inl ''RECOVERY_REQUIRED'')"

definition mint_lineage :: "engine_env \<Rightarrow> world \<Rightarrow> world list \<times> (string + string)" where
  "mint_lineage E w =
     (let (tr, a) = run_mutation_with E None no_hooks (migration_request E) w in
      (tr, if a_ok a then persisted_lineage (files (final w tr)) else Inl (a_code a)))"

text \<open>\<open>shutil.rmtree\<close> of the journal directory, wherever it is.\<close>

definition remove_dir :: "place \<Rightarrow> string \<Rightarrow> world \<Rightarrow> world" where
  "remove_dir pl op_id w =
     (case pl of In_Ops \<Rightarrow> w\<lparr>ops := dict_pop op_id (ops w)\<rparr>
      | In_Settled \<Rightarrow> w\<lparr>settled := dict_pop op_id (settled w)\<rparr>)"

definition ensure_project_lineage :: "engine_env \<Rightarrow> ensurer" where
  "ensure_project_lineage E w =
     (case read_lineage_strict (files w) of
        Carries l \<Rightarrow> ([], Inr l)
      | Malformed \<Rightarrow> ([], Inl ''RECOVERY_REQUIRED'')
      | Absent \<Rightarrow>
          if journal_exists LINEAGE_MIGRATION_OP w then
            let pl = journal_place LINEAGE_MIGRATION_OP w;
                (tr1, a) = recover_locked E LINEAGE_MIGRATION_OP w;
                w1 = final w tr1
            in if a_code a = ''ABORTED'' then
                 let w2 = remove_dir pl LINEAGE_MIGRATION_OP w1; (tr2, res) = mint_lineage E w2
                 in (tr1 @ [w2] @ tr2, res)
               else if \<not> a_ok a then (tr1, Inl (a_code a))
               else (tr1, persisted_lineage (files w1))
          else mint_lineage E w)"

definition run_mutation :: "engine_env \<Rightarrow> bool \<Rightarrow> hooks \<Rightarrow> request \<Rightarrow> world \<Rightarrow> world list \<times> reply" where
  "run_mutation E ensure_lineage h q w =
     run_mutation_with E (if ensure_lineage then Some (ensure_project_lineage E) else None) h q w"

end
