(* ===== verification/Crash.thy ===== *)
theory Crash
  imports Plans Settlement Mutation
begin

text \<open>
  Crash safety.  A mutation in flight is the tree after some steps of its plan together with an
  operation directory whose manifest, staged bytes and sidecar the decoder accepts; recovery started
  from any such world ends in the planned tree, and every durable state it passes through is again
  one recovery can start from.
\<close>

section \<open>Restarting\<close>

text \<open>
  A run that can be interrupted after each durable state and started again.  \<open>inv\<close> is what every
  such state satisfies, \<open>good\<close> what a run that is not interrupted answers.
\<close>

inductive restarts :: "('w \<Rightarrow> 'w list \<times> 'a) \<Rightarrow> 'w \<Rightarrow> 'w \<Rightarrow> bool" for run where
  here: "restarts run w w"
| crash: "restarts run w w' \<Longrightarrow> w'' \<in> set (fst (run w')) \<Longrightarrow> restarts run w w''"

locale restartable =
  fixes inv :: "'w \<Rightarrow> bool" and run :: "'w \<Rightarrow> 'w list \<times> 'a"
  assumes run_keeps: "inv w \<Longrightarrow> w' \<in> set (fst (run w)) \<Longrightarrow> inv w'"
begin

lemma restarts_keep: "restarts run w w' \<Longrightarrow> inv w \<Longrightarrow> inv w'"
  by (induction rule: restarts.induct) (auto dest: run_keeps)

end

locale converging = restartable inv run
  for inv :: "'w \<Rightarrow> bool" and run :: "'w \<Rightarrow> 'w list \<times> 'a" +
  fixes good :: "'w \<Rightarrow> 'w list \<times> 'a \<Rightarrow> bool"
  assumes outcome: "inv w \<Longrightarrow> good w (run w)"
begin

lemma outcome_after_crashes: "restarts run w w' \<Longrightarrow> inv w \<Longrightarrow> good w' (run w')"
  by (rule outcome) (rule restarts_keep)

end

section \<open>The record and the plan it carries\<close>

definition carries :: "op_record \<Rightarrow> prepared list \<Rightarrow> bool" where
  "carries r ps \<longleftrightarrow> map strip_applied (r_targets r) = map bare_target ps"

definition staged_ok :: "os_env \<Rightarrow> op_dir \<Rightarrow> prepared list \<Rightarrow> bool" where
  "staged_ok env d ps \<longleftrightarrow>
     (\<forall>i < length ps. t_action (ps ! i) = Write \<longrightarrow>
        staged_content env d i (t_path (ps ! i)) = Some (t_content (ps ! i)))"

lemma bare_simps [simp]:
  "t_path (bare_target p) = t_path p" "t_action (bare_target p) = t_action p"
  "t_before (bare_target p) = t_before p" "t_after (bare_target p) = t_after p"
  by (simp_all add: bare_target_def)

lemma carries_plan_of: "carries r0 ps \<Longrightarrow> plan_of r = plan_of r0 \<Longrightarrow> carries r ps"
  unfolding carries_def by (drule plan_of_fields(12)) (erule trans)

lemma carries_length: "carries r ps \<Longrightarrow> length (r_targets r) = length ps"
  unfolding carries_def by (drule arg_cong [where f = length]) simp

lemma carries_nth:
  assumes "carries r ps" and "i < length ps"
  shows "t_path (r_targets r ! i) = t_path (ps ! i)" "t_action (r_targets r ! i) = t_action (ps ! i)"
    "t_before (r_targets r ! i) = t_before (ps ! i)" "t_after (r_targets r ! i) = t_after (ps ! i)"
proof -
  have l: "i < length (r_targets r)" using carries_length [OF assms(1)] assms(2) by simp
  have "strip_applied (r_targets r ! i) = bare_target (ps ! i)"
  proof -
    have "strip_applied (r_targets r ! i) = map strip_applied (r_targets r) ! i" using l by simp
    also have "\<dots> = map bare_target ps ! i" using assms(1) by (simp only: carries_def)
    also have "\<dots> = bare_target (ps ! i)" using assms(2) by simp
    finally show ?thesis .
  qed
  from this [THEN arg_cong, of t_path] this [THEN arg_cong, of t_action]
    this [THEN arg_cong, of t_before] this [THEN arg_cong, of t_after]
  show "t_path (r_targets r ! i) = t_path (ps ! i)" "t_action (r_targets r ! i) = t_action (ps ! i)"
    "t_before (r_targets r ! i) = t_before (ps ! i)" "t_after (r_targets r ! i) = t_after (ps ! i)" by simp_all
qed

lemma carries_live:
  assumes "carries r ps" and "i < length ps"
  shows "target_live_hash env st (r_targets r ! i) = target_live_hash env st (ps ! i)"
    "classify_live env st (r_targets r ! i) = classify_live env st (ps ! i)"
  using carries_nth [OF assms] by (simp_all add: target_live_hash_def classify_live_def)

lemma carries_classify_all:
  assumes "carries r ps"
  shows "classify_all env st (r_targets r) = defer_unreached_targets ps (map (classify_live env st) ps)"
proof -
  have "map (classify_live env st) (r_targets r) = map (classify_live env st) ps"
    using carries_length [OF assms] carries_live [OF assms] by (auto intro: nth_equalityI)
  moreover have "map (\<lambda>t. pure_parts (t_path t)) (r_targets r) = map (\<lambda>t. pure_parts (t_path t)) ps"
    using carries_length [OF assms] carries_nth [OF assms] by (auto intro: nth_equalityI)
  ultimately show ?thesis by (simp add: classify_all_def defer_unreached_targets_def)
qed

section \<open>Stepping through the plan\<close>

lemma plan_at_next:
  assumes "plan_at env ps s0 sn k sk" and "k < length ps"
  shows "\<exists>s'. plan_step env sk (ps ! k) = Some s' \<and> plan_at env ps s0 sn (Suc k) s'"
proof -
  have d: "drop k ps = ps ! k # drop (Suc k) ps" using assms(2) by (simp add: Cons_nth_drop_Suc)
  have t: "take (Suc k) ps = take k ps @ [ps ! k]" using assms(2) by (simp add: take_Suc_conv_app_nth)
  from assms(1) obtain s' where "plan_step env sk (ps ! k) = Some s'" "run_plan env s' (drop (Suc k) ps) = Some sn"
    by (auto simp: plan_at_def d split: option.splits)
  with assms show ?thesis by (auto simp: plan_at_def t run_plan_append)
qed

lemma plan_at_end: "plan_at env ps s0 sn (length ps) sk \<Longrightarrow> sk = sn"
  by (simp add: plan_at_def)

lemma plan_at_start: "plan_at env ps s0 sn 0 sk \<Longrightarrow> sk = s0"
  by (simp add: plan_at_def)

lemma performed_not_noop:
  assumes "plan_at env ps s0 sn k sk" and "i < k"
  shows "\<not> is_noop_target (ps ! i)"
proof -
  from assms have "run_plan env s0 (take k ps) = Some sk" "i < length (take k ps)" by (auto simp: plan_at_def)
  from split_run [OF this] assms(2) obtain a b where "plan_step env a (ps ! i) = Some b" by auto
  from plan_stepD(2) [OF this] show ?thesis by (simp add: is_noop_target_def)
qed

lemma leading_replicate: "leading (\<lambda>c. c = x) (replicate k x @ replicate m y) = k" if "x \<noteq> y" for x y :: 'a
  using that by (intro leading_eqI) (auto simp: nth_append)

text \<open>At an intermediate tree recovery decides by the number of steps performed.\<close>

lemma decide_at:
  assumes at: "plan_at env ps s0 sn k st" and c: "carries r ps"
  shows "decide env st r = (if r_status r = PREPARED \<and> k = 0 then Abort else Roll_Forward k)"
proof -
  let ?cs = "replicate k ALREADY_APPLIED @ replicate (length ps - k) PENDING"
  have k: "k \<le> length ps" using at by (simp add: plan_at_def)
  have cs: "classify_all env st (r_targets r) = ?cs"
    using carries_classify_all [OF c] classify_at [OF at] by simp
  have pre: "materialised_prefix ?cs = k" unfolding materialised_prefix_def by (rule leading_replicate) simp
  have third: "third_state ?cs = None"
    by (auto simp: third_state_def first_index_def find_None_iff nth_append)
  have order: "out_of_order (r_targets r) ?cs = None"
    by (auto simp: out_of_order_def first_index_def find_None_iff nth_append pre)
  have noth: "nothing_materialised (r_targets r) ?cs \<longleftrightarrow> k = 0"
  proof
    assume n: "nothing_materialised (r_targets r) ?cs"
    show "k = 0"
    proof (rule ccontr)
      assume "k \<noteq> 0"
      then have l: "0 < length ps" "0 < k" using k by auto
      then have "0 < length (zip ?cs (r_targets r))" using carries_length [OF c] by simp
      moreover have "zip ?cs (r_targets r) ! 0 = (ALREADY_APPLIED, r_targets r ! 0)"
        using l k carries_length [OF c] by (simp add: nth_append)
      ultimately have "is_noop_target (r_targets r ! 0)"
        using n unfolding nothing_materialised_def list_all_length by fastforce
      then have "is_noop_target (ps ! 0)" using carries_nth [OF c l(1)] by (simp add: is_noop_target_def)
      with performed_not_noop [OF at l(2)] show False by simp
    qed
  next
    assume "k = 0"
    then show "nothing_materialised (r_targets r) ?cs"
      by (auto simp: nothing_materialised_def list_all_iff dest!: set_zip_leftD)
  qed
  show ?thesis by (simp add: decide_def Let_def cs third order noth pre)
qed

end
