(* ===== verification/CrashRecovery.thy ===== *)
theory CrashRecovery
  imports Crash
begin

text \<open>
  Recovery of an operation in flight: the durable states \<open>recover_locked\<close> passes through and the
  tree and status it ends in.
\<close>

section \<open>Worlds in flight\<close>

definition in_flight :: "engine_env \<Rightarrow> string \<Rightarrow> op_record \<Rightarrow> prepared list \<Rightarrow> store \<Rightarrow> store \<Rightarrow> nat \<Rightarrow> status \<Rightarrow> world \<Rightarrow> bool" where
  "in_flight E op_id r0 ps s0 sn k st w \<longleftrightarrow>
     (\<exists>d. dir_at In_Ops op_id w = Some d \<and> dir_in_flight (os E) op_id r0 st d \<and> staged_ok (os E) d ps) \<and>
     st \<in> set UNRESOLVED \<and> plan_at (os E) ps s0 sn k (files w)"

text \<open>
  What recovery needs of the operation beyond its bytes: the record is the plan's, its paths are
  owned, it is not a release, the read dependencies and the project binding hold at every tree of
  the plan, and the registered verifier accepts the planned tree.
\<close>

definition op_sound :: "engine_env \<Rightarrow> string \<Rightarrow> op_record \<Rightarrow> prepared list \<Rightarrow> store \<Rightarrow> store \<Rightarrow> bool" where
  "op_sound E op_id r0 ps s0 sn \<longleftrightarrow>
     validate_op_id op_id = Inr op_id \<and> carries r0 ps \<and> paths_owned (os E) r0 \<and> r_operation r0 \<noteq> ''release'' \<and>
     (\<forall>r. plan_of r = plan_of r0 \<longrightarrow> semantic_errors E sn r = []) \<and>
     (\<forall>w k. plan_at (os E) ps s0 sn k (files w) \<longrightarrow>
        stale_dependency E w (r_read r0) = None \<and> recovery_identity_binding E (files w) r0)"

text \<open>Every durable state of the operation, from the published manifest on.\<close>

definition crash_state :: "engine_env \<Rightarrow> string \<Rightarrow> op_record \<Rightarrow> prepared list \<Rightarrow> store \<Rightarrow> store \<Rightarrow> world \<Rightarrow> bool" where
  "crash_state E op_id r0 ps s0 sn w \<longleftrightarrow>
     (\<exists>k st. in_flight E op_id r0 ps s0 sn k st w) \<or>
     unfolded E op_id w \<and> (files w = s0 \<or> files w = sn) \<or>
     reads_as E op_id r0 COMMITTED w \<and> files w = sn \<or>
     reads_as E op_id r0 ABORTED w \<and> files w = s0"

lemma in_flight_crash_state: "in_flight E op_id r0 ps s0 sn k st w \<Longrightarrow> crash_state E op_id r0 ps s0 sn w"
  by (auto simp: crash_state_def)

lemma crash_state_unfolded:
  "unfolded E op_id w \<Longrightarrow> files w = s0 \<or> files w = sn \<Longrightarrow> crash_state E op_id r0 ps s0 sn w"
  unfolding crash_state_def by blast

lemma crash_state_settled:
  "reads_as E op_id r0 st w \<Longrightarrow> st = COMMITTED \<and> files w = sn \<or> st = ABORTED \<and> files w = s0 \<Longrightarrow>
     crash_state E op_id r0 ps s0 sn w"
  unfolding crash_state_def by blast

lemma staged_ok_same: "staged d' = staged d \<Longrightarrow> staged_ok env d' ps = staged_ok env d ps"
  by (simp only: staged_ok_def staged_content_def)

lemma unsettled_unresolved [simp]: "PREPARED \<in> set UNRESOLVED" "APPLYING \<in> set UNRESOLVED"
  "VERIFIED \<in> set UNRESOLVED" "CONFLICT \<in> set UNRESOLVED"
  by (simp_all add: UNRESOLVED_def)

lemma in_flight_dir:
  assumes "in_flight E op_id r0 ps s0 sn k st w"
  shows "\<exists>d. dir_at In_Ops op_id w = Some d \<and> journal_dir In_Ops op_id w = d \<and>
    dir_in_flight (os E) op_id r0 st d \<and> staged_ok (os E) d ps \<and> manifest d \<noteq> None"
proof -
  from assms obtain d where d: "dir_at In_Ops op_id w = Some d" "dir_in_flight (os E) op_id r0 st d" "staged_ok (os E) d ps"
    by (auto simp: in_flight_def)
  moreover have "manifest d \<noteq> None"
    using d(2) by (cases "manifest d") (simp_all add: dir_in_flight_def decode_manifest_def)
  ultimately show ?thesis by (simp add: journal_dir_def)
qed

lemma in_flight_put:
  assumes f: "in_flight E op_id r0 ps s0 sn k st w" and d: "dir_in_flight (os E) op_id r0 st' d'"
    and same: "staged d' = staged (journal_dir In_Ops op_id w)" and st': "st' \<in> set UNRESOLVED"
  shows "in_flight E op_id r0 ps s0 sn k st' (put_dir In_Ops op_id d' w)"
proof -
  obtain d0 where "journal_dir In_Ops op_id w = d0" "staged_ok (os E) d0 ps" using in_flight_dir [OF f] by blast
  then have "staged_ok (os E) d' ps" using same staged_ok_same [of d' d0] by simp
  with f d st' show ?thesis by (simp add: in_flight_def)
qed

text \<open>Marking a step, and marking without a step.\<close>

lemma in_flight_mark_step:
  assumes f: "in_flight E op_id r0 ps s0 sn k st w" and c: "carries r0 ps" and i: "i < length ps"
  shows "in_flight E op_id r0 ps s0 sn k APPLYING
    (put_dir In_Ops op_id (mark_sidecar APPLYING (Some (int i + 1)) (Some (int i)) (journal_dir In_Ops op_id w)) w)"
proof (rule in_flight_put [OF f])
  obtain d where "journal_dir In_Ops op_id w = d" "dir_in_flight (os E) op_id r0 st d"
    using in_flight_dir [OF f] by blast
  then show "dir_in_flight (os E) op_id r0 APPLYING
      (mark_sidecar APPLYING (Some (int i + 1)) (Some (int i)) (journal_dir In_Ops op_id w))"
    using in_flight_mark [of "os E" op_id r0 st d i] i carries_length [OF c] by simp
qed simp_all

lemma in_flight_mark_world:
  assumes f: "in_flight E op_id r0 ps s0 sn k st w" and st': "st' \<in> set UNRESOLVED"
  shows "in_flight E op_id r0 ps s0 sn k st'
    (put_dir In_Ops op_id (mark_sidecar st' None None (journal_dir In_Ops op_id w)) w)"
proof (rule in_flight_put [OF f])
  obtain d where "journal_dir In_Ops op_id w = d" "dir_in_flight (os E) op_id r0 st d"
    using in_flight_dir [OF f] by blast
  then show "dir_in_flight (os E) op_id r0 st' (mark_sidecar st' None None (journal_dir In_Ops op_id w))"
    using in_flight_mark_plain by auto
qed (simp_all add: st')

lemma in_flight_files:
  assumes f: "in_flight E op_id r0 ps s0 sn k st w" and k: "k < length ps"
    and step: "plan_step (os E) (files w) (ps ! k) = Some s'"
  shows "in_flight E op_id r0 ps s0 sn (Suc k) st (w\<lparr>files := s'\<rparr>)"
proof -
  have at: "plan_at (os E) ps s0 sn k (files w)" using f by (simp add: in_flight_def)
  from plan_at_next [OF at k] step have "plan_at (os E) ps s0 sn (Suc k) s'" by auto
  with f show ?thesis by (simp add: in_flight_def)
qed

section \<open>Replaying the suffix\<close>

lemma replay_action_step:
  assumes c: "carries r ps" and k: "k < length ps" and ok: "staged_ok env d ps" "plan_ok env ps"
    and step: "plan_step env st (ps ! k) = Some s'"
  shows "replay_action env d k (r_targets r ! k) st = Acted s'"
proof -
  note eq = carries_nth [OF c k]
  note p = plan_stepD(3) [OF step]
  have after: "t_after (ps ! k) = (if t_action (ps ! k) = Write then d_bytes env (t_content (ps ! k)) else [])"
    using ok(2) k by (simp add: plan_ok_def list_all_length)
  show ?thesis
  proof (cases "t_action (ps ! k)")
    case Write
    then have "staged_content env d k (t_path (ps ! k)) = Some (t_content (ps ! k))"
      using ok(1) k by (simp add: staged_ok_def)
    with Write p after show ?thesis by (simp add: replay_action_def Let_def eq parts_def)
  next
    case Delete_File
    with p show ?thesis by (simp add: replay_action_def Let_def eq parts_def perform_def)
  next
    case Delete_Dir
    with p show ?thesis by (simp add: replay_action_def Let_def eq parts_def perform_def)
  qed
qed

lemma replay_in_flight:
  assumes "in_flight E op_id r0 ps s0 sn k st w" and c0: "carries r0 ps" and c: "carries r ps"
  shows "\<exists>tr st'. replay E In_Ops op_id f k (drop k (r_targets r)) w = (tr, None) \<and>
    in_flight E op_id r0 ps s0 sn (length ps) st' (final w tr) \<and>
    (\<forall>w' \<in> set tr. \<exists>k' st'. in_flight E op_id r0 ps s0 sn k' st' w')"
  using assms(1)
proof (induction "length ps - k" arbitrary: k st w)
  case 0
  then have "k = length ps" by (simp add: in_flight_def plan_at_def)
  with 0 show ?case using carries_length [OF c] by (intro exI [of _ "[]"] exI [of _ st]) simp
next
  case (Suc m)
  from Suc.hyps(2) have k: "k < length ps" by simp
  have drop: "drop k (r_targets r) = r_targets r ! k # drop (Suc k) (r_targets r)"
    using k carries_length [OF c] by (simp add: Cons_nth_drop_Suc)
  have at: "plan_at (os E) ps s0 sn k (files w)" using Suc.prems by (simp add: in_flight_def)
  then have ok: "plan_ok (os E) ps" by (simp add: plan_at_def)
  from plan_at_next [OF at k] obtain s' where s': "plan_step (os E) (files w) (ps ! k) = Some s'" by blast
  obtain d where d: "journal_dir In_Ops op_id w = d" "staged_ok (os E) d ps"
    using in_flight_dir [OF Suc.prems] by blast
  have act: "replay_action (os E) (journal_dir In_Ops op_id w) k (r_targets r ! k) (files w) = Acted s'"
    using replay_action_step [OF c k _ ok s'] d by simp
  let ?w1 = "w\<lparr>files := s'\<rparr>"
  let ?w2 = "put_dir In_Ops op_id (mark_sidecar APPLYING (Some (int k + 1)) (Some (int k)) (journal_dir In_Ops op_id ?w1)) ?w1"
  have f1: "in_flight E op_id r0 ps s0 sn (Suc k) st ?w1" by (rule in_flight_files [OF Suc.prems k s'])
  have f2: "in_flight E op_id r0 ps s0 sn (Suc k) APPLYING ?w2" by (rule in_flight_mark_step [OF f1 c0 k])
  have m: "m = length ps - Suc k" using Suc.hyps(2) by simp
  from Suc.hyps(1) [OF m f2] obtain tr st' where
    tr: "replay E In_Ops op_id f (Suc k) (drop (Suc k) (r_targets r)) ?w2 = (tr, None)"
      "in_flight E op_id r0 ps s0 sn (length ps) st' (final ?w2 tr)"
      "\<forall>w' \<in> set tr. \<exists>k' st'. in_flight E op_id r0 ps s0 sn k' st' w'" by blast
  have "replay E In_Ops op_id f k (drop k (r_targets r)) w = (?w1 # ?w2 # tr, None)"
    using tr(1) by (simp add: drop act mark_unsettled Let_def)
  with tr f1 f2 show ?case by (intro exI [of _ "?w1 # ?w2 # tr"] exI [of _ st']) auto
qed

section \<open>The gates\<close>

lemma binding_plan_of:
  "plan_of r = plan_of r0 \<Longrightarrow> recovery_identity_binding E st r = recovery_identity_binding E st r0"
  using plan_of_fields(5,6) [of r r0] by (simp only: recovery_identity_binding_def)

lemma owned_plan_of:
  assumes "plan_of r = plan_of r0"
  shows "paths_owned env r = paths_owned env r0"
proof -
  have "list_all (\<lambda>t. \<not> isl (owned_target_path lex_realpath (project_root env) (t_path t))) (r_targets r) =
        list_all (\<lambda>t. \<not> isl (owned_target_path lex_realpath (project_root env) (t_path t))) (r_targets r0)"
    by (rule list_all_strip [OF plan_of_fields(12) [OF assms]]) simp
  then show ?thesis using plan_of_fields(9) [OF assms] by (simp add: paths_owned_def)
qed

lemma gate_in_flight:
  assumes f: "in_flight E op_id r0 ps s0 sn k st w" and s: "op_sound E op_id r0 ps s0 sn"
  shows "\<exists>r. recover_gate E op_id w = Inr r \<and> r_status r = st \<and> plan_of r = plan_of r0 \<and>
    journal_place op_id w = In_Ops"
proof -
  from in_flight_dir [OF f] obtain d where d: "dir_at In_Ops op_id w = Some d" "dir_in_flight (os E) op_id r0 st d"
    "manifest d \<noteq> None" by blast
  have st: "st \<notin> set SETTLED" using f by (simp add: in_flight_def status_partition)
  from in_flight_decode [OF d(2), of False] st obtain r
    where r: "decode_operation_record (os E) op_id d False = Inr r" "r_status r = st" "plan_of r = plan_of r0" by auto
  have "recovery_identity_binding E (files w) r0" "paths_owned (os E) r0"
    using f s by (auto simp: in_flight_def op_sound_def)
  then have "recovery_identity_binding E (files w) r" "paths_owned (os E) r"
    using binding_plan_of [OF r(3)] owned_plan_of [OF r(3)] by simp_all
  moreover have "st \<noteq> COMMITTED" using st by (simp add: SETTLED_def)
  ultimately have "recover_gate E op_id w = Inr r"
    using journal_at_ops [OF d(1,3)] r st by (simp add: recover_gate_def Let_def)
  with r d show ?thesis by (auto simp: journal_place_ops)
qed

text \<open>A settled operation is not touched again, and the unfolded window is refused untouched.\<close>

lemma gate_settled:
  assumes "reads_as E op_id r0 st w" and "st \<in> set SETTLED" and "paths_owned (os E) r0"
    and "recovery_identity_binding E (files w) r0"
  shows "recover_gate E op_id w =
    Inl (if st = COMMITTED then answer True ''ALREADY_APPLIED'' False else refuse (status_name st))"
proof -
  from assms(1) obtain r where j: "journal_exists op_id w"
    and r: "decode_operation_record (os E) op_id (journal_dir (journal_place op_id w) op_id w) False = Inr r"
      "r_status r = st" "plan_of r = plan_of r0" by (auto simp: reads_as_def)
  with assms binding_plan_of [OF r(3)] owned_plan_of [OF r(3)] show ?thesis
    by (simp add: recover_gate_def Let_def)
qed

lemma gate_unfolded: "unfolded E op_id w \<Longrightarrow> recover_gate E op_id w = Inl (refuse ''RECOVERY_CONFLICT'')"
  by (simp add: unfolded_def recover_gate_def Let_def decode_code_def)

section \<open>Recovery of a world in flight\<close>

lemma settle_in_flight:
  assumes f: "in_flight E op_id r0 ps s0 sn k st w" and st': "st' \<in> set SETTLED"
    and goal: "st' = COMMITTED \<and> files w = sn \<or> st' = ABORTED \<and> files w = s0"
  shows "\<exists>tr. mark E In_Ops op_id st' None None w = (tr, True) \<and> tr \<noteq> [] \<and>
    (\<forall>w' \<in> set tr. crash_state E op_id r0 ps s0 sn w') \<and>
    reads_as E op_id r0 st' (final w tr) \<and> files (final w tr) = files w"
proof -
  from in_flight_dir [OF f] obtain d where d: "dir_at In_Ops op_id w = Some d" "dir_in_flight (os E) op_id r0 st d" by blast
  from mark_settled [OF d st'] obtain w1 tr where m: "mark E In_Ops op_id st' None None w = (w1 # tr, True)"
    and ne: "tr \<noteq> []" and u: "unfolded E op_id w1" and rd: "\<forall>w' \<in> set tr. reads_as E op_id r0 st' w'"
    and fi: "\<forall>w' \<in> set (w1 # tr). files w' = files w" by blast
  have "crash_state E op_id r0 ps s0 sn w1"
    by (rule crash_state_unfolded [OF u]) (use fi goal in auto)
  moreover have "crash_state E op_id r0 ps s0 sn w'" if "w' \<in> set tr" for w'
    by (rule crash_state_settled [of E op_id r0 st']) (use that rd fi goal in auto)
  ultimately have all: "\<forall>w' \<in> set (w1 # tr). crash_state E op_id r0 ps s0 sn w'" by simp
  have "final w (w1 # tr) \<in> set tr" using ne by (simp add: final_def)
  then have "reads_as E op_id r0 st' (final w (w1 # tr))" "files (final w (w1 # tr)) = files w"
    using rd fi by (blast, simp)
  with m all show ?thesis by blast
qed

lemma mark_all_committed:
  assumes f: "in_flight E op_id r0 ps s0 sn k st w" and sn: "files w = sn"
  shows "\<exists>tr. mark_all E In_Ops op_id [VERIFIED, COMMITTED] w = (tr, True) \<and>
    (\<forall>w' \<in> set tr. crash_state E op_id r0 ps s0 sn w') \<and>
    reads_as E op_id r0 COMMITTED (final w tr) \<and> files (final w tr) = sn"
proof -
  let ?w1 = "put_dir In_Ops op_id (mark_sidecar VERIFIED None None (journal_dir In_Ops op_id w)) w"
  have f1: "in_flight E op_id r0 ps s0 sn k VERIFIED ?w1" by (rule in_flight_mark_world [OF f]) simp
  have s1: "files ?w1 = sn" using sn by simp
  from settle_in_flight [OF f1, of COMMITTED] s1 obtain tr where
    tr: "mark E In_Ops op_id COMMITTED None None ?w1 = (tr, True)" "\<forall>w' \<in> set tr. crash_state E op_id r0 ps s0 sn w'"
      "reads_as E op_id r0 COMMITTED (final ?w1 tr)" "files (final ?w1 tr) = sn" by auto
  have "mark_all E In_Ops op_id [VERIFIED, COMMITTED] w = (?w1 # tr, True)"
    using tr(1) by (simp add: mark_all_def mark_unsettled)
  with tr in_flight_crash_state [OF f1] show ?thesis by (intro exI [of _ "?w1 # tr"]) auto
qed

lemma verified_tree:
  assumes at: "plan_at env ps s0 sn (length ps) st" and c: "carries r ps"
  shows "verify_target_bytes env st (r_targets r) = None"
proof -
  have "target_live_hash env st (r_targets r ! i) = t_after (r_targets r ! i)" if "i < length ps" for i
    using at plan_at_end [OF at] that carries_live(1) [OF c that] carries_nth(4) [OF c that]
    by (simp add: plan_at_def)
  then show ?thesis using carries_length [OF c] by (auto simp: verify_target_bytes_None in_set_conv_nth)
qed

lemma verify_and_settle_in_flight:
  assumes f: "in_flight E op_id r0 ps s0 sn (length ps) st w" and s: "op_sound E op_id r0 ps s0 sn"
    and r: "plan_of r = plan_of r0"
  shows "\<exists>tr a. verify_and_settle E In_Ops op_id r w = (tr, a) \<and> a_ok a \<and> a_code a = ''COMMITTED'' \<and>
    (\<forall>w' \<in> set tr. crash_state E op_id r0 ps s0 sn w') \<and>
    reads_as E op_id r0 COMMITTED (final w tr) \<and> files (final w tr) = sn"
proof -
  have at: "plan_at (os E) ps s0 sn (length ps) (files w)" using f by (simp add: in_flight_def)
  have c: "carries r ps" using s r carries_plan_of by (auto simp: op_sound_def)
  have sn: "files w = sn" by (rule plan_at_end [OF at])
  from mark_all_committed [OF f sn] obtain tr where
    "mark_all E In_Ops op_id [VERIFIED, COMMITTED] w = (tr, True)"
    "\<forall>w' \<in> set tr. crash_state E op_id r0 ps s0 sn w'"
    "reads_as E op_id r0 COMMITTED (final w tr)" "files (final w tr) = sn" by blast
  moreover have "semantic_errors E (files w) r = []" using s r sn by (simp add: op_sound_def)
  ultimately show ?thesis
    using verified_tree [OF at c] by (simp add: verify_and_settle_def settle_committed_def answer_def)
qed

lemma repair_in_flight:
  assumes f: "in_flight E op_id r0 ps s0 sn k st w" and c: "carries r0 ps"
  shows "\<exists>st'. in_flight E op_id r0 ps s0 sn k st' (final w (repair In_Ops op_id r k w)) \<and>
    (\<forall>w' \<in> set (repair In_Ops op_id r k w). in_flight E op_id r0 ps s0 sn k APPLYING w')"
proof -
  have k: "k \<le> length ps" using f by (simp add: in_flight_def plan_at_def)
  let ?w1 = "put_dir In_Ops op_id (reconcile_progress APPLYING (int k) (int k - 1) (journal_dir In_Ops op_id w)) w"
  obtain d where "journal_dir In_Ops op_id w = d" "dir_in_flight (os E) op_id r0 st d"
    using in_flight_dir [OF f] by blast
  then have "dir_in_flight (os E) op_id r0 APPLYING
      (reconcile_progress APPLYING (int k) (int k - 1) (journal_dir In_Ops op_id w))"
    using in_flight_reconcile [of "os E" op_id r0 st d k APPLYING] k carries_length [OF c] by simp
  then have "in_flight E op_id r0 ps s0 sn k APPLYING ?w1" by (rule in_flight_put [OF f]) simp_all
  with f show ?thesis by (auto simp: repair_def Let_def)
qed

lemma roll_forward_in_flight:
  assumes f: "in_flight E op_id r0 ps s0 sn k st w" and s: "op_sound E op_id r0 ps s0 sn"
    and r: "plan_of r = plan_of r0"
  shows "\<exists>tr a. roll_forward E In_Ops op_id r k w = (tr, a) \<and> a_ok a \<and> a_code a = ''COMMITTED'' \<and>
    (\<forall>w' \<in> set tr. crash_state E op_id r0 ps s0 sn w') \<and>
    reads_as E op_id r0 COMMITTED (final w tr) \<and> files (final w tr) = sn"
proof -
  have c0: "carries r0 ps" using s by (simp add: op_sound_def)
  have c: "carries r ps" by (rule carries_plan_of [OF c0 r])
  have fresh: "stale_dependency E w (r_read r) = None"
    using s f plan_of_fields(9) [OF r] by (auto simp: op_sound_def in_flight_def)
  define tr1 where "tr1 = repair In_Ops op_id r k w"
  obtain st1 where f1: "in_flight E op_id r0 ps s0 sn k st1 (final w tr1)"
    and t1: "\<forall>w' \<in> set tr1. in_flight E op_id r0 ps s0 sn k APPLYING w'"
    using repair_in_flight [OF f c0] unfolding tr1_def by blast
  obtain tr2 st2 where
    m2: "replay E In_Ops op_id k k (drop k (r_targets r)) (final w tr1) = (tr2, None)"
    and f2: "in_flight E op_id r0 ps s0 sn (length ps) st2 (final (final w tr1) tr2)"
    and t2: "\<forall>w' \<in> set tr2. \<exists>k' st'. in_flight E op_id r0 ps s0 sn k' st' w'"
    using replay_in_flight [OF f1 c0 c] by blast
  obtain tr3 a where m3: "verify_and_settle E In_Ops op_id r (final (final w tr1) tr2) = (tr3, a)"
    and a: "a_ok a" "a_code a = ''COMMITTED''"
    and t3: "\<forall>w' \<in> set tr3. crash_state E op_id r0 ps s0 sn w'"
    and e: "reads_as E op_id r0 COMMITTED (final (final (final w tr1) tr2) tr3)"
      "files (final (final (final w tr1) tr2) tr3) = sn"
    using verify_and_settle_in_flight [OF f2 s r] by blast
  have "roll_forward E In_Ops op_id r k w = (tr1 @ tr2 @ tr3, a)"
    by (simp add: roll_forward_def fresh Let_def m2 m3 flip: tr1_def)
  moreover have "\<forall>w' \<in> set (tr1 @ tr2 @ tr3). crash_state E op_id r0 ps s0 sn w'"
    using t1 t2 t3 in_flight_crash_state by fastforce
  ultimately show ?thesis using a e by (intro exI [of _ "tr1 @ tr2 @ tr3"] exI [of _ a]) simp
qed

lemma recover_in_flight:
  assumes f: "in_flight E op_id r0 ps s0 sn k st w" and s: "op_sound E op_id r0 ps s0 sn"
  shows "\<exists>tr a. recover_locked E op_id w = (tr, a) \<and> a_ok a \<and>
    (\<forall>w' \<in> set tr. crash_state E op_id r0 ps s0 sn w') \<and>
    (if st = PREPARED \<and> k = 0
     then a_code a = ''ABORTED'' \<and> reads_as E op_id r0 ABORTED (final w tr) \<and> files (final w tr) = s0
     else a_code a = ''COMMITTED'' \<and> reads_as E op_id r0 COMMITTED (final w tr) \<and> files (final w tr) = sn)"
proof -
  have at: "plan_at (os E) ps s0 sn k (files w)" using f by (simp add: in_flight_def)
  from gate_in_flight [OF f s] obtain r where r: "recover_gate E op_id w = Inr r" "r_status r = st"
    "plan_of r = plan_of r0" "journal_place op_id w = In_Ops" by blast
  have c: "carries r ps" using s r(3) carries_plan_of by (auto simp: op_sound_def)
  have "r_operation r \<noteq> ''release''" "validate_op_id op_id = Inr op_id"
    using s plan_of_fields(2) [OF r(3)] by (simp_all add: op_sound_def)
  then have rec: "recover_locked E op_id w = recover_record E In_Ops op_id r w"
    by (simp add: recover_locked_def r)
  show ?thesis
  proof (cases "st = PREPARED \<and> k = 0")
    case True
    then have s0: "files w = s0" using plan_at_start at by blast
    from settle_in_flight [OF f, of ABORTED] s0 obtain tr where
      "mark E In_Ops op_id ABORTED None None w = (tr, True)" "\<forall>w' \<in> set tr. crash_state E op_id r0 ps s0 sn w'"
      "reads_as E op_id r0 ABORTED (final w tr)" "files (final w tr) = s0" by auto
    then show ?thesis
      using True decide_at [OF at c] r(2) by (simp add: rec recover_record_def Let_def answer_def)
  next
    case False
    then have "recover_record E In_Ops op_id r w = roll_forward E In_Ops op_id r k w"
      using decide_at [OF at c] r(2) by (auto simp: recover_record_def Let_def)
    with roll_forward_in_flight [OF f s r(3)] False show ?thesis unfolding rec by auto
  qed
qed

section \<open>Recovery from any durable state\<close>

text \<open>
  What an uninterrupted recovery answers: the planned tree and a committed receipt, the untouched
  tree and an aborted one, or, in the window between a settled sidecar and its fold, a refusal with
  no write.
\<close>

definition recovered :: "engine_env \<Rightarrow> string \<Rightarrow> store \<Rightarrow> store \<Rightarrow> world \<Rightarrow> world list \<times> reply \<Rightarrow> bool" where
  "recovered E op_id s0 sn w res =
     (case res of (tr, a) \<Rightarrow>
        a_code a \<in> {''COMMITTED'', ''ALREADY_APPLIED''} \<and> a_ok a \<and> files (final w tr) = sn \<or>
        a_code a = ''ABORTED'' \<and> files (final w tr) = s0 \<or>
        a_code a = ''RECOVERY_CONFLICT'' \<and> unfolded E op_id w \<and> tr = [] \<and> (files w = s0 \<or> files w = sn))"

definition crash_inv :: "engine_env \<Rightarrow> string \<Rightarrow> op_record \<Rightarrow> prepared list \<Rightarrow> store \<Rightarrow> store \<Rightarrow> world \<Rightarrow> bool" where
  "crash_inv E op_id r0 ps s0 sn w \<longleftrightarrow>
     op_sound E op_id r0 ps s0 sn \<and> plan_at (os E) ps s0 sn 0 s0 \<and> crash_state E op_id r0 ps s0 sn w"

lemma plan_at_both: "plan_at env ps s0 sn 0 s0 \<Longrightarrow> plan_at env ps s0 sn (length ps) sn"
  by (auto simp: plan_at_def)

lemma recover_refused:
  assumes "op_sound E op_id r0 ps s0 sn" and "recover_gate E op_id w = Inl a"
  shows "recover_locked E op_id w = ([], a)"
  using assms by (simp add: recover_locked_def op_sound_def)

lemma recover_from_crash_state:
  assumes "crash_inv E op_id r0 ps s0 sn w"
  shows "(\<forall>w' \<in> set (fst (recover_locked E op_id w)). crash_state E op_id r0 ps s0 sn w') \<and>
    recovered E op_id s0 sn w (recover_locked E op_id w)"
proof -
  from assms have s: "op_sound E op_id r0 ps s0 sn" and p0: "plan_at (os E) ps s0 sn 0 s0"
    and c: "crash_state E op_id r0 ps s0 sn w" by (simp_all add: crash_inv_def)
  have owned: "paths_owned (os E) r0" using s by (simp add: op_sound_def)
  have bind: "recovery_identity_binding E s0 r0" "recovery_identity_binding E sn r0"
  proof -
    have all: "\<And>(w::world) k. plan_at (os E) ps s0 sn k (files w) \<Longrightarrow> recovery_identity_binding E (files w) r0"
      using s unfolding op_sound_def by blast
    show "recovery_identity_binding E s0 r0" "recovery_identity_binding E sn r0"
      using all [of 0 "w\<lparr>files := s0\<rparr>"] all [of "length ps" "w\<lparr>files := sn\<rparr>"] p0 plan_at_both [OF p0] by simp_all
  qed
  from c consider (flight) k st where "in_flight E op_id r0 ps s0 sn k st w"
    | (window) "unfolded E op_id w" "files w = s0 \<or> files w = sn"
    | (committed) "reads_as E op_id r0 COMMITTED w" "files w = sn"
    | (aborted) "reads_as E op_id r0 ABORTED w" "files w = s0"
    unfolding crash_state_def by blast
  then show ?thesis
  proof cases
    case flight
    from recover_in_flight [OF flight s] obtain tr a where
      "recover_locked E op_id w = (tr, a)" "\<forall>w' \<in> set tr. crash_state E op_id r0 ps s0 sn w'" "a_ok a"
      "a_code a = ''ABORTED'' \<and> files (final w tr) = s0 \<or> a_code a = ''COMMITTED'' \<and> files (final w tr) = sn"
      by (auto split: if_splits)
    then show ?thesis by (auto simp: recovered_def)
  next
    case window
    then show ?thesis
      using recover_refused [OF s gate_unfolded [OF window(1)]]
      by (auto simp: recovered_def refuse_def answer_def)
  next
    case committed
    then show ?thesis
      using recover_refused [OF s gate_settled [OF committed(1) _ owned]] bind
      by (simp add: recovered_def answer_def)
  next
    case aborted
    then show ?thesis
      using recover_refused [OF s gate_settled [OF aborted(1) _ owned]] bind
      by (simp add: recovered_def refuse_def answer_def status_name_def)
  qed
qed

interpretation crashing: converging "crash_inv E op_id r0 ps s0 sn" "recover_locked E op_id" "recovered E op_id s0 sn"
  for E op_id r0 ps s0 sn
  by unfold_locales (use recover_from_crash_state in \<open>auto simp: crash_inv_def\<close>)

end
