(* ===== verification/CrashSafety.thy ===== *)
theory CrashSafety
  imports CrashRecovery
begin

text \<open>
  The mutation against its abstract plan: what \<open>Journal.start\<close> publishes, what the apply loop passes
  through, and the theorems on committing, crashing and recovering.
\<close>

section \<open>The published directory\<close>

lemma number_append: "number (xs @ [c]) = 10 * number xs + dval c"
  by (simp add: number_def)

lemma number_show_nat: "number (show_nat n) = n"
proof (induction n rule: show_nat.induct)
  case (1 n)
  have d: "dval (char_of (48 + m)) = m" if "m < 10" for m
    using that by (simp add: dval_def)
  show ?case
  proof (cases "n < 10")
    case True
    then show ?thesis by (subst show_nat.simps) (simp add: number_def d)
  next
    case False
    with 1 show ?thesis by (subst show_nat.simps) (simp add: number_append d)
  qed
qed

lemma staged_name_index: "staged_name env i c = staged_name env j c' \<Longrightarrow> i = j"
proof -
  assume eq: "staged_name env i c = staged_name env j c'"
  have "span is_digit (staged_name env k x) = (show_nat k, ''_'' @ d_bytes env x @ ''.staged'')" for k x
    unfolding staged_name_def using show_nat_digits [of k] by (intro span_append) (auto simp: is_digit_def)
  with eq have "show_nat i = show_nat j" by (metis fst_conv)
  then show "i = j" by (metis number_show_nat)
qed

lemma stage_facts:
  "\<forall>d' \<in> set (stage env i ts d). manifest d' = manifest d \<and> progress d' = progress d"
  "(\<forall>j. name \<noteq> staged_name env (i + j) (as_posix (target_parts env (t_path (ts ! j)))) \<or> length ts \<le> j) \<Longrightarrow>
     dict_get (staged (last (d # stage env i ts d))) name = dict_get (staged d) name"
proof (induction ts arbitrary: i d)
  case (Cons t ts)
  {
    case 1
    show ?case using Cons(1) by (auto simp: Let_def)
  next
    case 2
    let ?n = "staged_name env i (as_posix (target_parts env (t_path t)))"
    let ?d = "d\<lparr>staged := dict_set ?n (t_content t) (staged d)\<rparr>"
    have rest: "\<forall>j. name \<noteq> staged_name env (Suc i + j) (as_posix (target_parts env (t_path (ts ! j)))) \<or> length ts \<le> j"
    proof
      fix j
      show "name \<noteq> staged_name env (Suc i + j) (as_posix (target_parts env (t_path (ts ! j)))) \<or> length ts \<le> j"
        using 2 [rule_format, of "Suc j"] by simp
    qed
    have "name \<noteq> ?n" using 2 [rule_format, of 0] by auto
    with Cons(2) [OF rest, of ?d] Cons(2) [OF rest, of d] show ?case by (auto simp: Let_def)
  }
qed simp_all

lemma stage_content:
  assumes "j < length ts" and "t_action (ts ! j) = Write"
  shows "staged_content env (last (d # stage env i ts d)) (i + j) (t_path (ts ! j)) = Some (t_content (ts ! j))"
  using assms
proof (induction ts arbitrary: i d j)
  case (Cons t ts)
  show ?case
  proof (cases j)
    case (Suc m)
    then have m: "m < length ts" "t_action (ts ! m) = Write" using Cons.prems by simp_all
    have ih: "staged_content env (last (e # stage env (Suc i) ts e)) (Suc i + m) (t_path (ts ! m)) = Some (t_content (ts ! m))"
      for e by (rule Cons.IH [OF m])
    show ?thesis
      using ih [of d] ih [of "d\<lparr>staged := dict_set (staged_name env i (as_posix (target_parts env (t_path t)))) (t_content t) (staged d)\<rparr>"] Suc
      by (simp add: Let_def split: if_split_asm)
  next
    case 0
    then have w: "t_action t = Write" using Cons.prems by simp
    let ?n = "staged_name env i (as_posix (target_parts env (t_path t)))"
    let ?d = "d\<lparr>staged := dict_set ?n (t_content t) (staged d)\<rparr>"
    have "dict_get (staged (last (?d # stage env (Suc i) ts ?d))) ?n = dict_get (staged ?d) ?n"
      by (rule stage_facts(2)) (auto dest: staged_name_index)
    with 0 w show ?thesis by (simp add: staged_content_def Let_def)
  qed
qed simp

lemma staged_content_manifest [simp]: "staged_content env (d\<lparr>manifest := m\<rparr>) i rel = staged_content env d i rel"
  by (simp add: staged_content_def cong: option.case_cong)

definition published :: "engine_env \<Rightarrow> op_record \<Rightarrow> prepared list \<Rightarrow> op_dir" where
  "published E r ps = (last (empty_dir # stage (os E) 0 ps empty_dir))\<lparr>manifest := Some (Some (encode_record r))\<rparr>"

lemma start_final:
  "final w (start E op_id r ps w) = put_dir In_Ops op_id (published E r ps) w"
  by (simp add: start_def Let_def published_def final_def)

lemma published_staged: "staged_ok (os E) (published E r ps) ps"
  unfolding staged_ok_def
proof (intro allI impI)
  fix i assume "i < length ps" "t_action (ps ! i) = Write"
  from stage_content [OF this, of "os E" empty_dir 0]
  show "staged_content (os E) (published E r ps) i (t_path (ps ! i)) = Some (t_content (ps ! i))"
    by (simp only: published_def staged_content_manifest add_0)
qed

lemma published_in_flight:
  assumes wf: "wf_record (os E) op_id (published E r ps) r" and st: "r_status r = PREPARED"
    and at: "plan_at (os E) ps s0 sn 0 (files w)"
  shows "in_flight E op_id r ps s0 sn 0 PREPARED (final w (start E op_id r ps w))"
proof -
  have "last (empty_dir # stage (os E) 0 ps empty_dir) \<in> set (empty_dir # stage (os E) 0 ps empty_dir)"
    by (rule last_in_set) simp
  then have "progress (last (empty_dir # stage (os E) 0 ps empty_dir)) = None"
    using stage_facts(1) [of "os E" 0 ps empty_dir] by (auto simp: empty_dir_def)
  then have "progress (published E r ps) = None" by (simp add: published_def)
  moreover have "decode_manifest (os E) op_id (published E r ps) = Inr r"
    by (rule decode_manifest_encode [OF wf]) (simp add: published_def)
  ultimately have "dir_in_flight (os E) op_id r PREPARED (published E r ps)" by (simp add: dir_in_flight_def st)
  then show ?thesis using published_staged [of E r ps] at by (simp add: start_final in_flight_def)
qed

section \<open>The apply loop\<close>

lemma apply_in_flight:
  assumes "in_flight E op_id r0 ps s0 sn k st w" and c0: "carries r0 ps"
  shows "\<exists>tr st'. apply_targets E op_id k (drop k ps) w = (tr, None) \<and>
    in_flight E op_id r0 ps s0 sn (length ps) st' (final w tr) \<and>
    (\<forall>w' \<in> set tr. \<exists>k' st'. in_flight E op_id r0 ps s0 sn k' st' w')"
  using assms(1)
proof (induction "length ps - k" arbitrary: k st w)
  case 0
  then have "k = length ps" by (simp add: in_flight_def plan_at_def)
  with 0 show ?case by (intro exI [of _ "[]"] exI [of _ st]) simp
next
  case (Suc m)
  from Suc.hyps(2) have k: "k < length ps" by simp
  have drop: "drop k ps = ps ! k # drop (Suc k) ps" using k by (simp add: Cons_nth_drop_Suc)
  have at: "plan_at (os E) ps s0 sn k (files w)" using Suc.prems by (simp add: in_flight_def)
  from plan_at_next [OF at k] obtain s' where s': "plan_step (os E) (files w) (ps ! k) = Some s'" by blast
  note step = plan_stepD [OF s']
  have pend: "classify_live (os E) (files w) (ps ! k) = PENDING"
    using step(1,2) by (simp add: classify_live_def classify_target_def)
  let ?w1 = "w\<lparr>files := s'\<rparr>"
  let ?w2 = "put_dir In_Ops op_id (mark_sidecar APPLYING (Some (int k + 1)) (Some (int k)) (journal_dir In_Ops op_id ?w1)) ?w1"
  have f1: "in_flight E op_id r0 ps s0 sn (Suc k) st ?w1" by (rule in_flight_files [OF Suc.prems k s'])
  have f2: "in_flight E op_id r0 ps s0 sn (Suc k) APPLYING ?w2" by (rule in_flight_mark_step [OF f1 c0 k])
  have m: "m = length ps - Suc k" using Suc.hyps(2) by simp
  from Suc.hyps(1) [OF m f2] obtain tr st' where
    tr: "apply_targets E op_id (Suc k) (drop (Suc k) ps) ?w2 = (tr, None)"
      "in_flight E op_id r0 ps s0 sn (length ps) st' (final ?w2 tr)"
      "\<forall>w' \<in> set tr. \<exists>k' st'. in_flight E op_id r0 ps s0 sn k' st' w'" by blast
  have "apply_targets E op_id k (drop k ps) w = (?w1 # ?w2 # tr, None)"
    using tr(1) step(3,4) by (simp add: drop pend parts_def mark_unsettled Let_def)
  with tr f1 f2 show ?case by (intro exI [of _ "?w1 # ?w2 # tr"] exI [of _ st']) auto
qed

lemma commit_in_flight:
  assumes f: "in_flight E op_id r0 ps s0 sn (length ps) st w" and c: "carries r0 ps"
    and v: "apply_errors E verify sn r0 = []"
  shows "\<exists>tr a. commit E op_id None verify r0 w = (tr, a) \<and> a_ok a \<and> a_code a = ''COMMITTED'' \<and>
    (\<forall>w' \<in> set tr. crash_state E op_id r0 ps s0 sn w') \<and>
    reads_as E op_id r0 COMMITTED (final w tr) \<and> files (final w tr) = sn"
proof -
  have at: "plan_at (os E) ps s0 sn (length ps) (files w)" using f by (simp add: in_flight_def)
  have sn: "files w = sn" by (rule plan_at_end [OF at])
  from mark_all_committed [OF f sn] obtain tr where
    "mark_all E In_Ops op_id [VERIFIED, COMMITTED] w = (tr, True)"
    "\<forall>w' \<in> set tr. crash_state E op_id r0 ps s0 sn w'"
    "reads_as E op_id r0 COMMITTED (final w tr)" "files (final w tr) = sn" by blast
  then show ?thesis
    using verified_tree [OF at c] v sn by (simp add: commit_def finalize_def settle_committed_def answer_def Let_def)
qed

lemma apply_journaled_in_flight:
  assumes f: "in_flight E op_id r0 ps s0 sn 0 st w" and c: "carries r0 ps"
    and v: "apply_errors E verify sn r0 = []"
  shows "\<exists>tr a. apply_journaled E op_id None verify r0 ps w = (tr, a) \<and> a_ok a \<and> a_code a = ''COMMITTED'' \<and>
    (\<forall>w' \<in> set tr. crash_state E op_id r0 ps s0 sn w') \<and>
    reads_as E op_id r0 COMMITTED (final w tr) \<and> files (final w tr) = sn"
proof -
  let ?w1 = "put_dir In_Ops op_id (mark_sidecar APPLYING None None (journal_dir In_Ops op_id w)) w"
  have f1: "in_flight E op_id r0 ps s0 sn 0 APPLYING ?w1" by (rule in_flight_mark_world [OF f]) simp
  from apply_in_flight [OF f1 c] obtain tr2 st2 where
    m2: "apply_targets E op_id 0 ps ?w1 = (tr2, None)"
    and f2: "in_flight E op_id r0 ps s0 sn (length ps) st2 (final ?w1 tr2)"
    and t2: "\<forall>w' \<in> set tr2. \<exists>k' st'. in_flight E op_id r0 ps s0 sn k' st' w'" by auto
  from commit_in_flight [OF f2 c v] obtain tr3 a where
    m3: "commit E op_id None verify r0 (final ?w1 tr2) = (tr3, a)" and a: "a_ok a" "a_code a = ''COMMITTED''"
    and t3: "\<forall>w' \<in> set tr3. crash_state E op_id r0 ps s0 sn w'"
    and e: "reads_as E op_id r0 COMMITTED (final (final ?w1 tr2) tr3)" "files (final (final ?w1 tr2) tr3) = sn" by blast
  have "apply_journaled E op_id None verify r0 ps w = (?w1 # tr2 @ tr3, a)"
    by (simp add: apply_journaled_def mark_unsettled m2 m3 Let_def)
  moreover have "\<forall>w' \<in> set (?w1 # tr2 @ tr3). crash_state E op_id r0 ps s0 sn w'"
    using f1 t2 t3 in_flight_crash_state by fastforce
  ultimately show ?thesis using a e by (intro exI [of _ "?w1 # tr2 @ tr3"] exI [of _ a]) simp
qed

section \<open>The mutation\<close>

text \<open>
  The setting of the theorems below: a new operation whose plan, taken from the live tree, runs to
  its end in the tree \<open>sn\<close>, and whose published record is well-formed.
\<close>

definition new_operation ::
  "engine_env \<Rightarrow> hooks \<Rightarrow> string \<Rightarrow> request \<Rightarrow> admitted \<Rightarrow> string option \<Rightarrow> store \<Rightarrow> world \<Rightarrow> bool" where
  "new_operation E h op_id q v lineage sn w \<longleftrightarrow>
     (let ps = prepare (os E) (files w) (v_targets v); r = start_record E op_id q v lineage ps in
      dir_at (journal_place op_id w) op_id w = None \<and> \<not> stale_state E w ps v \<and>
      plan_at (os E) ps (files w) sn 0 (files w) \<and> wf_record (os E) op_id (published E r ps) r \<and>
      h_finalize h = None \<and> apply_errors E (h_verify h) sn r = [])"

lemma carries_start: "carries (start_record E op_id q v lineage ps) ps"
  by (simp add: carries_def start_record_def strip_applied_def bare_target_def comp_def)

lemma unpublished_states:
  assumes "w' \<in> set (start E op_id r ps w)" and "dir_at (journal_place op_id w) op_id w = None"
  shows "files w' = files w \<and> (w' = final w (start E op_id r ps w) \<or> \<not> journal_exists op_id w')"
proof -
  have none: "dir_at In_Ops op_id w = None" "dir_at In_Settled op_id w = None"
    using assms(2) by (auto simp: journal_place_def split: option.splits if_splits)
  let ?ds = "empty_dir # stage (os E) 0 ps empty_dir"
  from assms(1) consider "w' = put_dir In_Ops op_id (published E r ps) w"
    | d where "d \<in> set ?ds" "w' = put_dir In_Ops op_id d w"
    by (auto simp: start_def Let_def published_def)
  then show ?thesis
  proof cases
    case 1
    then show ?thesis by (simp add: start_final)
  next
    case 2
    then have m: "manifest d = None" using stage_facts(1) [of "os E" 0 ps empty_dir] by (auto simp: empty_dir_def)
    have "journal_place op_id w' = In_Ops" using none m by (simp add: 2(2) journal_place_def)
    with m show ?thesis by (simp add: 2(2) journal_exists_def)
  qed
qed

lemma begin_mutation_runs:
  assumes n: "new_operation E h op_id q v lineage sn w"
    and ps_def: "ps = prepare (os E) (files w) (v_targets v)" and r_def: "r = start_record E op_id q v lineage ps"
  shows "\<exists>tr a. begin_mutation E h op_id q v lineage w = (start E op_id r ps w @ tr, a) \<and>
    a_ok a \<and> a_code a = ''COMMITTED'' \<and>
    crash_state E op_id r ps (files w) sn (final w (start E op_id r ps w)) \<and>
    (\<forall>w' \<in> set tr. crash_state E op_id r ps (files w) sn w') \<and>
    reads_as E op_id r COMMITTED (final (final w (start E op_id r ps w)) tr) \<and>
    files (final (final w (start E op_id r ps w)) tr) = sn"
proof -
  from n have at: "plan_at (os E) ps (files w) sn 0 (files w)" and wf: "wf_record (os E) op_id (published E r ps) r"
    and v: "apply_errors E (h_verify h) sn r = []"
    by (simp_all add: new_operation_def Let_def ps_def r_def)
  have st: "r_status r = PREPARED" by (simp add: r_def start_record_def)
  have c: "carries r ps" by (simp add: r_def carries_start)
  have f: "in_flight E op_id r ps (files w) sn 0 PREPARED (final w (start E op_id r ps w))"
    by (rule published_in_flight [OF wf st at])
  from apply_journaled_in_flight [OF f c v] obtain tr a where
    j: "apply_journaled E op_id None (h_verify h) r ps (final w (start E op_id r ps w)) = (tr, a)"
    and rest: "a_ok a" "a_code a = ''COMMITTED''" "\<forall>w' \<in> set tr. crash_state E op_id r ps (files w) sn w'"
      "reads_as E op_id r COMMITTED (final (final w (start E op_id r ps w)) tr)"
      "files (final (final w (start E op_id r ps w)) tr) = sn" by blast
  have "begin_mutation E h op_id q v lineage w = (start E op_id r ps w @ tr, a)"
    using n j by (simp add: begin_mutation_def new_operation_def Let_def ps_def r_def)
  with rest in_flight_crash_state [OF f] show ?thesis by blast
qed

section \<open>A concrete run\<close>

text \<open>A cleanup: the log is rewritten, the file of a directory is deleted, then the directory.\<close>

definition demo_clean_request :: request where
  "demo_clean_request = (demo_request ''log'')\<lparr>q_targets := JList
     [JObj [(''path'', JStr ''log''), (''role'', JStr ''log''), (''content'', JStr ''new'')],
      JObj [(''path'', JStr ''d/f''), (''action'', JStr ''delete_file'')],
      JObj [(''path'', JStr ''d''), (''action'', JStr ''delete_dir''),
            (''planned_before_hash'', JStr (empty_delete_tree_hash demo_env))]]\<rparr>"

definition demo_admitted :: admitted where
  "demo_admitted = projr (validate_mutation_request demo_env demo_clean_request)"

definition demo_world :: world where
  "demo_world = \<lparr>files = [([''log''], File ''old''), ([''d''], Dir), ([''d'', ''f''], File ''x'')],
     ops = [], settled = [], debts = []\<rparr>"

definition demo_ps :: "prepared list" where
  "demo_ps = prepare demo_env (files demo_world) (v_targets demo_admitted)"

definition demo_r :: op_record where
  "demo_r = start_record demo_engine ''op-1'' demo_clean_request demo_admitted None demo_ps"

definition demo_planned :: store where
  "demo_planned = [([''log''], File ''new'')]"

lemma demo_plan: "plan_at demo_env demo_ps (files demo_world) demo_planned 0 (files demo_world)"
  by code_simp

lemma demo_wf_published: "wf_record demo_env ''op-1'' (published demo_engine demo_r demo_ps) demo_r"
  by code_simp

lemma demo_new_operation:
  "new_operation demo_engine no_hooks ''op-1'' demo_clean_request demo_admitted None demo_planned demo_world"
proof -
  have "dir_at (journal_place ''op-1'' demo_world) ''op-1'' demo_world = None" by code_simp
  moreover have "\<not> stale_state demo_engine demo_world demo_ps demo_admitted" by code_simp
  moreover have "r_policy demo_r = ''none''" by code_simp
  ultimately show ?thesis
    using demo_plan demo_wf_published
    by (simp add: new_operation_def Let_def demo_os no_hooks_def apply_errors_def
        demo_ps_def [symmetric] demo_r_def [symmetric])
qed

lemma demo_sound: "op_sound demo_engine ''op-1'' demo_r demo_ps (files demo_world) demo_planned"
proof -
  have "validate_op_id ''op-1'' = Inr ''op-1''" by code_simp
  moreover have "carries demo_r demo_ps" by (simp only: demo_r_def carries_start)
  moreover have "paths_owned demo_env demo_r" "r_operation demo_r \<noteq> ''release''" by code_simp+
  moreover have fields: "r_policy demo_r = ''none''" "r_read demo_r = []" "r_lineage demo_r = None"
    "r_identity demo_r = ''id''" by code_simp+
  moreover have "semantic_errors demo_engine demo_planned r = []" if "plan_of r = plan_of demo_r" for r
    using plan_of_fields(10) [OF that] fields by (simp add: semantic_errors_def)
  moreover have "e_runtime demo_engine = ''id''" by (simp add: demo_engine_def)
  ultimately show ?thesis
    by (simp add: op_sound_def demo_os stale_dependency_def recovery_identity_binding_def)
qed

text \<open>
  C2: the journaled mutation refines its plan: when the plan runs from the live tree to \<open>sn\<close>, the
  mutation commits, leaves exactly the tree \<open>sn\<close>, and its receipt reads as COMMITTED with the plan it
  was started with.
\<close>

theorem mutation_refines_plan:
  assumes "new_operation E h op_id q v lineage sn w"
  shows "\<exists>tr a r. begin_mutation E h op_id q v lineage w = (tr, a) \<and> a_ok a \<and> a_code a = ''COMMITTED'' \<and>
    files (final w tr) = sn \<and> r = start_record E op_id q v lineage (prepare (os E) (files w) (v_targets v)) \<and>
    reads_as E op_id r COMMITTED (final w tr)"
proof -
  let ?ps = "prepare (os E) (files w) (v_targets v)"
  let ?r = "start_record E op_id q v lineage ?ps"
  from begin_mutation_runs [OF assms refl refl] obtain tr a where
    "begin_mutation E h op_id q v lineage w = (start E op_id ?r ?ps w @ tr, a)" "a_ok a" "a_code a = ''COMMITTED''"
    "reads_as E op_id ?r COMMITTED (final w (start E op_id ?r ?ps w @ tr))"
    "files (final w (start E op_id ?r ?ps w @ tr)) = sn" unfolding final_simps by blast
  then show ?thesis by blast
qed

theorem mutation_refines_plan_witness:
  "\<exists>tr a. begin_mutation demo_engine no_hooks ''op-1'' demo_clean_request demo_admitted None demo_world = (tr, a) \<and>
     a_code a = ''COMMITTED'' \<and> files (final demo_world tr) = demo_planned"
  using mutation_refines_plan [OF demo_new_operation] by blast

text \<open>
  C1: crash safety.  Interrupt the mutation after any of its durable writes, then interrupt recovery
  after any of its writes, any number of times: either nothing was published and the tree is
  untouched, or the next recovery ends with the planned tree and a committed receipt, or with the
  original tree and an aborted one; the only exception is the window between a settled sidecar and
  its fold, where recovery refuses and writes nothing.
\<close>

theorem mutation_crash_safe:
  assumes n: "new_operation E h op_id q v lineage sn w"
    and s: "op_sound E op_id (start_record E op_id q v lineage (prepare (os E) (files w) (v_targets v)))
      (prepare (os E) (files w) (v_targets v)) (files w) sn"
  shows "\<forall>w1 \<in> set (fst (begin_mutation E h op_id q v lineage w)).
    files w1 = files w \<and> \<not> journal_exists op_id w1 \<or>
    (\<forall>w2. restarts (recover_locked E op_id) w1 w2 \<longrightarrow>
      recovered E op_id (files w) sn w2 (recover_locked E op_id w2))"
proof
  let ?ps = "prepare (os E) (files w) (v_targets v)"
  let ?r = "start_record E op_id q v lineage ?ps"
  fix w1 assume w1: "w1 \<in> set (fst (begin_mutation E h op_id q v lineage w))"
  have p0: "plan_at (os E) ?ps (files w) sn 0 (files w)" and none: "dir_at (journal_place op_id w) op_id w = None"
    using n by (simp_all add: new_operation_def Let_def)
  from begin_mutation_runs [OF n refl refl] obtain tr where
    tr: "fst (begin_mutation E h op_id q v lineage w) = start E op_id ?r ?ps w @ tr"
    and c0: "crash_state E op_id ?r ?ps (files w) sn (final w (start E op_id ?r ?ps w))"
    and c1: "\<forall>w' \<in> set tr. crash_state E op_id ?r ?ps (files w) sn w'" by fastforce
  have "files w1 = files w \<and> \<not> journal_exists op_id w1 \<or> crash_state E op_id ?r ?ps (files w) sn w1"
    using w1 unpublished_states [OF _ none] c0 c1 unfolding tr set_append by blast
  moreover have "recovered E op_id (files w) sn w2 (recover_locked E op_id w2)"
    if "crash_state E op_id ?r ?ps (files w) sn w1" "restarts (recover_locked E op_id) w1 w2" for w2
    by (rule crashing.outcome_after_crashes [of E op_id w1 w2 ?r ?ps]) (use that s p0 in \<open>simp_all add: crash_inv_def\<close>)
  ultimately show "files w1 = files w \<and> \<not> journal_exists op_id w1 \<or>
    (\<forall>w2. restarts (recover_locked E op_id) w1 w2 \<longrightarrow>
      recovered E op_id (files w) sn w2 (recover_locked E op_id w2))" by blast
qed

text \<open>The cleanup is killed after its first target, and its recovery after the first write of its own.\<close>

definition demo_trace :: "world list" where
  "demo_trace = fst (begin_mutation demo_engine no_hooks ''op-1'' demo_clean_request demo_admitted None demo_world)"

definition demo_killed :: world where
  "demo_killed = demo_trace ! 8"

definition demo_killed_twice :: world where
  "demo_killed_twice = hd (fst (recover_locked demo_engine ''op-1'' demo_killed))"

lemma demo_killed_reached: "demo_killed \<in> set demo_trace"
proof -
  have "8 < length demo_trace" by code_simp
  then show ?thesis by (simp add: demo_killed_def)
qed

lemma demo_killed_journaled: "journal_exists ''op-1'' demo_killed"
  by code_simp

lemma demo_killed_restarts: "restarts (recover_locked demo_engine ''op-1'') demo_killed demo_killed_twice"
proof -
  have "fst (recover_locked demo_engine ''op-1'' demo_killed) \<noteq> []" by code_simp
  then have "demo_killed_twice \<in> set (fst (recover_locked demo_engine ''op-1'' demo_killed))"
    by (simp add: demo_killed_twice_def)
  then show ?thesis by (rule restarts.crash [OF restarts.here])
qed

theorem mutation_crash_safe_witness:
  "recovered demo_engine ''op-1'' (files demo_world) demo_planned demo_killed_twice
     (recover_locked demo_engine ''op-1'' demo_killed_twice)"
proof -
  have "\<forall>w1 \<in> set demo_trace. files w1 = files demo_world \<and> \<not> journal_exists ''op-1'' w1 \<or>
     (\<forall>w2. restarts (recover_locked demo_engine ''op-1'') w1 w2 \<longrightarrow>
        recovered demo_engine ''op-1'' (files demo_world) demo_planned w2 (recover_locked demo_engine ''op-1'' w2))"
    unfolding demo_trace_def
    by (rule mutation_crash_safe [OF demo_new_operation])
       (simp only: demo_os demo_ps_def [symmetric] demo_r_def [symmetric] demo_sound)
  with demo_killed_reached demo_killed_journaled demo_killed_restarts show ?thesis by blast
qed

section \<open>Retrying\<close>

lemma restrict_pre_self: "restrict_pre c d d = d"
  by (force simp: restrict_pre_def dict_keys_def intro: filter_True)

lemma retry_identity_same:
  assumes "plan_of r = plan_of (start_record E op_id q v lineage (prepare (os E) st (v_targets v)))" and "r_status r = COMMITTED"
  shows "retry_identity E q v r = answer True ''ALREADY_APPLIED'' False"
proof -
  let ?r0 = "start_record E op_id q v lineage (prepare (os E) st (v_targets v))"
  note f = plan_of_fields [OF assms(1)]
  have "map (\<lambda>t. (t_path t, t_role t, t_action t, t_after t)) (r_targets r) =
      map (\<lambda>t. (t_path t, t_role t, t_action t, t_after t)) (r_targets ?r0)"
    by (rule map_strip [OF f(12)]) simp
  also have "\<dots> = map (\<lambda>k. (k_path k, k_role k, k_action k, asked_after (os E) k)) (v_targets v)"
    by (simp add: start_record_def bare_target_def prepare_def prepare_target_def comp_def)
  finally have ts: "map (\<lambda>t. (t_path t, t_role t, t_action t, t_after t)) (r_targets r) = \<dots>" .
  have "r_pre r = v_pre v" "r_read r = v_read v" "r_meta r = v_meta v" "r_operation r = the_str (q_operation q)"
    "r_payload r = the_str (q_payload q)" "r_policy r = q_policy q"
    by (simp_all add: f start_record_def)
  then have "request_fingerprint (os E) q v r = record_fingerprint v r"
    using ts by (simp add: request_fingerprint_def record_fingerprint_def Let_def assms(2) restrict_pre_self)
  then show ?thesis by (simp add: retry_identity_def assms(2))
qed

text \<open>
  What \<open>run_mutation\<close> does before it begins a new operation: the preflight, then the lineage of the
  project, minted when there is none.  \<open>None\<close> where one of the two refuses.
\<close>

definition entered :: "engine_env \<Rightarrow> bool \<Rightarrow> hooks \<Rightarrow> request \<Rightarrow> world \<Rightarrow> (world list \<times> string option) option" where
  "entered E ens h q w =
     (let (tr1, pre) = (if h_skip_preflight h then ([], answer True ''OK'' False) else recovery_preflight E w (q_op_id q)) in
      if \<not> a_ok pre then None
      else if \<not> ens then Some (tr1, None)
      else (case ensure_project_lineage E (final w tr1) of
          (_, Inl _) \<Rightarrow> None
        | (tr2, Inr lineage) \<Rightarrow> Some (tr1 @ tr2, Some lineage)))"

text \<open>The receipt of a committed operation still belongs to the project whose tree is \<open>st\<close>.\<close>

definition still_bound :: "engine_env \<Rightarrow> request \<Rightarrow> string option \<Rightarrow> store \<Rightarrow> bool" where
  "still_bound E q lineage st =
     (case lineage of
        Some l \<Rightarrow> project_lineage_identity st = Some l
      | None \<Rightarrow> e_runtime E \<noteq> [] \<and> q_identity q = JStr (e_runtime E))"

lemma entered_run:
  assumes "validate_mutation_request (os E) q = Inr v" "validate_op_id (q_op_id q) = Inr op_id"
    and "\<not> journal_exists op_id w" "entered E ens h q w = Some (tr0, lineage)"
    and "begin_mutation E h op_id q v lineage (final w tr0) = (tr, a)"
  shows "run_mutation E ens h q w = (tr0 @ tr, a)"
  using assms
  by (auto simp: run_mutation_def run_mutation_with_def entered_def Let_def case_prod_unfold
      split: if_split_asm prod.split_asm sum.split_asm)

lemma bound_lineage:
  assumes "project_lineage_identity st = Some l"
  shows "l \<noteq> [] \<and> read_lineage_strict st = Carries l"
proof -
  from assms obtain b s where b: "dict_get st IDENTITY_PATH = Some (File b)" "utf8_decode b = Some s"
    "parse_identity_content s = Inr l"
    by (auto simp: project_lineage_identity_def split: option.split_asm node.split_asm if_split_asm sum.split_asm)
  then have "lineage_re l" using identity_roundtrip [of l s] by blast
  with b lineage_shape show ?thesis by (auto simp: read_lineage_strict_def)
qed

lemma retry_committed:
  assumes c: "reads_as E op_id (start_record E op_id q v lineage (prepare (os E) st (v_targets v))) COMMITTED w"
    and b: "still_bound E q lineage (files w)"
    and v: "validate_mutation_request (os E) q = Inr v" and op: "validate_op_id (q_op_id q) = Inr op_id"
  shows "run_mutation E ens h q w = ([], answer True ''ALREADY_APPLIED'' False)"
proof -
  let ?r0 = "start_record E op_id q v lineage (prepare (os E) st (v_targets v))"
  from c obtain r where j: "journal_exists op_id w"
    and r: "decode_operation_record (os E) op_id (journal_dir (journal_place op_id w) op_id w) False = Inr r"
      "r_status r = COMMITTED" "plan_of r = plan_of ?r0" by (auto simp: reads_as_def)
  note f = plan_of_fields [OF r(3)]
  have l: "r_lineage r = lineage" using f(6) by (simp add: start_record_def)
  have "retry E ensure op_id q v w = ([], answer True ''ALREADY_APPLIED'' False)"
    if "ensure = None \<or> ensure = Some (ensure_project_lineage E)" for ensure
  proof (cases lineage)
    case None
    then have "recovery_identity_binding E (files w) r"
      using l f(5) b by (simp add: recovery_identity_binding_def still_bound_def start_record_def)
    then show ?thesis
      using r(1) l None retry_identity_same [OF r(3,2)] by (cases ensure) (simp_all add: retry_def)
  next
    case (Some k)
    then have p: "project_lineage_identity (files w) = Some k" using b by (simp add: still_bound_def)
    with bound_lineage [OF p] have "recovery_identity_binding E (files w) r"
      "ensure_project_lineage E w = ([], Inr k)"
      using l Some by (simp_all add: recovery_identity_binding_def ensure_project_lineage_def)
    then show ?thesis
      using r(1) l Some that bound_lineage [OF p] retry_identity_same [OF r(3,2)] by (auto simp: retry_def)
  qed
  then show ?thesis by (simp add: run_mutation_def run_mutation_with_def v op j)
qed

text \<open>
  C6: at most once.  A call of \<open>run_mutation\<close> for a new operation, past the preflight and with the lineage
  that \<open>ensure_project_lineage\<close> returned (or with none, as the lineage migration itself runs), commits its
  plan; repeating the call with the same request, however it is hooked and whether or not it asks for
  the lineage, answers ALREADY_APPLIED and writes nothing, as long as the committed tree still carries
  the lineage (without one, as long as the request names the runtime path).
\<close>

theorem committed_retry_writes_nothing:
  assumes v: "validate_mutation_request (os E) q = Inr v" and op: "validate_op_id (q_op_id q) = Inr op_id"
    and new: "\<not> journal_exists op_id w" and entry: "entered E ens h q w = Some (tr0, lineage)"
    and n: "new_operation E h op_id q v lineage sn (final w tr0)"
    and bound: "still_bound E q lineage sn"
  shows "\<exists>tr a. run_mutation E ens h q w = (tr, a) \<and> a_ok a \<and> a_code a = ''COMMITTED'' \<and> files (final w tr) = sn \<and>
    (\<forall>ens' h'. run_mutation E ens' h' q (final w tr) = ([], answer True ''ALREADY_APPLIED'' False))"
proof -
  let ?w = "final w tr0"
  let ?r0 = "start_record E op_id q v lineage (prepare (os E) (files ?w) (v_targets v))"
  from begin_mutation_runs [OF n refl refl] obtain tr a where
    run: "begin_mutation E h op_id q v lineage ?w = (tr, a)" and a: "a_ok a" "a_code a = ''COMMITTED''"
    and r: "reads_as E op_id ?r0 COMMITTED (final ?w tr)" "files (final ?w tr) = sn"
    by (auto simp: final_simps)
  have "run_mutation E ens h q w = (tr0 @ tr, a)" by (rule entered_run [OF v op new entry run])
  moreover have "run_mutation E ens' h' q (final w (tr0 @ tr)) = ([], answer True ''ALREADY_APPLIED'' False)" for ens' h'
    using retry_committed [OF r(1) _ v op] bound r(2) by simp
  ultimately show ?thesis using a r(2) by (auto simp: final_simps)
qed

text \<open>An ordinary write in a project that carries a lineage.\<close>

definition demo_home :: world where
  "demo_home = \<lparr>files = [([''log''], File ''old''), ([''.saipen''], Dir),
       (IDENTITY_PATH, File (identity_file_content (e_fresh_lineage demo_engine)))], ops = [], settled = [], debts = []\<rparr>"

definition demo_home_after :: store where
  "demo_home_after = dict_set [''log''] (File ''x'') (files demo_home)"

definition bound_note :: admitted where
  "bound_note = projr (validate_mutation_request demo_env (demo_request ''log''))"

definition bound_note_ps :: "prepared list" where
  "bound_note_ps = prepare demo_env (files demo_home) (v_targets bound_note)"

definition bound_note_r :: op_record where
  "bound_note_r = start_record demo_engine ''op-1'' (demo_request ''log'') bound_note (Some (e_fresh_lineage demo_engine)) bound_note_ps"

lemma bound_note_new:
  "new_operation demo_engine no_hooks ''op-1'' (demo_request ''log'') bound_note (Some (e_fresh_lineage demo_engine))
     demo_home_after demo_home"
proof -
  have "dir_at (journal_place ''op-1'' demo_home) ''op-1'' demo_home = None" by code_simp
  moreover have "\<not> stale_state demo_engine demo_home bound_note_ps bound_note" by code_simp
  moreover have "r_policy bound_note_r = ''none''" by code_simp
  moreover have "plan_at demo_env bound_note_ps (files demo_home) demo_home_after 0 (files demo_home)" by code_simp
  moreover have "wf_record demo_env ''op-1'' (published demo_engine bound_note_r bound_note_ps) bound_note_r" by code_simp
  ultimately show ?thesis
    by (simp add: new_operation_def Let_def demo_os no_hooks_def apply_errors_def
        bound_note_ps_def [symmetric] bound_note_r_def [symmetric])
qed

theorem committed_retry_writes_nothing_witness:
  "\<exists>tr. run_mutation demo_engine True no_hooks (demo_request ''log'') (final demo_home tr) =
       ([], answer True ''ALREADY_APPLIED'' False) \<and>
     fst (run_mutation demo_engine True no_hooks (demo_request ''log'') demo_home) = tr \<and>
     files (final demo_home tr) = demo_home_after"
proof -
  have "\<exists>v. validate_mutation_request demo_env (demo_request ''log'') = Inr v \<and> True"
    by (rule evaluated_Inr) code_simp
  then have v: "validate_mutation_request (os demo_engine) (demo_request ''log'') = Inr bound_note"
    unfolding bound_note_def demo_os by (elim exE conjE) (simp only: sum.sel)
  have op: "validate_op_id (q_op_id (demo_request ''log'')) = Inr ''op-1''" by code_simp
  have new: "\<not> journal_exists ''op-1'' demo_home" by code_simp
  have entry: "entered demo_engine True no_hooks (demo_request ''log'') demo_home = Some ([], Some (e_fresh_lineage demo_engine))"
    by code_simp
  have b: "still_bound demo_engine (demo_request ''log'') (Some (e_fresh_lineage demo_engine)) demo_home_after" by code_simp
  from bound_note_new have n: "new_operation demo_engine no_hooks ''op-1'' (demo_request ''log'') bound_note
      (Some (e_fresh_lineage demo_engine)) demo_home_after (final demo_home [])" by simp
  from committed_retry_writes_nothing [OF v op new entry n b] show ?thesis by fastforce
qed

end
