(* ===== verification/RecoverySafety.thy ===== *)
theory RecoverySafety
  imports CrashSafety
begin

text \<open>
  What recovery promises for any journal on the disk, planned by this engine or not: it writes
  nothing before every gate has passed, it changes no path the journal does not own, it never
  overwrites a third state, and it settles an operation once.
\<close>

section \<open>The frame of a run\<close>

definition framed :: "ppath set \<Rightarrow> store \<Rightarrow> store \<Rightarrow> bool" where
  "framed T st st' \<longleftrightarrow>
     (\<forall>q. q \<in> T \<or> dict_get st' q = dict_get st q \<or>
          dict_get st q = None \<and> dict_get st' q = Some Dir \<and> (\<exists>p \<in> T. strict_prefix q p))"

lemma framed_refl [simp]: "framed T st st"
  by (simp add: framed_def)

lemma framed_trans: "framed T a b \<Longrightarrow> framed T b c \<Longrightarrow> framed T a c"
  unfolding framed_def by (metis option.distinct(1))

lemma framed_perform: "perform env st a p b = Done st' \<Longrightarrow> p \<in> T \<Longrightarrow> framed T st st'"
  using perform_elsewhere [of env st a p b st'] unfolding framed_def by metis

lemma framed_action: "replay_action env d i t st = Acted st' \<Longrightarrow> parts env t \<in> T \<Longrightarrow> framed T st st'"
  by (auto simp: replay_action_def Let_def parts_def intro: framed_perform
      split: action.splits option.splits io.splits if_splits)

lemma mark_conflict_files: "w' \<in> set (mark_conflict E pl op_id w) \<Longrightarrow> files w' = files w"
  unfolding mark_conflict_def using mark_files [of E pl op_id CONFLICT None None w] by (metis prod.collapse)

lemma marked_files: "w' \<in> set (fst (mark E pl op_id st pi ti w)) \<Longrightarrow> files w' = files w"
  using mark_files [of E pl op_id st pi ti w] by (metis prod.collapse)

lemma final_in: "final w tr = w \<or> final w tr \<in> set tr"
  by (simp add: final_def)

lemma replay_framed:
  assumes "\<forall>t \<in> set ts. parts (os E) t \<in> T" and "w' \<in> set (fst (replay E pl op_id f i ts w))"
  shows "framed T (files w) (files w')"
  using assms
proof (induction ts arbitrary: i w)
  case (Cons t ts)
  show ?case
  proof (cases "replay_action (os E) (journal_dir pl op_id w) i t (files w)")
    case (Acted st)
    let ?w1 = "w\<lparr>files := st\<rparr>"
    let ?tr = "?w1 # fst (mark E pl op_id APPLYING (Some (int i + 1)) (Some (int i)) ?w1)"
    have s: "framed T (files w) st" using Cons.prems framed_action [OF Acted] by simp
    have tr: "files x = st" if "x \<in> set ?tr" for x using that marked_files by fastforce
    then have fin: "files (final w ?tr) = st" by (simp add: final_def)
    from Cons.prems(2) consider "w' \<in> set ?tr" | "w' \<in> set (fst (replay E pl op_id f (Suc i) ts (final w ?tr)))"
      by (auto simp: Acted Let_def split: prod.splits)
    then show ?thesis
    proof cases
      case 2
      with Cons.IH [of "Suc i" "final w ?tr"] Cons.prems(1) have "framed T st (files w')" by (simp add: fin del: final_simps)
      with s show ?thesis by (rule framed_trans)
    qed (simp add: tr s)
  qed (use Cons.prems(2) mark_conflict_files in \<open>auto\<close>)
qed simp

lemma replay_final_framed:
  "\<forall>t \<in> set ts. parts (os E) t \<in> T \<Longrightarrow> framed T (files w) (files (final w (fst (replay E pl op_id f i ts w))))"
  using final_in replay_framed framed_refl by metis

lemma mark_all_files:
  assumes "w' \<in> set (fst (mark_all E pl op_id sts w))"
  shows "files w' = files w"
proof -
  let ?f = "\<lambda>(tr, ok) st. if ok then (let (tr', ok') = mark E pl op_id st None None (final w tr) in (tr @ tr', ok')) else (tr, ok)"
  have step: "\<forall>x \<in> set (fst (?f (tr, ok) st)). files x = files w" if all: "\<forall>x \<in> set tr. files x = files w" for tr ok st
  proof (cases ok)
    case True
    obtain tr' ok' where m: "mark E pl op_id st None None (final w tr) = (tr', ok')" by (metis prod.collapse)
    have "files (final w tr) = files w" using all final_in [of w tr] by metis
    with mark_files [OF m] have "\<forall>x \<in> set tr'. files x = files w" by metis
    with True m all show ?thesis by (simp add: ball_Un)
  next
    case False
    with all show ?thesis by simp
  qed
  have "\<forall>x \<in> set (fst (foldl ?f acc sts)). files x = files w" if "\<forall>x \<in> set (fst acc). files x = files w" for acc
    using that
  proof (induction sts arbitrary: acc)
    case (Cons st sts)
    obtain tr ok where acc: "acc = (tr, ok)" by (metis prod.collapse)
    have "\<forall>x \<in> set (fst (?f acc st)). files x = files w"
      unfolding acc by (rule step) (use Cons.prems acc in simp)
    from Cons.IH [OF this] show ?case by (simp only: foldl_Cons)
  qed simp
  from this [of "([], True)"] assms show ?thesis by (simp add: mark_all_def)
qed

lemma settle_trace: "fst (settle_committed E pl op_id r b w) = fst (mark_all E pl op_id [VERIFIED, COMMITTED] w)"
  unfolding settle_committed_def by (cases "mark_all E pl op_id [VERIFIED, COMMITTED] w") simp

lemma verify_and_settle_files:
  assumes "w' \<in> set (fst (verify_and_settle E pl op_id r w))"
  shows "files w' = files w"
proof -
  from assms have "w' \<in> set (mark_conflict E pl op_id w) \<or> w' \<in> set (fst (mark_all E pl op_id [VERIFIED, COMMITTED] w))"
    unfolding verify_and_settle_def by (simp add: settle_trace split: if_split_asm)
  then show ?thesis using mark_conflict_files mark_all_files by blast
qed

lemma repair_files: "w' \<in> set (repair pl op_id r k w) \<Longrightarrow> files w' = files w"
  by (auto simp: repair_def Let_def split: if_splits)

lemma recover_record_framed:
  assumes "w' \<in> set (fst (recover_record E pl op_id r w))"
  shows "framed (parts (os E) ` set (r_targets r)) (files w) (files w')"
proof -
  let ?T = "parts (os E) ` set (r_targets r)"
  have roll: "framed ?T (files w) (files x)" if x: "x \<in> set (fst (roll_forward E pl op_id r k w))" for x k
  proof (cases "stale_dependency E w (r_read r)")
    case (Some p)
    with x mark_conflict_files [of x E pl op_id w] show ?thesis by (simp add: roll_forward_def)
  next
    case None
    define tr1 where "tr1 = repair pl op_id r k w"
    define w1 where "w1 = final w tr1"
    define tr2 where "tr2 = fst (replay E pl op_id k k (drop k (r_targets r)) w1)"
    define tr3 where "tr3 = fst (verify_and_settle E pl op_id r (final w1 tr2))"
    have w1: "files w1 = files w"
      using final_in [of w tr1] repair_files [of "final w tr1" pl op_id r k w] by (auto simp: w1_def tr1_def)
    have sub: "\<forall>t \<in> set (drop k (r_targets r)). parts (os E) t \<in> ?T" by (auto dest: in_set_dropD)
    have "x \<in> set tr1 \<or> x \<in> set tr2 \<or> x \<in> set tr3"
      using x None by (auto simp: roll_forward_def Let_def tr1_def tr2_def tr3_def w1_def split: prod.splits option.splits)
    moreover have "framed ?T (files w) (files x)" if "x \<in> set tr2"
      using replay_framed [OF sub] that w1 unfolding tr2_def by metis
    moreover have "framed ?T (files w) (files (final w1 tr2))"
      using replay_final_framed [OF sub] w1 unfolding tr2_def by metis
    ultimately show ?thesis
      using repair_files [of x pl op_id r k w] verify_and_settle_files [of x E pl op_id r "final w1 tr2"]
      unfolding tr1_def tr3_def by fastforce
  qed
  show ?thesis
  proof (cases "decide (os E) (files w) r")
    case (Conflict_At i)
    with assms mark_conflict_files [of w' E pl op_id w] show ?thesis by (simp add: recover_record_def Let_def)
  next
    case Abort
    with assms marked_files [of w' E pl op_id ABORTED None None w] show ?thesis
      by (simp add: recover_record_def Let_def split: prod.splits)
  next
    case (Roll_Forward k)
    with assms roll show ?thesis by (simp add: recover_record_def Let_def)
  qed
qed

text \<open>
  C4: whatever a journal on the disk says, recovery writes only after the strict decoder, the
  ownership of every path, the binding to this project and an unresolved status have all been
  checked, and every durable state it leaves differs from the tree it found only at the journal's
  owned targets and at directories created above them.  (A release is recovered by other code.)
\<close>

theorem recovery_writes_owned_targets_only:
  assumes "w' \<in> set (fst (recover_locked E op_id0 w))" and v: "validate_op_id op_id0 = Inr op_id"
    and "\<And>r. recover_gate E op_id w = Inr r \<Longrightarrow> r_operation r \<noteq> ''release''"
  shows "\<exists>r.
    decode_operation_record (os E) op_id (journal_dir (journal_place op_id w) op_id w) False = Inr r \<and>
    paths_owned (os E) r \<and> recovery_identity_binding E (files w) r \<and> r_status r \<in> set UNRESOLVED \<and>
    framed (parts (os E) ` set (r_targets r)) (files w) (files w')"
proof -
  from assms(1) v obtain r where g: "recover_gate E op_id w = Inr r"
    by (auto simp: recover_locked_def split: sum.splits)
  with assms have "w' \<in> set (fst (recover_record E (journal_place op_id w) op_id r w))"
    by (simp add: recover_locked_def v)
  then have "framed (parts (os E) ` set (r_targets r)) (files w) (files w')" by (rule recover_record_framed)
  moreover from g have "decode_operation_record (os E) op_id (journal_dir (journal_place op_id w) op_id w) False = Inr r"
    "paths_owned (os E) r" "recovery_identity_binding E (files w) r" "r_status r \<in> set UNRESOLVED"
    by (auto simp: recover_gate_def Let_def status_partition split: if_splits sum.splits)
  ultimately show ?thesis using v by blast
qed

text \<open>The published demo operation, before any target has been touched.\<close>

definition demo_published :: world where
  "demo_published = final demo_world (start demo_engine ''op-1'' demo_r demo_ps demo_world)"

theorem recovery_writes_owned_targets_only_witness:
  "\<exists>r. decode_operation_record demo_env ''op-1'' (journal_dir (journal_place ''op-1'' demo_published) ''op-1'' demo_published) False = Inr r \<and>
     framed (parts demo_env ` set (r_targets r)) (files demo_published)
       (files (last (fst (recover_locked demo_engine ''op-1'' demo_published))))"
proof -
  have "fst (recover_locked demo_engine ''op-1'' demo_published) \<noteq> []" by code_simp
  then have m: "last (fst (recover_locked demo_engine ''op-1'' demo_published)) \<in> set (fst (recover_locked demo_engine ''op-1'' demo_published))"
    by (rule last_in_set)
  have v: "validate_op_id ''op-1'' = Inr ''op-1''" by code_simp
  have g: "(case recover_gate demo_engine ''op-1'' demo_published of Inl _ \<Rightarrow> False | Inr r \<Rightarrow> r_operation r \<noteq> ''release'')"
    by code_simp
  have "r_operation r \<noteq> ''release''" if "recover_gate demo_engine ''op-1'' demo_published = Inr r" for r
    using g unfolding that by (simp only: sum.case) blast
  from recovery_writes_owned_targets_only [OF m v this] show ?thesis unfolding demo_os by blast
qed

section \<open>Third states\<close>

lemma find_upt_least: "find P [0..<n] = Some i \<Longrightarrow> i < n \<and> P i"
  by (auto simp: find_Some_iff)

text \<open>
  C3: a target whose live bytes are a genuine third state is never overwritten: recovery answers
  RECOVERY_CONFLICT at such a target with the live hash as evidence, changes no project file, and
  leaves the receipt, its staged bytes and its manifest in place.
\<close>

theorem third_state_preserved:
  assumes v: "validate_op_id op_id0 = Inr op_id" and g: "recover_gate E op_id w = Inr r"
    and op: "r_operation r \<noteq> ''release''" and i: "i < length (r_targets r)"
    and c: "classify_all (os E) (files w) (r_targets r) ! i = CONFLICTED"
  shows "\<exists>w' j. recover_locked E op_id0 w =
      ([w'], refuse_at ''RECOVERY_CONFLICT'' j (target_live_hash (os E) (files w) (r_targets r ! j))
        (int (materialised_prefix (classify_all (os E) (files w) (r_targets r))) - 1)) \<and>
    classify_all (os E) (files w) (r_targets r) ! j = CONFLICTED \<and> files w' = files w \<and>
    manifest (journal_dir (journal_place op_id w) op_id w') = manifest (journal_dir (journal_place op_id w) op_id w) \<and>
    staged (journal_dir (journal_place op_id w) op_id w') = staged (journal_dir (journal_place op_id w) op_id w)"
proof -
  let ?cs = "classify_all (os E) (files w) (r_targets r)" and ?pl = "journal_place op_id w"
  have "length ?cs = length (r_targets r)" by (simp add: classify_all_def)
  then have "third_state ?cs \<noteq> None"
    using i c by (auto simp: third_state_def first_index_def find_None_iff)
  then obtain j where j: "third_state ?cs = Some j" by auto
  then have cj: "?cs ! j = CONFLICTED" using find_upt_least by (auto simp: third_state_def first_index_def)
  have "decide (os E) (files w) r = Conflict_At j" by (simp add: decide_def Let_def j)
  then have "recover_locked E op_id0 w = (mark_conflict E ?pl op_id w,
      refuse_at ''RECOVERY_CONFLICT'' j (target_live_hash (os E) (files w) (r_targets r ! j)) (int (materialised_prefix ?cs) - 1))"
    using op by (simp add: recover_locked_def v g recover_record_def Let_def)
  then show ?thesis using cj
    by (intro exI [of _ "put_dir ?pl op_id (mark_sidecar CONFLICT None None (journal_dir ?pl op_id w)) w"] exI [of _ j])
       (simp add: mark_conflict_def mark_unsettled)
qed

text \<open>The demo operation with its directory's file replaced by someone else.\<close>

definition demo_third :: world where
  "demo_third = demo_published\<lparr>files := [([''log''], File ''old''), ([''d''], Dir), ([''d'', ''f''], File ''theirs'')]\<rparr>"

theorem third_state_preserved_witness:
  "\<exists>w' a. recover_locked demo_engine ''op-1'' demo_third = ([w'], a) \<and> files w' = files demo_third"
proof -
  have v: "validate_op_id ''op-1'' = Inr ''op-1''" by code_simp
  have "case recover_gate demo_engine ''op-1'' demo_third of Inl _ \<Rightarrow> False
      | Inr r \<Rightarrow> r_operation r \<noteq> ''release'' \<and> 1 < length (r_targets r) \<and>
          classify_all demo_env (files demo_third) (r_targets r) ! 1 = CONFLICTED"
    by code_simp
  then have "\<exists>r. recover_gate demo_engine ''op-1'' demo_third = Inr r \<and> r_operation r \<noteq> ''release'' \<and>
      1 < length (r_targets r) \<and> classify_all demo_env (files demo_third) (r_targets r) ! 1 = CONFLICTED"
    by (rule evaluated_Inr)
  then obtain r where g: "recover_gate demo_engine ''op-1'' demo_third = Inr r"
    and r: "r_operation r \<noteq> ''release''" "1 < length (r_targets r)"
      "classify_all (os demo_engine) (files demo_third) (r_targets r) ! 1 = CONFLICTED"
    unfolding demo_os by (elim exE conjE)
  from third_state_preserved [OF v g r] show ?thesis by blast
qed

section \<open>Settled once\<close>

text \<open>
  C5: recovery is idempotent: after it has settled an operation in flight, recovering again writes
  nothing and answers ALREADY_APPLIED, or for an aborted operation its settled status.
\<close>

theorem recovery_idempotent:
  assumes f: "in_flight E op_id r0 ps s0 sn k st w" and s: "op_sound E op_id r0 ps s0 sn"
    and p0: "plan_at (os E) ps s0 sn 0 s0"
  shows "recover_locked E op_id (final w (fst (recover_locked E op_id w))) =
    ([], if st = PREPARED \<and> k = 0 then refuse ''ABORTED'' else answer True ''ALREADY_APPLIED'' False)"
proof -
  from recover_in_flight [OF f s] obtain tr a where m: "recover_locked E op_id w = (tr, a)"
    and e: "if st = PREPARED \<and> k = 0 then reads_as E op_id r0 ABORTED (final w tr) \<and> files (final w tr) = s0
      else reads_as E op_id r0 COMMITTED (final w tr) \<and> files (final w tr) = sn" by (auto split: if_splits)
  have owned: "paths_owned (os E) r0" using s by (simp add: op_sound_def)
  have bind: "\<And>w k. plan_at (os E) ps s0 sn k (files (w :: world)) \<Longrightarrow> recovery_identity_binding E (files w) r0"
    using s unfolding op_sound_def by blast
  show ?thesis
  proof (cases "st = PREPARED \<and> k = 0")
    case True
    with e have "reads_as E op_id r0 ABORTED (final w tr)" "files (final w tr) = s0" by simp_all
    from gate_settled [OF this(1) _ owned] bind [of 0 "final w tr"] this(2) p0
    show ?thesis using True recover_refused [OF s] by (simp add: m status_name_def del: final_simps)
  next
    case False
    with e have "reads_as E op_id r0 COMMITTED (final w tr)" "files (final w tr) = sn" by auto
    from gate_settled [OF this(1) _ owned] bind [of "length ps" "final w tr"] this(2) plan_at_both [OF p0]
    show ?thesis using False recover_refused [OF s] by (auto simp: m simp del: final_simps)
  qed
qed

lemma demo_in_flight:
  "in_flight demo_engine ''op-1'' demo_r demo_ps (files demo_world) demo_planned 0 PREPARED demo_published"
proof -
  have "r_status demo_r = PREPARED" by (simp add: demo_r_def start_record_def)
  then show ?thesis
    unfolding demo_published_def by (intro published_in_flight) (simp_all only: demo_os demo_wf_published demo_plan)
qed

theorem recovery_idempotent_witness:
  "recover_locked demo_engine ''op-1'' (final demo_published (fst (recover_locked demo_engine ''op-1'' demo_published)))
     = ([], refuse ''ABORTED'')"
  using recovery_idempotent [OF demo_in_flight demo_sound] demo_plan by (simp add: demo_os)

section \<open>The settlement window\<close>

lemma scan_corrupt:
  assumes "dir_at In_Ops op_id w = Some d" and "manifest d \<noteq> None"
    and "decode_operation_record (os E) op_id d False = Inl e"
  shows "filter (\<lambda>p. p_status p = None) (fst (scan_pending (os E) w)) \<noteq> []"
proof -
  have "(op_id, d) \<in> set (ops w)" using assms(1) by (auto simp: dir_at_def dest: map_of_SomeD)
  moreover have "\<lparr>p_id = op_id, p_status = None, p_created = []\<rparr> \<in> set (pend_of (os E) (op_id, d))"
    using assms(2,3) by (simp add: pend_of_def)
  ultimately have "\<lparr>p_id = op_id, p_status = None, p_created = []\<rparr> \<in> set (fst (scan_pending (os E) w))"
    by (force simp: scan_pending_def Let_def)
  then show ?thesis unfolding filter_empty_conv by (metis pend.select_convs(2))
qed

text \<open>
  C11: a crash between the settled sidecar of \<open>mark(COMMITTED)\<close> and its fold strands the operation:
  every target is in its planned state, yet recovery refuses the receipt for good, and the preflight
  refuses every later mutation with CORRUPT_JOURNAL, the same operation's retry included.
\<close>

theorem settlement_window_strands:
  assumes f: "in_flight E op_id r0 ps s0 sn (length ps) st w" and s: "op_sound E op_id r0 ps s0 sn"
    and w1: "w1 = hd (fst (mark E In_Ops op_id COMMITTED None None w))"
  shows "files w1 = sn \<and> recover_locked E op_id w1 = ([], refuse ''RECOVERY_CONFLICT'') \<and>
    (\<forall>exclude. fst (recovery_preflight E w1 exclude) = [] \<and> a_code (snd (recovery_preflight E w1 exclude)) = ''CORRUPT_JOURNAL'')"
proof -
  from in_flight_dir [OF f] obtain d where d: "dir_at In_Ops op_id w = Some d" "dir_in_flight (os E) op_id r0 st d"
    "journal_dir In_Ops op_id w = d" by blast
  let ?d1 = "mark_sidecar COMMITTED None None d"
  have w1': "w1 = put_dir In_Ops op_id ?d1 w"
    by (simp add: w1 mark_def Let_def d(3) split: option.split)
  have u: "unfolded E op_id w1"
    using mark_settled [OF d(1,2), of COMMITTED] by (auto simp: w1)
  have at: "dir_at In_Ops op_id w1 = Some ?d1" by (simp add: w1')
  have m: "manifest ?d1 \<noteq> None"
    using d(2) by (cases "manifest d") (simp_all add: dir_in_flight_def decode_manifest_def)
  have "decode_operation_record (os E) op_id ?d1 False = Inl (Untrusted ''settlement did not fold'')"
    using u journal_at_ops [OF at m] by (simp add: unfolded_def)
  from scan_corrupt [OF at m this] have c: "filter (\<lambda>p. p_status p = None) (fst (scan_pending (os E) w1)) \<noteq> []" .
  have "fst (recovery_preflight E w1 x) = [] \<and> a_code (snd (recovery_preflight E w1 x)) = ''CORRUPT_JOURNAL''" for x
    using c unfolding recovery_preflight_def Let_def case_prod_unfold by (simp add: refuse_def answer_def)
  moreover have "files w1 = sn"
    using f plan_at_end [of "os E" ps s0 sn "files w"] by (simp add: w1' in_flight_def)
  ultimately show ?thesis using recover_refused [OF s gate_unfolded [OF u]] by blast
qed

text \<open>The demo operation with all its targets applied.\<close>

definition demo_applied :: world where
  "demo_applied = demo_published\<lparr>files := demo_planned\<rparr>"

lemma demo_applied_in_flight:
  "in_flight demo_engine ''op-1'' demo_r demo_ps (files demo_world) demo_planned (length demo_ps) PREPARED demo_applied"
  using demo_in_flight plan_at_both [OF demo_plan] by (simp add: in_flight_def demo_applied_def demo_os)

theorem settlement_window_strands_witness:
  "\<exists>w1. files w1 = demo_planned \<and> recover_locked demo_engine ''op-1'' w1 = ([], refuse ''RECOVERY_CONFLICT'') \<and>
     a_code (snd (recovery_preflight demo_engine w1 [])) = ''CORRUPT_JOURNAL''"
  using settlement_window_strands [OF demo_applied_in_flight demo_sound refl] by blast

end
