(* ===== verification/Incidents.thy ===== *)
theory Incidents
  imports RecoverySafety
begin

text \<open>
  Concrete runs of the model in which the engine does something its own comments rule out.  Each is
  the evaluation of the translated code on a small project.
\<close>

definition demo_note :: "json list \<Rightarrow> json \<Rightarrow> request" where
  "demo_note ts meta = (demo_request ''log'')\<lparr>q_targets := JList ts, q_meta := meta\<rparr>"

definition write_doc :: "string \<Rightarrow> string \<Rightarrow> json" where
  "write_doc path content = JObj [(''path'', JStr path), (''content'', JStr content)]"

definition delete_doc :: "string \<Rightarrow> json" where
  "delete_doc path = JObj [(''path'', JStr path), (''action'', JStr ''delete_file'')]"

definition demo_files :: "store \<Rightarrow> world" where
  "demo_files st = \<lparr>files = st, ops = [], settled = [], debts = []\<rparr>"

text \<open>The n-th durable state of a mutation run with no lineage.\<close>

definition crash_at :: "request \<Rightarrow> world \<Rightarrow> nat \<Rightarrow> world" where
  "crash_at q w n = (w # fst (run_mutation demo_engine False no_hooks q w)) ! n"

definition recover_code :: "world \<Rightarrow> string" where
  "recover_code w = a_code (snd (recover_locked demo_engine ''op-1'' w))"

definition recover_once :: "world \<Rightarrow> world" where
  "recover_once w = final w (fst (recover_locked demo_engine ''op-1'' w))"

section \<open>A no-op deletion in the suffix\<close>

text \<open>
  A plan that rewrites a file and deletes one that is already absent commits when it is not
  interrupted; interrupted before its first target it is refused by recovery as a conflict (the
  replay unlinks the absent file), and only recovering a second time settles it.
\<close>

definition noop_request :: request where
  "noop_request = demo_note [write_doc ''log'' ''new'', delete_doc ''gone''] JNull"

definition noop_world :: world where
  "noop_world = demo_files [([''log''], File ''old'')]"

theorem noop_deletion_refused_once:
  "a_code (snd (run_mutation demo_engine False no_hooks noop_request noop_world)) = ''COMMITTED'' \<and>
   recover_code (crash_at noop_request noop_world 4) = ''RECOVERY_CONFLICT'' \<and>
   recover_code (recover_once (crash_at noop_request noop_world 4)) = ''COMMITTED''"
  by code_simp

section \<open>A directory where a file is to be written\<close>

text \<open>
  When the path of a planned write has become a directory, a mutation that meets it answers
  CONFLICT, but recovery lets the ValueError of the atomic write escape: no conflict is marked.
\<close>

definition blocked_request :: request where
  "blocked_request = demo_note [write_doc ''log'' ''new'', write_doc ''note'' ''x''] JNull"

theorem directory_in_the_way_escapes:
  "a_code (snd (run_mutation demo_engine False no_hooks blocked_request
      (demo_files [([''log''], File ''old''), ([''note''], Dir)]))) = ''CONFLICT'' \<and>
   recover_code ((crash_at blocked_request noop_world 6)\<lparr>files := [([''log''], File ''new''), ([''note''], Dir)]\<rparr>)
     = ''RAISED ValueError''"
  by code_simp

section \<open>The conflict route\<close>

text \<open>
  The route advised for a conflict is not the route that settles it: for a cleanup marked
  CONFLICT whose directory is due once its file is gone, the preflight sends the operator to an
  explicit resolve, while bare recovery commits it.
\<close>

definition deferred_conflict :: world where
  "deferred_conflict = final demo_published (mark_conflict demo_engine In_Ops ''op-1'' demo_published)"

theorem conflict_route_disagrees:
  "conflict_route demo_env deferred_conflict ''op-1'' = Explicit_Resolve \<and>
   recover_code deferred_conflict = ''COMMITTED''"
  by code_simp

section \<open>Metadata the gate admits and the decoder refuses\<close>

text \<open>
  Receipt metadata whose \<open>operation\<close> is not a string passes the request gate; the mutation
  applies its target, then the fold of the committed receipt raises, and recovery refuses the receipt.
\<close>

definition typed_meta_request :: request where
  "typed_meta_request = demo_note [write_doc ''log'' ''new''] (JObj [(''operation'', JInt 5)])"

theorem untyped_metadata_strands:
  "(let (tr, a) = run_mutation demo_engine False no_hooks typed_meta_request noop_world;
        w = final noop_world tr
    in a_code a = ''RAISED JournalDecodeRefusal'' \<and> dict_get (files w) [''log''] = Some (File ''new'') \<and>
       recover_code w = ''VALIDATION_FAILED'')"
  by code_simp

section \<open>The lineage bootstrap after an abort\<close>

text \<open>
  A lineage migration that crashed before its target is aborted by the bootstrap, whose
  clean-up then removes the directory the receipt has just left: the migration is refused as a
  collision with its own aborted receipt, and only a second call mints the lineage.
\<close>

definition other_engine :: engine_env where
  "other_engine = demo_engine\<lparr>e_fresh_lineage := ''lineage-'' @ replicate 32 CHR ''b''\<rparr>"

definition crashed_migration :: world where
  "crashed_migration = (let w = demo_files [] in fst (mint_lineage demo_engine w) ! 2)"

theorem aborted_migration_refused_once:
  "snd (ensure_project_lineage other_engine crashed_migration) = Inl ''VALIDATION_FAILED'' \<and>
   snd (ensure_project_lineage other_engine (final crashed_migration (fst (ensure_project_lineage other_engine crashed_migration))))
     = Inr (e_fresh_lineage other_engine)"
  by code_simp

end
