(* ===== verification/TicketText.thy ===== *)
theory TicketText
  imports Text
begin

text \<open>
  One physical BOARD record as text (\<open>board.py\<close>): the record separators, the reversible escape of
  a field, and the field editor \<open>set_ticket_field\<close> / \<open>remove_ticket_field\<close>.  A raised \<open>ValueError\<close>
  is the left side of a sum.  Characters are below code point 256, so the separators U+2028 and
  U+2029 have no counterpart.
\<close>

section \<open>Record separators\<close>

definition PIPE_SENTINEL :: char where
  "PIPE_SENTINEL = CHR 0x00"

definition RECORD_SEPARATORS :: string where
  "RECORD_SEPARATORS = [CHR 10, CHR 13, CHR 11, CHR 12, CHR 28, CHR 29, CHR 30, CHR 133]"

definition record_separator_in :: "string \<Rightarrow> char option" where
  "record_separator_in value = find (\<lambda>sep. sep \<in> set value) RECORD_SEPARATORS"

datatype write_error = Separator string char | Oversize nat | Repeated_Field string

definition assert_single_record :: "string \<Rightarrow> string \<Rightarrow> write_error + string" where
  "assert_single_record value field =
     (case record_separator_in value of Some sep \<Rightarrow> Inl (Separator field sep) | None \<Rightarrow> Inr value)"

definition MAX_LIVE_RECORD_CHARS :: nat where
  "MAX_LIVE_RECORD_CHARS = 1200"

definition assert_live_record :: "string \<Rightarrow> write_error + string" where
  "assert_live_record record =
     (case assert_single_record record ''ticket_record'' of
        Inl e \<Rightarrow> Inl e
      | Inr _ \<Rightarrow> if MAX_LIVE_RECORD_CHARS < length record then Inl (Oversize (length record)) else Inr record)"

section \<open>Escaping\<close>

text \<open>A backslash is \<open>CHR 92\<close>, a pipe \<open>CHR 124\<close>.\<close>

definition escape_text :: "string \<Rightarrow> string" where
  "escape_text v = replace_all [CHR 124] [CHR 92, CHR 124] (replace_all [CHR 92] [CHR 92, CHR 92] v)"

definition escape_ticket_description :: "string \<Rightarrow> write_error + string" where
  "escape_ticket_description description =
     (case assert_single_record description ''description'' of
        Inl e \<Rightarrow> Inl e
      | Inr _ \<Rightarrow> Inr (escape_text description))"

definition unescape_ticket_part :: "string \<Rightarrow> string" where
  "unescape_ticket_part part =
     replace_all [PIPE_SENTINEL] [CHR 124] (replace_all [CHR 92, CHR 92] [CHR 92] part)"

text \<open>\<open>replace("\|", PIPE_SENTINEL)\<close> and its reverse.\<close>

definition hide_pipes :: "string \<Rightarrow> string" where
  "hide_pipes s = replace_all [CHR 92, CHR 124] [PIPE_SENTINEL] s"

definition reveal_pipes :: "string \<Rightarrow> string" where
  "reveal_pipes s = replace_all [PIPE_SENTINEL] [CHR 92, CHR 124] s"

section \<open>Editing fields\<close>

definition fields_split :: "string \<Rightarrow> string list" where
  "fields_split raw = split_str '' | '' (hide_pipes raw)"

definition fields_join :: "string list \<Rightarrow> string" where
  "fields_join parts = reveal_pipes (join '' | '' parts)"

definition field_char :: "char \<Rightarrow> bool" where
  "field_char c \<longleftrightarrow> is_lower c \<or> c = CHR ''_''"

text \<open>\<open>^([a-z_]+):\s*\<close>: the name and what follows the blanks.\<close>

definition field_match :: "string \<Rightarrow> (string \<times> string) option" where
  "field_match part =
     (case span field_char part of (name, rest) \<Rightarrow>
        if name \<noteq> [] \<and> startswith rest '':'' then Some (name, lstrip (tl rest)) else None)"

fun reject_duplicates :: "string list \<Rightarrow> string list \<Rightarrow> string option" where
  "reject_duplicates seen [] = None"
| "reject_duplicates seen (part # parts) =
     (if startswith part ''- '' then reject_duplicates seen parts
      else case field_match part of
        None \<Rightarrow> reject_duplicates seen parts
      | Some (name, _) \<Rightarrow>
          if name \<in> set seen then Some name else reject_duplicates (name # seen) parts)"

definition reject_duplicate_fields :: "string \<Rightarrow> string option" where
  "reject_duplicate_fields raw = reject_duplicates [] (fields_split raw)"

text \<open>The first part that opens with \<open>field:\<close> is replaced, or the field is appended.\<close>

fun set_part :: "string \<Rightarrow> string \<Rightarrow> string list \<Rightarrow> string list" where
  "set_part field value [] = [field @ '': '' @ value]"
| "set_part field value (part # parts) =
     (if startswith part (field @ '':'') then (field @ '': '' @ value) # parts
      else part # set_part field value parts)"

definition set_ticket_field :: "string \<Rightarrow> string \<Rightarrow> string \<Rightarrow> bool \<Rightarrow> write_error + string" where
  "set_ticket_field raw field value enforce_cap =
     (case assert_single_record value field of
        Inl e \<Rightarrow> Inl e
      | Inr _ \<Rightarrow>
          (case reject_duplicate_fields raw of
             Some name \<Rightarrow> Inl (Repeated_Field name)
           | None \<Rightarrow>
               let joined = fields_join (set_part field value (fields_split raw)) in
               if enforce_cap then assert_live_record joined
               else assert_single_record joined ''ticket_record''))"

definition remove_ticket_field :: "string \<Rightarrow> string \<Rightarrow> write_error + string" where
  "remove_ticket_field raw field =
     (case reject_duplicate_fields raw of
        Some name \<Rightarrow> Inl (Repeated_Field name)
      | None \<Rightarrow>
          Inr (fields_join (filter (\<lambda>part. \<not> startswith part (field @ '':'')) (fields_split raw))))"

section \<open>Laws of the escape\<close>

lemma separators_are_line_ends: "c \<in> set RECORD_SEPARATORS \<longleftrightarrow> is_line_end c"
proof -
  have "c \<in> set RECORD_SEPARATORS \<longleftrightarrow> (of_char c :: nat) \<in> of_char ` set RECORD_SEPARATORS"
    by (rule inj_image_mem_iff [OF inj_of_char, symmetric])
  also have "of_char ` set RECORD_SEPARATORS = {10, 13, 11, 12, 28, 29, 30, 133 :: nat}"
    by (simp add: RECORD_SEPARATORS_def)
  finally show ?thesis by (auto simp: is_line_end_def Let_def)
qed

lemma record_separator_in_plain: "record_separator_in v = None \<longleftrightarrow> plain_line v"
  by (auto simp: record_separator_in_def find_None_iff separators_are_line_ends plain_line_def list_all_iff)

lemma single_record_plain: "assert_single_record v f = Inr v' \<longleftrightarrow> v' = v \<and> plain_line v"
  by (cases "record_separator_in v")
     (auto simp: assert_single_record_def simp flip: record_separator_in_plain)

definition escape_char :: "char \<Rightarrow> string" where
  "escape_char c = (if c = CHR 92 then [CHR 92, CHR 92] else if c = CHR 124 then [CHR 92, CHR 124] else [c])"

definition hidden_char :: "char \<Rightarrow> string" where
  "hidden_char c =
     (if c = CHR 92 then [CHR 92, CHR 92] else if c = CHR 124 then [PIPE_SENTINEL] else [c])"

lemma escape_text_chars: "escape_text v = concat (map escape_char v)"
  by (induction v) (auto simp: escape_text_def escape_char_def)

lemma hide_pipes_Cons:
  "hide_pipes (c # s) =
     (if c = CHR 92 \<and> s \<noteq> [] \<and> hd s = CHR 124 then PIPE_SENTINEL # hide_pipes (tl s)
      else c # hide_pipes s)"
  by (cases s) (auto simp: hide_pipes_def)

lemma hide_pipes_Nil [simp]: "hide_pipes [] = []"
  by (simp add: hide_pipes_def)

lemma hide_escaped_char:
  "s = [] \<or> hd s \<noteq> CHR 124 \<Longrightarrow> hide_pipes (escape_char c @ s) = hidden_char c @ hide_pipes s"
  by (cases "c = CHR 92"; cases "c = CHR 124") (auto simp: escape_char_def hidden_char_def hide_pipes_Cons)

lemma hd_escaped:
  "s = [] \<or> hd s \<noteq> CHR 124 \<Longrightarrow>
   concat (map escape_char v) @ s = [] \<or> hd (concat (map escape_char v) @ s) \<noteq> CHR 124"
  by (cases v) (auto simp: escape_char_def)

lemma hide_escaped:
  "s = [] \<or> hd s \<noteq> CHR 124 \<Longrightarrow>
   hide_pipes (concat (map escape_char v) @ s) = concat (map hidden_char v) @ hide_pipes s"
proof (induction v)
  case (Cons c v)
  from hide_escaped_char [OF hd_escaped [OF Cons.prems]] Cons show ?case
    by (simp only: list.map concat.simps append_assoc)
qed simp

lemma collapse_hidden:
  "replace_all [CHR 92, CHR 92] [CHR 92] (concat (map hidden_char v)) =
   concat (map (\<lambda>c. if c = CHR 124 then [PIPE_SENTINEL] else [c]) v)"
proof (induction v)
  case (Cons c v)
  then show ?case by (auto simp: hidden_char_def PIPE_SENTINEL_def)
qed simp

lemma sentinel_to_pipe:
  "PIPE_SENTINEL \<notin> set v \<Longrightarrow>
   replace_all [PIPE_SENTINEL] [CHR 124] (concat (map (\<lambda>c. if c = CHR 124 then [PIPE_SENTINEL] else [c]) v)) = v"
  by (induction v) auto

text \<open>Escaping is undone by the parser's two steps.\<close>

lemma escape_roundtrip: "PIPE_SENTINEL \<notin> set v \<Longrightarrow> unescape_ticket_part (hide_pipes (escape_text v)) = v"
  using hide_escaped [of "[]" v] collapse_hidden [of v]
  by (simp add: escape_text_chars unescape_ticket_part_def sentinel_to_pipe)

lemma hidden_no_pipe: "CHR 124 \<notin> set (hide_pipes (escape_text v))"
  using hide_escaped [of "[]" v]
  by (auto simp: escape_text_chars hidden_char_def PIPE_SENTINEL_def split: if_splits)

section \<open>Laws of the field editor\<close>

text \<open>
  A record is well piped when every bare pipe of it belongs to a separator; the writers produce no
  other, since they escape the pipes of a field.
\<close>

definition pipe_free :: "string \<Rightarrow> bool" where
  "pipe_free p \<longleftrightarrow> CHR 124 \<notin> set p"

definition well_piped :: "string \<Rightarrow> bool" where
  "well_piped raw \<longleftrightarrow> list_all pipe_free (fields_split raw)"

lemma reveal_pipes_Cons:
  "reveal_pipes (c # s) = (if c = PIPE_SENTINEL then [CHR 92, CHR 124] else [c]) @ reveal_pipes s"
  by (simp add: reveal_pipes_def)

lemma reveal_pipes_Nil [simp]: "reveal_pipes [] = []"
  by (simp add: reveal_pipes_def)

lemma reveal_hd_pipe: "reveal_pipes s \<noteq> [] \<and> hd (reveal_pipes s) = CHR 124 \<longleftrightarrow> s \<noteq> [] \<and> hd s = CHR 124"
  by (cases s) (auto simp: reveal_pipes_Cons PIPE_SENTINEL_def)

lemma hide_reveal: "hide_pipes (reveal_pipes s) = hide_pipes s"
proof (induction "length s" arbitrary: s rule: less_induct)
  case less
  show ?case
  proof (cases s)
    case (Cons c t)
    show ?thesis
    proof (cases "c = CHR 92 \<and> t \<noteq> [] \<and> hd t = CHR 124")
      case True
      then obtain u where t: "t = CHR 124 # u" by (cases t) auto
      have "hide_pipes (reveal_pipes u) = hide_pipes u" using less Cons t by simp
      with True show ?thesis
        by (simp add: Cons t reveal_pipes_Cons hide_pipes_Cons PIPE_SENTINEL_def)
    next
      case False
      have "hide_pipes (reveal_pipes t) = hide_pipes t" using less Cons by simp
      with False reveal_hd_pipe [of t] show ?thesis
        by (auto simp: Cons reveal_pipes_Cons hide_pipes_Cons PIPE_SENTINEL_def)
    qed
  qed simp
qed

lemma hide_sep: "hide_pipes (p @ '' | '' @ r) = hide_pipes p @ '' | '' @ hide_pipes r"
proof (induction "length p" arbitrary: p rule: less_induct)
  case less
  show ?case
  proof (cases p)
    case (Cons c t)
    have IH: "hide_pipes (q @ '' | '' @ r) = hide_pipes q @ '' | '' @ hide_pipes r" if "length q < length p" for q
      using less that by simp
    show ?thesis
    proof (cases t)
      case (Cons d u)
      with IH [of t] IH [of u] \<open>p = c # t\<close> show ?thesis by (simp add: hide_pipes_Cons)
    next
      case Nil
      with IH [of "[]"] \<open>p = c # t\<close> show ?thesis by (simp add: hide_pipes_Cons)
    qed
  qed (simp add: hide_pipes_Cons)
qed

lemma hide_join: "hide_pipes (join '' | '' ps) = join '' | '' (map hide_pipes ps)"
  by (induction "'' | ''" ps rule: join.induct) (simp_all only: join.simps list.map hide_pipes_Nil hide_sep)

lemma hide_pipe_free_append:
  "pipe_free p \<Longrightarrow> r = [] \<or> hd r \<noteq> CHR 124 \<Longrightarrow> hide_pipes (p @ r) = p @ hide_pipes r"
proof (induction p)
  case (Cons c p)
  then have "p @ r = [] \<or> hd (p @ r) \<noteq> CHR 124" by (cases p) (auto simp: pipe_free_def)
  with Cons show ?case by (auto simp: pipe_free_def hide_pipes_Cons)
qed simp

lemma hide_pipe_free: "pipe_free p \<Longrightarrow> hide_pipes p = p"
  using hide_pipe_free_append [of p "[]"] by simp

lemma map_hide_pipe_free: "list_all pipe_free ps \<Longrightarrow> map hide_pipes ps = ps"
  by (auto simp: list_all_iff hide_pipe_free intro: map_idI)

lemma split_str_sep: "pipe_free p \<Longrightarrow> split_str '' | '' (p @ '' | '' @ r) = p # split_str '' | '' r"
proof (induction p)
  case (Cons c p)
  have "\<not> startswith (p @ '' | '' @ r) ''| ''" using Cons.prems by (cases p) (auto simp: pipe_free_def)
  with Cons show ?case by (simp add: pipe_free_def)
qed simp

lemma split_str_pipe_free: "pipe_free p \<Longrightarrow> split_str '' | '' p = [p]"
proof (induction p)
  case (Cons c p)
  have "\<not> startswith p ''| ''" using Cons.prems by (cases p) (auto simp: pipe_free_def)
  with Cons show ?case by (simp add: pipe_free_def)
qed simp

lemma split_join: "ps \<noteq> [] \<Longrightarrow> list_all pipe_free ps \<Longrightarrow> split_str '' | '' (join '' | '' ps) = ps"
  by (induction "'' | ''" ps rule: join.induct)
     (simp_all only: join.simps split_str_sep split_str_pipe_free list.pred_inject list.distinct simp_thms)

text \<open>Joining parts and splitting them again only hides the pipes that are still escaped.\<close>

lemma fields_split_join:
  "ps \<noteq> [] \<Longrightarrow> list_all pipe_free (map hide_pipes ps) \<Longrightarrow> fields_split (fields_join ps) = map hide_pipes ps"
  by (simp add: fields_split_def fields_join_def hide_reveal hide_join split_join)

lemma set_part_nonempty [simp]: "set_part f v ps \<noteq> []"
  by (cases ps) auto

lemma hide_set_part:
  "list_all pipe_free ps \<Longrightarrow> pipe_free f \<Longrightarrow>
   map hide_pipes (set_part f v ps) = set_part f (hide_pipes v) ps"
proof -
  have "hide_pipes (f @ '': '' @ v) = f @ '': '' @ hide_pipes v" if "pipe_free f"
    using hide_pipe_free_append [OF that, of "'': '' @ v"] by (simp add: hide_pipes_Cons)
  then show "list_all pipe_free ps \<Longrightarrow> pipe_free f \<Longrightarrow>
     map hide_pipes (set_part f v ps) = set_part f (hide_pipes v) ps"
    by (induction ps) (auto simp: hide_pipe_free map_hide_pipe_free)
qed

lemma set_part_pipe_free:
  "list_all pipe_free ps \<Longrightarrow> pipe_free f \<Longrightarrow> pipe_free v \<Longrightarrow> list_all pipe_free (set_part f v ps)"
  by (induction ps) (auto simp: pipe_free_def)

lemma set_ticket_field_parts:
  assumes ok: "set_ticket_field raw f v cap = Inr new" and w: "well_piped raw" and f: "pipe_free f"
    and v: "pipe_free (hide_pipes v)"
  shows "fields_split new = set_part f (hide_pipes v) (fields_split raw)" "well_piped new" "plain_line new"
    "plain_line v"
proof -
  let ?ps = "fields_split raw"
  from ok have new: "new = fields_join (set_part f v ?ps)" and p: "plain_line new" "plain_line v"
    by (auto simp: set_ticket_field_def Let_def assert_live_record_def single_record_plain
        split: sum.splits option.splits if_splits)
  from w have ps: "list_all pipe_free ?ps" by (simp add: well_piped_def)
  note h = hide_set_part [OF ps f, of v]
  have "list_all pipe_free (map hide_pipes (set_part f v ?ps))"
    unfolding h by (rule set_part_pipe_free [OF ps f v])
  with fields_split_join [of "set_part f v ?ps"] h
  show "fields_split new = set_part f (hide_pipes v) ?ps" by (simp add: new)
  with set_part_pipe_free [OF ps f v] show "well_piped new" by (simp add: well_piped_def)
  show "plain_line new" "plain_line v" by (fact p)+
qed

lemma remove_ticket_field_parts:
  assumes ok: "remove_ticket_field raw f = Inr new" and w: "well_piped raw"
    and h: "\<not> startswith (hd (fields_split raw)) (f @ '':'')"
  shows "fields_split new = filter (\<lambda>p. \<not> startswith p (f @ '':'')) (fields_split raw)" "well_piped new"
proof -
  let ?ps = "filter (\<lambda>p. \<not> startswith p (f @ '':'')) (fields_split raw)"
  from ok have new: "new = fields_join ?ps" by (simp add: remove_ticket_field_def split: option.splits)
  have "fields_split raw \<noteq> []" by (simp add: fields_split_def)
  with h have ne: "?ps \<noteq> []" by (cases "fields_split raw") auto
  have pf: "list_all pipe_free ?ps" using w by (auto simp: well_piped_def list_all_iff)
  then have "map hide_pipes ?ps = ?ps" by (rule map_hide_pipe_free)
  with fields_split_join [OF ne] pf show "fields_split new = ?ps" by (simp add: new)
  with pf show "well_piped new" by (simp add: well_piped_def)
qed

end
