(* ===== verification/Board.thy ===== *)
theory Board
  imports TicketText
begin

text \<open>
  The BOARD document of \<open>board.py\<close>: \<open>parse_board\<close> with its closed physical grammar, and the other
  readers of the same lines (\<open>duplicate_records\<close>, \<open>detached_ticket_id_errors\<close>, \<open>next_ticket_id\<close> of
  \<open>operations.py\<close>).  An error keeps the line number, the identity and the offending text, not the prose.
\<close>

section \<open>The grammar of a record\<close>

definition REQUIRED_HEADINGS :: "string list" where
  "REQUIRED_HEADINGS = [''## DOING'', ''## TODO'', ''## DONE'', ''## BLOCKED'']"

definition KNOWN_FIELDS :: "string list" where
  "KNOWN_FIELDS =
    [''blocked_on'', ''blocker'', ''blocker_scope'', ''claim_generation'', ''claim_run'', ''claim_session'',
     ''claim_time'', ''closure_cohort'', ''closure_mode'', ''closure_paths'', ''detail_ref'',
     ''external_authority'', ''external_evidence'', ''external_implementation'', ''implementation_delta'',
     ''implementation_source'', ''invalidation_evidence'', ''needs'', ''owner'', ''recurrence'',
     ''regression'', ''regression_evidence'', ''publication'', ''publication_state'', ''request_witness'',
     ''requires'', ''resolution_reason'', ''resume_phase'', ''resume_transition_from'',
     ''retry_not_before'', ''review_passes'', ''source_receipts'', ''source_reports'', ''superseded_by'',
     ''supersession_authority'', ''supersession_evidence'', ''user_explicit'', ''verify'',
     ''verification_contract'', ''verify_attempts'', ''weak_model'']"

text \<open>\<open>^- \[([ x/])\] (T-\d+)\s+(.*)$\<close> on one line.\<close>

definition ticket_re :: "string \<Rightarrow> (char \<times> string \<times> string) option" where
  "ticket_re s =
     (if startswith s ''- ['' \<and> 6 \<le> length s \<and> s ! 3 \<in> set '' x/'' \<and> s ! 4 = CHR '']'' \<and> s ! 5 = CHR '' ''
      then (case ticket_ref (drop 6 s) of
          None \<Rightarrow> None
        | Some (tid, rest) \<Rightarrow>
            (case span is_space rest of (blanks, tail) \<Rightarrow>
               if blanks = [] then None else Some (s ! 3, tid, tail)))
      else None)"

text \<open>\<open>\[[ x/]\]\s+T-\d+\<close>, searched.\<close>

definition embedded_at :: "string \<Rightarrow> bool" where
  "embedded_at s =
     (4 \<le> length s \<and> s ! 0 = CHR ''['' \<and> s ! 1 \<in> set '' x/'' \<and> s ! 2 = CHR '']'' \<and>
      (case span is_space (drop 3 s) of (blanks, tail) \<Rightarrow> blanks \<noteq> [] \<and> ticket_ref tail \<noteq> None))"

fun embedded_re :: "string \<Rightarrow> bool" where
  "embedded_re [] = False"
| "embedded_re (c # s) = (embedded_at (c # s) \<or> embedded_re s)"

section \<open>The ticket map\<close>

record ticket =
  tk_id :: string
  tk_section :: string
  tk_line_no :: nat
  tk_checkbox :: char
  tk_needs :: "string list"
  tk_fields :: "(string, string) dict"
  tk_raw :: string
  tk_description :: string
  tk_shadowed :: "string list"

type_synonym tickets = "(string, ticket) dict"

datatype board_error =
    Not_A_Record nat
  | Embedded_Record nat string
  | Outside_Sections nat string "string option"
  | Unknown_Field nat string string
  | Duplicate_Field nat string string
  | Duplicate_Id nat string
  | Unexpected_Record nat string string
  | Heading_Count string nat

text \<open>The parts of a record after the description, with what has been read so far.\<close>

fun read_fields :: "nat \<Rightarrow> string \<Rightarrow> string list \<Rightarrow> string list \<times> (string, string) dict \<times> board_error list \<Rightarrow>
    string list \<times> (string, string) dict \<times> board_error list" where
  "read_fields n tid [] (needs, fs, errs) = (needs, fs, errs)"
| "read_fields n tid (part # parts) (needs, fs, errs) =
     (case field_match part of
        None \<Rightarrow> read_fields n tid parts (needs, fs, errs @ [Unknown_Field n tid part])
      | Some (name, value) \<Rightarrow>
          if name \<notin> set KNOWN_FIELDS
          then read_fields n tid parts (needs, fs, errs @ [Unknown_Field n tid part])
          else if dict_get fs name \<noteq> None
          then read_fields n tid parts (needs, fs, errs @ [Duplicate_Field n tid name])
          else read_fields n tid parts
                 (if name = ''needs'' then find_tickets value else needs, dict_set name value fs, errs))"

definition ticket_parts :: "string \<Rightarrow> string list" where
  "ticket_parts rest = map (\<lambda>p. unescape_ticket_part (strip p)) (split_str '' | '' rest)"

text \<open>The state of the walk over the lines.\<close>

record walk =
  w_section :: "string option"
  w_tickets :: tickets
  w_headings :: "string list"
  w_errors :: "board_error list"

definition add_error :: "board_error \<Rightarrow> walk \<Rightarrow> walk" where
  "add_error e w = w\<lparr>w_errors := w_errors w @ [e]\<rparr>"

definition shadow :: "string \<Rightarrow> string \<Rightarrow> tickets \<Rightarrow> tickets" where
  "shadow tid section ts =
     map (\<lambda>(k, t). (k, if k = tid then t\<lparr>tk_shadowed := tk_shadowed t @ [section]\<rparr> else t)) ts"

definition walk_record :: "nat \<Rightarrow> string \<Rightarrow> walk \<Rightarrow> walk" where
  "walk_record n line w =
     (case ticket_re (hide_pipes (strip line)) of
        None \<Rightarrow> add_error (Not_A_Record n) w
      | Some (checkbox, tid, rest) \<Rightarrow>
          if embedded_re rest then add_error (Embedded_Record n tid) w
          else (case w_section w of
            None \<Rightarrow> add_error (Outside_Sections n tid None) w
          | Some section \<Rightarrow>
              if section \<notin> set REQUIRED_HEADINGS then add_error (Outside_Sections n tid (Some section)) w
              else
                (case read_fields n tid (tl (ticket_parts rest)) ([], [], []) of (needs, fs, errs) \<Rightarrow>
                   let w1 = w\<lparr>w_errors := w_errors w @ errs\<rparr> in
                   if dict_get (w_tickets w) tid \<noteq> None
                   then (add_error (Duplicate_Id n tid) w1)\<lparr>w_tickets := shadow tid section (w_tickets w)\<rparr>
                   else w1\<lparr>w_tickets := dict_set tid
                          \<lparr>tk_id = tid, tk_section = section, tk_line_no = n, tk_checkbox = checkbox,
                           tk_needs = needs, tk_fields = fs, tk_raw = line,
                           tk_description = hd (ticket_parts rest), tk_shadowed = []\<rparr> (w_tickets w)\<rparr>)))"

definition is_record_line :: "string \<Rightarrow> bool" where
  "is_record_line line \<longleftrightarrow> startswith (lstrip line) ''- [''"

definition is_heading_line :: "string \<Rightarrow> bool" where
  "is_heading_line line \<longleftrightarrow> startswith line ''## ''"

definition walk_line :: "walk \<Rightarrow> nat \<times> string \<Rightarrow> walk" where
  "walk_line w nl =
     (case nl of (n, line) \<Rightarrow>
        if is_heading_line line
        then w\<lparr>w_section := Some (strip line), w_headings := w_headings w @ [strip line]\<rparr>
        else if strip line = [] then w
        else if is_record_line line then walk_record n line w
        else (case w_section w of
          None \<Rightarrow> w
        | Some section \<Rightarrow>
            if section \<notin> set REQUIRED_HEADINGS then w
            else add_error (Unexpected_Record n section (take 80 (strip line))) w))"

definition empty_walk :: walk where
  "empty_walk = \<lparr>w_section = None, w_tickets = [], w_headings = [], w_errors = []\<rparr>"

definition heading_errors :: "string list \<Rightarrow> board_error list" where
  "heading_errors headings =
     map (\<lambda>h. Heading_Count h (count_list headings h))
       (filter (\<lambda>h. count_list headings h \<noteq> 1) REQUIRED_HEADINGS)"

definition numbered :: "string list \<Rightarrow> (nat \<times> string) list" where
  "numbered ls = zip [1..<Suc (length ls)] ls"

definition parse_board :: "string \<Rightarrow> walk" where
  "parse_board doc =
     (let w = foldl walk_line empty_walk (numbered (splitlines doc))
      in w\<lparr>w_errors := w_errors w @ heading_errors (w_headings w)\<rparr>)"

section \<open>Other readers of the lines\<close>

text \<open>\<open>duplicate_records\<close>: every record that claims an identity; the digest is a parameter.\<close>

record claimant =
  cl_digest :: string
  cl_line_no :: nat
  cl_section :: "string option"
  cl_checkbox :: char
  cl_description :: string
  cl_fields :: "(string, string) dict"
  cl_raw :: string

definition known_entries :: "string list \<Rightarrow> (string, string) dict" where
  "known_entries parts =
     foldl (\<lambda>d part. case field_match part of
        None \<Rightarrow> d
      | Some (name, value) \<Rightarrow> if name \<in> set KNOWN_FIELDS then dict_set name value d else d) [] parts"

fun claimants :: "(string \<Rightarrow> string) \<Rightarrow> string \<Rightarrow> string option \<Rightarrow> (nat \<times> string) list \<Rightarrow> claimant list" where
  "claimants digest wanted section [] = []"
| "claimants digest wanted section ((n, line) # ls) =
     (if is_heading_line line then claimants digest wanted (Some (strip line)) ls
      else if strip line = [] \<or> \<not> is_record_line line then claimants digest wanted section ls
      else case ticket_re (hide_pipes (strip line)) of
        None \<Rightarrow> claimants digest wanted section ls
      | Some (checkbox, tid, rest) \<Rightarrow>
          if tid \<noteq> wanted then claimants digest wanted section ls
          else \<lparr>cl_digest = digest (strip line), cl_line_no = n, cl_section = section, cl_checkbox = checkbox,
                cl_description = hd (ticket_parts rest), cl_fields = known_entries (tl (ticket_parts rest)),
                cl_raw = line\<rparr> # claimants digest wanted section ls)"

definition duplicate_records :: "(string \<Rightarrow> string) \<Rightarrow> string \<Rightarrow> string \<Rightarrow> claimant list" where
  "duplicate_records digest doc ticket_id =
     (let wanted = strip ticket_id
      in if wanted = [] then [] else claimants digest wanted None (numbered (splitlines doc)))"

text \<open>\<open>int\<close> of the digits of a reference.\<close>

definition ticket_number :: "string \<Rightarrow> nat option" where
  "ticket_number tid =
     (if ticket_name tid then Some (foldl (\<lambda>n c. 10 * n + (of_char c - 48)) 0 (drop 2 tid)) else None)"

definition detached_ticket_id_errors :: "tickets \<Rightarrow> nat option \<Rightarrow> string list" where
  "detached_ticket_id_errors tickets allocated_max_ticket_id =
     (case allocated_max_ticket_id of
        None \<Rightarrow> []
      | Some frontier \<Rightarrow>
          filter (\<lambda>tid. case ticket_number tid of None \<Rightarrow> False | Some n \<Rightarrow> frontier < n) (map fst tickets))"

end
