(* ===== verification/Regex.thy ===== *)
theory Regex
  imports Text
begin

text \<open>
  The regular expressions of the engine's classifiers, with the operators of Python's \<open>re\<close> they use:
  classes, sequence, ordered choice, greedy repetition, anchors, word edges and look-around.
  \<open>hits\<close> is the backtracking matcher, which tries alternatives in order; \<open>spans\<close> is what an expression
  means, and \<open>hits_exact\<close> says the matcher finds exactly that.
\<close>

section \<open>Expressions\<close>

datatype rx =
    Eps
  | Ch "char \<Rightarrow> bool"
  | Seq rx rx
  | Or rx rx
  | Many rx
  | Edge
  | Begin
  | Finish
  | Ahead rx
  | Ahead_Not rx
  | Behind_Not nat rx

definition Opt :: "rx \<Rightarrow> rx" where
  "Opt r = Or r Eps"

definition Some_Of :: "rx \<Rightarrow> rx" where
  "Some_Of r = Seq r (Many r)"

definition Up_To :: "nat \<Rightarrow> rx \<Rightarrow> rx" where
  "Up_To n r = ((\<lambda>q. Opt (Seq r q)) ^^ n) Eps"

definition seqs :: "rx list \<Rightarrow> rx" where
  "seqs rs = foldr Seq rs Eps"

fun any_of :: "rx list \<Rightarrow> rx" where
  "any_of [] = Ch (\<lambda>_. False)"
| "any_of [r] = r"
| "any_of (r # q # rs) = Or r (any_of (q # rs))"

definition lit :: "string \<Rightarrow> rx" where
  "lit w = seqs (map (\<lambda>c. Ch (\<lambda>d. d = c)) w)"

text \<open>A literal under \<open>re.IGNORECASE\<close>, given in upper case.\<close>

definition word_ci :: "string \<Rightarrow> rx" where
  "word_ci w = seqs (map (\<lambda>c. Ch (\<lambda>d. to_upper d = c)) w)"

definition blank_rx :: rx where
  "blank_rx = Ch is_space"

definition digit_rx :: rx where
  "digit_rx = Ch is_digit"

section \<open>Meaning\<close>

text \<open>A character of the class \<open>\w\<close>, below code point 256.\<close>

definition is_word :: "char \<Rightarrow> bool" where
  "is_word c \<longleftrightarrow> is_alnum c \<or> c = CHR ''_'' \<or>
     (let n = (of_char c :: nat) in n \<in> {170, 178, 179, 181, 185, 186, 188, 189, 190} \<or>
        192 \<le> n \<and> n \<noteq> 215 \<and> n \<noteq> 247)"

definition word_at :: "string \<Rightarrow> nat \<Rightarrow> bool" where
  "word_at s i \<longleftrightarrow> i < length s \<and> is_word (s ! i)"

definition edge_at :: "string \<Rightarrow> nat \<Rightarrow> bool" where
  "edge_at s i \<longleftrightarrow> (0 < i \<and> word_at s (i - 1)) \<noteq> word_at s i"

definition finish_at :: "string \<Rightarrow> nat \<Rightarrow> bool" where
  "finish_at s i \<longleftrightarrow> i = length s \<or> Suc i = length s \<and> s ! i = CHR 10"

text \<open>An expression relates the positions where it may start and end.\<close>

primrec spans :: "rx \<Rightarrow> string \<Rightarrow> nat \<Rightarrow> nat \<Rightarrow> bool" where
  "spans Eps s = (\<lambda>i j. j = i)"
| "spans (Ch P) s = (\<lambda>i j. i < length s \<and> P (s ! i) \<and> j = Suc i)"
| "spans (Seq r q) s = spans r s OO spans q s"
| "spans (Or r q) s = (\<lambda>i j. spans r s i j \<or> spans q s i j)"
| "spans (Many r) s = (spans r s)\<^sup>*\<^sup>*"
| "spans Edge s = (\<lambda>i j. j = i \<and> edge_at s i)"
| "spans Begin s = (\<lambda>i j. j = i \<and> i = 0)"
| "spans Finish s = (\<lambda>i j. j = i \<and> finish_at s i)"
| "spans (Ahead r) s = (\<lambda>i j. j = i \<and> (\<exists>k. spans r s i k))"
| "spans (Ahead_Not r) s = (\<lambda>i j. j = i \<and> (\<nexists>k. spans r s i k))"
| "spans (Behind_Not n r) s = (\<lambda>i j. j = i \<and> \<not> (n \<le> i \<and> spans r s (i - n) i))"

section \<open>The matcher\<close>

text \<open>Greedy repetition: as long as the body advances, try to go on before stopping.\<close>

primrec repeated :: "(nat \<Rightarrow> nat list) \<Rightarrow> nat \<Rightarrow> nat \<Rightarrow> nat list" where
  "repeated f 0 i = [i]"
| "repeated f (Suc n) i = concat (map (repeated f n) (filter (\<lambda>j. i < j) (f i))) @ [i]"

primrec hits :: "rx \<Rightarrow> string \<Rightarrow> nat \<Rightarrow> nat list" where
  "hits Eps s i = [i]"
| "hits (Ch P) s i = (if i < length s \<and> P (s ! i) then [Suc i] else [])"
| "hits (Seq r q) s i = concat (map (hits q s) (hits r s i))"
| "hits (Or r q) s i = hits r s i @ hits q s i"
| "hits (Many r) s i = repeated (hits r s) (length s - i) i"
| "hits Edge s i = (if edge_at s i then [i] else [])"
| "hits Begin s i = (if i = 0 then [i] else [])"
| "hits Finish s i = (if finish_at s i then [i] else [])"
| "hits (Ahead r) s i = (if hits r s i = [] then [] else [i])"
| "hits (Ahead_Not r) s i = (if hits r s i = [] then [i] else [])"
| "hits (Behind_Not n r) s i = (if n \<le> i \<and> i \<in> set (hits r s (i - n)) then [] else [i])"

lemma spans_bounds: "spans r s i j \<Longrightarrow> i \<le> length s \<Longrightarrow> i \<le> j \<and> j \<le> length s"
proof (induction r arbitrary: i j)
  case (Seq r q)
  from Seq.prems(1) obtain k where k: "spans r s i k" "spans q s k j" by auto
  from Seq.IH(1) [OF k(1) Seq.prems(2)] Seq.IH(2) [OF k(2)] show ?case by simp
next
  case (Many r)
  from Many.prems(1) have "(spans r s)\<^sup>*\<^sup>* i j" by simp
  then show ?case using Many.prems(2)
  proof (induction rule: rtranclp_induct)
    case (step j k)
    with Many.IH [of j k] show ?case by simp
  qed simp
qed auto

lemma repeated_exact:
  assumes f: "\<And>i j. i \<le> m \<Longrightarrow> j \<in> set (f i) \<longleftrightarrow> R i j"
    and R: "\<And>i j. i \<le> m \<Longrightarrow> R i j \<Longrightarrow> i \<le> j \<and> j \<le> m"
  shows "i \<le> m \<Longrightarrow> m - i \<le> n \<Longrightarrow> j \<in> set (repeated f n i) \<longleftrightarrow> R\<^sup>*\<^sup>* i j"
proof (induction n arbitrary: i)
  case 0
  have "R\<^sup>*\<^sup>* m j \<Longrightarrow> j = m"
    by (induction rule: rtranclp_induct) (use R in force)+
  with 0 show ?case by auto
next
  case (Suc n)
  have go: "R\<^sup>*\<^sup>* i j \<Longrightarrow> i \<le> m \<Longrightarrow> (\<exists>k. R i k \<and> i < k \<and> R\<^sup>*\<^sup>* k j) \<or> j = i"
  proof (induction rule: converse_rtranclp_induct)
    case (step x y)
    then have "x \<le> y" "y \<le> m" using R by blast+
    with step show ?case by (cases "x = y") (auto simp: less_le)
  qed simp
  then have step: "(\<exists>k. R i k \<and> i < k \<and> R\<^sup>*\<^sup>* k j) \<or> j = i \<longleftrightarrow> R\<^sup>*\<^sup>* i j"
    using Suc.prems(1) by (auto intro: converse_rtranclp_into_rtranclp)
  have "j \<in> set (repeated f (Suc n) i) \<longleftrightarrow> (\<exists>k. R i k \<and> i < k \<and> j \<in> set (repeated f n k)) \<or> j = i"
    using f [OF Suc.prems(1)] by auto
  also have "\<dots> \<longleftrightarrow> (\<exists>k. R i k \<and> i < k \<and> R\<^sup>*\<^sup>* k j) \<or> j = i"
  proof -
    have "j \<in> set (repeated f n k) \<longleftrightarrow> R\<^sup>*\<^sup>* k j" if "R i k" "i < k" for k
      using Suc.IH [of k] R [OF Suc.prems(1) that(1)] that Suc.prems by simp
    then show ?thesis by blast
  qed
  finally show ?case using step by simp
qed

text \<open>The matcher is sound and complete.\<close>

theorem hits_exact: "i \<le> length s \<Longrightarrow> j \<in> set (hits r s i) \<longleftrightarrow> spans r s i j"
proof (induction r arbitrary: i j)
  case (Seq r q)
  then have "j \<in> set (hits (Seq r q) s i) \<longleftrightarrow> (\<exists>k. spans r s i k \<and> j \<in> set (hits q s k))" by auto
  also have "\<dots> \<longleftrightarrow> (\<exists>k. spans r s i k \<and> spans q s k j)"
    using Seq spans_bounds by blast
  finally show ?case by auto
next
  case (Many r)
  have "j \<in> set (repeated (hits r s) (length s - i) i) \<longleftrightarrow> (spans r s)\<^sup>*\<^sup>* i j"
    by (rule repeated_exact [of "length s"]) (use Many spans_bounds in auto)
  then show ?case by simp
next
  case (Ahead r)
  then have "hits r s i \<noteq> [] \<longleftrightarrow> (\<exists>k. spans r s i k)" by (metis list.set_intros(1) list.set_sel(1) neq_Nil_conv set_empty ex_in_conv)
  then show ?case by auto
next
  case (Ahead_Not r)
  then have "hits r s i \<noteq> [] \<longleftrightarrow> (\<exists>k. spans r s i k)" by (metis list.set_intros(1) list.set_sel(1) neq_Nil_conv set_empty ex_in_conv)
  then show ?case by auto
next
  case (Behind_Not n r)
  then have "n \<le> i \<Longrightarrow> i \<in> set (hits r s (i - n)) \<longleftrightarrow> spans r s (i - n) i" by simp
  then show ?case by auto
qed auto

end
