(* ===== verification/BoardEdit.thy ===== *)
theory BoardEdit
  imports Board Regex
begin

text \<open>
  The BOARD writers of \<open>operations.py\<close>: fields of a record edited in place, a claim, the moves between
  sections, insertion under TODO and removal of a record, and the allocation of the next identity.
  Every writer maps the text of the document to the new text; a raised exception is the left side of a
  sum.  A line keeps its line end, as \<open>splitlines(keepends=True)\<close> leaves it.
\<close>

section \<open>Sequences of field edits\<close>

datatype edit = Set_Field string string | Drop_Field string

definition apply_edit :: "bool \<Rightarrow> edit \<Rightarrow> string \<Rightarrow> write_error + string" where
  "apply_edit cap e raw =
     (case e of Set_Field f v \<Rightarrow> set_ticket_field raw f v cap | Drop_Field f \<Rightarrow> remove_ticket_field raw f)"

fun apply_edits :: "bool \<Rightarrow> edit list \<Rightarrow> string \<Rightarrow> write_error + string" where
  "apply_edits cap [] raw = Inr raw"
| "apply_edits cap (e # es) raw =
     (case apply_edit cap e raw of Inl err \<Rightarrow> Inl err | Inr new \<Rightarrow> apply_edits cap es new)"

definition set_edits :: "(string, string) dict \<Rightarrow> edit list" where
  "set_edits fs = map (\<lambda>(f, v). Set_Field f v) fs"

definition capped :: "bool \<Rightarrow> string \<Rightarrow> write_error + string" where
  "capped cap new = (if cap then assert_live_record new else Inr new)"

datatype edit_error = Not_On_Board | Not_Doing | No_Section | Bad_Record write_error

section \<open>Editing in place\<close>

text \<open>\<open>lines[idx] = new + suffix\<close> for the line of a ticket.\<close>

definition replace_line :: "string \<Rightarrow> nat \<Rightarrow> string \<Rightarrow> string" where
  "replace_line doc line_no new =
     (let lines = keeplines doc; idx = line_no - 1;
          suffix = (if last (lines ! idx) = CHR 10 then [CHR 10] else [])
      in concat (lines[idx := new @ suffix]))"

definition edit_in_place :: "string \<Rightarrow> ticket \<Rightarrow> bool \<Rightarrow> edit list \<Rightarrow> edit_error + string" where
  "edit_in_place doc t cap es =
     (case apply_edits cap es (tk_raw t) of
        Inl err \<Rightarrow> Inl (Bad_Record err)
      | Inr new \<Rightarrow>
          (case capped cap new of
             Inl err \<Rightarrow> Inl (Bad_Record err)
           | Inr _ \<Rightarrow> Inr (replace_line doc (tk_line_no t) new)))"

definition ticket_fields_in_place ::
  "string \<Rightarrow> string \<Rightarrow> (string, string) dict \<Rightarrow> string list \<Rightarrow> bool \<Rightarrow> edit_error + string" where
  "ticket_fields_in_place board_text ticket_id fs remove enforce_cap =
     (case dict_get (w_tickets (parse_board board_text)) ticket_id of
        None \<Rightarrow> Inl Not_On_Board
      | Some t \<Rightarrow> edit_in_place board_text t enforce_cap (map Drop_Field remove @ set_edits fs))"

definition CLAIM_WITNESSES :: "string list" where
  "CLAIM_WITNESSES = [''claim_run'', ''claim_generation'']"

text \<open>A binding that cannot be proved removes the field.\<close>

definition session_edit :: "string option \<Rightarrow> edit" where
  "session_edit session_binding =
     (case session_binding of
        Some b \<Rightarrow> if b = [] then Drop_Field ''claim_session'' else Set_Field ''claim_session'' b
      | None \<Rightarrow> Drop_Field ''claim_session'')"

definition witness_edits :: "(string, string) dict option \<Rightarrow> edit list" where
  "witness_edits run_witnesses =
     (case run_witnesses of None \<Rightarrow> [] | Some ws \<Rightarrow> map Drop_Field CLAIM_WITNESSES @ set_edits ws)"

definition claim_fields_in_place ::
  "string \<Rightarrow> string \<Rightarrow> (string, string) dict \<Rightarrow> bool \<Rightarrow> string option \<Rightarrow> (string, string) dict option \<Rightarrow>
   edit_error + string" where
  "claim_fields_in_place board_text ticket_id fs enforce_cap session_binding run_witnesses =
     (case dict_get (w_tickets (parse_board board_text)) ticket_id of
        None \<Rightarrow> Inl Not_Doing
      | Some t \<Rightarrow>
          if tk_section t \<noteq> ''## DOING'' then Inl Not_Doing
          else
            let witnesses =
              (if run_witnesses = None \<and> session_binding \<noteq> dict_get (tk_fields t) ''claim_session''
               then Some [] else run_witnesses)
            in edit_in_place board_text t enforce_cap
                 (session_edit session_binding # witness_edits witnesses @ set_edits fs))"

section \<open>Moving records\<close>

text \<open>\<open>line.rstrip("\n")\<close>.\<close>

definition chomp :: "string \<Rightarrow> string" where
  "chomp l = rev (dropWhile (\<lambda>c. c = CHR 10) (rev l))"

text \<open>
  The pass over the lines: the record of the ticket is taken out, the index of the last line that opens
  with each heading is remembered.
\<close>

record scan =
  sc_out :: "string list"
  sc_line :: "string option"
  sc_heads :: "(string, nat) dict"

definition note_headings :: "string list \<Rightarrow> string \<Rightarrow> nat \<Rightarrow> (string, nat) dict \<Rightarrow> (string, nat) dict" where
  "note_headings headings stripped n heads =
     foldl (\<lambda>d h. if startswith stripped h then dict_set h n d else d) heads headings"

definition scan_line :: "string list \<Rightarrow> string list \<Rightarrow> scan \<Rightarrow> string \<Rightarrow> scan" where
  "scan_line openers headings s line =
     (let stripped = chomp line in
      if list_ex (startswith stripped) openers then s\<lparr>sc_line := Some stripped\<rparr>
      else s\<lparr>sc_heads := note_headings headings stripped (length (sc_out s)) (sc_heads s),
             sc_out := sc_out s @ [line]\<rparr>)"

definition scan_board :: "string list \<Rightarrow> string list \<Rightarrow> string \<Rightarrow> scan" where
  "scan_board openers headings board_text =
     foldl (scan_line openers headings) \<lparr>sc_out = [], sc_line = None, sc_heads = []\<rparr> (keeplines board_text)"

text \<open>\<open>out.insert(idx + 1, line)\<close>.\<close>

definition insert_after :: "nat \<Rightarrow> string \<Rightarrow> string list \<Rightarrow> string list" where
  "insert_after idx line out = take (Suc idx) out @ line # drop (Suc idx) out"

definition opener :: "char \<Rightarrow> string \<Rightarrow> string" where
  "opener box ticket_id = ''- ['' @ [box] @ ''] '' @ ticket_id @ '' ''"

definition claim_move ::
  "string \<Rightarrow> string \<Rightarrow> string \<Rightarrow> string \<Rightarrow> string option \<Rightarrow> bool \<Rightarrow> (string, string) dict option \<Rightarrow>
   edit_error + string" where
  "claim_move board_text ticket_id agent utc session_binding enforce_cap run_witnesses =
     (let s = scan_board [opener CHR '' '' ticket_id] [''## DOING''] board_text in
      case (sc_line s, dict_get (sc_heads s) ''## DOING'') of
        (Some ticket_line, Some doing_idx) \<Rightarrow>
          (case apply_edits enforce_cap
               ([Set_Field ''owner'' agent, Set_Field ''claim_time'' utc, session_edit session_binding] @
                map Drop_Field CLAIM_WITNESSES @ set_edits (case run_witnesses of None \<Rightarrow> [] | Some ws \<Rightarrow> ws))
               (rstrip (replace_once ''- [ ] '' ''- [/] '' ticket_line)) of
             Inl err \<Rightarrow> Inl (Bad_Record err)
           | Inr marked \<Rightarrow> Inr (concat (insert_after doing_idx (marked @ [CHR 10]) (sc_out s))))
      | _ \<Rightarrow> Inl No_Section)"

text \<open>\<open>re.sub(r"^- \[[/ ]\] ", "- [x] ", line, count=1)\<close>.\<close>

definition check_box :: "string \<Rightarrow> string" where
  "check_box line =
     (if startswith line ''- [/] '' \<or> startswith line ''- [ ] '' then ''- [x] '' @ drop 6 line else line)"

definition block_edits :: "string \<Rightarrow> string \<Rightarrow> string \<Rightarrow> edit list" where
  "block_edits escaped blocker_scope retry_not_before =
     [Set_Field ''blocker'' escaped,
      Set_Field ''blocker_scope'' (if blocker_scope = [] then ''ticket'' else blocker_scope)] @
     (if strip retry_not_before = [] then [] else [Set_Field ''retry_not_before'' (strip retry_not_before)])"

definition UNBLOCK_EDITS :: "edit list" where
  "UNBLOCK_EDITS = map Drop_Field [''blocker'', ''blocker_scope'', ''verify_attempts'', ''retry_not_before'']"

text \<open>The action of a move; every other action behaves as \<open>demote\<close>.\<close>

datatype move = Finish | Supersede | Resolve | Block | Unblock | Resume | Demote

text \<open>The record after one of the moves; an absent scope or due instant is the empty string.\<close>

definition marked_for ::
  "move \<Rightarrow> string \<Rightarrow> string \<Rightarrow> string \<Rightarrow> bool \<Rightarrow> string \<Rightarrow> write_error + string" where
  "marked_for action payload blocker_scope retry_not_before enforce_cap line =
     (let reopened = replace_once ''- [/] '' ''- [ ] '' line in
      case action of
        Finish \<Rightarrow> Inr (replace_once ''- [/] '' ''- [x] '' line)
      | Supersede \<Rightarrow> Inr (check_box line)
      | Resolve \<Rightarrow> Inr (check_box line)
      | Block \<Rightarrow>
          (case escape_ticket_description (if payload = [] then ''blocked'' else payload) of
             Inl err \<Rightarrow> Inl err
           | Inr escaped \<Rightarrow> apply_edits enforce_cap (block_edits escaped blocker_scope retry_not_before) reopened)
      | Unblock \<Rightarrow> apply_edits enforce_cap UNBLOCK_EDITS reopened
      | Resume \<Rightarrow> Inr (replace_once ''- [ ] '' ''- [/] '' line)
      | Demote \<Rightarrow> Inr reopened)"

definition move_ticket ::
  "string \<Rightarrow> string \<Rightarrow> string \<Rightarrow> move \<Rightarrow> string \<Rightarrow> string \<Rightarrow> string \<Rightarrow> bool \<Rightarrow> edit_error + string" where
  "move_ticket board_text ticket_id target_section action payload blocker_scope retry_not_before enforce_cap =
     (let s = scan_board [opener CHR ''/'' ticket_id, opener CHR '' '' ticket_id] REQUIRED_HEADINGS board_text in
      case sc_line s of
        None \<Rightarrow> Inl Not_On_Board
      | Some ticket_line \<Rightarrow>
          (case dict_get (sc_heads s) target_section of
             None \<Rightarrow> Inl No_Section
           | Some target_idx \<Rightarrow>
               (case marked_for action payload blocker_scope retry_not_before enforce_cap ticket_line of
                  Inl err \<Rightarrow> Inl (Bad_Record err)
                | Inr marked \<Rightarrow>
                    (case capped enforce_cap (rstrip marked) of
                       Inl err \<Rightarrow> Inl (Bad_Record err)
                     | Inr _ \<Rightarrow>
                         Inr (concat (insert_after target_idx (rstrip marked @ [CHR 10]) (sc_out s)))))))"

section \<open>Inserting, removing, allocating\<close>

fun find_index :: "('a \<Rightarrow> bool) \<Rightarrow> 'a list \<Rightarrow> nat option" where
  "find_index P [] = None"
| "find_index P (x # xs) = (if P x then Some 0 else map_option Suc (find_index P xs))"

definition insert_todo :: "string \<Rightarrow> string \<Rightarrow> edit_error + string" where
  "insert_todo board_text line =
     (case assert_live_record line of
        Inl err \<Rightarrow> Inl (Bad_Record err)
      | Inr _ \<Rightarrow>
          (case find_index (\<lambda>l. startswith l ''## TODO'') (keeplines board_text) of
             None \<Rightarrow> Inl No_Section
           | Some todo_idx \<Rightarrow> Inr (concat (insert_after todo_idx (line @ [CHR 10]) (keeplines board_text)))))"

record removal =
  rm_out :: "string list"
  rm_record :: "string option"
  rm_section :: string
  rm_seen :: string

definition seen_heading :: "string \<Rightarrow> string \<Rightarrow> string" where
  "seen_heading stripped seen = foldl (\<lambda>s h. if startswith stripped h then h else s) seen REQUIRED_HEADINGS"

definition remove_line :: "string \<Rightarrow> removal \<Rightarrow> string \<Rightarrow> removal" where
  "remove_line ticket_id s line =
     (let stripped = chomp line; seen = seen_heading stripped (rm_seen s) in
      if list_ex (\<lambda>box. startswith stripped (opener box ticket_id)) ''/ x''
      then s\<lparr>rm_record := Some stripped, rm_section := seen, rm_seen := seen\<rparr>
      else s\<lparr>rm_out := rm_out s @ [line], rm_seen := seen\<rparr>)"

definition remove_ticket :: "string \<Rightarrow> string \<Rightarrow> edit_error + string \<times> string \<times> string" where
  "remove_ticket board_text ticket_id =
     (let s = foldl (remove_line ticket_id) \<lparr>rm_out = [], rm_record = None, rm_section = [], rm_seen = []\<rparr>
                (keeplines board_text) in
      case rm_record s of
        None \<Rightarrow> Inl Not_On_Board
      | Some rec \<Rightarrow> Inr (concat (rm_out s), rec, rm_section s))"

text \<open>\<open>^-\s*\[[ x/]\]\s*T-(\d+)\b\<close> on a stripped line, as the number.\<close>

definition board_ticket_line :: "string \<Rightarrow> nat option" where
  "board_ticket_line l =
     (if \<not> startswith l ''-'' then None
      else let s = lstrip (tl l) in
        if 3 \<le> length s \<and> s ! 0 = CHR ''['' \<and> s ! 1 \<in> set '' x/'' \<and> s ! 2 = CHR '']'' then
          (case ticket_ref (lstrip (drop 3 s)) of
             None \<Rightarrow> None
           | Some (tid, rest) \<Rightarrow> if rest \<noteq> [] \<and> is_word (hd rest) then None else ticket_number tid)
        else None)"

text \<open>\<open>next_ticket_id\<close> with the frontier of the history that its callers pass.\<close>

definition next_ticket_id :: "string \<Rightarrow> nat \<Rightarrow> nat" where
  "next_ticket_id board_text history_max_ticket_id =
     (let ids = List.map_filter (\<lambda>l. board_ticket_line (strip l)) (splitlines board_text) @
                (if 0 < history_max_ticket_id then [history_max_ticket_id] else [])
      in if ids = [] then 1 else foldl max 0 ids + 1)"

end
