(* ===== verification/BoardLaws.thy ===== *)
theory BoardLaws
  imports Board
begin

text \<open>
  The closed grammar of a BOARD, stated without the walk: the lines with the section they sit in,
  the record each of them is, and when a document is accepted.  The walk of \<open>parse_board\<close> is proved
  equal to it, and the records it yields well-formed.
\<close>

section \<open>The reference\<close>

text \<open>Every line that is neither a heading nor blank, with its section and number.\<close>

fun placed :: "string option \<Rightarrow> (nat \<times> string) list \<Rightarrow> (string option \<times> nat \<times> string) list" where
  "placed s [] = []"
| "placed s ((n, l) # ls) =
     (if is_heading_line l then placed (Some (strip l)) ls
      else if strip l = [] then placed s ls
      else (s, n, l) # placed s ls)"

definition headings_of :: "string list \<Rightarrow> string list" where
  "headings_of ls = map strip (filter is_heading_line ls)"

definition work_section :: "string option \<Rightarrow> bool" where
  "work_section s \<longleftrightarrow> (case s of None \<Rightarrow> False | Some sec \<Rightarrow> sec \<in> set REQUIRED_HEADINGS)"

text \<open>The ticket one line stands for.\<close>

definition record_ticket :: "string option \<Rightarrow> nat \<Rightarrow> string \<Rightarrow> ticket option" where
  "record_ticket s n l =
     (case ticket_re (hide_pipes (strip l)) of
        None \<Rightarrow> None
      | Some (checkbox, tid, rest) \<Rightarrow>
          if embedded_re rest \<or> \<not> work_section s then None
          else (case read_fields n tid (tl (ticket_parts rest)) ([], [], []) of (needs, fs, errs) \<Rightarrow>
            if errs = [] then Some \<lparr>tk_id = tid, tk_section = the s, tk_line_no = n, tk_checkbox = checkbox,
              tk_needs = needs, tk_fields = fs, tk_raw = l, tk_description = hd (ticket_parts rest),
              tk_shadowed = []\<rparr>
            else None))"

definition line_ok :: "string option \<times> nat \<times> string \<Rightarrow> bool" where
  "line_ok e = (case e of (s, n, l) \<Rightarrow>
     if is_record_line l then record_ticket s n l \<noteq> None else \<not> work_section s)"

definition line_ticket :: "string option \<times> nat \<times> string \<Rightarrow> ticket option" where
  "line_ticket e = (case e of (s, n, l) \<Rightarrow> if is_record_line l then record_ticket s n l else None)"

definition entries_of :: "(string option \<times> nat \<times> string) list \<Rightarrow> ticket list" where
  "entries_of es = List.map_filter line_ticket es"

definition board_ok :: "string list \<Rightarrow> bool" where
  "board_ok ls \<longleftrightarrow>
     list_all line_ok (placed None (numbered ls)) \<and>
     distinct (map tk_id (entries_of (placed None (numbered ls)))) \<and>
     list_all (\<lambda>h. count_list (headings_of ls) h = 1) REQUIRED_HEADINGS"

definition board_tickets :: "string list \<Rightarrow> tickets" where
  "board_tickets ls = map (\<lambda>t. (tk_id t, t)) (entries_of (placed None (numbered ls)))"

section \<open>One line of the walk\<close>

lemma dict_set_fresh: "dict_get d k = None \<Longrightarrow> dict_set k v d = d @ [(k, v)]"
  by (induction d) (auto split: if_splits)

lemma read_fields_errors: "\<exists>es. snd (snd (read_fields n tid parts (needs, fs, errs))) = errs @ es"
proof (induction parts arbitrary: needs fs errs)
  case (Cons p parts)
  show ?case
  proof (cases "field_match p")
    case None
    with Cons [of needs fs "errs @ [Unknown_Field n tid p]"] show ?thesis by auto
  next
    case (Some nv)
    obtain name val where nv: "nv = (name, val)" by force
    show ?thesis
      using Some nv Cons [of needs fs "errs @ [Unknown_Field n tid p]"]
        Cons [of needs fs "errs @ [Duplicate_Field n tid name]"]
        Cons [of "if name = ''needs'' then find_tickets val else needs" "dict_set name val fs" errs]
      by auto
  qed
qed simp

lemma walk_record_ok:
  assumes "record_ticket (w_section w) n l = Some t" and "dict_get (w_tickets w) (tk_id t) = None"
  shows "walk_record n l w = w\<lparr>w_tickets := w_tickets w @ [(tk_id t, t)]\<rparr>"
  using assms
  by (auto simp: record_ticket_def walk_record_def work_section_def Let_def dict_set_fresh
      split: option.splits if_splits prod.splits)

lemma walk_record_bad:
  assumes "\<nexists>t. record_ticket (w_section w) n l = Some t \<and> dict_get (w_tickets w) (tk_id t) = None"
  shows "\<exists>e es. w_errors (walk_record n l w) = w_errors w @ e # es"
proof (cases "ticket_re (hide_pipes (strip l))")
  case None
  then show ?thesis by (simp add: walk_record_def add_error_def)
next
  case (Some m)
  obtain checkbox tid rest where m: "m = (checkbox, tid, rest)" by (cases m)
  obtain needs fs errs where f: "read_fields n tid (tl (ticket_parts rest)) ([], [], []) = (needs, fs, errs)"
    by (metis surj_pair)
  show ?thesis
    using assms Some m f
    by (cases errs)
       (auto simp: walk_record_def record_ticket_def work_section_def add_error_def Let_def
        split: option.splits if_splits)
qed

lemma walk_record_section [simp]:
  "w_section (walk_record n l w) = w_section w" "w_headings (walk_record n l w) = w_headings w"
  by (auto simp: walk_record_def add_error_def Let_def split: option.splits prod.splits)

lemma walk_line_errors: "\<exists>es. w_errors (walk_line w nl) = w_errors w @ es"
proof (cases nl)
  case (Pair n l)
  have "\<exists>es. w_errors (walk_record n l w) = w_errors w @ es"
  proof (cases "\<exists>t. record_ticket (w_section w) n l = Some t \<and> dict_get (w_tickets w) (tk_id t) = None")
    case True
    then show ?thesis by (auto simp: walk_record_ok)
  next
    case False
    then show ?thesis using walk_record_bad [of w n l] by fastforce
  qed
  then show ?thesis
    by (auto simp: Pair walk_line_def add_error_def split: option.splits)
qed

lemma walk_errors: "\<exists>es. w_errors (foldl walk_line w ls) = w_errors w @ es"
proof (induction ls arbitrary: w)
  case (Cons l ls)
  from walk_line_errors [of w l] Cons [of "walk_line w l"] show ?case by fastforce
qed simp

section \<open>The walk\<close>

definition extends :: "tickets \<Rightarrow> ticket list \<Rightarrow> bool" where
  "extends d ts \<longleftrightarrow> distinct (map tk_id ts) \<and> list_all (\<lambda>t. dict_get d (tk_id t) = None) ts"

lemma get_append_None: "dict_get (d @ [(k, v)]) x = None \<longleftrightarrow> dict_get d x = None \<and> x \<noteq> k"
  by (auto simp: map_of_eq_None_iff)

lemma extends_Cons:
  "extends d (t # ts) \<longleftrightarrow> dict_get d (tk_id t) = None \<and> extends (d @ [(tk_id t, t)]) ts"
  unfolding extends_def list_all_iff get_append_None by (simp only: list.map distinct.simps list.set) (force simp: image_iff)

lemma walk_headings: "w_headings (foldl walk_line w ls) = w_headings w @ headings_of (map snd ls)"
  by (induction ls arbitrary: w)
     (auto simp: headings_of_def walk_line_def add_error_def split: option.splits)

lemma entries_simps [simp]:
  "entries_of [] = []"
  "entries_of (e # es) = (case line_ticket e of None \<Rightarrow> entries_of es | Some t \<Rightarrow> t # entries_of es)"
  by (auto simp: entries_of_def List.map_filter_def)

text \<open>The walk reports no error exactly when every line is one and no identity repeats.\<close>

definition walked :: "walk \<Rightarrow> (nat \<times> string) list \<Rightarrow> bool" where
  "walked w ls \<longleftrightarrow> list_all line_ok (placed (w_section w) ls) \<and>
     extends (w_tickets w) (entries_of (placed (w_section w) ls))"

lemma walk_stuck:
  assumes "w_errors w1 = w_errors w @ e # es"
  shows "w_errors (foldl walk_line w1 ls) \<noteq> w_errors w"
  using walk_errors [of w1 ls] assms by auto

lemma walk_exact:
  "(w_errors (foldl walk_line w ls) = w_errors w \<longleftrightarrow> walked w ls) \<and>
   (walked w ls \<longrightarrow> w_tickets (foldl walk_line w ls) =
      w_tickets w @ map (\<lambda>t. (tk_id t, t)) (entries_of (placed (w_section w) ls)))"
proof (induction ls arbitrary: w)
  case Nil
  show ?case by (simp add: walked_def extends_def)
next
  case (Cons nl ls)
  obtain n l where nl: "nl = (n, l)" by force
  consider "is_heading_line l" | "\<not> is_heading_line l" "strip l = []"
    | t where "\<not> is_heading_line l" "strip l \<noteq> []" "is_record_line l"
        "record_ticket (w_section w) n l = Some t" "dict_get (w_tickets w) (tk_id t) = None"
    | "\<not> is_heading_line l" "strip l \<noteq> []" "is_record_line l"
        "\<nexists>t. record_ticket (w_section w) n l = Some t \<and> dict_get (w_tickets w) (tk_id t) = None"
    | "\<not> is_heading_line l" "strip l \<noteq> []" "\<not> is_record_line l" "work_section (w_section w)"
    | "\<not> is_heading_line l" "strip l \<noteq> []" "\<not> is_record_line l" "\<not> work_section (w_section w)" by metis
  then show ?case
  proof cases
    case 1
    with Cons [of "walk_line w nl"] show ?thesis by (simp add: nl walk_line_def walked_def)
  next
    case 2
    with Cons [of w] show ?thesis by (simp add: nl walk_line_def walked_def)
  next
    case (3 t)
    let ?w1 = "w\<lparr>w_tickets := w_tickets w @ [(tk_id t, t)]\<rparr>"
    have "walk_line w nl = ?w1" using 3 by (simp add: nl walk_line_def walk_record_ok)
    with 3 Cons [of ?w1] show ?thesis
      by (simp add: nl walked_def extends_Cons line_ok_def line_ticket_def)
  next
    case 4
    from walk_record_bad [OF 4(4)] obtain e es where "w_errors (walk_record n l w) = w_errors w @ e # es" by blast
    with walk_stuck 4 have "w_errors (foldl walk_line w (nl # ls)) \<noteq> w_errors w" by (simp add: nl walk_line_def)
    moreover have "\<not> walked w (nl # ls)"
      using 4 by (auto simp: nl walked_def line_ok_def line_ticket_def extends_Cons)
    ultimately show ?thesis by blast
  next
    case 5
    then obtain sec where s: "w_section w = Some sec" "sec \<in> set REQUIRED_HEADINGS"
      by (auto simp: work_section_def split: option.splits)
    have "w_errors (walk_line w nl) = w_errors w @ [Unexpected_Record n sec (take 80 (strip l))]"
      using 5 s by (simp add: nl walk_line_def add_error_def)
    from walk_stuck [OF this] have "w_errors (foldl walk_line w (nl # ls)) \<noteq> w_errors w" by simp
    moreover have "\<not> walked w (nl # ls)" using 5 by (simp add: nl walked_def line_ok_def)
    ultimately show ?thesis by blast
  next
    case 6
    then have "walk_line w nl = w"
      by (auto simp: nl walk_line_def work_section_def split: option.splits)
    with 6 Cons [of w] show ?thesis by (simp add: nl walked_def line_ok_def line_ticket_def)
  qed
qed

lemma map_snd_numbered [simp]: "map snd (numbered ls) = ls"
  by (simp add: numbered_def del: upt_Suc)

lemma heading_errors_Nil: "heading_errors hs = [] \<longleftrightarrow> list_all (\<lambda>h. count_list hs h = 1) REQUIRED_HEADINGS"
  by (auto simp: heading_errors_def filter_empty_conv list_all_iff)

lemma parse_board_clean_iff: "w_errors (parse_board doc) = [] \<longleftrightarrow> board_ok (splitlines doc)"
proof -
  let ?ls = "numbered (splitlines doc)"
  have "w_errors (parse_board doc) = [] \<longleftrightarrow>
      w_errors (foldl walk_line empty_walk ?ls) = [] \<and> heading_errors (headings_of (splitlines doc)) = []"
    by (simp add: parse_board_def Let_def walk_headings) (simp add: empty_walk_def)
  also have "w_errors (foldl walk_line empty_walk ?ls) = [] \<longleftrightarrow> walked empty_walk ?ls"
    using walk_exact [of empty_walk ?ls] by (simp add: empty_walk_def)
  finally show ?thesis
    by (auto simp: board_ok_def walked_def extends_def empty_walk_def heading_errors_Nil list_all_iff)
qed

lemma parse_board_tickets:
  "w_errors (parse_board doc) = [] \<Longrightarrow> w_tickets (parse_board doc) = board_tickets (splitlines doc)"
proof -
  let ?ls = "numbered (splitlines doc)"
  assume "w_errors (parse_board doc) = []"
  then have "walked empty_walk ?ls"
    unfolding parse_board_clean_iff by (auto simp: board_ok_def walked_def extends_def empty_walk_def list_all_iff)
  with walk_exact [of empty_walk ?ls] show ?thesis
    by (simp add: parse_board_def Let_def board_tickets_def) (simp add: empty_walk_def)
qed

section \<open>What an accepted board is\<close>

definition fields_ok :: "string list \<times> (string, string) dict \<Rightarrow> bool" where
  "fields_ok nf \<longleftrightarrow> (case nf of (needs, fs) \<Rightarrow>
     distinct (map fst fs) \<and> set (map fst fs) \<subseteq> set KNOWN_FIELDS \<and>
     needs = (case dict_get fs ''needs'' of None \<Rightarrow> [] | Some v \<Rightarrow> find_tickets v))"

definition wf_ticket :: "ticket \<Rightarrow> bool" where
  "wf_ticket t \<longleftrightarrow> ticket_name (tk_id t) \<and> tk_section t \<in> set REQUIRED_HEADINGS \<and>
     tk_checkbox t \<in> set '' x/'' \<and> fields_ok (tk_needs t, tk_fields t) \<and> tk_shadowed t = [] \<and>
     is_record_line (tk_raw t)"

lemma keys_dict_set_fresh: "dict_get d k = None \<Longrightarrow> map fst (dict_set k v d) = map fst d @ [k]"
  by (simp add: dict_set_fresh)

lemma read_fields_ok:
  "fields_ok (needs, fs) \<Longrightarrow> read_fields n tid parts (needs, fs, errs) = (needs', fs', errs') \<Longrightarrow>
   fields_ok (needs', fs')"
proof (induction parts arbitrary: needs fs errs)
  case (Cons p parts)
  show ?case
  proof (cases "\<exists>name val. field_match p = Some (name, val) \<and> name \<in> set KNOWN_FIELDS \<and> dict_get fs name = None")
    case True
    then obtain name val where m: "field_match p = Some (name, val)" "name \<in> set KNOWN_FIELDS" "dict_get fs name = None"
      by blast
    have "fields_ok (if name = ''needs'' then find_tickets val else needs, dict_set name val fs)"
      unfolding fields_ok_def prod.case keys_dict_set_fresh [OF m(3)] dict_get_set
      using Cons.prems(1) m by (auto simp: fields_ok_def map_of_eq_None_iff)
    from Cons.IH [OF this] Cons.prems(2) m show ?thesis by simp
  next
    case False
    then show ?thesis
      using Cons.IH [OF Cons.prems(1)] Cons.prems(2) by (auto split: option.splits if_splits)
  qed
qed simp

lemma ticket_re_name: "ticket_re s = Some (c, tid, rest) \<Longrightarrow> ticket_name tid \<and> c \<in> set '' x/''"
  by (auto simp: ticket_re_def dest: ticket_ref_name split: if_splits option.splits prod.splits)

lemma record_ticket_wf:
  assumes "record_ticket s n l = Some t" and "is_record_line l"
  shows "wf_ticket t" "tk_raw t = l" "tk_line_no t = n" "s = Some (tk_section t)"
proof -
  have e: "fields_ok ([], [])" by (simp add: fields_ok_def)
  from assms show "wf_ticket t"
    by (auto simp: record_ticket_def wf_ticket_def work_section_def intro: read_fields_ok [OF e]
        dest: ticket_re_name split: option.splits prod.splits if_splits)
  from assms show "tk_raw t = l" "tk_line_no t = n" "s = Some (tk_section t)"
    by (auto simp: record_ticket_def work_section_def split: option.splits prod.splits if_splits)
qed

lemma heading_not_record: "is_heading_line l \<Longrightarrow> \<not> is_record_line l"
proof -
  assume "is_heading_line l"
  then obtain r where l: "l = ''## '' @ r" by (auto simp: is_heading_line_def startswith_iff_prefix prefix_def)
  show ?thesis by (simp add: l is_record_line_def lstrip_def is_space_def)
qed

lemma blank_not_record: "strip l = [] \<Longrightarrow> \<not> is_record_line l"
  by (simp add: strip_Nil is_record_line_def lstrip_def list_all_iff dropWhile_eq_Nil_conv [THEN iffD2])

lemma placed_raws:
  "list_all line_ok (placed s ls) \<Longrightarrow> map tk_raw (entries_of (placed s ls)) = filter is_record_line (map snd ls)"
proof (induction s ls rule: placed.induct)
  case (2 s n l ls)
  then show ?case
    by (auto simp: heading_not_record blank_not_record line_ok_def line_ticket_def dest: record_ticket_wf(2)
        split: option.splits)
qed simp

lemma entry_placed:
  "t \<in> set (entries_of (placed s ls)) \<Longrightarrow>
   \<exists>s' n l. (n, l) \<in> set ls \<and> is_record_line l \<and> record_ticket s' n l = Some t"
proof (induction s ls rule: placed.induct)
  case (2 s n l ls)
  then show ?case
    by (cases "is_heading_line l"; cases "strip l = []")
       (auto simp: line_ticket_def split: option.splits if_splits)
qed simp

lemma numbered_nth: "(n, l) \<in> set (numbered ls) \<Longrightarrow> 0 < n \<and> n \<le> length ls \<and> ls ! (n - 1) = l"
  by (auto simp: numbered_def set_zip simp del: upt_Suc)

definition demo_board :: string where
  "demo_board = unlines [''# Board'', ''## DOING'', ''- [/] T-2 parser | owner: ann | claim_time: 2026-01-01T00:00:00Z'',
     ''## TODO'', ''- [ ] T-3 lexer | needs: T-1, T-2'', ''## DONE'', ''- [x] T-1 setup | verify: ok'', ''## BLOCKED'']"

text \<open>
  C18: the closed physical grammar: a document is accepted exactly when every line of the four work
  sections is a well-formed record of its own and no record lies elsewhere; then no physical record is
  lost, merged or read twice: the tickets are the record lines, in order, under pairwise distinct
  identities, with known fields that are read once.
\<close>

theorem parse_board_closed:
  "(w_errors (parse_board doc) = [] \<longleftrightarrow> board_ok (splitlines doc)) \<and>
   (w_errors (parse_board doc) = [] \<longrightarrow>
      map (\<lambda>(k, t). tk_raw t) (w_tickets (parse_board doc)) = filter is_record_line (splitlines doc) \<and>
      distinct (map fst (w_tickets (parse_board doc))) \<and>
      (\<forall>(k, t) \<in> set (w_tickets (parse_board doc)). k = tk_id t \<and> wf_ticket t \<and>
         0 < tk_line_no t \<and> tk_line_no t \<le> length (splitlines doc) \<and>
         splitlines doc ! (tk_line_no t - 1) = tk_raw t))"
proof -
  let ?ls = "splitlines doc" and ?es = "placed None (numbered (splitlines doc))"
  {
    assume clean: "w_errors (parse_board doc) = []"
    then have ok: "board_ok ?ls" by (simp add: parse_board_clean_iff)
    have ts: "w_tickets (parse_board doc) = board_tickets ?ls" by (rule parse_board_tickets [OF clean])
    have "map (\<lambda>(k, t). tk_raw t) (board_tickets ?ls) = map tk_raw (entries_of ?es)"
      by (simp add: board_tickets_def comp_def)
    also have "\<dots> = filter is_record_line ?ls"
      using ok placed_raws [of None "numbered ?ls"] by (simp add: board_ok_def)
    finally have raws: "map (\<lambda>(k, t). tk_raw t) (board_tickets ?ls) = filter is_record_line ?ls" .
    have dist: "distinct (map fst (board_tickets ?ls))"
      using ok by (simp add: board_ok_def board_tickets_def comp_def)
    have each: "k = tk_id t \<and> wf_ticket t \<and> 0 < tk_line_no t \<and> tk_line_no t \<le> length ?ls \<and>
        ?ls ! (tk_line_no t - 1) = tk_raw t" if kt: "(k, t) \<in> set (board_tickets ?ls)" for k t
    proof -
      from kt have "k = tk_id t" "t \<in> set (entries_of ?es)" by (auto simp: board_tickets_def)
      moreover from entry_placed [OF this(2)] obtain s' n l where
        "(n, l) \<in> set (numbered ?ls)" "is_record_line l" "record_ticket s' n l = Some t" by blast
      ultimately show ?thesis
        using numbered_nth [of n l ?ls] record_ticket_wf [of s' n l t] by simp
    qed
    note raws dist each
  }
  then show ?thesis by (auto simp: parse_board_clean_iff parse_board_tickets)
qed

theorem parse_board_closed_witness:
  "map fst (w_tickets (parse_board demo_board)) = [''T-2'', ''T-3'', ''T-1''] \<and>
   distinct (map fst (w_tickets (parse_board demo_board)))"
proof
  show "map fst (w_tickets (parse_board demo_board)) = [''T-2'', ''T-3'', ''T-1'']" by code_simp
  have "w_errors (parse_board demo_board) = []" by code_simp
  with parse_board_closed [of demo_board] show "distinct (map fst (w_tickets (parse_board demo_board)))" by blast
qed

end
