(* ===== verification/BoardEditLaws.thy ===== *)
theory BoardEditLaws
  imports BoardEdit BoardLaws
begin

text \<open>
  The BOARD writers refine updates of an abstract board, a map from identities to cards (section,
  box, fields, description): the record an edit produces, what a board says without line numbers, and
  the theorems for edits in place, claims, moves, insertion and allocation.
\<close>

section \<open>Trimmed text\<close>

lemma hide_Nil_iff [simp]: "hide_pipes s = [] \<longleftrightarrow> s = []"
  by (cases s) (auto simp: hide_pipes_Cons)

lemma special_not_space [simp]: "\<not> is_space PIPE_SENTINEL" "\<not> is_space CHR 92" "\<not> is_space CHR 124"
  by (simp_all add: is_space_def PIPE_SENTINEL_def Let_def)

lemma hide_ends:
  "s \<noteq> [] \<Longrightarrow> is_space (hd (hide_pipes s)) = is_space (hd s) \<and> is_space (last (hide_pipes s)) = is_space (last s)"
proof (induction "length s" arbitrary: s rule: less_induct)
  case less
  then obtain c t where s: "s = c # t" by (cases s) auto
  show ?case
  proof (cases "c = CHR 92 \<and> t \<noteq> [] \<and> hd t = CHR 124")
    case True
    then obtain u where t: "t = CHR 124 # u" by (cases t) auto
    show ?thesis using True less(1) [of u] by (cases "u = []") (auto simp: s t hide_pipes_Cons)
  next
    case False
    then show ?thesis using less(1) [of t] by (cases "t = []") (auto simp: s hide_pipes_Cons)
  qed
qed

lemma trimmed_hide: "trimmed (hide_pipes s) \<longleftrightarrow> trimmed s"
  using hide_ends [of s] by (cases "s = []") (auto simp: trimmed_def)

section \<open>Plain lines\<close>

lemma special_not_end [simp]:
  "\<not> is_line_end PIPE_SENTINEL" "\<not> is_line_end CHR 92" "\<not> is_line_end CHR 124" "\<not> is_line_end CHR 32"
  by (simp_all add: is_line_end_def PIPE_SENTINEL_def Let_def)

lemma plain_hide: "plain_line s \<Longrightarrow> plain_line (hide_pipes s)"
proof (induction "length s" arbitrary: s rule: less_induct)
  case less
  show ?case
  proof (cases s)
    case (Cons c t)
    with less(1) [of t] less(1) [of "tl t"] less(2) show ?thesis by (cases t) (auto simp: hide_pipes_Cons)
  qed simp
qed

lemma plain_reveal: "plain_line (reveal_pipes s) \<longleftrightarrow> plain_line s"
  by (induction s) (auto simp: reveal_pipes_Cons)

lemma plain_join: "plain_line (join '' | '' ps) \<longleftrightarrow> list_all plain_line ps"
  by (induction "'' | ''" ps rule: join.induct) (auto simp: is_line_end_def Let_def)

lemma plain_parts: "plain_line l \<Longrightarrow> list_all plain_line (fields_split l)"
  using plain_hide [of l] plain_join [of "fields_split l"] by (simp add: fields_split_def join_split_str)

lemma remove_plain: "remove_ticket_field raw f = Inr new \<Longrightarrow> plain_line raw \<Longrightarrow> plain_line new"
  using plain_parts [of raw]
  by (auto simp: remove_ticket_field_def fields_join_def plain_reveal plain_join list_all_iff split: option.splits)

section \<open>Cards\<close>

text \<open>What a record says, with neither its line number nor its spelling.\<close>

record card =
  c_section :: string
  c_box :: char
  c_fields :: "(string, string) dict"
  c_description :: string

definition ticket_card :: "ticket \<Rightarrow> card" where
  "ticket_card t = \<lparr>c_section = tk_section t, c_box = tk_checkbox t, c_fields = tk_fields t,
     c_description = tk_description t\<rparr>"

definition parts_ok :: "string list \<Rightarrow> bool" where
  "parts_ok ps \<longleftrightarrow> list_all (\<lambda>p. field_match p \<noteq> None) ps \<and>
     set (map fst (List.map_filter field_match ps)) \<subseteq> set KNOWN_FIELDS \<and>
     distinct (map fst (List.map_filter field_match ps))"

definition record_card :: "string option \<Rightarrow> string \<Rightarrow> (string \<times> card) option" where
  "record_card s l =
     (case ticket_re (hide_pipes (strip l)) of
        None \<Rightarrow> None
      | Some (box, tid, rest) \<Rightarrow>
          if embedded_re rest \<or> \<not> work_section s \<or> \<not> parts_ok (tl (ticket_parts rest)) then None
          else Some (tid, \<lparr>c_section = the s, c_box = box,
            c_fields = List.map_filter field_match (tl (ticket_parts rest)),
            c_description = hd (ticket_parts rest)\<rparr>))"

lemma map_filter_Cons:
  "List.map_filter f (x # xs) = (case f x of None \<Rightarrow> List.map_filter f xs | Some y \<Rightarrow> y # List.map_filter f xs)"
  by (auto simp: List.map_filter_def split: option.splits)

definition parts_fresh :: "(string, string) dict \<Rightarrow> string list \<Rightarrow> bool" where
  "parts_fresh fs ps \<longleftrightarrow> list_all (\<lambda>p. field_match p \<noteq> None) ps \<and>
     set (map fst (List.map_filter field_match ps)) \<subseteq> set KNOWN_FIELDS \<and>
     distinct (map fst (List.map_filter field_match ps)) \<and>
     list_all (\<lambda>p. dict_get fs (fst p) = None) (List.map_filter field_match ps)"

lemma parts_fresh_Cons:
  "parts_fresh fs (p # ps) \<longleftrightarrow>
     (\<exists>f v. field_match p = Some (f, v) \<and> f \<in> set KNOWN_FIELDS \<and> dict_get fs f = None \<and>
        parts_fresh (fs @ [(f, v)]) ps)"
proof (cases "field_match p")
  case (Some fv)
  then show ?thesis
    by (cases fv) (auto simp: parts_fresh_def map_filter_Cons list_all_iff map_add_def split: option.splits)
qed (simp add: parts_fresh_def)

lemma read_fields_exact:
  "read_fields n tid ps (needs, fs, errs) = (needs', fs', errs') \<Longrightarrow>
   (errs' = errs \<longleftrightarrow> parts_fresh fs ps) \<and>
   (parts_fresh fs ps \<longrightarrow> fs' = fs @ List.map_filter field_match ps)"
proof (induction ps arbitrary: needs fs errs)
  case Nil
  then show ?case by (simp add: parts_fresh_def)
next
  case (Cons p ps)
  show ?case
  proof (cases "\<exists>f v. field_match p = Some (f, v) \<and> f \<in> set KNOWN_FIELDS \<and> dict_get fs f = None")
    case True
    then obtain f v where m: "field_match p = Some (f, v)" "f \<in> set KNOWN_FIELDS" "dict_get fs f = None" by blast
    from Cons.prems m have r: "read_fields n tid ps
        (if f = ''needs'' then find_tickets v else needs, fs @ [(f, v)], errs) = (needs', fs', errs')"
      by (simp add: dict_set_fresh)
    from Cons.IH [OF r] m show ?thesis by (simp add: parts_fresh_Cons map_filter_Cons)
  next
    case False
    then have "\<exists>e. read_fields n tid ps (needs, fs, errs @ [e]) = (needs', fs', errs')"
      using Cons.prems by (auto split: option.splits if_splits)
    then obtain e es where "errs' = (errs @ [e]) @ es"
      using read_fields_errors [of n tid ps needs fs] by (metis snd_conv)
    with False show ?thesis by (auto simp: parts_fresh_Cons)
  qed
qed

lemma record_ticket_card: "map_option (\<lambda>t. (tk_id t, ticket_card t)) (record_ticket s n l) = record_card s l"
proof (cases "ticket_re (hide_pipes (strip l))")
  case None
  then show ?thesis by (simp add: record_ticket_def record_card_def)
next
  case (Some m)
  obtain box tid rest where m: "m = (box, tid, rest)" by (cases m)
  obtain needs fs errs where r: "read_fields n tid (tl (ticket_parts rest)) ([], [], []) = (needs, fs, errs)"
    by (metis surj_pair)
  have "parts_fresh [] ps = parts_ok ps" for ps by (simp add: parts_fresh_def parts_ok_def list_all_iff)
  with read_fields_exact [OF r] have "errs = [] \<longleftrightarrow> parts_ok (tl (ticket_parts rest))"
    "errs = [] \<longrightarrow> fs = List.map_filter field_match (tl (ticket_parts rest))" by auto
  with Some m r show ?thesis by (auto simp: record_ticket_def record_card_def ticket_card_def)
qed

section \<open>Boards without line numbers\<close>

definition section_after :: "string option \<Rightarrow> string list \<Rightarrow> string option" where
  "section_after s ls = foldl (\<lambda>s l. if is_heading_line l then Some (strip l) else s) s ls"

fun cards :: "string option \<Rightarrow> string list \<Rightarrow> (string \<times> card) list" where
  "cards s [] = []"
| "cards s (l # ls) =
     (if is_heading_line l then cards (Some (strip l)) ls
      else if is_record_line l then
        (case record_card s l of None \<Rightarrow> cards s ls | Some c \<Rightarrow> c # cards s ls)
      else cards s ls)"

fun lines_ok :: "string option \<Rightarrow> string list \<Rightarrow> bool" where
  "lines_ok s [] = True"
| "lines_ok s (l # ls) =
     (if is_heading_line l then lines_ok (Some (strip l)) ls
      else (if is_record_line l then record_card s l \<noteq> None else strip l = [] \<or> \<not> work_section s) \<and>
           lines_ok s ls)"

lemma section_after_append: "section_after s (A @ B) = section_after (section_after s A) B"
  by (simp add: section_after_def)

lemma cards_append: "cards s (A @ B) = cards s A @ cards (section_after s A) B"
  by (induction s A rule: cards.induct) (auto simp: section_after_def split: option.splits)

lemma lines_ok_append: "lines_ok s (A @ B) \<longleftrightarrow> lines_ok s A \<and> lines_ok (section_after s A) B"
  by (induction s A rule: lines_ok.induct) (auto simp: section_after_def)

lemma placed_lines: "list_all line_ok (placed s ls) = lines_ok s (map snd ls)"
proof (induction s ls rule: placed.induct)
  case (2 s n l ls)
  have "record_ticket s n l \<noteq> None \<longleftrightarrow> record_card s l \<noteq> None"
    unfolding record_ticket_card [of s n l, symmetric] by simp
  with 2 show ?case by (auto simp: line_ok_def blank_not_record heading_not_record)
qed simp

lemma placed_cards: "map (\<lambda>t. (tk_id t, ticket_card t)) (entries_of (placed s ls)) = cards s (map snd ls)"
proof (induction s ls rule: placed.induct)
  case (2 s n l ls)
  have "record_card s l = map_option (\<lambda>t. (tk_id t, ticket_card t)) (record_ticket s n l)"
    by (simp add: record_ticket_card)
  with 2 show ?case
    by (auto simp: line_ticket_def blank_not_record heading_not_record split: option.splits)
qed simp

lemma entries_keys:
  "map tk_id (entries_of (placed None (numbered ls))) = map fst (cards None ls)"
proof -
  have "map fst (map (\<lambda>t. (tk_id t, ticket_card t)) ts) = map tk_id ts" for ts by (induction ts) auto
  from this [of "entries_of (placed None (numbered ls))"] show ?thesis by (simp only: placed_cards map_snd_numbered)
qed

lemma board_ok_lines:
  "board_ok ls \<longleftrightarrow> lines_ok None ls \<and> distinct (map fst (cards None ls)) \<and>
     list_all (\<lambda>h. count_list (headings_of ls) h = 1) REQUIRED_HEADINGS"
  by (simp only: board_ok_def placed_lines entries_keys map_snd_numbered)

text \<open>The abstract board of a document.\<close>

definition board_view :: "string \<Rightarrow> string \<rightharpoonup> card" where
  "board_view doc = (\<lambda>tid. map_option ticket_card (dict_get (w_tickets (parse_board doc)) tid))"

lemma board_view_cards:
  "w_errors (parse_board doc) = [] \<Longrightarrow> board_view doc = map_of (cards None (splitlines doc))"
proof -
  let ?es = "entries_of (placed None (numbered (splitlines doc)))"
  assume "w_errors (parse_board doc) = []"
  from parse_board_tickets [OF this] have "w_tickets (parse_board doc) = map (\<lambda>t. (tk_id t, t)) ?es"
    by (simp add: board_tickets_def)
  moreover have "map_option ticket_card (map_of (map (\<lambda>t. (tk_id t, t)) es) tid) =
      map_of (map (\<lambda>t. (tk_id t, ticket_card t)) es) tid" for es tid
    by (induction es) auto
  ultimately show ?thesis
    using placed_cards [of None "numbered (splitlines doc)"] by (auto simp: board_view_def)
qed

section \<open>Tidy records\<close>

text \<open>
  A record as the writers leave it: single separators, trimmed parts, a description.  The parser and
  the field editor split such a record at the same places.
\<close>

definition tidy :: "string \<Rightarrow> bool" where
  "tidy l \<longleftrightarrow> well_piped l \<and> list_all trimmed (fields_split l) \<and>
     (case ticket_re (hd (fields_split l)) of None \<Rightarrow> False | Some (_, _, desc) \<Rightarrow> trimmed desc)"

lemma span_grow: "span P s = (a, b) \<Longrightarrow> b \<noteq> [] \<Longrightarrow> span P (s @ r) = (a, b @ r)"
  by (auto simp: span_def takeWhile_append dropWhile_append takeWhile_eq_all_conv dropWhile_eq_Nil_conv)

lemma startswith_grow: "startswith s p \<Longrightarrow> startswith (s @ r) p"
  by (induction s p rule: startswith.induct) auto

lemma startswith_length: "startswith s p \<Longrightarrow> length p \<le> length s"
  by (simp add: startswith_iff_prefix prefix_length_le)

lemma ticket_ref_grow: "ticket_ref s = Some (t, rest) \<Longrightarrow> rest \<noteq> [] \<Longrightarrow> ticket_ref (s @ r) = Some (t, rest @ r)"
proof -
  assume p: "ticket_ref s = Some (t, rest)" and ne: "rest \<noteq> []"
  from p have st: "startswith s ''T-''" by (simp add: ticket_ref_def split: if_splits)
  from startswith_length [OF st] have d: "drop 2 (s @ r) = drop 2 s @ r" by simp
  obtain ds q where q: "span is_digit (drop 2 s) = (ds, q)" by force
  with p st have "ds \<noteq> []" "t = ''T-'' @ ds" "rest = q" by (auto simp: ticket_ref_def split: if_splits)
  with span_grow [OF q, of r] ne d startswith_grow [OF st, of r] show ?thesis
    by (simp add: ticket_ref_def)
qed

lemma ticket_re_grow:
  assumes p: "ticket_re s = Some (box, tid, desc)" and ne: "desc \<noteq> []"
  shows "ticket_re (s @ r) = Some (box, tid, desc @ r)"
proof -
  from p obtain rest where s: "startswith s ''- [''" "6 \<le> length s" "s ! 3 \<in> set '' x/''" "s ! 4 = CHR '']''"
      "s ! 5 = CHR '' ''" "box = s ! 3" and t: "ticket_ref (drop 6 s) = Some (tid, rest)"
    and b: "span is_space rest = (takeWhile is_space rest, desc)" "takeWhile is_space rest \<noteq> []"
    by (auto simp: ticket_re_def span_def split: if_splits option.splits)
  then have "rest \<noteq> []" by auto
  from ticket_ref_grow [OF t this, of r] span_grow [OF b(1) ne, of r] s b(2) startswith_grow [OF s(1), of r]
  show ?thesis by (simp add: ticket_re_def nth_append)
qed

lemma ticket_re_desc:
  assumes "ticket_re s = Some (box, tid, desc)"
  shows "set desc \<subseteq> set s"
proof -
  from assms obtain rest where r: "ticket_ref (drop 6 s) = Some (tid, rest)" "desc = dropWhile is_space rest"
    by (auto simp: ticket_re_def span_def split: if_splits option.splits)
  from ticket_ref_name [OF r(1)] have "drop 6 s = tid @ rest" by simp
  then have "set rest \<subseteq> set s" by (metis set_append set_drop_subset sup.bounded_iff)
  moreover have "set desc \<subseteq> set rest" unfolding r(2) by (auto dest: set_dropWhileD)
  ultimately show ?thesis by simp
qed

lemma ticket_re_start: "ticket_re s = Some (box, tid, desc) \<Longrightarrow> startswith s ''- [''"
  by (simp add: ticket_re_def split: if_splits)

lemma hidden_record: "hide_pipes l = join '' | '' (fields_split l)"
  by (simp add: fields_split_def join_split_str)

lemma tidy_trimmed: "tidy l \<Longrightarrow> trimmed l"
proof -
  assume "tidy l"
  then have "trimmed (join '' | '' (fields_split l))"
    by (intro trimmed_join) (auto simp: tidy_def fields_split_def)
  then show ?thesis by (simp add: trimmed_hide flip: hidden_record)
qed

lemma map_strip_trimmed: "list_all trimmed ps \<Longrightarrow> map (\<lambda>p. g (strip p)) ps = map g ps"
  by (auto simp: list_all_iff trimmed_strip)

lemma tidy_parts:
  assumes t: "tidy l" and f: "fields_split l = p0 # ps" and r: "ticket_re p0 = Some (box, tid, desc)"
  shows "ticket_re (hide_pipes (strip l)) = Some (box, tid, join '' | '' (desc # ps))"
    and "ticket_parts (join '' | '' (desc # ps)) = map unescape_ticket_part (desc # ps)"
proof -
  from t f r have d: "trimmed desc" and ps: "list_all trimmed ps" "list_all pipe_free ps" "pipe_free p0"
    by (auto simp: tidy_def well_piped_def)
  have ne: "desc \<noteq> []" using d by (simp add: trimmed_def)
  have h: "hide_pipes (strip l) = join '' | '' (p0 # ps)"
    using hidden_record [of l] f by (simp add: trimmed_strip [OF tidy_trimmed [OF t]])
  show "ticket_re (hide_pipes (strip l)) = Some (box, tid, join '' | '' (desc # ps))"
    unfolding h using r ticket_re_grow [OF r ne] by (cases ps) simp_all
  have "pipe_free desc" using ticket_re_desc [OF r] ps(3) by (auto simp: pipe_free_def)
  with ps(2) have "split_str '' | '' (join '' | '' (desc # ps)) = desc # ps" by (intro split_join) simp_all
  with d ps(1) show "ticket_parts (join '' | '' (desc # ps)) = map unescape_ticket_part (desc # ps)"
    by (simp add: ticket_parts_def map_strip_trimmed trimmed_strip)
qed

lemma tidy_record_card:
  assumes "tidy l" and "fields_split l = p0 # ps" and "ticket_re p0 = Some (box, tid, desc)"
  shows "record_card s l =
    (if embedded_re (join '' | '' (desc # ps)) \<or> \<not> work_section s \<or> \<not> parts_ok (map unescape_ticket_part ps)
     then None
     else Some (tid, \<lparr>c_section = the s, c_box = box,
       c_fields = List.map_filter field_match (map unescape_ticket_part ps),
       c_description = unescape_ticket_part desc\<rparr>))"
  by (simp only: record_card_def tidy_parts [OF assms] option.case prod.case list.map list.sel)

lemma tidy_is_record: "tidy l \<Longrightarrow> is_record_line l"
proof -
  assume t: "tidy l"
  then obtain p0 ps where f: "fields_split l = p0 # ps" by (cases "fields_split l") (auto simp: fields_split_def)
  with t obtain box tid desc where r: "ticket_re p0 = Some (box, tid, desc)"
    by (auto simp: tidy_def split: option.splits)
  from tidy_parts(1) [OF t f r] have "startswith (hide_pipes l) ''- [''"
    using ticket_re_start by (simp add: trimmed_strip [OF tidy_trimmed [OF t]])
  then have "startswith l ''- [''"
    by (cases l; cases "tl l"; cases "tl (tl l)")
       (auto simp: hide_pipes_Cons PIPE_SENTINEL_def split: if_splits)
  then show ?thesis by (simp add: is_record_line_def trimmed_lstrip [OF tidy_trimmed [OF t]])
qed

section \<open>Edited parts\<close>

definition field_name :: "string \<Rightarrow> bool" where
  "field_name f \<longleftrightarrow> f \<noteq> [] \<and> list_all field_char f"

lemma unescape_Nil [simp]: "unescape_ticket_part [] = []"
  by (simp add: unescape_ticket_part_def)

lemma field_char_plain: "field_char c \<Longrightarrow> c \<noteq> CHR 92 \<and> c \<noteq> CHR 124 \<and> c \<noteq> PIPE_SENTINEL \<and> c \<noteq> CHR '':'' \<and> c \<noteq> CHR ''['' \<and> c \<noteq> CHR 45 \<and> \<not> is_space c"
  by (auto simp: field_char_def is_lower_def is_space_def PIPE_SENTINEL_def Let_def)

lemma marks_not_field [simp]: "\<not> field_char CHR '':''" "\<not> field_char CHR 45"
  by (simp_all add: field_char_def is_lower_def Let_def)

lemma unescape_plain: "c \<noteq> CHR 92 \<Longrightarrow> c \<noteq> PIPE_SENTINEL \<Longrightarrow> unescape_ticket_part (c # s) = c # unescape_ticket_part s"
  by (cases s) (auto simp: unescape_ticket_part_def)

lemma unescape_field: "list_all field_char f \<Longrightarrow> unescape_ticket_part (f @ s) = f @ unescape_ticket_part s"
  by (induction f) (auto simp: unescape_plain field_char_plain)

lemma unescape_hd:
  "\<not> (s \<noteq> [] \<and> field_char (hd s)) \<Longrightarrow>
   \<not> (unescape_ticket_part s \<noteq> [] \<and> field_char (hd (unescape_ticket_part s)))"
proof (cases s)
  case (Cons c t)
  assume "\<not> (s \<noteq> [] \<and> field_char (hd s))"
  with Cons have c: "\<not> field_char c" by simp
  show ?thesis
  proof (cases "c = CHR 92 \<or> c = PIPE_SENTINEL")
    case True
    then show ?thesis
      by (cases t) (auto simp: Cons unescape_ticket_part_def PIPE_SENTINEL_def field_char_def is_lower_def Let_def)
  qed (use c Cons in \<open>auto simp: unescape_plain\<close>)
qed simp

lemma unescape_colon: "startswith (unescape_ticket_part s) '':'' \<longleftrightarrow> startswith s '':''"
proof (cases s)
  case (Cons c t)
  show ?thesis
  proof (cases "c = CHR 92 \<or> c = PIPE_SENTINEL")
    case True
    then show ?thesis by (cases t) (auto simp: Cons unescape_ticket_part_def PIPE_SENTINEL_def)
  qed (auto simp: Cons unescape_plain)
qed simp

text \<open>The name the parser reads in a part is the one the editor looks for.\<close>

lemma field_match_raw:
  assumes "field_match (unescape_ticket_part p) = Some (g, v)"
  obtains b where "p = g @ b" "list_all field_char g" "g \<noteq> []" "startswith b '':''" "field_match p = Some (g, lstrip (tl b))"
proof -
  let ?a = "takeWhile field_char p" and ?b = "dropWhile field_char p"
  have a: "list_all field_char ?a" by (auto simp: list_all_iff dest: set_takeWhileD)
  have b: "\<not> (?b \<noteq> [] \<and> field_char (hd ?b))" using hd_dropWhile by blast
  have u: "unescape_ticket_part p = ?a @ unescape_ticket_part ?b"
    using unescape_field [OF a, of ?b] by simp
  have "span field_char (unescape_ticket_part p) = (?a, unescape_ticket_part ?b)"
    unfolding u using unescape_hd [OF b] a by (intro span_append) auto
  with assms have g: "g = ?a" "g \<noteq> []" "startswith ?b '':''" by (auto simp: field_match_def unescape_colon split: if_splits)
  then have "field_match p = Some (g, lstrip (tl ?b))" by (simp add: field_match_def span_def)
  with that [of ?b] g a show thesis by simp
qed

lemma field_match_name:
  assumes m: "field_match (unescape_ticket_part p) = Some (g, v)" and f: "field_name f"
  shows "startswith p (f @ '':'') \<longleftrightarrow> g = f"
proof -
  obtain b where b: "p = g @ b" "list_all field_char g" "startswith b '':''" by (rule field_match_raw [OF m])
  have "startswith (a @ b) (f @ '':'') \<longleftrightarrow> a = f" if "list_all field_char f" "list_all field_char a" for a f
    using that
  proof (induction a arbitrary: f)
    case Nil
    show ?case using b(3) Nil by (cases f; cases b) (auto simp: field_char_plain)
  next
    case (Cons x a)
    then show ?case by (cases f) (auto simp: field_char_plain)
  qed
  with f b show ?thesis by (auto simp: field_name_def)
qed

text \<open>A value that can be written: trimmed, on one line, without the sentinel, opening no second record.\<close>

definition writable :: "string \<Rightarrow> bool" where
  "writable u \<longleftrightarrow> trimmed u \<and> plain_line u \<and> PIPE_SENTINEL \<notin> set u \<and> \<not> embedded_re (hide_pipes (escape_text u))"

lemma field_value:
  assumes f: "field_name f" and u: "writable u"
  shows "field_match (unescape_ticket_part (f @ '': '' @ hide_pipes (escape_text u))) = Some (f, u)"
proof -
  let ?h = "hide_pipes (escape_text u)"
  have "unescape_ticket_part (f @ '': '' @ ?h) = f @ '': '' @ u"
    using f u by (simp add: unescape_field field_name_def unescape_plain PIPE_SENTINEL_def escape_roundtrip writable_def)
  moreover have "span field_char (f @ '': '' @ u) = (f, '': '' @ u)"
    using f by (intro span_append) (auto simp: field_name_def field_char_plain)
  moreover have "lstrip ('' '' @ u) = u"
    using u trimmed_lstrip [of u] by (simp add: writable_def lstrip_def is_space_def Let_def)
  ultimately show ?thesis using f by (simp add: field_match_def field_name_def)
qed

lemma edited_set:
  assumes f: "field_name f" and u: "writable u"
    and ps: "list_all (\<lambda>p. field_match (unescape_ticket_part p) \<noteq> None) ps"
  shows "List.map_filter field_match (map unescape_ticket_part (set_part f (hide_pipes (escape_text u)) ps)) =
      dict_set f u (List.map_filter field_match (map unescape_ticket_part ps))"
    and "list_all (\<lambda>p. field_match (unescape_ticket_part p) \<noteq> None) (set_part f (hide_pipes (escape_text u)) ps)"
proof -
  note fv = field_value [OF f u, simplified]
  show "List.map_filter field_match (map unescape_ticket_part (set_part f (hide_pipes (escape_text u)) ps)) =
      dict_set f u (List.map_filter field_match (map unescape_ticket_part ps))" using ps
  proof (induction ps)
    case (Cons p ps)
    then obtain g v where "field_match (unescape_ticket_part p) = Some (g, v)" by auto
    with Cons field_match_name [OF this f] show ?case by (auto simp: map_filter_Cons fv)
  qed (simp add: map_filter_Cons fv)
  show "list_all (\<lambda>p. field_match (unescape_ticket_part p) \<noteq> None) (set_part f (hide_pipes (escape_text u)) ps)"
    using ps by (induction ps) (auto simp: fv)
qed

lemma edited_drop:
  assumes f: "field_name f" and ps: "list_all (\<lambda>p. field_match (unescape_ticket_part p) \<noteq> None) ps"
  shows "List.map_filter field_match (map unescape_ticket_part (filter (\<lambda>p. \<not> startswith p (f @ '':'')) ps)) =
      dict_pop f (List.map_filter field_match (map unescape_ticket_part ps))"
  using ps
proof (induction ps)
  case (Cons p ps)
  then obtain g v where "field_match (unescape_ticket_part p) = Some (g, v)" by auto
  with Cons field_match_name [OF this f] show ?case by (auto simp: map_filter_Cons dict_pop_def)
qed (simp add: dict_pop_def)

section \<open>Embedded openers\<close>

lemma ticket_ref_shape:
  "ticket_ref s \<noteq> None \<longleftrightarrow> 3 \<le> length s \<and> s ! 0 = CHR ''T'' \<and> s ! 1 = CHR 45 \<and> is_digit (s ! 2)"
proof (cases "\<exists>a b c r. s = a # b # c # r")
  case True
  then show ?thesis by (auto simp: ticket_ref_def span_def split: if_splits)
next
  case False
  then have "length s < 3" by (cases s; cases "tl s"; cases "tl (tl s)") auto
  moreover from this False have "ticket_ref s = None"
    by (cases s; cases "tl s") (auto simp: ticket_ref_def span_def)
  ultimately show ?thesis by simp
qed

lemma ticket_ref_sep: "ticket_ref (t @ '' | '' @ r) \<noteq> None \<longleftrightarrow> ticket_ref t \<noteq> None"
  unfolding ticket_ref_shape
  by (cases t; cases "tl t"; cases "tl (tl t)") (auto simp: is_digit_def Let_def)

lemma embedded_at_sep: "embedded_at (q @ '' | '' @ r) \<longleftrightarrow> embedded_at q"
proof (cases "3 \<le> length q")
  case True
  obtain a b where ab: "span is_space (drop 3 q) = (a, b)" by force
  show ?thesis
  proof (cases "b = []")
    case True
    with ab have sp: "list_all is_space (drop 3 q)" "a = drop 3 q"
      using span_inverse [OF ab] span_class [OF ab] by simp_all
    have "span is_space (drop 3 q @ '' | '' @ r) = (drop 3 q @ '' '', ''| '' @ r)"
      using sp(1) span_append [of is_space "drop 3 q @ '' ''" "''| '' @ r"] by (simp add: is_space_def Let_def)
    with \<open>3 \<le> length q\<close> True ab show ?thesis
      by (auto simp: embedded_at_def nth_append ticket_ref_def)
  next
    case False
    moreover have "q \<noteq> []" using \<open>3 \<le> length q\<close> by auto
    ultimately have
      "embedded_at (q @ '' | '' @ r) \<longleftrightarrow> 4 \<le> length q + 3 + length r \<and> q ! 0 = CHR ''['' \<and> q ! 1 \<in> set '' x/'' \<and>
         q ! 2 = CHR '']'' \<and> a \<noteq> [] \<and> ticket_ref (b @ '' | '' @ r) \<noteq> None"
      using span_grow [OF ab, of "'' | '' @ r"] ab \<open>3 \<le> length q\<close> by (simp add: embedded_at_def nth_append)
    moreover have "embedded_at q \<longleftrightarrow> 4 \<le> length q \<and> q ! 0 = CHR ''['' \<and> q ! 1 \<in> set '' x/'' \<and>
         q ! 2 = CHR '']'' \<and> a \<noteq> [] \<and> ticket_ref b \<noteq> None"
      using ab by (simp add: embedded_at_def)
    moreover have "4 \<le> length q" if "a \<noteq> []"
    proof -
      have "drop 3 q \<noteq> []" using span_inverse [OF ab] that by auto
      then show ?thesis by simp
    qed
    ultimately show ?thesis by (auto simp only: ticket_ref_sep)
  qed
next
  case False
  then show ?thesis
    by (cases q; cases "tl q"; cases "tl (tl q)") (auto simp: embedded_at_def)
qed

lemma embedded_sep: "embedded_re (p @ '' | '' @ r) \<longleftrightarrow> embedded_re p \<or> embedded_re r"
proof (induction p)
  case (Cons c p)
  then show ?case using embedded_at_sep [of "c # p" r] by simp
qed (simp add: embedded_at_def)

lemma embedded_join: "embedded_re (join '' | '' ps) \<longleftrightarrow> list_ex embedded_re ps"
  by (induction "'' | ''" ps rule: join.induct) (simp_all only: join.simps embedded_sep list_ex_Cons_iff list_ex_Nil_iff embedded_re.simps simp_thms)

lemma embedded_field: "list_all field_char f \<Longrightarrow> embedded_re (f @ '': '' @ v) \<longleftrightarrow> embedded_re v"
  by (induction f) (auto simp: embedded_at_def field_char_plain)

lemma embedded_set_part:
  assumes f: "field_name f" and v: "\<not> embedded_re v"
  shows "\<not> list_ex embedded_re ps \<Longrightarrow> \<not> list_ex embedded_re (set_part f v ps)"
  using embedded_field [of f v] f v by (induction ps) (auto simp: field_name_def)

section \<open>Edited records\<close>

text \<open>A tidy line that reads as one record.\<close>

definition reads :: "string \<Rightarrow> string \<Rightarrow> char \<Rightarrow> string \<Rightarrow> (string, string) dict \<Rightarrow> bool" where
  "reads l tid box description fs \<longleftrightarrow> tidy l \<and> plain_line l \<and>
     (\<exists>p0 ps d. fields_split l = p0 # ps \<and> ticket_re p0 = Some (box, tid, d) \<and>
        \<not> list_ex embedded_re (d # ps) \<and> parts_ok (map unescape_ticket_part ps) \<and>
        fs = List.map_filter field_match (map unescape_ticket_part ps) \<and> description = unescape_ticket_part d)"

lemma reads_card:
  assumes "reads l tid box description fs" and "work_section s"
  shows "record_card s l = Some (tid, \<lparr>c_section = the s, c_box = box, c_fields = fs, c_description = description\<rparr>)"
    and "is_record_line l" and "\<not> is_heading_line l"
proof -
  from assms obtain p0 ps d where r: "tidy l" "fields_split l = p0 # ps" "ticket_re p0 = Some (box, tid, d)"
    "\<not> list_ex embedded_re (d # ps)" "parts_ok (map unescape_ticket_part ps)"
    "fs = List.map_filter field_match (map unescape_ticket_part ps)" "description = unescape_ticket_part d"
    by (auto simp: reads_def)
  from tidy_record_card [OF r(1-3)] r(4-7) assms(2)
  show "record_card s l = Some (tid, \<lparr>c_section = the s, c_box = box, c_fields = fs, c_description = description\<rparr>)"
    by (simp only: embedded_join) simp
  from tidy_is_record [OF r(1)] show "is_record_line l" "\<not> is_heading_line l"
    by (auto dest: heading_not_record)
qed

lemma card_reads:
  assumes t: "tidy l" and p: "plain_line l" and c: "record_card s l = Some (tid, c)"
  shows "reads l tid (c_box c) (c_description c) (c_fields c)" "work_section s" "c_section c = the s"
proof -
  obtain p0 ps where f: "fields_split l = p0 # ps" by (cases "fields_split l") (auto simp: fields_split_def)
  with t obtain box tid' d where r: "ticket_re p0 = Some (box, tid', d)" by (auto simp: tidy_def split: option.splits)
  from c tidy_record_card [OF t f r, of s] have e: "\<not> list_ex embedded_re (d # ps)" "work_section s"
    "parts_ok (map unescape_ticket_part ps)" "tid' = tid"
    "c = \<lparr>c_section = the s, c_box = box, c_fields = List.map_filter field_match (map unescape_ticket_part ps),
       c_description = unescape_ticket_part d\<rparr>"
    by (simp_all only: embedded_join split: if_splits) simp_all
  with t p f r show "reads l tid (c_box c) (c_description c) (c_fields c)" by (auto simp: reads_def)
  from e show "work_section s" "c_section c = the s" by simp_all
qed

text \<open>The changes of a card and the edits that write them.\<close>

datatype change = Assign string string | Clear string

fun edit_of :: "change \<Rightarrow> edit" where
  "edit_of (Assign f u) = Set_Field f (escape_text u)"
| "edit_of (Clear f) = Drop_Field f"

fun change_fields :: "change \<Rightarrow> (string, string) dict \<Rightarrow> (string, string) dict" where
  "change_fields (Assign f u) fs = dict_set f u fs"
| "change_fields (Clear f) fs = dict_pop f fs"

fun change_ok :: "change \<Rightarrow> bool" where
  "change_ok (Assign f u) = (f \<in> set KNOWN_FIELDS \<and> writable u)"
| "change_ok (Clear f) = (f \<in> set KNOWN_FIELDS)"

lemma known_names: "list_all field_name KNOWN_FIELDS"
  by code_simp

lemma known_name: "f \<in> set KNOWN_FIELDS \<Longrightarrow> field_name f"
  using known_names by (simp add: list_all_iff)

lemma field_pipe_free: "field_name f \<Longrightarrow> pipe_free f"
  by (auto simp: field_name_def pipe_free_def list_all_iff dest: field_char_plain)

lemma record_not_field: "startswith p ''- ['' \<Longrightarrow> field_name f \<Longrightarrow> \<not> startswith p (f @ '':'')"
  by (cases f; cases p) (auto simp: field_name_def)

lemma keys_dict_set:
  "map fst (dict_set k v d) = (if k \<in> fst ` set d then map fst d else map fst d @ [k])"
proof (induction d)
  case (Cons e d)
  then show ?case by (cases e) (auto simp: rev_image_eqI)
qed simp

lemma key_set_dict_set: "fst ` set (dict_set k v d) = insert k (fst ` set d)"
  using arg_cong [OF keys_dict_set [of k v d], of set] by (auto split: if_splits)

lemma parts_ok_map: "parts_ok (map unescape_ticket_part ps) \<longleftrightarrow>
  list_all (\<lambda>p. field_match (unescape_ticket_part p) \<noteq> None) ps \<and>
  fst ` set (List.map_filter field_match (map unescape_ticket_part ps)) \<subseteq> set KNOWN_FIELDS \<and>
  distinct (map fst (List.map_filter field_match (map unescape_ticket_part ps)))"
  by (simp add: parts_ok_def list_all_iff)

lemma parts_ok_matches: "parts_ok (map unescape_ticket_part ps) \<Longrightarrow>
  list_all (\<lambda>p. field_match (unescape_ticket_part p) \<noteq> None) ps"
  by (simp add: parts_ok_def list_all_iff)

lemma writable_trimmed: "writable u \<Longrightarrow> trimmed (hide_pipes (escape_text u))"
proof -
  assume u: "writable u"
  have "escape_text u \<noteq> [] \<and> is_space (hd (escape_text u)) = is_space (hd u) \<and>
      is_space (last (escape_text u)) = is_space (last u)"
    if "u \<noteq> []" for u
    using that by (induction u) (auto simp: escape_text_chars escape_char_def)
  with u have "trimmed (escape_text u)" by (auto simp: writable_def trimmed_def)
  then show ?thesis by (simp add: trimmed_hide)
qed

lemma reads_assign:
  assumes r: "reads l tid box description fs" and f: "f \<in> set KNOWN_FIELDS" and u: "writable u"
    and ok: "set_ticket_field l f (escape_text u) cap = Inr new"
  shows "reads new tid box description (dict_set f u fs)"
proof -
  let ?h = "hide_pipes (escape_text u)"
  from r obtain p0 ps d where l: "tidy l" "fields_split l = p0 # ps" "ticket_re p0 = Some (box, tid, d)"
    "\<not> list_ex embedded_re (d # ps)" "parts_ok (map unescape_ticket_part ps)"
    "fs = List.map_filter field_match (map unescape_ticket_part ps)" "description = unescape_ticket_part d"
    by (auto simp: reads_def)
  note n = known_name [OF f]
  have w: "well_piped l" using l(1) by (simp add: tidy_def)
  note parts = set_ticket_field_parts [OF ok w field_pipe_free [OF n]]
  have h: "pipe_free ?h" using hidden_no_pipe by (simp add: pipe_free_def)
  have "\<not> startswith p0 (f @ '':'')" using record_not_field [OF ticket_re_start [OF l(3)] n] .
  with parts(1) [OF h] l(2) have new: "fields_split new = p0 # set_part f ?h ps" by simp
  have tr: "trimmed (f @ '': '' @ ?h)"
    using writable_trimmed [OF u] n by (cases f) (auto simp: trimmed_def field_name_def field_char_plain)
  have "list_all trimmed qs \<Longrightarrow> list_all trimmed (set_part f ?h qs)" for qs using tr by (induction qs) auto
  moreover have "list_all trimmed ps" using l(1,2) by (simp add: tidy_def)
  ultimately have "list_all trimmed (set_part f ?h ps)" by simp
  with l(1-3) new parts(2) [OF h] have "tidy new" by (simp add: tidy_def)
  moreover note es = edited_set [OF n u parts_ok_matches [OF l(5)]]
  have "parts_ok (map unescape_ticket_part (set_part f ?h ps))"
    using l(5) es f by (simp add: parts_ok_map key_set_dict_set) (simp add: keys_dict_set)
  moreover have "\<not> list_ex embedded_re (d # set_part f ?h ps)"
    using l(4) embedded_set_part [OF n, of ?h ps] u by (simp add: writable_def)
  ultimately show ?thesis
    using new l(3,6,7) es(1) parts(3) [OF h] by (auto simp: reads_def)
qed

lemma reads_clear:
  assumes r: "reads l tid box description fs" and f: "f \<in> set KNOWN_FIELDS"
    and ok: "remove_ticket_field l f = Inr new"
  shows "reads new tid box description (dict_pop f fs)"
proof -
  let ?keep = "filter (\<lambda>p. \<not> startswith p (f @ '':''))"
  from r obtain p0 ps d where l: "tidy l" "fields_split l = p0 # ps" "ticket_re p0 = Some (box, tid, d)"
    "\<not> list_ex embedded_re (d # ps)" "parts_ok (map unescape_ticket_part ps)"
    "fs = List.map_filter field_match (map unescape_ticket_part ps)" "description = unescape_ticket_part d"
    by (auto simp: reads_def)
  note n = known_name [OF f]
  have h: "\<not> startswith p0 (f @ '':'')" using record_not_field [OF ticket_re_start [OF l(3)] n] .
  have w: "well_piped l" using l(1) by (simp add: tidy_def)
  from remove_ticket_field_parts [OF ok w] h l(2)
  have new: "fields_split new = p0 # ?keep ps" "well_piped new" by simp_all
  with l(1-3) have "tidy new" by (auto simp: tidy_def list_all_iff)
  moreover note es = edited_drop [OF n parts_ok_matches [OF l(5)]]
  have "parts_ok (map unescape_ticket_part (?keep ps))"
    using l(5) unfolding parts_ok_map es
    by (auto simp: list_all_iff dict_pop_def intro: distinct_map_filter)
  moreover have "\<not> list_ex embedded_re (d # ?keep ps)" using l(4) by (auto simp: list_ex_iff)
  moreover have "plain_line new" using remove_plain [OF ok] r by (simp add: reads_def)
  ultimately show ?thesis using new l(3,6,7) es by (auto simp: reads_def)
qed

lemma reads_edits:
  "reads l tid box description fs \<Longrightarrow> list_all change_ok cs \<Longrightarrow> apply_edits cap (map edit_of cs) l = Inr new \<Longrightarrow>
   reads new tid box description (foldl (\<lambda>fs c. change_fields c fs) fs cs)"
proof (induction cs arbitrary: l fs)
  case (Cons c cs)
  from Cons.prems(3) obtain l1 where l1: "apply_edit cap (edit_of c) l = Inr l1"
    "apply_edits cap (map edit_of cs) l1 = Inr new"
    by (auto split: sum.splits)
  have "reads l1 tid box description (change_fields c fs)"
    using Cons.prems(1,2) l1(1)
    by (cases c) (auto simp: apply_edit_def intro: reads_assign reads_clear)
  from Cons.IH [OF this _ l1(2)] Cons.prems(2) show ?case by simp
qed simp

section \<open>When an edit is refused\<close>

lemma plain_escape: "plain_line (escape_text u) \<longleftrightarrow> plain_line u"
  by (induction u) (auto simp: escape_text_chars escape_char_def)

lemma no_duplicates:
  "list_all (\<lambda>p. field_match (unescape_ticket_part p) \<noteq> None) ps \<Longrightarrow>
   distinct (map fst (List.map_filter field_match (map unescape_ticket_part ps))) \<Longrightarrow>
   fst ` set (List.map_filter field_match (map unescape_ticket_part ps)) \<inter> set seen = {} \<Longrightarrow>
   reject_duplicates seen ps = None"
proof (induction ps arbitrary: seen)
  case (Cons p ps)
  then obtain g v where m: "field_match (unescape_ticket_part p) = Some (g, v)" by auto
  then obtain b where b: "p = g @ b" "list_all field_char g" "g \<noteq> []" "field_match p = Some (g, lstrip (tl b))"
    by (rule field_match_raw)
  then have "\<not> startswith p ''- ''" by (cases g) (auto simp: field_char_plain)
  with Cons m b(4) show ?case by (auto simp: map_filter_Cons)
qed simp

lemma reads_no_duplicates: "reads l tid box description fs \<Longrightarrow> reject_duplicate_fields l = None"
proof -
  assume "reads l tid box description fs"
  then obtain p0 ps d where r: "fields_split l = p0 # ps" "ticket_re p0 = Some (box, tid, d)"
    "parts_ok (map unescape_ticket_part ps)" by (auto simp: reads_def)
  have "startswith p0 ''- ''" using ticket_re_start [OF r(2)] by (auto simp: startswith_iff_prefix prefix_def)
  with no_duplicates [of ps "[]"] r show ?thesis by (simp add: reject_duplicate_fields_def parts_ok_map)
qed

text \<open>A record that reads and a value that can be written: only the size can be wrong.\<close>

lemma reads_edit_refused:
  assumes r: "reads l tid box description fs" and c: "change_ok c" and e: "apply_edit cap (edit_of c) l = Inl err"
  shows "cap \<and> (\<exists>n > MAX_LIVE_RECORD_CHARS. err = Oversize n)"
proof (cases c)
  case (Assign f u)
  from c Assign have u: "plain_line (escape_text u)" and n: "field_name f"
    by (auto simp: writable_def plain_escape known_name)
  have "list_all plain_line (fields_split l)" using r by (auto simp: reads_def intro: plain_parts)
  moreover have "plain_line (f @ '': '' @ escape_text u)"
  proof -
    have "plain_line f" using n by (auto simp: field_name_def plain_line_def list_all_iff dest!: bspec field_char_plain line_end_space)
    with u show ?thesis by (simp add: is_line_end_def Let_def)
  qed
  ultimately have "list_all plain_line (set_part f (escape_text u) ps)" if "list_all plain_line ps" for ps
    using that by (induction ps) auto
  then have "plain_line (fields_join (set_part f (escape_text u) (fields_split l)))"
    using plain_parts [of l] r by (simp add: fields_join_def plain_reveal plain_join reads_def)
  with u e Assign reads_no_duplicates [OF r] show ?thesis
    by (auto simp: apply_edit_def set_ticket_field_def assert_live_record_def assert_single_record_def Let_def
        record_separator_in_plain [THEN iffD2] split: if_splits)
next
  case (Clear f)
  with e reads_no_duplicates [OF r] show ?thesis by (simp add: apply_edit_def remove_ticket_field_def)
qed

lemma reads_edits_refused:
  "reads l tid box description fs \<Longrightarrow> list_all change_ok cs \<Longrightarrow> apply_edits cap (map edit_of cs) l = Inl err \<Longrightarrow>
   cap \<and> (\<exists>n > MAX_LIVE_RECORD_CHARS. err = Oversize n)"
proof (induction cs arbitrary: l fs)
  case (Cons c cs)
  show ?case
  proof (cases "apply_edit cap (edit_of c) l")
    case (Inl e)
    with Cons.prems reads_edit_refused [of l tid box description fs c cap] show ?thesis by simp
  next
    case (Inr l1)
    have "reads l1 tid box description (change_fields c fs)"
      using Cons.prems(1,2) Inr by (cases c) (auto simp: apply_edit_def intro: reads_assign reads_clear)
    from Cons.IH [OF this] Cons.prems Inr show ?thesis by simp
  qed
qed simp

end
