(* ===== verification/BoardRefinement.thy ===== *)
theory BoardRefinement
  imports BoardEditLaws
begin

text \<open>
  The BOARD writers refine updates of the abstract board \<open>board_view\<close>: an edit in place, a move, a
  claim and a removal change one identity only and leave a board the parser accepts; an inserted
  record takes an identity no record and no event of the history ever had.  The documents are
  canonical (every line closed by a line feed) and their headings exact.
\<close>

section \<open>Where a record stands\<close>

lemma placed_at:
  "(s', n, l) \<in> set (placed s nls) \<Longrightarrow>
   \<exists>A B. nls = A @ (n, l) # B \<and> s' = section_after s (map snd A) \<and> \<not> is_heading_line l"
proof (induction s nls rule: placed.induct)
  case (2 s m k ls)
  show ?case
  proof (cases "(s', n, l) = (s, m, k) \<and> \<not> is_heading_line k")
    case True
    then show ?thesis by (intro exI [of _ "[]"] exI [of _ ls]) (auto simp: section_after_def)
  next
    case False
    let ?s = "if is_heading_line k then Some (strip k) else s"
    have "(s', n, l) \<in> set (placed ?s ls)" using 2 False by (auto split: if_splits)
    then obtain A B where "ls = A @ (n, l) # B" "s' = section_after ?s (map snd A)" "\<not> is_heading_line l"
      using 2 by (auto split: if_splits)
    then show ?thesis
      by (intro exI [of _ "(m, k) # A"] exI [of _ B]) (auto simp: section_after_def)
  qed
qed simp

lemma numbered_split: "numbered ls = A @ (n, l) # B \<Longrightarrow> n = Suc (length A)"
proof -
  assume e: "numbered ls = A @ (n, l) # B"
  then have "numbered ls ! length A = (n, l)" by simp
  moreover have "length A < length ls" using arg_cong [OF e, of length] by (simp add: numbered_def del: upt_Suc)
  ultimately show ?thesis by (simp add: numbered_def nth_zip del: upt_Suc)
qed

text \<open>The line of a ticket, with what stands before and after it.\<close>

lemma ticket_line:
  assumes clean: "w_errors (parse_board doc) = []" and t: "dict_get (w_tickets (parse_board doc)) tid = Some t"
  obtains A B where "splitlines doc = A @ tk_raw t # B" "tk_line_no t = Suc (length A)"
    "record_card (section_after None A) (tk_raw t) = Some (tid, ticket_card t)" "is_record_line (tk_raw t)"
proof -
  let ?nls = "numbered (splitlines doc)"
  from map_of_SomeD [OF t] have "(tid, t) \<in> set (board_tickets (splitlines doc))"
    by (simp add: parse_board_tickets [OF clean])
  then have id: "tk_id t = tid" and "t \<in> set (entries_of (placed None ?nls))" by (auto simp: board_tickets_def)
  then obtain s' n l where e: "(s', n, l) \<in> set (placed None ?nls)" "line_ticket (s', n, l) = Some t"
    by (auto simp: entries_of_def List.map_filter_def)
  then have r: "is_record_line l" "record_ticket s' n l = Some t" by (auto simp: line_ticket_def split: if_splits)
  note wf = record_ticket_wf [OF r(2,1)]
  from placed_at [OF e(1)] obtain A B where ab: "?nls = A @ (n, l) # B" "s' = section_after None (map snd A)" by blast
  have "splitlines doc = map snd ?nls" by simp
  then have "splitlines doc = map snd A @ l # map snd B" unfolding ab(1) by simp
  moreover have "record_card s' l = Some (tid, ticket_card t)"
    using record_ticket_card [of s' n l] r(2) id by simp
  ultimately show thesis
    using that [of "map snd A" "map snd B"] wf r ab numbered_split [OF ab(1)] by simp
qed

section \<open>Updating the lines of a board\<close>

lemma record_facts: "is_record_line l \<Longrightarrow> \<not> is_heading_line l \<and> section_after s (l # B) = section_after s B"
  by (auto simp: section_after_def dest: heading_not_record)

lemma cards_record:
  "is_record_line l \<Longrightarrow> record_card (section_after s A) l = Some e \<Longrightarrow>
   cards s (A @ l # B) = cards s A @ e # cards (section_after s A) B"
  by (simp add: cards_append record_facts)

lemma lines_ok_record:
  "is_record_line l \<Longrightarrow> record_card (section_after s A) l = Some e \<Longrightarrow>
   lines_ok s (A @ l # B) \<longleftrightarrow> lines_ok s (A @ B)"
  by (simp add: lines_ok_append record_facts)

lemma headings_record: "is_record_line l \<Longrightarrow> headings_of (A @ l # B) = headings_of (A @ B)"
  by (simp add: headings_of_def record_facts)

lemma map_of_insert: "k \<notin> fst ` set xs \<Longrightarrow> map_of (xs @ (k, v) # ys) = (map_of (xs @ ys))(k \<mapsto> v)"
  by (induction xs) (auto simp: fun_eq_iff)

text \<open>A record added between two lines of a board that does not have its identity.\<close>

lemma add_record:
  assumes ok: "board_ok (A @ B)" and l: "is_record_line l" and r: "record_card (section_after None A) l = Some (tid, c)"
    and new: "tid \<notin> fst ` set (cards None (A @ B))"
  shows "board_ok (A @ l # B)" "map_of (cards None (A @ l # B)) = (map_of (cards None (A @ B)))(tid \<mapsto> c)"
proof -
  have e: "cards None (A @ B) = cards None A @ cards (section_after None A) B" by (rule cards_append)
  with new have n: "tid \<notin> fst ` set (cards None A)" "tid \<notin> fst ` set (cards (section_after None A) B)" by auto
  from ok n show "board_ok (A @ l # B)"
    unfolding board_ok_lines cards_record [OF l r] lines_ok_record [OF l r] headings_record [OF l] e by simp
  show "map_of (cards None (A @ l # B)) = (map_of (cards None (A @ B)))(tid \<mapsto> c)"
    unfolding cards_record [OF l r] e by (rule map_of_insert [OF n(1)])
qed

lemma drop_record:
  assumes ok: "board_ok (A @ l # B)" and l: "is_record_line l" and r: "record_card (section_after None A) l = Some (tid, c)"
  shows "board_ok (A @ B)" "map_of (cards None (A @ B)) = (map_of (cards None (A @ l # B)))(tid := None)"
    "tid \<notin> fst ` set (cards None (A @ B))"
proof -
  have e: "cards None (A @ B) = cards None A @ cards (section_after None A) B" by (rule cards_append)
  from ok have d: "tid \<notin> fst ` set (cards None A)" "tid \<notin> fst ` set (cards (section_after None A) B)"
    by (auto simp: board_ok_lines cards_record [OF l r])
  then show n: "tid \<notin> fst ` set (cards None (A @ B))" by (auto simp: cards_append)
  from ok show "board_ok (A @ B)"
    unfolding board_ok_lines cards_record [OF l r] lines_ok_record [OF l r] headings_record [OF l] e by simp
  have "map_of (cards None (A @ l # B)) = (map_of (cards None (A @ B)))(tid \<mapsto> c)"
    unfolding cards_record [OF l r] e by (rule map_of_insert [OF d(1)])
  moreover have "map_of (cards None (A @ B)) tid = None" using n by (simp add: map_of_eq_None_iff)
  ultimately show "map_of (cards None (A @ B)) = (map_of (cards None (A @ l # B)))(tid := None)"
    by (auto simp: fun_upd_idem)
qed

lemma swap_record:
  assumes ok: "board_ok (A @ l # B)" and l: "is_record_line l" "record_card (section_after None A) l = Some (tid, c)"
    and l': "is_record_line l'" "record_card (section_after None A) l' = Some (tid, c')"
  shows "board_ok (A @ l' # B)" "map_of (cards None (A @ l' # B)) = (map_of (cards None (A @ l # B)))(tid \<mapsto> c')"
  using add_record [OF drop_record(1) [OF ok l] l' drop_record(3) [OF ok l]] drop_record(2) [OF ok l]
  by simp_all

section \<open>Canonical documents\<close>

definition canonical :: "string \<Rightarrow> bool" where
  "canonical doc \<longleftrightarrow> doc = unlines (splitlines doc)"

lemma canonical_unlines: "list_all plain_line ls \<Longrightarrow> canonical (unlines ls)"
  by (simp add: canonical_def splitlines_unlines)

lemma plain_splitlines: "list_all plain_line (splitlines doc)"
  by (auto simp: list_all_iff intro: splitlines_plain)

lemma canonical_keeplines: "canonical doc \<Longrightarrow> keeplines doc = map (\<lambda>l. l @ [CHR 10]) (splitlines doc)"
  using keeplines_unlines [OF plain_splitlines [of doc]] by (simp add: canonical_def)

lemma concat_lines: "concat (map (\<lambda>l. l @ [CHR 10]) ls) = unlines ls"
  by (simp add: unlines_def)

text \<open>A document whose lines form a board, and its view.\<close>

lemma board_of_lines:
  assumes "list_all plain_line ls" and "board_ok ls"
  shows "w_errors (parse_board (unlines ls)) = []" "board_view (unlines ls) = map_of (cards None ls)"
    "splitlines (unlines ls) = ls"
  using assms splitlines_unlines [OF assms(1)] board_view_cards [of "unlines ls"]
  by (simp_all add: parse_board_clean_iff)

lemma replace_line_canonical:
  assumes "canonical doc" and "splitlines doc = A @ l # B"
  shows "replace_line doc (Suc (length A)) new = unlines (A @ new # B)"
proof -
  have "keeplines doc = map (\<lambda>l. l @ [CHR 10]) A @ (l @ [CHR 10]) # map (\<lambda>l. l @ [CHR 10]) B"
    using canonical_keeplines [OF assms(1)] assms(2) by simp
  then show ?thesis by (simp add: replace_line_def Let_def nth_append list_update_append unlines_def)
qed

section \<open>Edits in place\<close>

definition changed :: "change list \<Rightarrow> card \<Rightarrow> card" where
  "changed cs c = c\<lparr>c_fields := foldl (\<lambda>fs c. change_fields c fs) (c_fields c) cs\<rparr>"

lemma edit_in_place_refines:
  assumes doc: "canonical doc" "w_errors (parse_board doc) = []"
    and t: "dict_get (w_tickets (parse_board doc)) tid = Some t" and tidy: "tidy (tk_raw t)"
    and cs: "list_all change_ok cs" and ok: "edit_in_place doc t cap (map edit_of cs) = Inr doc'"
  shows "canonical doc'" "w_errors (parse_board doc') = []"
    "board_view doc' = (board_view doc)(tid \<mapsto> changed cs (ticket_card t))"
proof -
  obtain A B where l: "splitlines doc = A @ tk_raw t # B" "tk_line_no t = Suc (length A)"
    "record_card (section_after None A) (tk_raw t) = Some (tid, ticket_card t)" "is_record_line (tk_raw t)"
    by (rule ticket_line [OF doc(2) t])
  have plain: "list_all plain_line (A @ tk_raw t # B)" using plain_splitlines [of doc] l(1) by simp
  from ok obtain new where new: "apply_edits cap (map edit_of cs) (tk_raw t) = Inr new"
    "doc' = replace_line doc (tk_line_no t) new"
    by (auto simp: edit_in_place_def split: sum.splits)
  from card_reads [OF tidy _ l(3)] plain
  have r: "reads (tk_raw t) tid (c_box (ticket_card t)) (c_description (ticket_card t)) (c_fields (ticket_card t))"
    and s: "work_section (section_after None A)" "c_section (ticket_card t) = the (section_after None A)" by simp_all
  note n = reads_edits [OF r cs new(1)]
  have doc': "doc' = unlines (A @ new # B)"
    unfolding new(2) l(2) by (rule replace_line_canonical [OF doc(1) l(1)])
  have plain': "list_all plain_line (A @ new # B)" using plain n by (simp add: reads_def)
  have "record_card (section_after None A) new = Some (tid, changed cs (ticket_card t))"
    using reads_card(1) [OF n s(1)] s(2) by (simp add: changed_def)
  from swap_record [OF _ l(4,3) reads_card(2) [OF n s(1)] this] doc(2) l(1)
  have b: "board_ok (A @ new # B)"
    "map_of (cards None (A @ new # B)) = (map_of (cards None (splitlines doc)))(tid \<mapsto> changed cs (ticket_card t))"
    by (simp_all add: parse_board_clean_iff)
  from plain' show "canonical doc'" unfolding doc' by (rule canonical_unlines)
  from board_of_lines [OF plain' b(1)] b(2) show "w_errors (parse_board doc') = []"
    "board_view doc' = (board_view doc)(tid \<mapsto> changed cs (ticket_card t))"
    unfolding doc' by (simp_all add: board_view_cards [OF doc(2)])
qed

section \<open>The scan\<close>

lemma chomp_line: "plain_line l \<Longrightarrow> chomp (l @ [CHR 10]) = l"
proof -
  assume p: "plain_line l"
  have "dropWhile (\<lambda>c. c = CHR 10) (rev l) = rev l"
    using p by (cases l rule: rev_cases) (auto simp: is_line_end_def Let_def)
  then show ?thesis by (simp add: chomp_def)
qed

lemma get_note_headings:
  "h \<in> set hs \<Longrightarrow> dict_get (note_headings hs l n d) h = (if startswith l h then Some n else dict_get d h)"
proof -
  have "dict_get (note_headings hs l n d) h = (if h \<in> set hs \<and> startswith l h then Some n else dict_get d h)"
    by (induction hs arbitrary: d) (auto simp: note_headings_def)
  then show "h \<in> set hs \<Longrightarrow> ?thesis" by simp
qed

definition unopened :: "string list \<Rightarrow> string list \<Rightarrow> bool" where
  "unopened os ls \<longleftrightarrow> list_all (\<lambda>l. plain_line l \<and> \<not> list_ex (startswith l) os) ls"

abbreviation nl :: "string \<Rightarrow> string" where
  "nl l \<equiv> l @ [CHR 10]"

lemma scan_unopened:
  "unopened os ls \<Longrightarrow> sc_out (foldl (scan_line os hs) s (map nl ls)) = sc_out s @ map nl ls"
  by (induction ls arbitrary: s) (auto simp: unopened_def scan_line_def chomp_line Let_def)

lemma scan_line_commute:
  "unopened os ls \<Longrightarrow> foldl (scan_line os hs) (s\<lparr>sc_line := x\<rparr>) (map nl ls) =
     (foldl (scan_line os hs) s (map nl ls))\<lparr>sc_line := x\<rparr>"
proof (induction ls arbitrary: s)
  case (Cons l ls)
  then have "scan_line os hs (s\<lparr>sc_line := x\<rparr>) (nl l) = (scan_line os hs s (nl l))\<lparr>sc_line := x\<rparr>"
    by (cases s) (simp add: unopened_def scan_line_def chomp_line Let_def)
  with Cons show ?case by (simp add: unopened_def)
qed simp

lemma scan_heads_other:
  "unopened os ls \<Longrightarrow> h \<in> set hs \<Longrightarrow> list_all (\<lambda>l. \<not> startswith l h) ls \<Longrightarrow>
   dict_get (sc_heads (foldl (scan_line os hs) s (map nl ls))) h = dict_get (sc_heads s) h"
  by (induction ls arbitrary: s) (auto simp: unopened_def scan_line_def chomp_line Let_def get_note_headings)

lemma unopened_append: "unopened os (A @ B) \<longleftrightarrow> unopened os A \<and> unopened os B"
  by (simp add: unopened_def)

lemma scan_heads:
  assumes u: "unopened os (C @ x # D)" and h: "h \<in> set hs" and x: "startswith x h"
    and o: "list_all (\<lambda>l. \<not> startswith l h) D"
  shows "dict_get (sc_heads (foldl (scan_line os hs) s (map nl (C @ x # D)))) h =
    Some (length (sc_out s) + length C)"
proof -
  let ?s = "foldl (scan_line os hs) s (map nl C)"
  from u have u': "unopened os C" "unopened os [x]" "unopened os D" by (simp_all add: unopened_def)
  have "sc_out ?s = sc_out s @ map nl C" using scan_unopened [OF u'(1)] .
  then have "dict_get (sc_heads (scan_line os hs ?s (nl x))) h = Some (length (sc_out s) + length C)"
    using u'(2) h x by (simp add: scan_line_def Let_def unopened_def chomp_line get_note_headings)
  then show ?thesis using scan_heads_other [OF u'(3) h o] by simp
qed

text \<open>The scan of a board with one line of the ticket.\<close>

lemma scan_board_split:
  assumes doc: "canonical doc" "splitlines doc = A @ raw # B" and raw: "list_ex (startswith raw) os" "plain_line raw"
    and u: "unopened os (A @ B)" and e: "A @ B = C @ x # D" and h: "h \<in> set hs" "startswith x h"
    "list_all (\<lambda>l. \<not> startswith l h) D"
  shows "sc_out (scan_board os hs doc) = map nl (C @ x # D)" "sc_line (scan_board os hs doc) = Some raw"
    "dict_get (sc_heads (scan_board os hs doc)) h = Some (length C)"
proof -
  let ?e = "\<lparr>sc_out = [], sc_line = None, sc_heads = []\<rparr>"
  let ?r = "foldl (scan_line os hs) ?e (map nl (A @ B))"
  from u have ab: "unopened os A" "unopened os B" by (simp_all add: unopened_append)
  have "scan_line os hs s (nl raw) = s\<lparr>sc_line := Some raw\<rparr>" for s
    using raw by (simp add: scan_line_def Let_def chomp_line)
  then have "scan_board os hs doc = ?r\<lparr>sc_line := Some raw\<rparr>"
    using canonical_keeplines [OF doc(1)] doc(2) scan_line_commute [OF ab(2)] by (simp add: scan_board_def)
  moreover have "sc_out ?r = map nl (A @ B)" using scan_unopened [OF u, of hs ?e] by simp
  moreover have "dict_get (sc_heads ?r) h = Some (length C)"
    using scan_heads [OF u [unfolded e] h, of ?e] unfolding e by simp
  ultimately show "sc_out (scan_board os hs doc) = map nl (C @ x # D)" "sc_line (scan_board os hs doc) = Some raw"
    "dict_get (sc_heads (scan_board os hs doc)) h = Some (length C)"
    unfolding e by simp_all
qed

lemma insert_after_heading:
  "concat (insert_after (length C) (nl l) (map nl (C @ x # D))) = unlines (C @ x # l # D)"
  by (simp add: insert_after_def unlines_def)

section \<open>Headings\<close>

text \<open>No line merely opens with a heading of the work sections, such as an archive section.\<close>

definition exact_headings :: "string list \<Rightarrow> bool" where
  "exact_headings ls \<longleftrightarrow> list_all (\<lambda>h. list_all (\<lambda>l. startswith l h \<longrightarrow> strip l = h) ls) REQUIRED_HEADINGS"

lemma required_heading: "h \<in> set REQUIRED_HEADINGS \<Longrightarrow> startswith h ''## ''"
  by (auto simp: REQUIRED_HEADINGS_def)

lemma startswith_trans: "startswith l h \<Longrightarrow> startswith h p \<Longrightarrow> startswith l p"
  by (auto simp: startswith_iff_prefix prefix_def)

lemma heading_starts: "is_heading_line l \<Longrightarrow> startswith l (strip l)"
proof -
  assume "is_heading_line l"
  then have "l \<noteq> []" "\<not> is_space (hd l)"
    by (cases l; auto simp: is_heading_line_def is_space_def Let_def)+
  then have "lstrip l = l" by (cases l) (auto simp: lstrip_def)
  then show ?thesis using rstrip_split [of l] by (auto simp: strip_def startswith_iff_prefix prefix_def)
qed

lemma count_split: "count_list xs x = 1 \<Longrightarrow> \<exists>A B. xs = A @ x # B \<and> x \<notin> set A \<and> x \<notin> set B"
proof -
  assume c: "count_list xs x = 1"
  then have "x \<in> set xs" by (metis count_notin zero_neq_one)
  then obtain A B where ab: "xs = A @ x # B" "x \<notin> set A" by (meson split_list_first)
  with c have "x \<notin> set B" by (simp add: count_list_0_iff)
  with ab show ?thesis by blast
qed

lemma map_filter_split:
  "map f (filter P ls) = A' @ y # B' \<Longrightarrow>
   \<exists>A x B. ls = A @ x # B \<and> P x \<and> f x = y \<and> map f (filter P A) = A' \<and> map f (filter P B) = B'"
proof (induction ls arbitrary: A')
  case (Cons l ls)
  show ?case
  proof (cases "P l \<and> A' = []")
    case True
    with Cons.prems show ?thesis by (intro exI [of _ "[]"] exI [of _ l] exI [of _ ls]) simp
  next
    case False
    then obtain A'' where "map f (filter P ls) = A'' @ y # B'" "(if P l then f l # A'' else A'') = A'"
      using Cons.prems by (cases A') (auto split: if_splits)
    from Cons.IH [OF this(1)] this(2) obtain A x B where
      "ls = A @ x # B" "P x" "f x = y" "map f (filter P A) = A''" "map f (filter P B) = B'" by blast
    with \<open>(if P l then f l # A'' else A'') = A'\<close> show ?thesis
      by (intro exI [of _ "l # A"] exI [of _ x] exI [of _ B]) auto
  qed
qed simp

lemma heading_place:
  assumes ok: "board_ok ls" and ex: "exact_headings ls" and h: "h \<in> set REQUIRED_HEADINGS"
  obtains C x D where "ls = C @ x # D" "is_heading_line x" "strip x = h" "startswith x h"
    "list_all (\<lambda>l. \<not> startswith l h) C" "list_all (\<lambda>l. \<not> startswith l h) D"
proof -
  from ok h have "count_list (headings_of ls) h = 1" by (auto simp: board_ok_def list_all_iff)
  from count_split [OF this] obtain A' B' where hs: "headings_of ls = A' @ h # B'" "h \<notin> set A'" "h \<notin> set B'" by blast
  from map_filter_split [OF hs(1) [unfolded headings_of_def]] obtain C x D where
    e: "ls = C @ x # D" "is_heading_line x" "strip x = h" "map strip (filter is_heading_line C) = A'"
      "map strip (filter is_heading_line D) = B'" by blast
  have "\<not> startswith l h" if "l \<in> set C \<or> l \<in> set D" for l
  proof
    assume l: "startswith l h"
    then have "is_heading_line l" using startswith_trans [OF _ required_heading [OF h]] by (simp add: is_heading_line_def)
    moreover have "strip l = h" using ex h that l e(1) by (auto simp: exact_headings_def list_all_iff)
    ultimately have "h \<in> set A' \<or> h \<in> set B'" using that by (auto simp flip: e(4,5))
    with hs(2,3) show False by simp
  qed
  with e heading_starts [OF e(2)] show thesis by (intro that [of C x D]) (auto simp: list_all_iff)
qed

end
