(* ===== verification/BoardMoves.thy ===== *)
theory BoardMoves
  imports BoardRefinement
begin

text \<open>
  The moves between sections: the record taken out, rewritten for its new section and put below the
  heading, as updates of the abstract board.
\<close>

section \<open>Openers\<close>

lemma rstrip_keep: "a \<noteq> [] \<Longrightarrow> \<not> is_space (last a) \<Longrightarrow> rstrip (a @ b) = a @ rstrip b"
  by (cases a rule: rev_cases) (auto simp: rstrip_def dropWhile_append)

lemma rstrip_hd: "rstrip s \<noteq> [] \<Longrightarrow> hd (rstrip s) = hd s"
  using rstrip_split [of s] by (metis hd_append2)

lemma hide_prefix: "CHR 92 \<notin> set p \<Longrightarrow> hide_pipes (p @ r) = p @ hide_pipes r"
  by (induction p) (auto simp: hide_pipes_Cons)

lemma ticket_ref_exact:
  assumes t: "ticket_name tid" and r: "r = [] \<or> \<not> is_digit (hd r)"
  shows "ticket_ref (tid @ r) = Some (tid, r)"
proof -
  from t have tid: "tid = ''T-'' @ drop 2 tid" "drop 2 tid \<noteq> []" "list_all is_digit (drop 2 tid)"
    using startswith_drop [of tid "''T-''"] by (auto simp: ticket_name_def numeral_2_eq_2)
  have "span is_digit (drop 2 tid @ r) = (drop 2 tid, r)" using tid(3) r by (rule span_append)
  moreover have "startswith (tid @ r) ''T-''" using t by (auto simp: ticket_name_def intro: startswith_grow)
  moreover have "drop 2 (tid @ r) = drop 2 tid @ r"
    by (subst (1 2) tid(1)) (simp add: numeral_2_eq_2)
  ultimately show ?thesis using tid(1,2) by (simp add: ticket_ref_def flip: tid(1))
qed

lemma ticket_name_chars: "ticket_name tid \<Longrightarrow> tid \<noteq> [] \<and> CHR 92 \<notin> set tid \<and> \<not> is_space (last tid)"
proof -
  assume t: "ticket_name tid"
  then have tid: "tid = ''T-'' @ drop 2 tid" "drop 2 tid \<noteq> []" "list_all is_digit (drop 2 tid)"
    using startswith_drop [of tid "''T-''"] by (auto simp: ticket_name_def numeral_2_eq_2)
  have "last tid = last (drop 2 tid)" using tid(2) by (simp add: last_drop)
  with tid(2,3) have "is_digit (last tid)" by (metis last_in_set list_all_iff)
  moreover have "CHR 92 \<notin> set (drop 2 tid)" using tid(3) by (auto simp: list_all_iff is_digit_def Let_def)
  then have "CHR 92 \<notin> set tid" by (subst tid(1)) simp
  ultimately show ?thesis using tid(1) by auto
qed

text \<open>A line that opens with an identity is read under that identity.\<close>

lemma opener_card:
  assumes l: "startswith l (opener b tid)" and t: "ticket_name tid" and b: "b \<noteq> CHR 92"
    and c: "record_card s l = Some (tid', c)"
  shows "tid' = tid"
proof -
  let ?p = "''- ['' @ [b] @ ''] '' @ tid"
  from l obtain r where r: "l = ?p @ '' '' @ r" by (auto simp: opener_def startswith_iff_prefix prefix_def)
  define q where "q = rstrip ('' '' @ r)"
  have q: "q = [] \<or> hd q = CHR '' ''" using rstrip_hd [of "'' '' @ r"] by (auto simp: q_def)
  have "lstrip l = l" by (simp add: r lstrip_def is_space_def Let_def)
  moreover have "rstrip l = ?p @ q"
    unfolding r q_def using ticket_name_chars [OF t] by (intro rstrip_keep) auto
  ultimately have "strip l = ?p @ q" by (simp add: strip_def)
  moreover have "CHR 92 \<notin> set ?p" using ticket_name_chars [OF t] b by simp
  ultimately have h: "hide_pipes (strip l) = ?p @ hide_pipes q" using hide_prefix [of ?p q] by simp
  have "hide_pipes q = [] \<or> hd (hide_pipes q) = CHR '' ''" using q by (cases q) (auto simp: hide_pipes_Cons)
  then have "ticket_ref (tid @ hide_pipes q) = Some (tid, hide_pipes q)"
    by (intro ticket_ref_exact [OF t]) (auto simp: is_digit_def Let_def)
  with h c show ?thesis
    by (auto simp: record_card_def ticket_re_def split: option.splits if_splits prod.splits)
qed

lemma opener_record: "startswith l (opener b tid) \<Longrightarrow> is_record_line l"
  by (auto simp: opener_def startswith_iff_prefix prefix_def is_record_line_def lstrip_def is_space_def Let_def)

lemma line_card:
  "lines_ok s ls \<Longrightarrow> l \<in> set ls \<Longrightarrow> is_record_line l \<Longrightarrow> \<exists>s' e. record_card s' l = Some e \<and> e \<in> set (cards s ls)"
proof (induction s ls rule: lines_ok.induct)
  case (2 s k ls)
  then show ?case by (cases "k = l") (auto simp: heading_not_record split: if_splits option.splits)
qed simp

text \<open>Besides its own record no line of a board opens with the identity.\<close>

lemma others_unopened:
  assumes ok: "board_ok ls" and p: "list_all plain_line ls" and t: "ticket_name tid" "tid \<notin> fst ` set (cards None ls)"
    and os: "\<forall>o' \<in> set os. \<exists>b. o' = opener b tid \<and> b \<noteq> CHR 92"
  shows "unopened os ls"
proof -
  have "\<not> startswith l o'" if "l \<in> set ls" "o' \<in> set os" for l o'
  proof
    assume l: "startswith l o'"
    from os that obtain b where b: "o' = opener b tid" "b \<noteq> CHR 92" by blast
    with line_card [of None ls l] opener_record [of l b tid] ok that l obtain s' tid' c where
      "record_card s' l = Some (tid', c)" "(tid', c) \<in> set (cards None ls)" by (auto simp: board_ok_lines)
    with opener_card [of l b tid s' tid' c] l b t show False by force
  qed
  with p show ?thesis by (auto simp: unopened_def list_all_iff list_ex_iff)
qed

section \<open>The box of a record\<close>

definition rebox :: "char \<Rightarrow> string \<Rightarrow> string" where
  "rebox b l = ''- ['' @ [b] @ ''] '' @ drop 6 l"

lemma split_prefix:
  "pipe_free a \<Longrightarrow> s = [] \<or> hd s \<noteq> CHR 124 \<Longrightarrow>
   split_str '' | '' (a @ s) = (a @ hd (split_str '' | '' s)) # tl (split_str '' | '' s)"
proof (induction a)
  case (Cons c a)
  have "\<not> startswith (a @ s) ''| ''" using Cons.prems by (cases a; cases s) (auto simp: pipe_free_def)
  with Cons show ?case by (simp add: pipe_free_def)
qed simp

lemma reads_rebox:
  assumes r: "reads l tid box description fs" and l: "startswith l (opener box tid)" and b: "b \<in> set '' x/''"
  shows "reads (rebox b l) tid b description fs"
proof -
  from r obtain p0 ps d where f: "tidy l" "fields_split l = p0 # ps" "ticket_re p0 = Some (box, tid, d)"
    by (auto simp: reads_def)
  have box: "box \<in> set '' x/''" and t: "ticket_name tid" using ticket_re_name [OF f(3)] by simp_all
  then obtain t0 where t0: "tid = CHR ''T'' # t0" by (cases tid) (auto simp: ticket_name_def startswith_iff_prefix)
  from l obtain q where q: "l = (''- ['' @ [box] @ ''] '') @ (tid @ '' '' @ q)"
    by (auto simp: opener_def startswith_iff_prefix prefix_def)
  define h where "h = hide_pipes (tid @ '' '' @ q)"
  have h0: "h = [] \<or> hd h \<noteq> CHR 124" by (simp add: h_def t0 hide_pipes_Cons)
  obtain q0 qs where qs: "split_str '' | '' h = q0 # qs" by (cases "split_str '' | '' h") simp_all
  have fs: "fields_split ((''- ['' @ [b] @ ''] '') @ (tid @ '' '' @ q)) = (''- ['' @ [b] @ ''] '' @ q0) # qs"
    if "b \<in> set '' x/''" for b
  proof -
    have p: "pipe_free (''- ['' @ [b] @ ''] '')" "CHR 92 \<notin> set (''- ['' @ [b] @ ''] '')"
      using that by (auto simp: pipe_free_def)
    then show ?thesis unfolding fields_split_def hide_prefix [OF p(2)]
      using split_prefix [OF p(1), of h] h0 qs by (simp add: h_def)
  qed
  from fs [OF box] f(2) have p0: "p0 = ''- ['' @ [box] @ ''] '' @ q0" "ps = qs" unfolding q by simp_all
  have new: "rebox b l = (''- ['' @ [b] @ ''] '') @ (tid @ '' '' @ q)" by (simp add: rebox_def q)
  have re: "ticket_re (''- ['' @ [b] @ ''] '' @ q0) = Some (b, tid, d)"
    using f(3) b unfolding p0 by (auto simp: ticket_re_def split: option.splits prod.splits if_splits)
  have "q0 \<noteq> []" using f(3) unfolding p0 by (auto simp: ticket_re_def ticket_ref_def split: if_splits)
  then have tr: "trimmed p0 \<longleftrightarrow> trimmed (''- ['' @ [b] @ ''] '' @ q0)" by (simp add: p0 trimmed_def)
  have pf: "pipe_free p0 \<longleftrightarrow> pipe_free (''- ['' @ [b] @ ''] '' @ q0)" using b box by (auto simp: p0 pipe_free_def)
  note fb = fs [OF b]
  have "tidy (rebox b l)"
    using f fb re tr pf p0(2) unfolding new by (auto simp: tidy_def well_piped_def)
  moreover have "plain_line (rebox b l)"
    using r b unfolding new by (auto simp: reads_def q is_line_end_def Let_def)
  ultimately show ?thesis using r f fb re p0(2) unfolding new by (auto simp: reads_def)
qed

section \<open>The outcome of a writer\<close>

text \<open>A writer either answers a canonical board with the given view, or its record outgrew the cap.\<close>

definition outgrown :: "bool \<Rightarrow> edit_error \<Rightarrow> bool" where
  "outgrown cap e \<longleftrightarrow> cap \<and> (\<exists>n > MAX_LIVE_RECORD_CHARS. e = Bad_Record (Oversize n))"

definition outcome :: "bool \<Rightarrow> (string \<rightharpoonup> card) \<Rightarrow> edit_error + string \<Rightarrow> bool" where
  "outcome cap view r \<longleftrightarrow>
     (case r of
        Inl e \<Rightarrow> outgrown cap e
      | Inr doc' \<Rightarrow> canonical doc' \<and> w_errors (parse_board doc') = [] \<and> board_view doc' = view)"

text \<open>The record of an identity, put below a heading.\<close>

definition places :: "(string \<rightharpoonup> card) \<Rightarrow> string \<Rightarrow> string \<Rightarrow> string list \<Rightarrow> nat \<Rightarrow> bool" where
  "places view tid h out idx \<longleftrightarrow>
     (\<forall>new box description fs cap. reads new tid box description fs \<longrightarrow>
        outcome cap (view(tid \<mapsto> \<lparr>c_section = h, c_box = box, c_fields = fs, c_description = description\<rparr>))
          (Inr (concat (insert_after idx (nl new) out))))"

section \<open>Relocation\<close>

text \<open>
  The common shape of a claim and of a move: the one record of the ticket is taken out, and a record
  for the same identity stands below the heading of the target section.
\<close>

definition movable :: "string \<Rightarrow> string \<Rightarrow> ticket \<Rightarrow> bool" where
  "movable doc tid t \<longleftrightarrow> canonical doc \<and> w_errors (parse_board doc) = [] \<and> exact_headings (splitlines doc) \<and>
     dict_get (w_tickets (parse_board doc)) tid = Some t \<and> tidy (tk_raw t) \<and>
     startswith (tk_raw t) (opener (tk_checkbox t) tid)"

lemma exact_headings_remove: "exact_headings (A @ l # B) \<Longrightarrow> exact_headings (A @ B)"
  by (auto simp: exact_headings_def list_all_iff)

lemma movable_reads:
  assumes "movable doc tid t"
  shows "reads (tk_raw t) tid (tk_checkbox t) (tk_description t) (tk_fields t)" "ticket_name tid"
    "tk_checkbox t \<in> set '' x/''"
proof -
  from assms have clean: "w_errors (parse_board doc) = []" and t: "dict_get (w_tickets (parse_board doc)) tid = Some t"
    and tidy: "tidy (tk_raw t)" by (simp_all add: movable_def)
  obtain A B where l: "splitlines doc = A @ tk_raw t # B"
    "record_card (section_after None A) (tk_raw t) = Some (tid, ticket_card t)"
    by (rule ticket_line [OF clean t]) blast
  have "plain_line (tk_raw t)" using plain_splitlines [of doc] l(1) by simp
  from card_reads(1) [OF tidy this l(2)]
  show r: "reads (tk_raw t) tid (tk_checkbox t) (tk_description t) (tk_fields t)" by (simp add: ticket_card_def)
  then show "ticket_name tid" "tk_checkbox t \<in> set '' x/''" by (auto simp: reads_def dest!: ticket_re_name)
qed

lemma relocation:
  assumes m: "movable doc tid t" and h: "h \<in> set hs" "h \<in> set REQUIRED_HEADINGS"
    and os: "list_ex (startswith (tk_raw t)) os" "\<forall>o' \<in> set os. \<exists>b. o' = opener b tid \<and> b \<noteq> CHR 92"
  obtains idx where "sc_line (scan_board os hs doc) = Some (tk_raw t)"
    "dict_get (sc_heads (scan_board os hs doc)) h = Some idx"
    "places (board_view doc) tid h (sc_out (scan_board os hs doc)) idx"
proof -
  from m have doc: "canonical doc" "w_errors (parse_board doc) = []" "exact_headings (splitlines doc)"
    and t: "dict_get (w_tickets (parse_board doc)) tid = Some t" by (simp_all add: movable_def)
  obtain A B where l: "splitlines doc = A @ tk_raw t # B"
    "record_card (section_after None A) (tk_raw t) = Some (tid, ticket_card t)" "is_record_line (tk_raw t)"
    by (rule ticket_line [OF doc(2) t]) blast
  have plain: "list_all plain_line (A @ B)" "plain_line (tk_raw t)" using plain_splitlines [of doc] l(1) by simp_all
  have "board_ok (A @ tk_raw t # B)" using doc(2) l(1) by (simp add: parse_board_clean_iff)
  note rest = drop_record [OF this l(3,2)]
  from others_unopened [OF rest(1) plain(1) movable_reads(2) [OF m] rest(3) os(2)]
  have u: "unopened os (A @ B)" .
  have ex: "exact_headings (A @ B)" using exact_headings_remove [of A "tk_raw t" B] doc(3) l(1) by simp
  obtain C x D where e: "A @ B = C @ x # D" "is_heading_line x" "strip x = h" "startswith x h"
    "list_all (\<lambda>l. \<not> startswith l h) C" "list_all (\<lambda>l. \<not> startswith l h) D"
    by (rule heading_place [OF rest(1) ex h(2)])
  note scan = scan_board_split [OF doc(1) l(1) os(1) plain(2) u e(1) h(1) e(4,6)]
  have "outcome cap ((board_view doc)(tid \<mapsto> \<lparr>c_section = h, c_box = box, c_fields = fs, c_description = description\<rparr>))
      (Inr (concat (insert_after (length C) (nl new) (sc_out (scan_board os hs doc)))))"
    if r: "reads new tid box description fs" for new box description fs cap
  proof -
    have sec: "section_after None (C @ [x]) = Some h" by (simp add: section_after_def e(2,3))
    then have w: "work_section (section_after None (C @ [x]))" using h(2) by (simp add: work_section_def)
    have cx: "A @ B = (C @ [x]) @ D" using e(1) by simp
    from add_record [OF rest(1) [unfolded cx] reads_card(2) [OF r w] reads_card(1) [OF r w] rest(3) [unfolded cx]]
    have b: "board_ok ((C @ [x]) @ new # D)" "map_of (cards None ((C @ [x]) @ new # D)) =
        (map_of (cards None (A @ B)))(tid \<mapsto> \<lparr>c_section = h, c_box = box, c_fields = fs, c_description = description\<rparr>)"
      unfolding sec cx by simp_all
    have p: "list_all plain_line ((C @ [x]) @ new # D)" using plain(1) r unfolding cx by (simp add: reads_def)
    from b(2) rest(2) l(1) have v: "map_of (cards None ((C @ [x]) @ new # D)) =
        (board_view doc)(tid \<mapsto> \<lparr>c_section = h, c_box = box, c_fields = fs, c_description = description\<rparr>)"
      by (simp add: board_view_cards [OF doc(2)])
    have "concat (insert_after (length C) (nl new) (sc_out (scan_board os hs doc))) = unlines ((C @ [x]) @ new # D)"
      unfolding scan(1) insert_after_heading by simp
    with board_of_lines [OF p b(1)] v canonical_unlines [OF p] show ?thesis by (simp only: outcome_def sum.case simp_thms)
  qed
  then have "places (board_view doc) tid h (sc_out (scan_board os hs doc)) (length C)" by (simp add: places_def)
  with that [OF scan(2,3)] show thesis .
qed

section \<open>What a move writes\<close>

definition word :: "string \<Rightarrow> bool" where
  "word u \<longleftrightarrow> writable u \<and> CHR 92 \<notin> set u \<and> CHR 124 \<notin> set u"

lemma escape_word: "word u \<Longrightarrow> escape_text u = u"
proof -
  have "CHR 92 \<notin> set u \<Longrightarrow> CHR 124 \<notin> set u \<Longrightarrow> concat (map escape_char u) = u"
    by (induction u) (auto simp: escape_char_def)
  then show "word u \<Longrightarrow> ?thesis" by (simp add: word_def escape_text_chars)
qed

lemma edit_word: "word u \<Longrightarrow> edit_of (Assign f u) = Set_Field f u"
  by (simp add: escape_word)

fun move_box :: "move \<Rightarrow> char" where
  "move_box Finish = CHR ''x''"
| "move_box Supersede = CHR ''x''"
| "move_box Resolve = CHR ''x''"
| "move_box Resume = CHR ''/''"
| "move_box _ = CHR '' ''"

text \<open>The box a record has before the move.\<close>

fun move_from :: "move \<Rightarrow> char \<Rightarrow> string \<Rightarrow> bool" where
  "move_from Supersede box line = (box = CHR ''/'' \<or> box = CHR '' '')"
| "move_from Resolve box line = (box = CHR ''/'' \<or> box = CHR '' '')"
| "move_from Resume box line = (box = CHR '' '')"
| "move_from Unblock box line = (box = CHR '' '' \<and> \<not> substring ''- [/] '' line)"
| "move_from _ box line = (box = CHR ''/'')"

fun move_changes :: "move \<Rightarrow> string \<Rightarrow> string \<Rightarrow> string \<Rightarrow> change list" where
  "move_changes Block payload blocker_scope retry_not_before =
     [Assign ''blocker'' (if payload = [] then ''blocked'' else payload),
      Assign ''blocker_scope'' (if blocker_scope = [] then ''ticket'' else blocker_scope)] @
     (if retry_not_before = [] then [] else [Assign ''retry_not_before'' retry_not_before])"
| "move_changes Unblock payload blocker_scope retry_not_before =
     map Clear [''blocker'', ''blocker_scope'', ''verify_attempts'', ''retry_not_before'']"
| "move_changes _ payload blocker_scope retry_not_before = []"

definition move_values :: "string \<Rightarrow> string \<Rightarrow> string \<Rightarrow> bool" where
  "move_values payload blocker_scope retry_not_before \<longleftrightarrow>
     (payload = [] \<or> writable payload) \<and> blocker_scope \<in> {[], ''ticket'', ''goal''} \<and>
     (retry_not_before = [] \<or> word retry_not_before)"

lemma replace_box: "replace_once (''- ['' @ [a] @ ''] '') (''- ['' @ [b] @ ''] '') ((''- ['' @ [a] @ ''] '') @ r) =
    ''- ['' @ [b] @ ''] '' @ r"
  by simp

lemma opener_box: "startswith l (opener a tid) \<Longrightarrow> \<exists>r. l = (''- ['' @ [a] @ ''] '') @ r"
  by (auto simp: opener_def startswith_iff_prefix prefix_def)

lemma replace_rebox:
  "startswith l (opener a tid) \<Longrightarrow> replace_once (''- ['' @ [a] @ ''] '') (''- ['' @ [b] @ ''] '') l = rebox b l"
  by (drule opener_box, elim exE) (simp only: replace_box rebox_def, simp)

lemma rebox_same: "startswith l (opener a tid) \<Longrightarrow> rebox a l = l"
  by (drule opener_box, elim exE) (simp add: rebox_def)

lemma replace_absent: "\<not> substring old l \<Longrightarrow> replace_once old new l = l"
  by (induction l) auto

lemma check_rebox: "startswith l (opener a tid) \<Longrightarrow> a = CHR ''/'' \<or> a = CHR '' '' \<Longrightarrow> check_box l = rebox CHR ''x'' l"
  by (drule opener_box, elim exE) (auto simp: check_box_def rebox_def)

lemma writable_words: "list_all word [''ticket'', ''goal'', ''blocked'']"
  by code_simp

lemma block_edits_of:
  assumes "move_values payload scope due"
  shows "block_edits (escape_text (if payload = [] then ''blocked'' else payload)) scope due =
    map edit_of (move_changes Block payload scope due)"
proof -
  have "edit_of (Assign ''blocker_scope'' (if scope = [] then ''ticket'' else scope)) =
      Set_Field ''blocker_scope'' (if scope = [] then ''ticket'' else scope)"
    using assms writable_words by (intro edit_word) (auto simp: move_values_def)
  moreover have "due \<noteq> [] \<Longrightarrow> strip due = due \<and> edit_of (Assign ''retry_not_before'' due) = Set_Field ''retry_not_before'' due"
    using assms edit_word [of due] by (auto simp: move_values_def word_def writable_def trimmed_strip)
  moreover have "strip [] = []" by (simp add: strip_def lstrip_def rstrip_def)
  ultimately show ?thesis
    by (cases "due = []") (simp_all add: block_edits_def)
qed

lemma writable_plain: "payload = [] \<or> writable payload \<Longrightarrow>
    escape_ticket_description (if payload = [] then ''blocked'' else payload) =
      Inr (escape_text (if payload = [] then ''blocked'' else payload))"
proof -
  assume "payload = [] \<or> writable payload"
  then have "plain_line (if payload = [] then ''blocked'' else payload)"
    using writable_words by (auto simp: word_def writable_def)
  then show ?thesis
    by (simp only: escape_ticket_description_def assert_single_record_def record_separator_in_plain [THEN iffD2] option.case sum.case)
qed

lemma marked_for_edits:
  assumes l: "startswith line (opener box tid)" and mf: "move_from action box line"
    and vals: "move_values payload scope due"
  shows "marked_for action payload scope due cap line =
    apply_edits cap (map edit_of (move_changes action payload scope due)) (rebox (move_box action) line)"
proof -
  note boxes = replace_rebox [OF l, simplified]
  show ?thesis
  proof (cases action)
    case Block
    have "payload = [] \<or> writable payload" using vals by (simp add: move_values_def)
    from Block mf boxes [of "CHR '' ''"] block_edits_of [OF vals] writable_plain [OF this] show ?thesis
      by (simp add: marked_for_def del: move_changes.simps edit_of.simps)
  next
    case Unblock
    with replace_absent [of "''- [/] ''" line "''- [ ] ''"] rebox_same [OF l] mf have
      "replace_once ''- [/] '' ''- [ ] '' line = rebox CHR '' '' line" by simp
    with Unblock show ?thesis by (simp add: marked_for_def UNBLOCK_EDITS_def)
  qed (use mf boxes check_rebox [OF l] in \<open>auto simp: marked_for_def\<close>)
qed

lemma move_changes_ok: "move_values payload scope due \<Longrightarrow> list_all change_ok (move_changes action payload scope due)"
proof -
  have "''blocker'' \<in> set KNOWN_FIELDS \<and> ''blocker_scope'' \<in> set KNOWN_FIELDS \<and>
      ''retry_not_before'' \<in> set KNOWN_FIELDS \<and> ''verify_attempts'' \<in> set KNOWN_FIELDS"
    by (simp add: KNOWN_FIELDS_def)
  then show "move_values payload scope due \<Longrightarrow> ?thesis"
    using writable_words by (cases action) (auto simp: move_values_def word_def)
qed

lemma capped_refused: "plain_line new \<Longrightarrow> capped cap new = Inl e \<Longrightarrow> outgrown cap (Bad_Record e)"
  by (auto simp: capped_def outgrown_def assert_live_record_def assert_single_record_def
      record_separator_in_plain [THEN iffD2] split: if_splits)

lemma edits_outgrown:
  "reads l tid box description fs \<Longrightarrow> list_all change_ok cs \<Longrightarrow> apply_edits cap (map edit_of cs) l = Inl e \<Longrightarrow>
   outgrown cap (Bad_Record e)"
  using reads_edits_refused [of l tid box description fs cs cap e] by (simp add: outgrown_def)

lemma edit_in_place_outcome:
  assumes doc: "canonical doc" "w_errors (parse_board doc) = []"
    and t: "dict_get (w_tickets (parse_board doc)) tid = Some t" and tidy: "tidy (tk_raw t)" and cs: "list_all change_ok cs"
  shows "outcome cap ((board_view doc)(tid \<mapsto> changed cs (ticket_card t))) (edit_in_place doc t cap (map edit_of cs))"
proof (cases "edit_in_place doc t cap (map edit_of cs)")
  case (Inr doc')
  with edit_in_place_refines [OF doc t tidy cs Inr] show ?thesis by (simp add: outcome_def)
next
  case (Inl e)
  obtain A B where l: "splitlines doc = A @ tk_raw t # B"
    "record_card (section_after None A) (tk_raw t) = Some (tid, ticket_card t)"
    by (rule ticket_line [OF doc(2) t]) blast
  have "plain_line (tk_raw t)" using plain_splitlines [of doc] l(1) by simp
  note r = card_reads(1) [OF tidy this l(2)]
  have "outgrown cap e"
  proof (cases "apply_edits cap (map edit_of cs) (tk_raw t)")
    case (Inl err)
    with edits_outgrown [OF r cs Inl] \<open>edit_in_place doc t cap (map edit_of cs) = Inl e\<close> show ?thesis
      by (simp add: edit_in_place_def)
  next
    case (Inr new)
    with reads_edits [OF r cs Inr] capped_refused [of new cap] Inl show ?thesis
      by (auto simp: edit_in_place_def reads_def split: sum.splits)
  qed
  with Inl show ?thesis by (simp add: outcome_def)
qed

text \<open>The record below the target heading, after the edits of a move or of a claim.\<close>

lemma moved_outcome:
  assumes r: "reads l tid box description fs" and cs: "list_all change_ok cs"
    and fin: "\<And>new. reads new tid box description (foldl (\<lambda>fs c. change_fields c fs) fs cs) \<Longrightarrow>
      apply_edits cap (map edit_of cs) l = Inr new \<Longrightarrow> outcome cap view (k new)"
  shows "outcome cap view (case apply_edits cap (map edit_of cs) l of Inl e \<Rightarrow> Inl (Bad_Record e) | Inr new \<Rightarrow> k new)"
proof (cases "apply_edits cap (map edit_of cs) l")
  case (Inl e)
  with edits_outgrown [OF r cs Inl] show ?thesis by (simp add: outcome_def)
next
  case (Inr new)
  with fin [OF reads_edits [OF r cs Inr] Inr] show ?thesis by simp
qed

section \<open>The writers\<close>

lemma changed_simps: "changed cs c = c\<lparr>c_fields := foldl (\<lambda>fs c. change_fields c fs) (c_fields c) cs\<rparr>"
  by (simp add: changed_def)

definition moved_card :: "string \<Rightarrow> char \<Rightarrow> change list \<Rightarrow> card \<Rightarrow> card" where
  "moved_card section_to box cs c = (changed cs c)\<lparr>c_section := section_to, c_box := box\<rparr>"

text \<open>
  C20: moving a record between sections refines an update of the abstract board: whenever the record
  outgrows no cap the answer is a board the parser accepts, in which the ticket stands in the target
  section with the new box and the fields of the move, and no other ticket has changed.
\<close>

theorem board_moves_refine:
  assumes m: "movable doc tid t" and target: "target \<in> set REQUIRED_HEADINGS"
    and mf: "move_from action (tk_checkbox t) (tk_raw t)" and vals: "move_values payload scope due"
  shows "outcome cap
    ((board_view doc)(tid \<mapsto>
       moved_card target (move_box action) (move_changes action payload scope due) (ticket_card t)))
    (move_ticket doc tid target action payload scope due cap)"
proof -
  let ?os = "[opener CHR ''/'' tid, opener CHR '' '' tid]" and ?cs = "move_changes action payload scope due"
  let ?s = "scan_board ?os REQUIRED_HEADINGS doc"
  from m have op: "startswith (tk_raw t) (opener (tk_checkbox t) tid)" by (simp add: movable_def)
  have "tk_checkbox t = CHR ''/'' \<or> tk_checkbox t = CHR '' ''" using mf by (cases action) auto
  with op have os: "list_ex (startswith (tk_raw t)) ?os" "\<forall>o' \<in> set ?os. \<exists>b. o' = opener b tid \<and> b \<noteq> CHR 92" by auto
  obtain idx where s: "sc_line ?s = Some (tk_raw t)" "dict_get (sc_heads ?s) target = Some idx"
    and put: "places (board_view doc) tid target (sc_out ?s) idx"
    by (rule relocation [OF m target target os])
  note r = movable_reads(1) [OF m]
  note r' = reads_rebox [OF r op, of "move_box action"]
  have box: "move_box action \<in> set '' x/''" by (cases action) simp_all
  have "outcome cap ((board_view doc)(tid \<mapsto> moved_card target (move_box action) ?cs (ticket_card t)))
    (case apply_edits cap (map edit_of ?cs) (rebox (move_box action) (tk_raw t)) of
       Inl e \<Rightarrow> Inl (Bad_Record e)
     | Inr marked \<Rightarrow> (case capped cap (rstrip marked) of Inl e \<Rightarrow> Inl (Bad_Record e)
       | Inr _ \<Rightarrow> Inr (concat (insert_after idx (nl (rstrip marked)) (sc_out ?s)))))"
  proof (rule moved_outcome [OF r' [OF box] move_changes_ok [OF vals]])
    fix new
    assume n: "reads new tid (move_box action) (tk_description t) (foldl (\<lambda>fs c. change_fields c fs) (tk_fields t) ?cs)"
    then have tn: "rstrip new = new" by (auto simp: reads_def intro: trimmed_rstrip tidy_trimmed)
    from n have p: "plain_line new" by (simp add: reads_def)
    show "outcome cap ((board_view doc)(tid \<mapsto> moved_card target (move_box action) ?cs (ticket_card t)))
      (case capped cap (rstrip new) of Inl e \<Rightarrow> Inl (Bad_Record e)
       | Inr _ \<Rightarrow> Inr (concat (insert_after idx (nl (rstrip new)) (sc_out ?s))))"
      using capped_refused [OF p] put [unfolded places_def, rule_format, OF n]
      by (auto simp: tn outcome_def moved_card_def changed_def ticket_card_def split: sum.splits)
  qed
  moreover have "marked_for action payload scope due cap (tk_raw t) =
      apply_edits cap (map edit_of ?cs) (rebox (move_box action) (tk_raw t))"
    by (rule marked_for_edits [OF op mf vals])
  ultimately show ?thesis using s by (simp add: move_ticket_def Let_def)
qed

lemma outcome_uncapped: "outcome False view r \<Longrightarrow> \<exists>doc'. r = Inr doc' \<and> board_view doc' = view"
  by (auto simp: outcome_def outgrown_def split: sum.splits)

definition work_board :: string where
  "work_board = unlines [''# Board'', ''## DOING'', ''- [/] T-2 parser | owner: ann'', ''## TODO'',
     ''- [ ] T-3 lexer | needs: T-2'', ''## DONE'', ''- [x] T-1 setup | verify: ok'', ''## BLOCKED'']"

theorem board_moves_refine_witness:
  "\<exists>doc'. move_ticket work_board ''T-2'' ''## BLOCKED'' Block ''waits | on [x]'' ''goal'' [] False = Inr doc' \<and>
     board_view doc' ''T-2'' =
       Some \<lparr>c_section = ''## BLOCKED'', c_box = CHR '' '', c_fields = [(''owner'', ''ann''), (''blocker'', ''waits | on [x]''),
         (''blocker_scope'', ''goal'')], c_description = ''parser''\<rparr>"
proof -
  let ?t = "the (dict_get (w_tickets (parse_board work_board)) ''T-2'')"
  have c: "movable work_board ''T-2'' ?t" "''## BLOCKED'' \<in> set REQUIRED_HEADINGS"
    "move_from Block (tk_checkbox ?t) (tk_raw ?t)" "move_values ''waits | on [x]'' ''goal'' []"
    by code_simp+
  have v: "moved_card ''## BLOCKED'' (move_box Block) (move_changes Block ''waits | on [x]'' ''goal'' []) (ticket_card ?t) =
    \<lparr>c_section = ''## BLOCKED'', c_box = CHR '' '', c_fields = [(''owner'', ''ann''), (''blocker'', ''waits | on [x]''),
         (''blocker_scope'', ''goal'')], c_description = ''parser''\<rparr>"
    by code_simp
  from outcome_uncapped [OF board_moves_refine [OF c, of False, unfolded v]] show ?thesis by auto
qed

end
