(* ===== verification/BoardGraph.thy ===== *)
theory BoardGraph
  imports Board
begin

text \<open>
  The work graph of \<open>board.py\<close>: \<open>board_graph_errors\<close> with its explicit-stack three-colour search over
  \<open>needs\<close>, the supersession chains and the continuation reservations.  A frame keeps the index of the
  next need; the top frame is the head of the list.
\<close>

section \<open>Fields\<close>

text \<open>\<open>_field\<close>: the trimmed value, or the empty string.\<close>

definition field_text :: "ticket \<Rightarrow> string \<Rightarrow> string" where
  "field_text t name = strip (case dict_get (tk_fields t) name of None \<Rightarrow> [] | Some v \<Rightarrow> v)"

datatype graph_error =
    Missing_Successor string string
  | Open_Successor string string
  | Supersession_Cycle "string list"
  | Missing_Need string string nat
  | Missing_Child string string
  | Child_Not_Needed string string
  | Shared_Child string string string
  | Needs_Cycle "string list"

section \<open>Supersession\<close>

definition successor :: "string \<times> ticket \<Rightarrow> (string \<times> string) option" where
  "successor e = (case e of (tid, t) \<Rightarrow>
     let s = field_text t ''superseded_by'' in if s = [] then None else Some (tid, s))"

definition superseded :: "tickets \<Rightarrow> (string, string) dict" where
  "superseded ts = List.map_filter successor ts"

definition successor_errors :: "tickets \<Rightarrow> string \<times> string \<Rightarrow> graph_error list" where
  "successor_errors ts e = (case e of (tid, s) \<Rightarrow>
     case dict_get ts s of
       None \<Rightarrow> [Missing_Successor tid s]
     | Some t \<Rightarrow> if tk_section t \<noteq> ''## DONE'' then [Open_Successor tid s] else [])"

text \<open>The chain from one start; the answer is the cycle that closes it.\<close>

function chase :: "(string, string) dict \<Rightarrow> string list \<Rightarrow> string \<Rightarrow> string list option" where
  "chase links chain current =
     (case dict_get links current of
        None \<Rightarrow> None
      | Some next \<Rightarrow>
          if current \<in> set chain then Some (dropWhile (\<lambda>x. x \<noteq> current) chain @ [current])
          else chase links (chain @ [current]) next)"
  by pat_completeness auto

lemma filter_imp_le: "(\<And>x. P x \<Longrightarrow> Q x) \<Longrightarrow> length (filter P xs) \<le> length (filter Q xs)"
  by (induction xs) auto

lemma filter_imp_less:
  "x \<in> set xs \<Longrightarrow> Q x \<Longrightarrow> \<not> P x \<Longrightarrow> (\<And>x. P x \<Longrightarrow> Q x) \<Longrightarrow> length (filter P xs) < length (filter Q xs)"
proof (induction xs)
  case (Cons y ys)
  then show ?case using filter_imp_le [of P Q ys] by (cases "x = y") (auto simp: less_Suc_eq_le)
qed simp

lemma remaining_shrinks:
  "dict_get links x = Some y \<Longrightarrow> x \<notin> set chain \<Longrightarrow>
   length (filter (\<lambda>k. k \<notin> set (chain @ [x])) (map fst links)) < length (filter (\<lambda>k. k \<notin> set chain) (map fst links))"
  by (rule filter_imp_less [of x]) (auto dest!: map_of_SomeD simp: image_iff, force)

termination chase
  by (relation "measure (\<lambda>(links, chain, current). length (filter (\<lambda>k. k \<notin> set chain) (map fst links)))")
     (simp, simp only: in_measure prod.case, rule remaining_shrinks)

section \<open>Reservations\<close>

fun reserve :: "tickets \<Rightarrow> (string, string) dict \<Rightarrow> tickets \<Rightarrow> graph_error list" where
  "reserve ts reserved [] = []"
| "reserve ts reserved ((tid, t) # rest) =
     (let child = field_text t ''blocked_on'' in
      if child = [] then reserve ts reserved rest
      else if dict_get ts child = None then Missing_Child tid child # reserve ts reserved rest
      else
        (if child \<notin> set (tk_needs t) then [Child_Not_Needed tid child] else []) @
        (case dict_get reserved child of
           None \<Rightarrow> []
         | Some prior \<Rightarrow> if prior \<noteq> tid then [Shared_Child child prior tid] else []) @
        reserve ts (dict_set child tid reserved) rest)"

section \<open>The search\<close>

datatype colour = WHITE | GRAY | BLACK

record search =
  d_colour :: "(string, colour) dict"
  d_stack :: "string list"
  d_frames :: "(string \<times> nat) list"
  d_cycles :: "string list list"

definition needs_of :: "tickets \<Rightarrow> string \<Rightarrow> string list" where
  "needs_of ts node = (case dict_get ts node of None \<Rightarrow> [] | Some t \<Rightarrow> tk_needs t)"

text \<open>\<open>seen_cycles\<close> holds exactly the cycles already reported.\<close>

definition report :: "string \<Rightarrow> search \<Rightarrow> search" where
  "report need s =
     (let cycle = dropWhile (\<lambda>x. x \<noteq> need) (d_stack s) @ [need]
      in if cycle \<in> set (d_cycles s) then s else s\<lparr>d_cycles := d_cycles s @ [cycle]\<rparr>)"

definition descend :: "string \<Rightarrow> search \<Rightarrow> search" where
  "descend need s = s\<lparr>d_colour := dict_set need GRAY (d_colour s), d_stack := d_stack s @ [need],
     d_frames := (need, 0) # d_frames s\<rparr>"

definition finish :: "string \<Rightarrow> search \<Rightarrow> search" where
  "finish node s = s\<lparr>d_stack := butlast (d_stack s), d_colour := dict_set node BLACK (d_colour s),
     d_frames := tl (d_frames s)\<rparr>"

text \<open>One turn of the loops: the next need of the top frame, or its completion.\<close>

definition turn :: "tickets \<Rightarrow> search \<Rightarrow> search" where
  "turn ts s =
     (case d_frames s of
        [] \<Rightarrow> s
      | (node, idx) # rest \<Rightarrow>
          if idx < length (needs_of ts node) then
            let need = needs_of ts node ! idx; s1 = s\<lparr>d_frames := (node, Suc idx) # rest\<rparr> in
            if dict_get ts need = None then s1
            else if dict_get (d_colour s) need = Some GRAY then report need s1
            else if dict_get (d_colour s) need = Some WHITE then descend need s1
            else s1
          else finish node s)"

function search_from :: "tickets \<Rightarrow> search \<Rightarrow> search" where
  "search_from ts s = (if d_frames s = [] then s else search_from ts (turn ts s))"
  by pat_completeness auto

definition whites :: "(string, colour) dict \<Rightarrow> nat" where
  "whites c = length (filter (\<lambda>e. snd e = WHITE) c)"

definition pending_needs :: "tickets \<Rightarrow> (string \<times> nat) list \<Rightarrow> nat" where
  "pending_needs ts fr = sum_list (map (\<lambda>(node, idx). Suc (length (needs_of ts node) - idx)) fr)"

lemma whites_set_le: "v \<noteq> WHITE \<Longrightarrow> whites (dict_set k v c) \<le> whites c"
  by (induction c) (auto simp: whites_def)

lemma whites_set_less: "v \<noteq> WHITE \<Longrightarrow> dict_get c k = Some WHITE \<Longrightarrow> whites (dict_set k v c) < whites c"
  by (induction c) (auto simp: whites_def split: if_splits)

lemma report_simps [simp]:
  "d_colour (report need s) = d_colour s" "d_frames (report need s) = d_frames s" "d_stack (report need s) = d_stack s"
  by (simp_all add: report_def Let_def)

lemma turn_smaller:
  "d_frames s \<noteq> [] \<Longrightarrow>
   whites (d_colour (turn ts s)) < whites (d_colour s) \<or>
   whites (d_colour (turn ts s)) \<le> whites (d_colour s) \<and>
     pending_needs ts (d_frames (turn ts s)) < pending_needs ts (d_frames s)"
  by (cases "d_frames s")
     (auto simp: turn_def Let_def pending_needs_def descend_def finish_def whites_set_le whites_set_less
       split: prod.splits)

termination search_from
proof (relation "inv_image (less_than <*lex*> less_than)
    (\<lambda>(ts, s). (whites (d_colour s), pending_needs ts (d_frames s)))")
  fix ts :: tickets and s :: search
  assume "d_frames s \<noteq> []"
  from turn_smaller [OF this, of ts]
  show "((ts, turn ts s), (ts, s)) \<in> inv_image (less_than <*lex*> less_than)
      (\<lambda>(ts, s). (whites (d_colour s), pending_needs ts (d_frames s)))"
    by (auto simp: le_less)
qed auto

declare search_from.simps [simp del] chase.simps [simp del]

definition visit :: "tickets \<Rightarrow> search \<Rightarrow> string \<Rightarrow> search" where
  "visit ts s start =
     (if dict_get (d_colour s) start \<noteq> Some WHITE then s
      else search_from ts (s\<lparr>d_colour := dict_set start GRAY (d_colour s), d_stack := [start],
             d_frames := [(start, 0)]\<rparr>))"

definition unvisited :: "tickets \<Rightarrow> search" where
  "unvisited ts = \<lparr>d_colour = map (\<lambda>(tid, _). (tid, WHITE)) ts, d_stack = [], d_frames = [], d_cycles = []\<rparr>"

definition needs_cycles :: "tickets \<Rightarrow> string list list" where
  "needs_cycles ts = d_cycles (foldl (visit ts) (unvisited ts) (map fst ts))"

definition missing_needs :: "tickets \<Rightarrow> string \<times> ticket \<Rightarrow> graph_error list" where
  "missing_needs ts e = (case e of (tid, t) \<Rightarrow>
     map (\<lambda>need. Missing_Need tid need (tk_line_no t)) (filter (\<lambda>need. dict_get ts need = None) (tk_needs t)))"

definition board_graph_errors :: "tickets \<Rightarrow> graph_error list" where
  "board_graph_errors ts =
     concat (map (successor_errors ts) (superseded ts)) @
     map Supersession_Cycle (List.map_filter (\<lambda>(start, _). chase (superseded ts) [] start) (superseded ts)) @
     concat (map (missing_needs ts) ts) @
     reserve ts [] ts @
     map Needs_Cycle (needs_cycles ts)"

end
