(* ===== verification/Phases.thy ===== *)
theory Phases
  imports Text
begin

text \<open>
  The phase automaton and the \<open>PHASE\<close> form of \<open>next_action\<close>: \<open>phases.py\<close> over the tables of
  \<open>saipen/REGISTRY.json\<close>.  Phases are strings, as in the code; the tables are the registry's.
  A message of the code is one constructor of \<open>na_error\<close>.
\<close>

section \<open>The registry tables\<close>

definition VALID_TRANSITIONS :: "(string, string list) dict" where
  "VALID_TRANSITIONS =
    [(''INIT'', [''PLAN'', ''BLOCKED'']),
     (''PLAN'', [''SCOUT'', ''BUILD'', ''DONE'', ''BLOCKED'']),
     (''SCOUT'', [''BUILD'', ''BLOCKED'']),
     (''BUILD'', [''VERIFY'', ''BLOCKED'']),
     (''VERIFY'', [''REVIEW'', ''SCOUT'', ''BUILD'', ''BLOCKED'']),
     (''REVIEW'', [''SHIP'', ''BUILD'', ''SCOUT'', ''BLOCKED'']),
     (''SHIP'', [''DONE'', ''BUILD'', ''BLOCKED'']),
     (''DONE'', [''SCOUT'', ''PLAN'', ''HUNT'', ''BLOCKED'']),
     (''BLOCKED'', [''PLAN'', ''SCOUT'', ''DONE'']),
     (''VALIDATE'', [''SCOUT'', ''PLAN'', ''DONE'', ''BLOCKED'']),
     (''HUNT'', [''ADD'', ''PLAN'', ''SCOUT'', ''BLOCKED'']),
     (''MARKHUNT'', [''DONE'', ''BLOCKED'']),
     (''ADD'', [''BUILD'', ''PLAN'', ''SCOUT'', ''DONE'', ''BLOCKED'']),
     (''CLEAN'', [''DONE'', ''BLOCKED'']),
     (''TRANSLATE'', [''DONE'', ''BLOCKED'']),
     (''PREPARE'', [''DONE'', ''BLOCKED''])]"

definition ALL_PHASES :: "string list" where
  "ALL_PHASES = dict_keys VALID_TRANSITIONS"

definition ANY_FROM :: "string list" where
  "ANY_FROM = [''VALIDATE'', ''MARKHUNT'', ''CLEAN'', ''TRANSLATE'', ''PREPARE'', ''PLAN'', ''HUNT'']"

definition TICKET_BEARING_PHASES :: "string list" where
  "TICKET_BEARING_PHASES = [''SCOUT'', ''BUILD'', ''VERIFY'', ''REVIEW'', ''SHIP'']"

section \<open>The \<open>PHASE\<close> grammar\<close>

text \<open>
  The pattern of \<open>next_action_forms.grammar\<close>,
  \<^verbatim>\<open>^PHASE\s+([A-Za-z_-]+)(?:\s+(T-\d+))?(?:\s+\[[^\]]*\])?\s*$\<close>.
  Each repetition is followed by a character outside its class or by the end, so the greedy spans
  below are the only match.
\<close>

definition phase_char :: "char \<Rightarrow> bool" where
  "phase_char c \<longleftrightarrow> is_alpha c \<or> c = CHR ''_'' \<or> c = CHR ''-''"

definition tag_then_end :: "string \<Rightarrow> bool" where
  "tag_then_end s =
     (let (sp, rest) = span is_space s in
        rest = [] \<or>
        (sp \<noteq> [] \<and> startswith rest ''['' \<and>
           (case dropWhile (\<lambda>c. c \<noteq> CHR '']'') (tl rest) of
              [] \<Rightarrow> False
            | _ # rest' \<Rightarrow> list_all is_space rest')))"

definition phase_na_match :: "string \<Rightarrow> (string \<times> string option) option" where
  "phase_na_match s =
     (if \<not> startswith s ''PHASE'' then None
      else case span is_space (drop 5 s) of (sp, r1) \<Rightarrow>
        if sp = [] then None
        else case span phase_char r1 of (ph, r2) \<Rightarrow>
          if ph = [] then None
          else case span is_space r2 of (sp2, r3) \<Rightarrow>
            (case (if sp2 = [] then None else ticket_ref r3) of
               Some (ref, r4) \<Rightarrow> if tag_then_end r4 then Some (ph, Some ref) else None
             | None \<Rightarrow> if tag_then_end r2 then Some (ph, None) else None))"

datatype na_error =
    NotGrammar string
  | LowerCasePhase string
  | UnknownPhase string string
  | MissingTicket string string
  | UnexpectedTicket string string string

definition phase_next_action_error :: "string \<Rightarrow> na_error option" where
  "phase_next_action_error v =
     (case phase_na_match (strip v) of
        None \<Rightarrow> Some (NotGrammar v)
      | Some (ph, ref) \<Rightarrow>
          if ph \<noteq> upper ph then Some (LowerCasePhase v)
          else if ph \<notin> set ALL_PHASES then Some (UnknownPhase v ph)
          else if ph \<in> set TICKET_BEARING_PHASES \<and> ref = None then Some (MissingTicket v ph)
          else case ref of
            Some r \<Rightarrow> if ph \<notin> set TICKET_BEARING_PHASES then Some (UnexpectedTicket v r ph) else None
          | None \<Rightarrow> None)"

section \<open>Transitions and the forward route\<close>

definition transition_legal :: "string \<Rightarrow> string \<Rightarrow> bool" where
  "transition_legal source destination =
     (if destination \<in> set ANY_FROM then True
      else if source = destination then
        source \<in> set (dict_keys VALID_TRANSITIONS) \<or> source \<in> set ANY_FROM
      else (case dict_get VALID_TRANSITIONS source of
              None \<Rightarrow> False | Some row \<Rightarrow> destination \<in> set row))"

text \<open>
  \<open>forward_route\<close> answers the entry command, nothing, or
  \<open>saipen transition <dest> <subject> '<why>'\<close>.
\<close>

datatype route = Entry_Command | Transition string string

definition is_ticket_ref :: "string \<Rightarrow> bool" where
  "is_ticket_ref s = (case ticket_ref s of Some (_, rest) \<Rightarrow> rest = [] | None \<Rightarrow> False)"

definition forward_route :: "string option \<Rightarrow> string option \<Rightarrow> route option" where
  "forward_route phase ticket =
     (let subject = strip (case ticket of None \<Rightarrow> [] | Some t \<Rightarrow> t) in
      if \<not> is_ticket_ref subject then Some Entry_Command
      else case (case dict_get VALID_TRANSITIONS (case phase of None \<Rightarrow> [] | Some p \<Rightarrow> p) of
                   None \<Rightarrow> [] | Some row \<Rightarrow> row) of
             [] \<Rightarrow> None
           | d # _ \<Rightarrow> Some (Transition d subject))"

definition phase_document :: "string \<Rightarrow> string" where
  "phase_document phase = ''phases/'' @ lower phase @ ''.md''"

section \<open>Runs of the automaton\<close>

inductive phase_run :: "string list \<Rightarrow> bool" where
  single: "p \<in> set ALL_PHASES \<Longrightarrow> phase_run [p]"
| extend: "phase_run (ps @ [p]) \<Longrightarrow> transition_legal p q \<Longrightarrow> phase_run (ps @ [p, q])"

text \<open>
  A state that can be entered only from one gate (or kept): every run that reaches it from
  elsewhere has passed the gate.  The contract is stated once and interpreted for the three gates
  of the delivery corridor.
\<close>

locale gated =
  fixes step :: "'a \<Rightarrow> 'a \<Rightarrow> bool" and goal gate :: 'a
  assumes only_gate: "step a goal \<Longrightarrow> a = goal \<or> a = gate"
begin

lemma run_passes_gate:
  assumes "\<And>i. Suc i < length run \<Longrightarrow> step (run ! i) (run ! Suc i)"
    and "k < length run" and "run ! k = goal" and "run ! 0 \<noteq> goal"
  shows "\<exists>i < k. run ! i = gate \<and> run ! Suc i = goal"
  using assms(2-)
proof (induction k)
  case (Suc k)
  then have "step (run ! k) goal" using assms(1) [of k] by simp
  then have "run ! k = goal \<or> run ! k = gate" by (rule only_gate)
  then show ?case
  proof
    assume "run ! k = goal"
    with Suc show ?thesis by (metis Suc_lessD less_Suc_eq)
  qed (use Suc.prems in blast)
qed simp

end

lemmas phase_tables = VALID_TRANSITIONS_def ANY_FROM_def ALL_PHASES_def dict_keys_def
  TICKET_BEARING_PHASES_def

lemma row_of: "dict_get VALID_TRANSITIONS p = Some row \<Longrightarrow> (p, row) \<in> set VALID_TRANSITIONS"
  by (rule map_of_SomeD)

lemma ship_only_from_review:
  "transition_legal p ''SHIP'' \<Longrightarrow> p = ''SHIP'' \<or> p = ''REVIEW''"
  by (auto simp: transition_legal_def phase_tables split: option.splits if_splits)

lemma review_only_from_verify:
  "transition_legal p ''REVIEW'' \<Longrightarrow> p = ''REVIEW'' \<or> p = ''VERIFY''"
  by (auto simp: transition_legal_def phase_tables split: option.splits if_splits)

lemma verify_only_from_build:
  "transition_legal p ''VERIFY'' \<Longrightarrow> p = ''VERIFY'' \<or> p = ''BUILD''"
  by (auto simp: transition_legal_def phase_tables split: option.splits if_splits)

interpretation ship_gate: gated transition_legal "''SHIP''" "''REVIEW''"
  by unfold_locales (rule ship_only_from_review)

interpretation review_gate: gated transition_legal "''REVIEW''" "''VERIFY''"
  by unfold_locales (rule review_only_from_verify)

interpretation verify_gate: gated transition_legal "''VERIFY''" "''BUILD''"
  by unfold_locales (rule verify_only_from_build)

lemma phase_run_steps:
  "phase_run run \<Longrightarrow> Suc i < length run \<Longrightarrow> transition_legal (run ! i) (run ! Suc i)"
proof (induction rule: phase_run.induct)
  case (extend ps p q)
  then show ?case by (cases "Suc i = length ps + 1") (auto simp: nth_append split: if_splits)
qed simp

text \<open>
  No run of legal transitions that starts outside the delivery corridor reaches \<open>SHIP\<close>
  without having gone through \<open>BUILD\<close>, then \<open>VERIFY\<close>, then \<open>REVIEW\<close>, in this order, each entered
  directly from the one before.
\<close>

theorem ship_needs_build_verify_review:
  assumes run: "phase_run run" and k: "k < length run" "run ! k = ''SHIP''"
    and start: "run ! 0 \<notin> {''SHIP'', ''REVIEW'', ''VERIFY''}"
  shows "\<exists>b v r. b < v \<and> v < r \<and> r < k \<and> run ! b = ''BUILD'' \<and> run ! v = ''VERIFY'' \<and>
    run ! r = ''REVIEW'' \<and> run ! Suc b = ''VERIFY'' \<and> run ! Suc v = ''REVIEW'' \<and> run ! Suc r = ''SHIP''"
proof -
  note steps = phase_run_steps [OF run]
  obtain r where r: "r < k" "run ! r = ''REVIEW''" "run ! Suc r = ''SHIP''"
    using ship_gate.run_passes_gate [OF steps k] start by auto
  obtain v where v: "v < r" "run ! v = ''VERIFY''" "run ! Suc v = ''REVIEW''"
    using review_gate.run_passes_gate [OF steps _ r(2)] start r(1) k(1) by auto
  obtain b where b: "b < v" "run ! b = ''BUILD''" "run ! Suc b = ''VERIFY''"
    using verify_gate.run_passes_gate [OF steps _ v(2)] start v(1) r(1) k(1) by auto
  from r v b show ?thesis by blast
qed

definition demo_run :: "string list" where
  "demo_run = [''PLAN'', ''BUILD'', ''VERIFY'', ''REVIEW'', ''SHIP'']"

theorem ship_needs_build_verify_review_witness:
  "\<exists>b v r. b < v \<and> v < r \<and> r < 4 \<and> demo_run ! b = ''BUILD'' \<and> demo_run ! v = ''VERIFY'' \<and> demo_run ! r = ''REVIEW''"
proof -
  have "phase_run ([''PLAN'', ''BUILD'', ''VERIFY''] @ [''REVIEW'', ''SHIP''])"
  proof (rule phase_run.extend)
    have "phase_run ([''PLAN'', ''BUILD''] @ [''VERIFY'', ''REVIEW''])"
    proof (rule phase_run.extend)
      have "phase_run ([''PLAN''] @ [''BUILD'', ''VERIFY''])"
      proof (rule phase_run.extend)
        have "phase_run ([] @ [''PLAN'', ''BUILD''])"
          by (rule phase_run.extend) (simp_all add: phase_run.single phase_tables transition_legal_def)
        then show "phase_run ([''PLAN''] @ [''BUILD''])" by simp
      qed (simp add: phase_tables transition_legal_def)
      then show "phase_run ([''PLAN'', ''BUILD''] @ [''VERIFY''])" by simp
    qed (simp add: phase_tables transition_legal_def)
    then show "phase_run ([''PLAN'', ''BUILD'', ''VERIFY''] @ [''REVIEW''])" by simp
  qed (simp add: phase_tables transition_legal_def)
  then have run: "phase_run demo_run" by (simp add: demo_run_def)
  have k: "4 < length demo_run" "demo_run ! 4 = ''SHIP''" "demo_run ! 0 \<notin> {''SHIP'', ''REVIEW'', ''VERIFY''}"
    by (simp_all add: demo_run_def)
  from ship_needs_build_verify_review [OF run k] show ?thesis by blast
qed

section \<open>The grammar\<close>

text \<open>A phase and its optional ticket number as the engine writes them.\<close>

definition render_phase :: "string \<Rightarrow> nat option \<Rightarrow> string" where
  "render_phase ph ref = ''PHASE '' @ ph @ (case ref of None \<Rightarrow> [] | Some n \<Rightarrow> '' T-'' @ show_nat n)"

lemma phase_char_not_space: "phase_char c \<Longrightarrow> \<not> is_space c"
  unfolding phase_char_def by (elim disjE) (simp, simp_all add: is_space_def)

lemma span_all: "list_all P xs \<Longrightarrow> span P xs = (xs, [])"
  using span_append [of P xs "[]"] by simp

lemma span_hd: "ys \<noteq> [] \<Longrightarrow> \<not> P (hd ys) \<Longrightarrow> P c \<Longrightarrow> span P (c # ys) = ([c], ys)"
  using span_append [of P "[c]" ys] by simp

lemma match_rendered:
  assumes "ph \<noteq> []" and "list_all phase_char ph"
  shows "phase_na_match (strip (render_phase ph ref)) =
    Some (ph, case ref of None \<Rightarrow> None | Some n \<Rightarrow> Some (''T-'' @ show_nat n))"
proof -
  let ?tail = "case ref of None \<Rightarrow> [] | Some n \<Rightarrow> '' T-'' @ show_nat n"
  have hd: "\<not> is_space (hd ph)" and last: "\<not> is_space (last ph)"
    using assms phase_char_not_space by (auto simp: list_all_iff)
  have dl: "show_nat n \<noteq> []" "list_all is_digit (show_nat n)" for n using show_nat_digits [of n] by simp_all
  have ld: "\<not> is_space (last (show_nat n))" for n using dl [of n] by (simp add: list_all_iff)
  have "\<not> is_space (last (render_phase ph ref))"
    using assms last dl ld by (cases ref) (simp_all add: render_phase_def)
  then have st: "strip (render_phase ph ref) = render_phase ph ref"
    by (intro strip_id) (simp_all add: render_phase_def is_space_def)
  have s1: "span is_space (drop 5 (render_phase ph ref)) = ('' '', ph @ ?tail)"
    using span_hd [of "ph @ ?tail" is_space "CHR '' ''"] assms hd by (simp add: render_phase_def is_space_def)
  have s2: "span phase_char (ph @ ?tail) = (ph, ?tail)"
    using assms by (intro span_append) (auto simp: phase_char_def is_alpha_def is_upper_def is_lower_def split: option.splits)
  have sp: "startswith (render_phase ph ref) ''PHASE''" by (simp add: render_phase_def)
  have nil: "span is_space [] = ([], [])" "tag_then_end []" by (simp_all add: span_def tag_then_end_def)
  show ?thesis
  proof (cases ref)
    case None
    have "span is_space (drop 5 (render_phase ph None)) = ('' '', ph)" "span phase_char ph = (ph, [])"
      using s1 s2 by (simp_all add: None)
    then show ?thesis using assms(1) st sp nil by (simp add: None phase_na_match_def)
  next
    case (Some n)
    have "span is_space ('' T-'' @ show_nat n) = ('' '', ''T-'' @ show_nat n)"
      using span_hd [of "''T-'' @ show_nat n" is_space "CHR '' ''"] by (simp add: is_space_def)
    moreover have "ticket_ref (''T-'' @ show_nat n) = Some (''T-'' @ show_nat n, [])"
      using span_all [OF dl(2)] dl(1) by (simp add: ticket_ref_def)
    moreover have "span is_space (drop 5 (render_phase ph (Some n))) = ('' '', ph @ '' T-'' @ show_nat n)"
      "span phase_char (ph @ '' T-'' @ show_nat n) = (ph, '' T-'' @ show_nat n)"
      using s1 s2 by (simp_all add: Some)
    ultimately show ?thesis using assms(1) st sp nil by (simp add: Some phase_na_match_def)
  qed
qed

lemma phase_names: "ph \<in> set ALL_PHASES \<Longrightarrow> ph \<noteq> [] \<and> list_all phase_char ph \<and> upper ph = ph"
  by (auto simp: phase_tables phase_char_def is_alpha_def is_upper_def is_lower_def upper_def to_upper_def)

text \<open>
  The \<open>PHASE\<close> form accepts a known phase exactly when a ticket is named if and only if the phase
  bears one, and never accepts a phase outside the registry.
\<close>

theorem phase_grammar_exact:
  assumes "ph \<noteq> []" and "list_all phase_char ph"
  shows "phase_next_action_error (render_phase ph ref) = None \<longleftrightarrow>
    ph \<in> set ALL_PHASES \<and> (ph \<in> set TICKET_BEARING_PHASES \<longleftrightarrow> ref \<noteq> None)"
  using phase_names [of ph]
  by (auto simp: phase_next_action_error_def match_rendered [OF assms] split: option.splits)

theorem phase_grammar_exact_witness:
  "phase_next_action_error (render_phase ''BUILD'' (Some 42)) = None \<and>
   phase_next_action_error (render_phase ''BUILD'' None) \<noteq> None \<and>
   phase_next_action_error (render_phase ''PLAN'' (Some 42)) \<noteq> None"
proof -
  have "''BUILD'' \<in> set ALL_PHASES" "''PLAN'' \<in> set ALL_PHASES" "''BUILD'' \<in> set TICKET_BEARING_PHASES"
    "''PLAN'' \<notin> set TICKET_BEARING_PHASES" by (simp_all add: phase_tables)
  then show ?thesis
    using phase_grammar_exact [of "''BUILD''"] phase_grammar_exact [of "''PLAN''"] phase_names by blast
qed

section \<open>The forward route\<close>

lemma forward_destinations:
  "\<forall>(p, row) \<in> set VALID_TRANSITIONS. row \<noteq> [] \<and> hd row \<noteq> ''BLOCKED'' \<and> hd row \<in> set ALL_PHASES \<and> transition_legal p (hd row)"
  by (simp add: phase_tables transition_legal_def)

text \<open>
  From every known phase a ticket has a forward route, and the transition it names is legal,
  leads to a known phase and never to \<open>BLOCKED\<close>; without a ticket the route is the entry command.
\<close>

theorem forward_route_legal:
  assumes "p \<in> set ALL_PHASES"
  shows "if is_ticket_ref (strip t)
    then \<exists>d. forward_route (Some p) (Some t) = Some (Transition d (strip t)) \<and> transition_legal p d \<and>
      d \<in> set ALL_PHASES \<and> d \<noteq> ''BLOCKED''
    else forward_route (Some p) (Some t) = Some Entry_Command"
proof -
  from assms obtain row where row: "dict_get VALID_TRANSITIONS p = Some row"
    by (cases "dict_get VALID_TRANSITIONS p") (auto simp: ALL_PHASES_def dict_keys_def map_of_eq_None_iff)
  from map_of_SomeD [OF row] forward_destinations
  have "row \<noteq> []" "hd row \<noteq> ''BLOCKED''" "hd row \<in> set ALL_PHASES" "transition_legal p (hd row)" by auto
  then show ?thesis by (cases row) (simp_all add: forward_route_def Let_def row)
qed

theorem forward_route_legal_witness:
  "\<exists>d. forward_route (Some ''BUILD'') (Some ''T-7'') = Some (Transition d ''T-7'') \<and> transition_legal ''BUILD'' d"
proof -
  have "''BUILD'' \<in> set ALL_PHASES" by (simp add: phase_tables)
  moreover have "is_ticket_ref (strip ''T-7'')" "strip ''T-7'' = ''T-7''" by code_simp+
  ultimately show ?thesis using forward_route_legal [of "''BUILD''" "''T-7''"] by auto
qed

end
