(* ===== verification/BoardRules.thy ===== *)
theory BoardRules
  imports BoardGraph Phases Stamps Identity
begin

text \<open>
  The lifecycle rules of one ticket (\<open>board.py\<close>): \<open>board_semantic_errors\<close> with its scalar scan,
  status rule and \<open>closure_metadata_errors\<close>, and the accessors they share with the scheduler.  An error
  is the name of the rule that fails, with the field names it lists.
\<close>

datatype rule_error = Rule string "string list"

definition rule :: "bool \<Rightarrow> string \<Rightarrow> rule_error list" where
  "rule broken name = (if broken then [Rule name []] else [])"

definition rule_on :: "bool \<Rightarrow> string \<Rightarrow> string list \<Rightarrow> rule_error list" where
  "rule_on broken name fs = (if broken then [Rule name fs] else [])"

section \<open>Field vocabularies\<close>

text \<open>\<open>re.fullmatch\<close> of a literal tag and digits, and of the other identities.\<close>

definition numbered_tag :: "string \<Rightarrow> string \<Rightarrow> bool" where
  "numbered_tag tag s \<longleftrightarrow>
     startswith s tag \<and> drop (length tag) s \<noteq> [] \<and> list_all is_digit (drop (length tag) s)"

definition external_authority_re :: "string \<Rightarrow> bool" where
  "external_authority_re s \<longleftrightarrow> lineage_re s"

definition external_implementation_re :: "string \<Rightarrow> bool" where
  "external_implementation_re s =
     (case ticket_ref s of
        None \<Rightarrow> False
      | Some (_, rest) \<Rightarrow>
          startswith rest ''@'' \<and> 7 \<le> length (tl rest) \<and> length (tl rest) \<le> 40 \<and> list_all is_hex (tl rest))"

definition external_evidence_re :: "string \<Rightarrow> bool" where
  "external_evidence_re s \<longleftrightarrow> numbered_tag ''EX-'' s \<and> length s = 9"

definition BLOCKER_SCOPES :: "string list" where
  "BLOCKER_SCOPES = [''ticket'', ''goal'']"

definition CLOSURE_MODES :: "string list" where
  "CLOSURE_MODES = [''own_patch'', ''inherited_verified'', ''cohort'', ''superseded_verified'',
     ''external_implementation'', ''finding_invalidated'']"

definition PUBLICATION_STATES :: "string list" where
  "PUBLICATION_STATES = [''published'', ''pending'']"

definition PUBLICATION_PROHIBITION_STATES :: "string list" where
  "PUBLICATION_PROHIBITION_STATES = [''forbidden'']"

definition WITNESSES :: "string list" where
  "WITNESSES = [''operator_carrier'', ''transport_obligation'', ''model_supplied'']"

definition RESOLUTION_REASONS :: "string list" where
  "RESOLUTION_REASONS = [''PROTOCOL_HOME_FIX_VERIFIED'', ''DEPENDENCY_UPGRADE_VERIFIED'', ''UPSTREAM_FIX_VERIFIED'']"

definition CLOSURE_METADATA_FIELDS :: "string list" where
  "CLOSURE_METADATA_FIELDS =
    [''closure_mode'', ''closure_cohort'', ''implementation_delta'', ''implementation_source'',
     ''closure_paths'', ''superseded_by'', ''supersession_evidence'', ''supersession_authority'',
     ''external_authority'', ''external_implementation'', ''external_evidence'', ''resolution_reason'',
     ''invalidation_evidence'', ''publication_state'']"

definition EXTERNAL_DECLARATION_FIELDS :: "string list" where
  "EXTERNAL_DECLARATION_FIELDS = [''external_authority'', ''external_implementation'']"

section \<open>Blocker classes\<close>

definition NON_CLOSURE_BLOCKER_TOKENS :: "string list" where
  "NON_CLOSURE_BLOCKER_TOKENS =
    [''HELD'', ''FUTURE_GATE'', ''PERMANENT_WARNING_OWNER'', ''WAIT_USER_CONFIRMATION'',
     ''WAIT_USER_DECISION'', ''ACTIVE'', ''WAIT_ROLE'', ''BLOCKED_EXTERNAL'']"

definition CLOSURE_EXEMPT_BLOCKER_CLASSES :: "string list" where
  "CLOSURE_EXEMPT_BLOCKER_CLASSES =
    [''HELD'', ''FUTURE_GATE'', ''PERMANENT_WARNING_OWNER'', ''WAIT_USER_CONFIRMATION'', ''WAIT_USER_DECISION'']"

definition DEFERRED_OPERATOR_BLOCKER_CLASSES :: "string list" where
  "DEFERRED_OPERATOR_BLOCKER_CLASSES = [''WAIT_USER_CONFIRMATION'', ''WAIT_USER_DECISION'', ''BLOCKED_EXTERNAL'']"

definition blocker_head :: "string \<Rightarrow> string" where
  "blocker_head blocker = strip (hd (split_str '' -- '' (strip blocker)))"

definition role_char :: "char \<Rightarrow> bool" where
  "role_char c \<longleftrightarrow> is_alnum c \<or> c = CHR ''_'' \<or> c = CHR ''-''"

text \<open>\<open>^WAIT_ROLE:([A-Za-z0-9_-]+)\<close>, the role and what follows.\<close>

definition wait_role :: "string \<Rightarrow> (string \<times> string) option" where
  "wait_role head =
     (if startswith head ''WAIT_ROLE:'' then
        (case span role_char (drop 10 head) of (role, rest) \<Rightarrow> if role = [] then None else Some (role, rest))
      else None)"

definition blocker_class :: "string \<Rightarrow> string option" where
  "blocker_class blocker =
     (let head = blocker_head blocker in
      if upper head \<in> set NON_CLOSURE_BLOCKER_TOKENS then Some (upper head)
      else case wait_role head of Some (_, []) \<Rightarrow> Some ''WAIT_ROLE'' | _ \<Rightarrow> None)"

definition deferred_operator_class :: "string \<Rightarrow> string option" where
  "deferred_operator_class blocker =
     (let head = upper (blocker_head blocker)
      in if head \<in> set DEFERRED_OPERATOR_BLOCKER_CLASSES then Some head else None)"

definition wait_role_target :: "string \<Rightarrow> string option" where
  "wait_role_target blocker = map_option fst (wait_role (blocker_head blocker))"

section \<open>The scalar scan\<close>

definition RESERVED_FIELD_MARKERS :: "string list" where
  "RESERVED_FIELD_MARKERS = [''source_receipts'', ''owner'', ''claim_time'', ''needs'']"

text \<open>\<open>\s*(source_receipts|owner|claim_time|needs)\s*:\<close> here: the marker and what follows the colon.\<close>

fun marker_among :: "string list \<Rightarrow> string \<Rightarrow> (string \<times> string) option" where
  "marker_among [] s = None"
| "marker_among (m # ms) s =
     (let rest = lstrip (drop (length m) s) in
      if startswith s m \<and> startswith rest '':'' then Some (m, tl rest) else marker_among ms s)"

definition marker_at :: "string \<Rightarrow> (string \<times> string) option" where
  "marker_at s = marker_among RESERVED_FIELD_MARKERS (lstrip s)"

lemma lstrip_length: "length (lstrip s) \<le> length s"
  by (simp add: lstrip_def length_dropWhile_le)

lemma marker_among_shorter: "marker_among ms s = Some (m, rest) \<Longrightarrow> length rest \<le> length s"
proof (induction ms)
  case (Cons k ms)
  have "length (tl (lstrip (drop (length k) s))) \<le> length s"
    using lstrip_length [of "drop (length k) s"] by simp
  with Cons show ?case by (auto simp: Let_def split: if_splits)
qed simp

lemma marker_at_shorter: "marker_at s = Some (m, rest) \<Longrightarrow> length rest \<le> length s"
  using marker_among_shorter [of _ "lstrip s" m rest] lstrip_length [of s] by (fastforce simp: marker_at_def)

function markers_from :: "string \<Rightarrow> string list" where
  "markers_from s =
     (case s of
        [] \<Rightarrow> []
      | c # cs \<Rightarrow>
          if c = CHR '';'' \<or> c = CHR '','' then
            (case marker_at cs of Some (m, rest) \<Rightarrow> m # markers_from rest | None \<Rightarrow> markers_from cs)
          else markers_from cs)"
  by pat_completeness auto
termination
  by (relation "measure length") (auto dest: marker_at_shorter)

declare markers_from.simps [simp del]

text \<open>\<open>finditer\<close> of the pseudo-field pattern: the start of the value is one more place to look.\<close>

definition pseudo_markers :: "string \<Rightarrow> string list" where
  "pseudo_markers s =
     (case marker_at s of Some (m, rest) \<Rightarrow> m # markers_from rest | None \<Rightarrow> markers_from s)"

definition scalar_errors :: "string \<times> string \<Rightarrow> rule_error list" where
  "scalar_errors nv = (case nv of (name, v) \<Rightarrow>
     rule_on (record_separator_in v \<noteq> None) ''separator'' [name] @
     map (\<lambda>m. Rule ''pseudo field'' [name, m]) (pseudo_markers v))"

definition board_scalar_errors :: "(string, string) dict \<Rightarrow> rule_error list" where
  "board_scalar_errors fs = concat (map scalar_errors fs)"

section \<open>Placement and vocabulary of closure metadata\<close>

definition present :: "ticket \<Rightarrow> string list \<Rightarrow> string list" where
  "present t names = filter (\<lambda>n. field_text t n \<noteq> []) names"

definition absent :: "ticket \<Rightarrow> string list \<Rightarrow> string list" where
  "absent t names = filter (\<lambda>n. field_text t n = []) names"

definition blocked_errors :: "ticket \<Rightarrow> rule_error list" where
  "blocked_errors t =
     (let scope = field_text t ''blocker_scope''; due = field_text t ''retry_not_before'';
          blocked = tk_section t = ''## BLOCKED'' in
      (if scope = [] then []
       else if \<not> blocked then [Rule ''scope outside BLOCKED'' []]
       else rule (lower scope \<notin> set BLOCKER_SCOPES) ''scope vocabulary'') @
      (if due = [] then []
       else if \<not> blocked then [Rule ''due instant outside BLOCKED'' []]
       else if iso_utc_sort_key due = None then [Rule ''due instant not strict UTC'' []]
       else rule (deferred_operator_class
              (case dict_get (tk_fields t) ''blocker'' of None \<Rightarrow> [] | Some b \<Rightarrow> b) = None)
              ''due instant without operator class''))"

definition declaration_fields :: "ticket \<Rightarrow> string list" where
  "declaration_fields t = (if tk_section t = ''## BLOCKED'' then EXTERNAL_DECLARATION_FIELDS else [])"

definition declaration_errors :: "ticket \<Rightarrow> rule_error list" where
  "declaration_errors t =
     (if tk_section t = ''## BLOCKED'' then
        rule (field_text t ''external_authority'' \<noteq> [] \<and>
              \<not> external_authority_re (field_text t ''external_authority'')) ''declared authority'' @
        rule (field_text t ''external_implementation'' \<noteq> [] \<and>
              \<not> external_implementation_re (field_text t ''external_implementation'')) ''declared implementation''
      else [])"

definition declared_closure :: "ticket \<Rightarrow> string list" where
  "declared_closure t = present t (filter (\<lambda>n. n \<notin> set (declaration_fields t)) CLOSURE_METADATA_FIELDS)"

definition mode_errors :: "ticket \<Rightarrow> rule_error list" where
  "mode_errors t =
     (let mode = field_text t ''closure_mode''; delta = field_text t ''implementation_delta'';
          cohort = field_text t ''closure_cohort''; source = field_text t ''implementation_source'';
          published = field_text t ''publication_state''; prohibition = field_text t ''publication'';
          invalidation = field_text t ''invalidation_evidence'' in
      rule_on (declared_closure t \<noteq> [] \<and> tk_section t \<noteq> ''## DONE'') ''closure outside DONE'' (declared_closure t) @
      rule (mode \<noteq> [] \<and> lower mode \<notin> set CLOSURE_MODES) ''mode vocabulary'' @
      rule (delta \<noteq> [] \<and> lower delta \<notin> {''none'', ''patch''}) ''delta vocabulary'' @
      rule (cohort \<noteq> [] \<and> \<not> numbered_tag ''C-'' cohort) ''cohort identity'' @
      rule (lower mode = ''cohort'' \<and> cohort = []) ''cohort missing'' @
      rule (cohort \<noteq> [] \<and> lower mode \<noteq> ''cohort'') ''cohort mode'' @
      rule (lower mode = ''inherited_verified'' \<and> source = []) ''source missing'' @
      rule (source \<noteq> [] \<and> lower mode \<noteq> ''inherited_verified'') ''source mode'' @
      rule (published \<noteq> [] \<and> published \<notin> set PUBLICATION_STATES) ''publication vocabulary'' @
      rule (published \<noteq> [] \<and> lower mode \<noteq> ''own_patch'') ''publication mode'' @
      rule (prohibition \<noteq> [] \<and> lower prohibition \<notin> set PUBLICATION_PROHIBITION_STATES) ''prohibition vocabulary'' @
      rule (invalidation \<noteq> [] \<and> \<not> numbered_tag ''E-'' invalidation) ''invalidation identity'' @
      rule (lower mode = ''finding_invalidated'' \<and> invalidation = []) ''invalidation missing'' @
      rule (invalidation \<noteq> [] \<and> lower mode \<noteq> ''finding_invalidated'') ''invalidation mode'')"

definition SUPERSESSION_FIELDS :: "string list" where
  "SUPERSESSION_FIELDS = [''superseded_by'', ''supersession_evidence'', ''supersession_authority'']"

definition supersession_errors :: "ticket \<Rightarrow> rule_error list" where
  "supersession_errors t =
     (let by = field_text t ''superseded_by''; evidence = field_text t ''supersession_evidence'';
          authority = field_text t ''supersession_authority'' in
      if lower (field_text t ''closure_mode'') = ''superseded_verified'' then
        rule_on (absent t SUPERSESSION_FIELDS \<noteq> []) ''supersession missing'' (absent t SUPERSESSION_FIELDS) @
        rule (by \<noteq> [] \<and> \<not> numbered_tag ''T-'' by) ''successor identity'' @
        rule (by = tk_id t) ''supersedes itself'' @
        rule (evidence \<noteq> [] \<and> \<not> numbered_tag ''E-'' evidence) ''supersession evidence'' @
        rule (authority \<noteq> [] \<and> \<not> numbered_tag ''SRC-'' authority) ''supersession authority'' @
        rule (lower (field_text t ''implementation_delta'') \<noteq> ''none'') ''supersession delta''
      else rule_on (present t SUPERSESSION_FIELDS \<noteq> []) ''supersession mode'' (present t SUPERSESSION_FIELDS))"

definition EXTERNAL_FIELDS :: "string list" where
  "EXTERNAL_FIELDS = [''external_authority'', ''external_implementation'', ''external_evidence'', ''resolution_reason'']"

definition external_errors :: "ticket \<Rightarrow> rule_error list" where
  "external_errors t =
     (let authority = field_text t ''external_authority''; impl = field_text t ''external_implementation'';
          evidence = field_text t ''external_evidence''; reason = field_text t ''resolution_reason'' in
      if lower (field_text t ''closure_mode'') = ''external_implementation'' then
        rule_on (absent t EXTERNAL_FIELDS \<noteq> []) ''external missing'' (absent t EXTERNAL_FIELDS) @
        rule (authority \<noteq> [] \<and> \<not> external_authority_re authority) ''external authority'' @
        rule (impl \<noteq> [] \<and> \<not> external_implementation_re impl) ''external implementation'' @
        rule (evidence \<noteq> [] \<and> \<not> external_evidence_re evidence) ''external evidence'' @
        rule (reason \<noteq> [] \<and> reason \<notin> set RESOLUTION_REASONS) ''resolution reason'' @
        rule (lower (field_text t ''implementation_delta'') \<noteq> ''none'') ''external delta''
      else rule_on (present t EXTERNAL_FIELDS \<noteq> [] \<and>
             \<not> (tk_section t = ''## BLOCKED'' \<and> set (present t EXTERNAL_FIELDS) \<subseteq> set EXTERNAL_DECLARATION_FIELDS))
             ''external mode'' (present t EXTERNAL_FIELDS))"

definition request_errors :: "ticket \<Rightarrow> rule_error list" where
  "request_errors t =
     (let explicit = field_text t ''user_explicit''; witness = field_text t ''request_witness'' in
      (if witness = [] then []
       else rule (witness \<notin> set WITNESSES) ''witness vocabulary'' @
            rule (lower explicit = ''true'' \<and> witness \<noteq> ''operator_carrier'') ''unwitnessed explicit'') @
      rule (explicit \<noteq> [] \<and> lower explicit \<noteq> ''true'') ''explicit vocabulary'')"

definition RESERVATION_FIELDS :: "string list" where
  "RESERVATION_FIELDS = [''blocked_on'', ''resume_phase'', ''resume_transition_from'']"

definition reservation_errors :: "ticket \<Rightarrow> rule_error list" where
  "reservation_errors t =
     (let here = present t RESERVATION_FIELDS; on = field_text t ''blocked_on'';
          phase = field_text t ''resume_phase''; origin = field_text t ''resume_transition_from'' in
      rule_on (here \<noteq> [] \<and> tk_section t \<noteq> ''## BLOCKED'') ''reservation outside BLOCKED'' here @
      rule_on (here \<noteq> [] \<and> length here \<noteq> length RESERVATION_FIELDS) ''reservation partial'' (absent t RESERVATION_FIELDS) @
      rule (on \<noteq> [] \<and> \<not> numbered_tag ''T-'' on) ''reservation identity'' @
      (if phase = [] then []
       else if phase \<notin> set TICKET_BEARING_PHASES then [Rule ''resume phase'' []]
       else rule (\<not> transition_legal origin phase) ''resume transition''))"

definition closure_metadata_errors :: "ticket \<Rightarrow> rule_error list" where
  "closure_metadata_errors t =
     blocked_errors t @ declaration_errors t @ mode_errors t @ supersession_errors t @ external_errors t @
     request_errors t @ reservation_errors t"

section \<open>The rules of one ticket\<close>

definition ticket_has_blocker :: "ticket \<Rightarrow> bool" where
  "ticket_has_blocker t \<longleftrightarrow> dict_get (tk_fields t) ''blocker'' \<noteq> None"

definition ticket_status_error :: "ticket \<Rightarrow> string option" where
  "ticket_status_error t =
     (if tk_section t = ''## BLOCKED'' \<and> field_text t ''blocker'' = [] then Some ''blocker missing''
      else if tk_section t \<noteq> ''## BLOCKED'' \<and> ticket_has_blocker t then Some ''blocker outside BLOCKED''
      else None)"

definition box_errors :: "ticket \<Rightarrow> rule_error list" where
  "box_errors t =
     rule (tk_checkbox t = CHR ''x'' \<and> tk_section t \<noteq> ''## DONE'') ''checked outside DONE'' @
     rule (tk_checkbox t = CHR ''/'' \<and> tk_section t \<noteq> ''## DOING'') ''in progress outside DOING'' @
     rule (tk_checkbox t = CHR '' '' \<and> tk_section t \<in> {''## DONE'', ''## DOING''}) ''open box'' @
     rule (tk_section t = ''## DONE'' \<and> field_text t ''verify'' = []) ''no verify evidence''"

definition board_semantic_errors :: "ticket \<Rightarrow> rule_error list" where
  "board_semantic_errors t =
     box_errors t @
     (case ticket_status_error t of None \<Rightarrow> [] | Some e \<Rightarrow> [Rule e []]) @
     board_scalar_errors (dict_set ''description'' (tk_description t) (tk_fields t)) @
     (case dict_get (tk_fields t) ''regression_evidence'' of
        None \<Rightarrow> []
      | Some profile \<Rightarrow>
          rule (profile \<noteq> ''executed'' \<or> dict_get (tk_fields t) ''regression'' \<noteq> Some ''required'')
            ''regression evidence'') @
     closure_metadata_errors t"

end
