(* ===== verification/Scheduling.thy ===== *)
theory Scheduling
  imports BoardRules
begin

text \<open>
  Claims and the Pick Rule of \<open>board.py\<close>: \<open>claim_status\<close> with its liveness window,
  \<open>ticket_is_workable\<close>, \<open>pick_next_work\<close> with the continuation reservation, the operator gates and the
  work-closure predicate.  \<open>now\<close> is an instant in microseconds; an absent agent is the empty string.
\<close>

section \<open>Claims\<close>

datatype claim = UNCLAIMED | SELF | FOREIGN_LIVE | FOREIGN_STALE | INVALID

text \<open>Fifteen minutes, in microseconds.\<close>

definition CLAIM_LIVENESS_WINDOW :: int where
  "CLAIM_LIVENESS_WINDOW = 15 * 60 * 1000000"

definition claim_of :: "string \<Rightarrow> string \<Rightarrow> string \<Rightarrow> nat \<Rightarrow> claim" where
  "claim_of owner claim_time agent now =
     (if (owner \<noteq> []) \<noteq> (claim_time \<noteq> []) then INVALID
      else if owner = [] then UNCLAIMED
      else case iso_utc_sort_key claim_time of
        None \<Rightarrow> INVALID
      | Some t \<Rightarrow>
          if agent \<noteq> [] \<and> owner = agent then SELF
          else if CLAIM_LIVENESS_WINDOW \<le> int now - int (instant t) then FOREIGN_STALE
          else FOREIGN_LIVE)"

definition claim_status :: "ticket \<Rightarrow> string \<Rightarrow> nat \<Rightarrow> claim" where
  "claim_status t agent now = claim_of (field_text t ''owner'') (field_text t ''claim_time'') agent now"

definition claim_is_live :: "string \<Rightarrow> string \<Rightarrow> string \<Rightarrow> nat \<Rightarrow> bool" where
  "claim_is_live owner claim_time agent now =
     (if strip owner = [] \<or> strip claim_time = [] then False
      else if agent \<noteq> [] \<and> strip owner = agent then False
      else claim_of (strip (strip owner)) (strip (strip claim_time)) agent now = FOREIGN_LIVE)"

text \<open>\<open>session_locked_out\<close>; the binding of this process is a parameter.\<close>

definition session_locked_out :: "string option \<Rightarrow> ticket \<Rightarrow> nat \<Rightarrow> bool" where
  "session_locked_out binding t now =
     (let bound = field_text t ''claim_session'' in
      if bound = [] \<or> claim_status t [] now \<noteq> FOREIGN_LIVE then False else binding \<noteq> Some bound)"

section \<open>The Pick Rule\<close>

definition is_done :: "tickets \<Rightarrow> string \<Rightarrow> bool" where
  "is_done ts tid \<longleftrightarrow> (case dict_get ts tid of None \<Rightarrow> False | Some t \<Rightarrow> tk_section t = ''## DONE'')"

definition ticket_is_workable :: "tickets \<Rightarrow> string \<Rightarrow> nat \<Rightarrow> ticket \<Rightarrow> bool" where
  "ticket_is_workable ts agent now t \<longleftrightarrow>
     (let c = claim_status t agent now;
          claim_blocks = (c = INVALID \<or> tk_section t = ''## DOING'' \<and> c = FOREIGN_LIVE) in
      tk_section t = ''## TODO'' \<and> tk_checkbox t = CHR '' '' \<and> \<not> ticket_has_blocker t \<and>
      \<not> claim_blocks \<and> list_all (is_done ts) (tk_needs t))"

definition is_user_explicit :: "ticket \<Rightarrow> bool" where
  "is_user_explicit t \<longleftrightarrow>
     (let witness = field_text t ''request_witness'' in
      lower (field_text t ''user_explicit'') = ''true'' \<and> (witness = [] \<or> witness = ''operator_carrier''))"

definition workable_tickets :: "tickets \<Rightarrow> string \<Rightarrow> nat \<Rightarrow> string list" where
  "workable_tickets ts agent now =
     map (\<lambda>(_, t). tk_id t) (filter (\<lambda>(_, t). ticket_is_workable ts agent now t) ts)"

definition blocked_child :: "tickets \<Rightarrow> string \<Rightarrow> nat \<Rightarrow> string \<times> ticket \<Rightarrow> ticket option" where
  "blocked_child ts agent now e = (case e of (_, parent) \<Rightarrow>
     if tk_section parent \<noteq> ''## BLOCKED'' then None
     else case dict_get ts (field_text parent ''blocked_on'') of
       None \<Rightarrow> None
     | Some child \<Rightarrow>
         if field_text parent ''blocked_on'' \<in> set (tk_needs parent) \<and> ticket_is_workable ts agent now child
         then Some child else None)"

definition the_one :: "'a list \<Rightarrow> 'a option" where
  "the_one xs = (case xs of [x] \<Rightarrow> Some x | _ \<Rightarrow> None)"

definition reserved_continuation_child :: "tickets \<Rightarrow> string \<Rightarrow> nat \<Rightarrow> ticket option" where
  "reserved_continuation_child ts agent now = the_one (List.map_filter (blocked_child ts agent now) ts)"

definition pick_next_work :: "tickets \<Rightarrow> string \<Rightarrow> nat \<Rightarrow> string option \<times> string" where
  "pick_next_work ts agent now =
     (case reserved_continuation_child ts agent now of
        Some child \<Rightarrow> (Some (tk_id child), ''dependency-continuation'')
      | None \<Rightarrow>
          let workable = workable_tickets ts agent now in
          case find (\<lambda>tid. is_user_explicit (the (dict_get ts tid))) workable of
            Some tid \<Rightarrow> (Some tid, ''start-user-explicit'')
          | None \<Rightarrow> (case workable of [] \<Rightarrow> (None, ''none'') | tid # _ \<Rightarrow> (Some tid, ''start'')))"

section \<open>Continuations\<close>

definition reserves :: "string \<Rightarrow> ticket \<Rightarrow> bool" where
  "reserves child_id t \<longleftrightarrow> tk_section t = ''## BLOCKED'' \<and> field_text t ''blocked_on'' = child_id \<and>
     child_id \<in> set (tk_needs t)"

definition continuation_parent :: "tickets \<Rightarrow> string \<Rightarrow> bool \<Rightarrow> (string \<times> ticket) option" where
  "continuation_parent ts child_id require_done =
     (if dict_get ts child_id = None \<or> require_done \<and> \<not> is_done ts child_id then None
      else the_one (filter (\<lambda>(_, t). reserves child_id t) ts))"

text \<open>\<open>is\<close> compares the parent with the ticket itself; the keys of the map tell them apart.\<close>

definition resumable_parent :: "tickets \<Rightarrow> (string \<times> ticket) option" where
  "resumable_parent ts =
     the_one (filter (\<lambda>(k, t). tk_section t = ''## BLOCKED'' \<and>
       map_option fst (continuation_parent ts (field_text t ''blocked_on'') True) = Some k) ts)"

section \<open>Scopes, gates and closure\<close>

definition blocker_scope :: "ticket \<Rightarrow> string" where
  "blocker_scope t = (let v = lower (field_text t ''blocker_scope'') in if v \<in> set BLOCKER_SCOPES then v else ''ticket'')"

definition goal_blocked_tickets :: "tickets \<Rightarrow> string list" where
  "goal_blocked_tickets ts =
     map (\<lambda>(_, t). tk_id t) (filter (\<lambda>(_, t). tk_section t = ''## BLOCKED'' \<and> blocker_scope t = ''goal'') ts)"

definition retry_not_before :: "ticket \<Rightarrow> string option" where
  "retry_not_before t =
     (let v = field_text t ''retry_not_before''
      in if v = [] \<or> iso_utc_sort_key v = None then None else Some v)"

definition deferred_state :: "ticket \<Rightarrow> nat \<Rightarrow> string option" where
  "deferred_state t now =
     (if tk_section t \<noteq> ''## BLOCKED'' then None
      else case retry_not_before t of
        None \<Rightarrow> None
      | Some due \<Rightarrow>
          if deferred_operator_class (case dict_get (tk_fields t) ''blocker'' of None \<Rightarrow> [] | Some b \<Rightarrow> b) = None
          then None
          else case iso_utc_sort_key due of
            None \<Rightarrow> None
          | Some stamp \<Rightarrow> Some (if instant stamp \<le> now then ''DUE_OPERATOR_ACTION'' else ''DEFERRED_OPERATOR''))"

definition operator_gates :: "tickets \<Rightarrow> nat \<Rightarrow> (string \<times> string option \<times> string) list" where
  "operator_gates ts now =
     List.map_filter (\<lambda>(_, t). map_option (\<lambda>s. (tk_id t, retry_not_before t, s)) (deferred_state t now)) ts"

definition goal_blocked_now :: "string \<Rightarrow> string \<Rightarrow> nat \<Rightarrow> string list" where
  "goal_blocked_now doc agent now =
     (let ts = w_tickets (parse_board doc) in
      if list_ex (\<lambda>(_, t). tk_section t = ''## DOING'') ts then []
      else if workable_tickets ts agent now \<noteq> [] then []
      else goal_blocked_tickets ts)"

definition closure_blocking :: "string list \<Rightarrow> ticket \<Rightarrow> bool" where
  "closure_blocking roles t \<longleftrightarrow>
     tk_section t = ''## BLOCKED'' \<and>
     (let blocker = (case dict_get (tk_fields t) ''blocker'' of None \<Rightarrow> [] | Some b \<Rightarrow> b); cls = blocker_class blocker in
      \<not> (\<exists>c \<in> set CLOSURE_EXEMPT_BLOCKER_CLASSES. cls = Some c) \<and>
      \<not> (cls = Some ''WAIT_ROLE'' \<and> (\<exists>r \<in> set roles. wait_role_target blocker = Some r)))"

datatype closure_problem =
  Board_Error board_error | Active_Doing "string list" | Workable_Todo "string list" | Closure_Blocking "string list"

definition convergence_closure_problems :: "walk \<Rightarrow> string \<Rightarrow> nat \<Rightarrow> string list \<Rightarrow> closure_problem list" where
  "convergence_closure_problems board agent now wait_role_roles =
     (let ts = w_tickets board;
          doing = map (\<lambda>(_, t). tk_id t) (filter (\<lambda>(_, t). tk_section t = ''## DOING'') ts);
          workable = workable_tickets ts agent now;
          blocking = map (\<lambda>(_, t). tk_id t) (filter (\<lambda>(_, t). closure_blocking wait_role_roles t) ts) in
      map Board_Error (w_errors board) @
      (if doing = [] then [] else [Active_Doing (take 3 doing)]) @
      (if workable = [] then [] else [Workable_Todo (take 3 workable)]) @
      (if blocking = [] then [] else [Closure_Blocking (take 3 blocking)]))"

end
