(* ===== verification/GraphLaws.thy ===== *)
theory GraphLaws
  imports BoardGraph
begin

text \<open>
  What \<open>board_graph_errors\<close> decides: the search reports a cycle exactly when the needs relation has
  one, every cycle it prints is one, and the whole check is silent exactly on sound work graphs.
\<close>

section \<open>The relations\<close>

abbreviation ids :: "tickets \<Rightarrow> string set" where
  "ids ts \<equiv> fst ` set ts"

definition needs_rel :: "tickets \<Rightarrow> (string \<times> string) set" where
  "needs_rel ts = {(u, v). u \<in> ids ts \<and> v \<in> ids ts \<and> v \<in> set (needs_of ts u)}"

definition closed_walk :: "('a \<times> 'a) set \<Rightarrow> 'a list \<Rightarrow> bool" where
  "closed_walk R c \<longleftrightarrow> 2 \<le> length c \<and> hd c = last c \<and> successively (\<lambda>u v. (u, v) \<in> R) c"

lemma successively_trancl:
  "successively (\<lambda>u v. (u, v) \<in> R) (x # y # zs) \<Longrightarrow> (x, last (y # zs)) \<in> R\<^sup>+"
proof (induction zs arbitrary: x y)
  case (Cons z zs)
  then have "(x, y) \<in> R" "(y, last (z # zs)) \<in> R\<^sup>+" by simp_all
  then show ?case by (simp add: trancl_into_trancl2)
qed auto

lemma closed_walk_cyclic: "closed_walk R c \<Longrightarrow> \<not> acyclic R"
proof -
  assume c: "closed_walk R c"
  then obtain x y zs where xy: "c = x # y # zs"
    by (cases c; cases "tl c") (auto simp: closed_walk_def)
  with c successively_trancl [of R x y zs] have "(x, x) \<in> R\<^sup>+" by (auto simp: closed_walk_def)
  then show ?thesis by (auto simp: acyclic_def)
qed

text \<open>A list in which every node comes after its successors, the order of completion.\<close>

inductive finished :: "('a \<times> 'a) set \<Rightarrow> 'a list \<Rightarrow> bool" for R where
  empty: "finished R []"
| node: "finished R fin \<Longrightarrow> u \<notin> set fin \<Longrightarrow> R `` {u} \<subseteq> set fin \<Longrightarrow> finished R (u # fin)"

lemma finished_rank: "finished R fin \<Longrightarrow> \<exists>f :: 'a \<Rightarrow> nat. \<forall>x y. x \<in> set fin \<longrightarrow> (x, y) \<in> R \<longrightarrow> f y < f x"
proof (induction rule: finished.induct)
  case (node fin u)
  then obtain f :: "'a \<Rightarrow> nat" where f: "\<And>x y. x \<in> set fin \<Longrightarrow> (x, y) \<in> R \<Longrightarrow> f y < f x" by blast
  have closed: "y \<in> set fin" if "x \<in> set fin" "(x, y) \<in> R" for x y
    using node(1) that by (induction rule: finished.induct) auto
  let ?f = "f(u := Suc (sum_list (map f fin)))"
  have "?f y < ?f x" if xy: "x \<in> set (u # fin)" "(x, y) \<in> R" for x y
  proof (cases "x = u")
    case True
    then have y: "y \<in> set fin" using xy node(3) by auto
    with node(2) have "y \<noteq> u" by auto
    moreover have "f y \<le> sum_list (map f fin)" using y by (simp add: member_le_sum_list)
    ultimately show ?thesis using True by simp
  next
    case False
    then have x: "x \<in> set fin" using xy by simp
    have "y \<noteq> u" using closed [OF x xy(2)] node(2) by auto
    with x show ?thesis using f xy(2) False by simp
  qed
  then show ?case by blast
qed simp

lemma finished_acyclic: "finished R fin \<Longrightarrow> Domain R \<subseteq> set fin \<Longrightarrow> acyclic R"
proof -
  assume "finished R fin" and d: "Domain R \<subseteq> set fin"
  then obtain f :: "'a \<Rightarrow> nat" where "\<And>x y. x \<in> set fin \<Longrightarrow> (x, y) \<in> R \<Longrightarrow> f y < f x"
    using finished_rank by blast
  with d have "R \<subseteq> (measure f)\<inverse>" by auto
  with acyclic_subset [of "(measure f)\<inverse>" R] show ?thesis by (simp add: acyclic_converse wf_acyclic)
qed

section \<open>The invariant of the search\<close>

definition black :: "search \<Rightarrow> string set" where
  "black s = {k. dict_get (d_colour s) k = Some BLACK}"

text \<open>
  Of every open frame, the needs already passed are unknown, finished, or the child above.
\<close>

fun frames_ok :: "tickets \<Rightarrow> string set \<Rightarrow> string set \<Rightarrow> (string \<times> nat) list \<Rightarrow> bool" where
  "frames_ok ts B A [] = True"
| "frames_ok ts B A ((u, i) # fr) =
     ((\<forall>v \<in> set (take i (needs_of ts u)). v \<in> ids ts \<longrightarrow> v \<in> B \<union> A) \<and> frames_ok ts B {u} fr)"

definition search_inv :: "tickets \<Rightarrow> search \<Rightarrow> bool" where
  "search_inv ts s \<longleftrightarrow>
     (\<forall>k. dict_get (d_colour s) k = None \<longleftrightarrow> k \<notin> ids ts) \<and>
     map fst (d_frames s) = rev (d_stack s) \<and> distinct (d_stack s) \<and>
     set (d_stack s) = {k. dict_get (d_colour s) k = Some GRAY} \<and>
     successively (\<lambda>u v. (u, v) \<in> needs_rel ts) (d_stack s) \<and>
     list_all (closed_walk (needs_rel ts)) (d_cycles s) \<and>
     (d_cycles s = [] \<longrightarrow>
        (\<exists>fin. finished (needs_rel ts) fin \<and> set fin = black s) \<and> frames_ok ts (black s) {} (d_frames s))"

lemma frames_ok_mono: "frames_ok ts B A fr \<Longrightarrow> B \<union> A \<subseteq> B' \<union> A' \<Longrightarrow> B \<subseteq> B' \<Longrightarrow> frames_ok ts B' A' fr"
proof (induction fr arbitrary: A A')
  case (Cons f fr)
  obtain u i where f: "f = (u, i)" by force
  have "frames_ok ts B' {u} fr" using Cons.IH [of "{u}" "{u}"] Cons.prems f by auto
  with Cons.prems f show ?case by auto
qed simp

lemma dict_get_None: "dict_get d k = None \<longleftrightarrow> k \<notin> fst ` set d"
  by (rule map_of_eq_None_iff)

lemma set_take_Suc: "i < length xs \<Longrightarrow> set (take (Suc i) xs) = insert (xs ! i) (set (take i xs))"
  by (simp add: take_Suc_conv_app_nth)

lemma report_closed:
  assumes inv: "search_inv ts s" and top: "d_stack s = st @ [node]" and need: "(node, need) \<in> needs_rel ts"
    and gray: "need \<in> set (d_stack s)"
  shows "list_all (closed_walk (needs_rel ts)) (d_cycles (report need s))" "d_cycles (report need s) \<noteq> []"
proof -
  let ?d = "dropWhile (\<lambda>x. x \<noteq> need) (d_stack s)"
  from gray have ne: "?d \<noteq> []" and hd: "hd ?d = need"
    by (auto simp: dropWhile_eq_Nil_conv hd_dropWhile) (use hd_dropWhile [of "\<lambda>x. x \<noteq> need" "d_stack s"] in auto)
  have last: "last ?d = node" using ne top by (metis append_is_Nil_conv last_snoc takeWhile_dropWhile_id last_appendR)
  have "successively (\<lambda>u v. (u, v) \<in> needs_rel ts) ?d"
    using inv ne unfolding search_inv_def
    by (metis successively_append_iff takeWhile_dropWhile_id)
  with ne last need have "successively (\<lambda>u v. (u, v) \<in> needs_rel ts) (?d @ [need])"
    by (simp add: successively_append_iff)
  with ne hd have "closed_walk (needs_rel ts) (?d @ [need])"
    by (cases ?d) (auto simp: closed_walk_def)
  with inv show "list_all (closed_walk (needs_rel ts)) (d_cycles (report need s))"
    by (simp add: search_inv_def report_def Let_def)
  show "d_cycles (report need s) \<noteq> []" by (auto simp: report_def Let_def)
qed

section \<open>Preservation\<close>

lemma top_frame:
  "search_inv ts s \<Longrightarrow> d_frames s = (node, idx) # rest \<Longrightarrow>
   d_stack s = rev (map fst rest) @ [node] \<and> dict_get (d_colour s) node = Some GRAY \<and> node \<in> ids ts"
proof -
  assume inv: "search_inv ts s" and fr: "d_frames s = (node, idx) # rest"
  then have "rev (d_stack s) = node # map fst rest" by (simp add: search_inv_def)
  then have st: "d_stack s = rev (map fst rest) @ [node]" by (simp add: rev_swap)
  then have "dict_get (d_colour s) node = Some GRAY" using inv by (auto simp: search_inv_def)
  moreover then have "node \<in> ids ts" using inv unfolding search_inv_def by (metis option.distinct(1))
  ultimately show ?thesis using st by simp
qed

lemma advance_inv:
  assumes inv: "search_inv ts s" and fr: "d_frames s = (node, idx) # rest" and i: "idx < length (needs_of ts node)"
    and need: "needs_of ts node ! idx \<in> ids ts \<Longrightarrow> needs_of ts node ! idx \<in> black s"
  shows "search_inv ts (s\<lparr>d_frames := (node, Suc idx) # rest\<rparr>)"
  using inv fr i need by (auto simp: search_inv_def set_take_Suc black_def)

lemma reported_inv:
  assumes inv: "search_inv ts s" and fr: "d_frames s = (node, idx) # rest" and i: "idx < length (needs_of ts node)"
    and g: "dict_get (d_colour s) (needs_of ts node ! idx) = Some GRAY"
  shows "search_inv ts (report (needs_of ts node ! idx) (s\<lparr>d_frames := (node, Suc idx) # rest\<rparr>))"
proof -
  let ?need = "needs_of ts node ! idx" and ?s1 = "s\<lparr>d_frames := (node, Suc idx) # rest\<rparr>"
  from top_frame [OF inv fr] have top: "d_stack s = rev (map fst rest) @ [node]" and node: "node \<in> ids ts" by auto
  have "?need \<in> ids ts" using inv g unfolding search_inv_def by (metis option.distinct(1))
  then have e: "(node, ?need) \<in> needs_rel ts" using node i by (simp add: needs_rel_def)
  have "?need \<in> set (d_stack s)" using inv g by (simp add: search_inv_def)
  note c = report_closed [OF inv top e this]
  have same: "d_cycles (report ?need ?s1) = d_cycles (report ?need s)" by (simp add: report_def Let_def)
  from inv fr c show ?thesis by (simp add: search_inv_def same)
qed

lemma descend_inv:
  assumes inv: "search_inv ts s" and fr: "d_frames s = (node, idx) # rest" and i: "idx < length (needs_of ts node)"
    and w: "dict_get (d_colour s) (needs_of ts node ! idx) = Some WHITE"
  shows "search_inv ts (descend (needs_of ts node ! idx) (s\<lparr>d_frames := (node, Suc idx) # rest\<rparr>))"
proof -
  let ?need = "needs_of ts node ! idx" and ?s1 = "s\<lparr>d_frames := (node, Suc idx) # rest\<rparr>"
  let ?s' = "descend ?need ?s1"
  from top_frame [OF inv fr] have top: "d_stack s = rev (map fst rest) @ [node]" and node: "node \<in> ids ts" by auto
  have id: "?need \<in> ids ts" using inv w unfolding search_inv_def by (metis option.distinct(1))
  then have e: "(node, ?need) \<in> needs_rel ts" using node i by (simp add: needs_rel_def)
  have new: "?need \<notin> set (d_stack s)" using inv w by (simp add: search_inv_def)
  have b: "black ?s' = black s" using w by (auto simp: black_def descend_def)
  have "successively (\<lambda>u v. (u, v) \<in> needs_rel ts) (d_stack s @ [?need])"
    using inv e top by (simp add: search_inv_def successively_append_iff)
  moreover have "frames_ok ts (black s) {} ((?need, 0) # (node, Suc idx) # rest)" if "d_cycles s = []"
    using inv fr i that by (auto simp: search_inv_def set_take_Suc)
  moreover have "set (d_stack s @ [?need]) = {k. dict_get (d_colour ?s') k = Some GRAY}"
    using inv w by (auto simp: search_inv_def descend_def)
  moreover have "\<forall>k. dict_get (d_colour ?s') k = None \<longleftrightarrow> k \<notin> ids ts"
    using inv id by (simp add: search_inv_def descend_def)
  ultimately show ?thesis
    using inv fr new b by (simp add: search_inv_def) (simp add: descend_def)
qed

lemma finish_inv:
  assumes inv: "search_inv ts s" and fr: "d_frames s = (node, idx) # rest"
    and i: "\<not> idx < length (needs_of ts node)"
  shows "search_inv ts (finish node s)"
proof -
  let ?s' = "finish node s"
  from top_frame [OF inv fr] have top: "d_stack s = rev (map fst rest) @ [node]"
    and g: "dict_get (d_colour s) node = Some GRAY" and node: "node \<in> ids ts" by auto
  have b: "black ?s' = insert node (black s)" by (auto simp: black_def finish_def)
  have "(\<exists>fin. finished (needs_rel ts) fin \<and> set fin = black ?s') \<and> frames_ok ts (black ?s') {} rest"
    if "d_cycles s = []"
  proof
    from inv that fr have ok: "frames_ok ts (black s) {} ((node, idx) # rest)" by (simp add: search_inv_def)
    from inv that obtain fin where fin: "finished (needs_rel ts) fin" "set fin = black s"
      by (auto simp: search_inv_def)
    have "node \<notin> set fin" using g by (simp add: fin black_def)
    moreover have "needs_rel ts `` {node} \<subseteq> set fin" using ok i by (auto simp: fin needs_rel_def)
    ultimately have "finished (needs_rel ts) (node # fin)" using fin by (intro finished.node)
    then show "\<exists>fin. finished (needs_rel ts) fin \<and> set fin = black ?s'" using fin b by (metis list.simps(15))
    have "frames_ok ts (black s) {node} rest" using ok by simp
    then show "frames_ok ts (black ?s') {} rest" by (rule frames_ok_mono) (auto simp: b)
  qed
  moreover have "set (rev (map fst rest)) = {k. dict_get (d_colour ?s') k = Some GRAY}"
  proof -
    have "node \<notin> set (rev (map fst rest))" using inv unfolding search_inv_def top distinct_append by simp
    then have "set (rev (map fst rest)) = set (d_stack s) - {node}" unfolding top by simp
    also have "set (d_stack s) = {k. dict_get (d_colour s) k = Some GRAY}" using inv by (simp add: search_inv_def)
    finally show ?thesis by (auto simp: finish_def)
  qed
  moreover have "\<forall>k. dict_get (d_colour ?s') k = None \<longleftrightarrow> k \<notin> ids ts"
    using inv node by (simp add: search_inv_def finish_def)
  ultimately show ?thesis
    using inv fr top unfolding search_inv_def
    by (simp add: finish_def successively_append_iff)
qed

lemma turn_inv: "search_inv ts s \<Longrightarrow> search_inv ts (turn ts s)"
proof (cases "d_frames s")
  case (Cons f rest)
  assume inv: "search_inv ts s"
  obtain node idx where f: "f = (node, idx)" by force
  note fr = Cons [unfolded f]
  show ?thesis
  proof (cases "idx < length (needs_of ts node)")
    case i: True
    let ?need = "needs_of ts node ! idx"
    have known: "dict_get (d_colour s) ?need \<noteq> None" if "?need \<in> ids ts"
      using inv that by (simp add: search_inv_def)
    consider "?need \<notin> ids ts" | "dict_get (d_colour s) ?need = Some GRAY" "?need \<in> ids ts"
      | "dict_get (d_colour s) ?need = Some WHITE" "?need \<in> ids ts"
      | "dict_get (d_colour s) ?need = Some BLACK" "?need \<in> ids ts"
      using known by (cases "dict_get (d_colour s) ?need") (auto, metis colour.exhaust)
    then show ?thesis
    proof cases
      case 1
      with i advance_inv [OF inv fr i] show ?thesis by (simp add: turn_def fr Let_def dict_get_None)
    next
      case 2
      with i reported_inv [OF inv fr i] show ?thesis by (simp add: turn_def fr Let_def dict_get_None)
    next
      case 3
      with i descend_inv [OF inv fr i] show ?thesis by (simp add: turn_def fr Let_def dict_get_None)
    next
      case 4
      with i advance_inv [OF inv fr i] show ?thesis by (simp add: turn_def fr Let_def dict_get_None black_def)
    qed
  next
    case False
    with finish_inv [OF inv fr False] show ?thesis by (simp add: turn_def fr)
  qed
qed (simp add: turn_def)

lemma turn_coloured: "dict_get (d_colour s) k \<noteq> Some WHITE \<Longrightarrow> dict_get (d_colour (turn ts s)) k \<noteq> Some WHITE"
  by (auto simp: turn_def Let_def descend_def finish_def split: list.splits)

section \<open>Whole runs\<close>

lemma search_from_inv:
  "search_inv ts s \<Longrightarrow> search_inv ts (search_from ts s) \<and> d_frames (search_from ts s) = []"
proof (induction ts s rule: search_from.induct)
  case (1 ts s)
  then show ?case using turn_inv [of ts s] by (cases "d_frames s = []") (simp_all add: search_from.simps [of ts s])
qed

lemma search_from_coloured:
  "dict_get (d_colour s) k \<noteq> Some WHITE \<Longrightarrow> dict_get (d_colour (search_from ts s)) k \<noteq> Some WHITE"
proof (induction ts s rule: search_from.induct)
  case (1 ts s)
  then show ?case using turn_coloured [of s k ts]
    by (cases "d_frames s = []") (simp_all add: search_from.simps [of ts s])
qed

definition resting :: "tickets \<Rightarrow> search \<Rightarrow> bool" where
  "resting ts s \<longleftrightarrow> search_inv ts s \<and> d_frames s = []"

lemma resting_no_gray: "resting ts s \<Longrightarrow> dict_get (d_colour s) k \<noteq> Some GRAY"
proof -
  assume r: "resting ts s"
  then have "rev (d_stack s) = []" unfolding resting_def search_inv_def by (metis list.map(1))
  then have "set (d_stack s) = {}" by simp
  with r show ?thesis by (auto simp: resting_def search_inv_def)
qed

lemma visit_inv: "resting ts s \<Longrightarrow> resting ts (visit ts s start)"
proof (cases "dict_get (d_colour s) start = Some WHITE")
  case True
  assume r: "resting ts s"
  let ?s1 = "s\<lparr>d_colour := dict_set start GRAY (d_colour s), d_stack := [start], d_frames := [(start, 0)]\<rparr>"
  have "start \<in> ids ts" using r True unfolding resting_def search_inv_def by (metis option.distinct(1))
  moreover note resting_no_gray [OF r]
  moreover have "black ?s1 = black s" using True by (auto simp: black_def)
  ultimately have "search_inv ts ?s1"
    using r by (auto simp: resting_def search_inv_def)
  from search_from_inv [OF this] True show ?thesis by (simp add: visit_def resting_def)
qed (simp add: visit_def)

lemma visit_coloured:
  "dict_get (d_colour s) k \<noteq> Some WHITE \<Longrightarrow> dict_get (d_colour (visit ts s start)) k \<noteq> Some WHITE"
  unfolding visit_def by (simp, intro impI search_from_coloured) auto

lemma visit_start: "dict_get (d_colour (visit ts s start)) start \<noteq> Some WHITE"
  unfolding visit_def by (simp, intro impI search_from_coloured) auto

lemma visits_inv: "resting ts s \<Longrightarrow> resting ts (foldl (visit ts) s starts)"
  by (induction starts arbitrary: s) (auto intro: visit_inv)

lemma visits_coloured:
  "dict_get (d_colour s) k \<noteq> Some WHITE \<or> k \<in> set starts \<Longrightarrow>
   dict_get (d_colour (foldl (visit ts) s starts)) k \<noteq> Some WHITE"
proof (induction starts arbitrary: s)
  case (Cons x starts)
  then show ?case using visit_coloured [of s k ts x] visit_start [of ts s k] by auto
qed simp

lemma unvisited_resting: "resting ts (unvisited ts)"
proof -
  have c: "dict_get (map (\<lambda>(tid, _). (tid, WHITE)) ts) k = (if k \<in> ids ts then Some WHITE else None)" for k
    by (induction ts) auto
  have b: "black (unvisited ts) = {}" by (auto simp: black_def unvisited_def c split: if_splits)
  then have "\<exists>fin. finished (needs_rel ts) fin \<and> set fin = black (unvisited ts)" using finished.empty by force
  then show ?thesis by (simp add: resting_def search_inv_def) (simp add: unvisited_def c)
qed

text \<open>The search reports a cycle exactly when there is one, and what it reports is one.\<close>

lemma needs_cycles_exact:
  "(needs_cycles ts = [] \<longleftrightarrow> acyclic (needs_rel ts)) \<and> list_all (closed_walk (needs_rel ts)) (needs_cycles ts)"
proof -
  let ?s = "foldl (visit ts) (unvisited ts) (map fst ts)"
  have r: "resting ts ?s" by (rule visits_inv [OF unvisited_resting])
  then have walks: "list_all (closed_walk (needs_rel ts)) (needs_cycles ts)"
    by (simp add: resting_def search_inv_def needs_cycles_def)
  have all: "k \<in> black ?s" if k: "k \<in> ids ts" for k
  proof -
    have "dict_get (d_colour ?s) k \<noteq> Some WHITE" by (rule visits_coloured) (use k in simp)
    moreover have "dict_get (d_colour ?s) k \<noteq> Some GRAY" by (rule resting_no_gray [OF r])
    moreover have "dict_get (d_colour ?s) k \<noteq> None" using r k by (simp add: resting_def search_inv_def)
    ultimately show ?thesis by (cases "dict_get (d_colour ?s) k"; cases "the (dict_get (d_colour ?s) k)") (auto simp: black_def)
  qed
  have "acyclic (needs_rel ts)" if "needs_cycles ts = []"
  proof -
    from r that obtain fin where fin: "finished (needs_rel ts) fin" "set fin = black ?s"
      by (auto simp: resting_def search_inv_def needs_cycles_def)
    have "Domain (needs_rel ts) \<subseteq> set fin" using all fin(2) by (auto simp: needs_rel_def)
    with fin(1) show ?thesis by (rule finished_acyclic)
  qed
  moreover have "needs_cycles ts = []" if "acyclic (needs_rel ts)"
    using walks that closed_walk_cyclic by (cases "needs_cycles ts") auto
  ultimately show ?thesis using walks by blast
qed

section \<open>Supersession chains\<close>

definition link_rel :: "(string, string) dict \<Rightarrow> (string \<times> string) set" where
  "link_rel links = {(a, b). dict_get links a = Some b}"

lemma chase_sound:
  "chase links chain x = Some c \<Longrightarrow> successively (\<lambda>u v. (u, v) \<in> link_rel links) (chain @ [x]) \<Longrightarrow>
   closed_walk (link_rel links) c"
proof (induction links chain x rule: chase.induct)
  case (1 links chain x)
  from "1.prems"(1) obtain y where y: "dict_get links x = Some y"
    by (cases "dict_get links x") (simp_all add: chase.simps [of links chain x])
  show ?case
  proof (cases "x \<in> set chain")
    case True
    then have ne: "dropWhile (\<lambda>k. k \<noteq> x) chain \<noteq> []" by auto
    with True have hd: "hd (dropWhile (\<lambda>k. k \<noteq> x) chain) = x" using hd_dropWhile [of "\<lambda>k. k \<noteq> x" chain] by auto
    have "chain @ [x] = takeWhile (\<lambda>k. k \<noteq> x) chain @ (dropWhile (\<lambda>k. k \<noteq> x) chain @ [x])" by simp
    with "1.prems"(2) have "successively (\<lambda>u v. (u, v) \<in> link_rel links) (dropWhile (\<lambda>k. k \<noteq> x) chain @ [x])"
      by (metis successively_append_iff append_is_Nil_conv not_Cons_self2)
    with ne hd have "closed_walk (link_rel links) (dropWhile (\<lambda>k. k \<noteq> x) chain @ [x])"
      by (cases "dropWhile (\<lambda>k. k \<noteq> x) chain") (auto simp: closed_walk_def)
    with "1.prems"(1) y True show ?thesis by (simp add: chase.simps [of links chain x])
  next
    case False
    have "successively (\<lambda>u v. (u, v) \<in> link_rel links) ((chain @ [x]) @ [y])"
      using "1.prems"(2) y unfolding successively_append_iff [of _ "chain @ [x]"] by (simp add: link_rel_def)
    with "1.IH" [OF y False] "1.prems"(1) y False show ?thesis by (simp add: chase.simps [of links chain x])
  qed
qed

lemma chase_complete:
  "chase links chain x = None \<Longrightarrow> (x, y) \<in> (link_rel links)\<^sup>* \<Longrightarrow> (y, y) \<notin> (link_rel links)\<^sup>+"
proof (induction links chain x rule: chase.induct)
  case (1 links chain x)
  let ?R = "link_rel links"
  show ?case
  proof (cases "dict_get links x")
    case None
    then have stop: "(x, z) \<notin> ?R" for z by (simp add: link_rel_def)
    with "1.prems"(2) have "y = x" by (metis converse_rtranclE)
    with stop show ?thesis by (metis tranclD)
  next
    case (Some n)
    have x: "x \<notin> set chain" and c: "chase links (chain @ [x]) n = None"
      using "1.prems"(1) Some by (auto simp: chase.simps [of links chain x] split: if_splits)
    note IH = "1.IH" [OF Some x c]
    have next_only: "z = n" if "(x, z) \<in> ?R" for z using that Some by (simp add: link_rel_def)
    show ?thesis
    proof
      assume yy: "(y, y) \<in> ?R\<^sup>+"
      from "1.prems"(2) have "(n, y) \<in> ?R\<^sup>*"
      proof (cases rule: converse_rtranclE)
        case base
        with yy show ?thesis by (metis tranclD next_only)
      next
        case (step z)
        then show ?thesis using next_only by blast
      qed
      from IH [OF this] yy show False by blast
    qed
  qed
qed

lemma link_rel_keys: "(a, b) \<in> link_rel links \<Longrightarrow> (a, b) \<in> set links"
  by (simp add: link_rel_def map_of_SomeD)

lemma map_filter_none: "List.map_filter f xs = [] \<longleftrightarrow> (\<forall>x \<in> set xs. f x = None)"
  by (induction xs) (auto simp: List.map_filter_def)

lemma supersession_exact:
  "List.map_filter (\<lambda>(start, _). chase links [] start) links = [] \<longleftrightarrow> acyclic (link_rel links)"
proof -
  have "List.map_filter (\<lambda>(start, _). chase links [] start) links = [] \<longleftrightarrow>
      (\<forall>(a, b) \<in> set links. chase links [] a = None)"
    by (auto simp: map_filter_none)
  also have "\<dots> \<longleftrightarrow> acyclic (link_rel links)"
  proof
    assume none: "\<forall>(a, b) \<in> set links. chase links [] a = None"
    show "acyclic (link_rel links)"
    proof (rule acyclicI, rule allI, rule notI)
      fix x assume xx: "(x, x) \<in> (link_rel links)\<^sup>+"
      then obtain z where "(x, z) \<in> link_rel links" by (metis tranclD)
      then have "chase links [] x = None" using none link_rel_keys by fastforce
      from chase_complete [OF this rtrancl_refl] xx show False by blast
    qed
  next
    assume ac: "acyclic (link_rel links)"
    have "chase links [] a = None" for a
      using chase_sound [of links "[]" a] closed_walk_cyclic ac by (cases "chase links [] a") auto
    then show "\<forall>(a, b) \<in> set links. chase links [] a = None" by simp
  qed
  finally show ?thesis .
qed

section \<open>Reservations\<close>

definition child_of :: "ticket \<Rightarrow> string" where
  "child_of t = field_text t ''blocked_on''"

definition children :: "tickets \<Rightarrow> string list" where
  "children ts = filter (\<lambda>c. c \<noteq> []) (map (\<lambda>(_, t). child_of t) ts)"

lemma reserve_exact:
  "distinct (map fst rest) \<Longrightarrow> (\<And>c p. dict_get reserved c = Some p \<Longrightarrow> p \<notin> fst ` set rest) \<Longrightarrow>
   reserve ts reserved rest = [] \<longleftrightarrow>
     (\<forall>(tid, t) \<in> set rest. child_of t = [] \<or>
        child_of t \<in> ids ts \<and> child_of t \<in> set (tk_needs t) \<and> dict_get reserved (child_of t) = None) \<and>
     distinct (children rest)"
proof (induction rest arbitrary: reserved)
  case Nil
  show ?case by (simp add: children_def)
next
  case (Cons e rest)
  obtain tid t where e: "e = (tid, t)" by force
  let ?c = "child_of t"
  have keep: "\<And>c p. dict_get reserved c = Some p \<Longrightarrow> p \<notin> fst ` set rest" using Cons.prems(2) by auto
  show ?case
  proof (cases "?c = []")
    case True
    then show ?thesis using Cons.IH [OF _ keep] Cons.prems(1) by (simp add: e child_of_def children_def)
  next
    case False
    have new: "\<And>c p. dict_get (dict_set ?c tid reserved) c = Some p \<Longrightarrow> p \<notin> fst ` set rest"
      using keep Cons.prems(1) by (auto simp: e image_iff split: if_splits)
    have prior: "dict_get reserved ?c = Some p \<Longrightarrow> p \<noteq> tid" for p using Cons.prems(2) by (auto simp: e)
    have d: "distinct (map fst rest)" using Cons.prems(1) by simp
    have eq: "dict_get (dict_set ?c tid reserved) c = None \<longleftrightarrow> c \<noteq> ?c \<and> dict_get reserved c = None" for c by simp
    have IH: "reserve ts (dict_set ?c tid reserved) rest = [] \<longleftrightarrow>
        (\<forall>(tid', t') \<in> set rest. child_of t' = [] \<or>
           child_of t' \<in> ids ts \<and> child_of t' \<in> set (tk_needs t') \<and> child_of t' \<noteq> ?c \<and>
           dict_get reserved (child_of t') = None) \<and> distinct (children rest)"
      unfolding eq [symmetric] by (rule Cons.IH [OF d]) (rule new)
    have A: "reserve ts reserved (e # rest) = [] \<longleftrightarrow>
      ?c \<in> ids ts \<and> ?c \<in> set (tk_needs t) \<and> dict_get reserved ?c = None \<and>
      reserve ts (dict_set ?c tid reserved) rest = []"
      using False prior
      by (auto simp: e Let_def dict_get_None [of ts] simp flip: child_of_def split: option.splits)
    have B: "distinct (children (e # rest)) \<longleftrightarrow>
      (\<forall>(tid', t') \<in> set rest. child_of t' \<noteq> ?c) \<and> distinct (children rest)"
      using False by (simp add: e children_def) (force simp: image_iff)
    show ?thesis
      unfolding A B IH unfolding e list.set(2) ball_simps(7) prod.case case_prod_unfold snd_conv
    proof (rule iffI)
      assume l: "?c \<in> ids ts \<and> ?c \<in> set (tk_needs t) \<and> dict_get reserved ?c = None \<and>
        (\<forall>p\<in>set rest. child_of (snd p) = [] \<or> child_of (snd p) \<in> ids ts \<and>
           child_of (snd p) \<in> set (tk_needs (snd p)) \<and> child_of (snd p) \<noteq> ?c \<and>
           dict_get reserved (child_of (snd p)) = None) \<and> distinct (children rest)"
      with False show "((?c = [] \<or> ?c \<in> ids ts \<and> ?c \<in> set (tk_needs t) \<and> dict_get reserved ?c = None) \<and>
         (\<forall>a\<in>set rest. child_of (snd a) = [] \<or> child_of (snd a) \<in> ids ts \<and>
            child_of (snd a) \<in> set (tk_needs (snd a)) \<and> dict_get reserved (child_of (snd a)) = None)) \<and>
        (\<forall>p\<in>set rest. child_of (snd p) \<noteq> ?c) \<and> distinct (children rest)"
        by (elim conjE, intro conjI) (simp_all, metis+)
    qed (use False in \<open>elim conjE, intro conjI, simp_all\<close>)
  qed
qed

section \<open>The whole check\<close>

definition sound_graph :: "tickets \<Rightarrow> bool" where
  "sound_graph ts \<longleftrightarrow>
     (\<forall>(tid, t) \<in> set ts. set (tk_needs t) \<subseteq> ids ts) \<and> acyclic (needs_rel ts) \<and>
     (\<forall>(tid, s) \<in> set (superseded ts). \<exists>t. dict_get ts s = Some t \<and> tk_section t = ''## DONE'') \<and>
     acyclic (link_rel (superseded ts)) \<and>
     (\<forall>(tid, t) \<in> set ts. child_of t = [] \<or> child_of t \<in> ids ts \<and> child_of t \<in> set (tk_needs t)) \<and>
     distinct (children ts)"

lemma board_graph_exact_lemma:
  assumes "distinct (map fst ts)"
  shows "(board_graph_errors ts = [] \<longleftrightarrow> sound_graph ts) \<and>
    (\<forall>c. Needs_Cycle c \<in> set (board_graph_errors ts) \<longrightarrow> closed_walk (needs_rel ts) c)"
proof -
  have one: "successor_errors ts (tid, s) = [] \<longleftrightarrow> (\<exists>t. dict_get ts s = Some t \<and> tk_section t = ''## DONE'')" for tid s
    by (auto simp: successor_errors_def split: option.splits)
  have succ: "concat (map (successor_errors ts) ls) = [] \<longleftrightarrow>
      (\<forall>(tid, s) \<in> set ls. \<exists>t. dict_get ts s = Some t \<and> tk_section t = ''## DONE'')" for ls
    by (induction ls) (auto simp: one)
  have needs: "concat (map (missing_needs ts) ls) = [] \<longleftrightarrow> (\<forall>(tid, t) \<in> set ls. set (tk_needs t) \<subseteq> ids ts)" for ls
    by (induction ls) (auto simp: missing_needs_def filter_empty_conv dict_get_None)
  have res: "reserve ts [] ts = [] \<longleftrightarrow>
      (\<forall>(tid, t) \<in> set ts. child_of t = [] \<or> child_of t \<in> ids ts \<and> child_of t \<in> set (tk_needs t)) \<and>
      distinct (children ts)"
    using reserve_exact [OF assms, of "[]" ts] by simp
  have "board_graph_errors ts = [] \<longleftrightarrow> sound_graph ts"
    unfolding board_graph_errors_def append_is_Nil_conv map_is_Nil_conv sound_graph_def succ needs res
      supersession_exact using needs_cycles_exact [of ts] by blast
  moreover have "closed_walk (needs_rel ts) c" if c: "Needs_Cycle c \<in> set (board_graph_errors ts)" for c
  proof -
    have "Needs_Cycle c \<notin> set (reserve ts r ls)" for r ls
      by (induction ts r ls rule: reserve.induct) (auto simp: Let_def split: option.splits)
    then have "c \<in> set (needs_cycles ts)"
      using c by (auto simp: board_graph_errors_def successor_errors_def missing_needs_def split: option.splits if_splits)
    then show ?thesis using needs_cycles_exact [of ts] by (simp add: list_all_iff)
  qed
  ultimately show ?thesis by blast
qed

definition plain_ticket :: "string \<Rightarrow> string \<Rightarrow> string list \<Rightarrow> string \<times> ticket" where
  "plain_ticket tid section needs =
     (tid, \<lparr>tk_id = tid, tk_section = section, tk_line_no = 1, tk_checkbox = CHR '' '', tk_needs = needs,
            tk_fields = [], tk_raw = [], tk_description = [], tk_shadowed = []\<rparr>)"

definition demo_ring :: tickets where
  "demo_ring = [plain_ticket ''T-1'' ''## TODO'' [''T-2''], plain_ticket ''T-2'' ''## TODO'' [''T-3''],
     plain_ticket ''T-3'' ''## TODO'' [''T-2'']]"

text \<open>
  C19: \<open>board_graph_errors\<close> is silent exactly on sound work graphs: every need and every successor
  exists, successors are DONE, reservations name one needed child each, and neither the needs nor the
  supersessions have a cycle; and every needs cycle it prints is a cycle of the board.
\<close>

theorem board_graph_exact:
  assumes "distinct (map fst ts)"
  shows "(board_graph_errors ts = [] \<longleftrightarrow> sound_graph ts) \<and>
    (\<forall>c. Needs_Cycle c \<in> set (board_graph_errors ts) \<longrightarrow> closed_walk (needs_rel ts) c)"
  by (rule board_graph_exact_lemma [OF assms])

theorem board_graph_exact_witness:
  "board_graph_errors demo_ring = [Needs_Cycle [''T-2'', ''T-3'', ''T-2'']] \<and>
   closed_walk (needs_rel demo_ring) [''T-2'', ''T-3'', ''T-2''] \<and> \<not> sound_graph demo_ring"
proof -
  have e: "board_graph_errors demo_ring = [Needs_Cycle [''T-2'', ''T-3'', ''T-2'']]" by code_simp
  have "distinct (map fst demo_ring)" by code_simp
  from board_graph_exact [OF this] e show ?thesis by auto
qed

section \<open>The cost of the search\<close>

text \<open>What is left to do: the needs of every white ticket and of every open frame, and their completions.\<close>

definition remaining :: "tickets \<Rightarrow> search \<Rightarrow> nat" where
  "remaining ts s =
     sum_list (map (\<lambda>(k, c). if c = WHITE then Suc (length (needs_of ts k)) else 0) (d_colour s)) +
     pending_needs ts (d_frames s)"

definition white_cost :: "tickets \<Rightarrow> (string, colour) dict \<Rightarrow> nat" where
  "white_cost ts c = sum_list (map (\<lambda>(k, c). if c = WHITE then Suc (length (needs_of ts k)) else 0) c)"

lemma white_cost_le: "v \<noteq> WHITE \<Longrightarrow> white_cost ts (dict_set k v c) \<le> white_cost ts c"
  by (induction c) (auto simp: white_cost_def)

lemma white_cost_less:
  "v \<noteq> WHITE \<Longrightarrow> dict_get c k = Some WHITE \<Longrightarrow>
   white_cost ts (dict_set k v c) + Suc (length (needs_of ts k)) \<le> white_cost ts c"
  by (induction c) (auto simp: white_cost_def split: if_splits)

lemma turn_cheaper: "d_frames s \<noteq> [] \<Longrightarrow> remaining ts (turn ts s) < remaining ts s"
proof (cases "d_frames s")
  case (Cons f rest)
  obtain node idx where f: "f = (node, idx)" by force
  let ?need = "needs_of ts node ! idx"
  have r: "remaining ts s = white_cost ts (d_colour s) + pending_needs ts (d_frames s)" for s
    by (simp add: remaining_def white_cost_def)
  show ?thesis
  proof (cases "idx < length (needs_of ts node) \<and> dict_get ts ?need \<noteq> None \<and> dict_get (d_colour s) ?need = Some WHITE")
    case True
    with white_cost_less [of GRAY "d_colour s" ?need ts] show ?thesis
      by (auto simp: r turn_def Cons f Let_def descend_def pending_needs_def)
  next
    case False
    with white_cost_le [of BLACK ts node "d_colour s"] show ?thesis
      by (auto simp: r turn_def Cons f Let_def finish_def pending_needs_def)
  qed
qed simp

text \<open>
  C39: the search ends after linearly many turns of its loop, whatever the shape or depth of the graph:
  at most one per need and one per ticket still unvisited, so a chain of any length is no obstacle.
\<close>

theorem search_linear:
  "\<exists>n. n \<le> remaining ts s \<and> search_from ts s = (turn ts ^^ n) s \<and> d_frames ((turn ts ^^ n) s) = []"
proof (induction "remaining ts s" arbitrary: s rule: less_induct)
  case less
  show ?case
  proof (cases "d_frames s = []")
    case True
    then show ?thesis by (intro exI [of _ 0]) (simp add: search_from.simps [of ts s])
  next
    case False
    note cheaper = turn_cheaper [OF this, of ts]
    from less [OF this] obtain n where n: "n \<le> remaining ts (turn ts s)"
      "search_from ts (turn ts s) = (turn ts ^^ n) (turn ts s)" "d_frames ((turn ts ^^ n) (turn ts s)) = []" by blast
    with False cheaper show ?thesis
      by (intro exI [of _ "Suc n"]) (simp add: search_from.simps [of ts s] funpow_swap1)
  qed
qed

end
