(* ===== verification/SchedulingLaws.thy ===== *)
theory SchedulingLaws
  imports Scheduling BoardLaws GraphLaws
begin

text \<open>
  What the Pick Rule promises: the ticket it names is workable and the right one, and when it names
  none although work is open, every open ticket waits on a blocked one.
\<close>

section \<open>Claims\<close>

lemma claim_status_valid:
  "claim_status t agent now \<noteq> INVALID \<longleftrightarrow>
     field_text t ''owner'' = [] \<and> field_text t ''claim_time'' = [] \<or>
     field_text t ''owner'' \<noteq> [] \<and> field_text t ''claim_time'' \<noteq> [] \<and>
       iso_utc_sort_key (field_text t ''claim_time'') \<noteq> None"
  by (auto simp: claim_status_def claim_of_def split: option.splits if_splits)

definition claimed_ticket :: "string \<Rightarrow> string \<Rightarrow> ticket" where
  "claimed_ticket owner claim_time =
     (snd (plain_ticket ''T-1'' ''## DOING'' []))\<lparr>tk_fields := [(''owner'', owner), (''claim_time'', claim_time)]\<rparr>"

definition new_year :: stamp where
  "new_year = \<lparr>year = 2026, month = 1, day = 1, hour = 0, minute = 0, second = 0, micro = 0\<rparr>"

lemma stamp_nonempty: "iso_utc_sort_key s = Some t \<Longrightarrow> s \<noteq> []"
  by (auto simp: iso_utc_sort_key_def strip_def lstrip_def rstrip_def)

text \<open>
  Claim ownership is a half-open window: a well-formed claim of another agent is live exactly while
  less than fifteen minutes have passed since its stamp and stale from then on, for good; the owner
  itself reads SELF whatever the clock says.
\<close>

theorem claim_liveness_window:
  assumes o: "field_text t ''owner'' = owner" "owner \<noteq> []" "agent \<noteq> owner"
    and s: "iso_utc_sort_key (field_text t ''claim_time'') = Some stamp"
  shows "claim_status t agent now =
      (if int now < int (instant stamp) + 900 * 1000000 then FOREIGN_LIVE else FOREIGN_STALE) \<and>
    (claim_status t agent now = FOREIGN_STALE \<longrightarrow> now \<le> later \<longrightarrow> claim_status t agent later = FOREIGN_STALE) \<and>
    claim_status t owner now = SELF"
proof -
  note ne = stamp_nonempty [OF s]
  with o s have eq: "claim_status t agent now =
      (if CLAIM_LIVENESS_WINDOW \<le> int now - int (instant stamp) then FOREIGN_STALE else FOREIGN_LIVE)" for now
    by (auto simp: claim_status_def claim_of_def)
  moreover have "claim_status t owner now = SELF"
    using o s ne by (auto simp: claim_status_def claim_of_def)
  ultimately show ?thesis by (auto simp: CLAIM_LIVENESS_WINDOW_def)
qed

theorem claim_liveness_window_witness:
  "claim_status (claimed_ticket ''ann'' ''2026-01-01T00:00:00Z'') ''bob'' (instant new_year + 899999999) = FOREIGN_LIVE \<and>
   claim_status (claimed_ticket ''ann'' ''2026-01-01T00:00:00Z'') ''bob'' (instant new_year + 900000000) = FOREIGN_STALE"
proof -
  let ?t = "claimed_ticket ''ann'' ''2026-01-01T00:00:00Z''"
  have o: "field_text ?t ''owner'' = ''ann''" by code_simp
  have "iso_utc_sort_key (field_text ?t ''claim_time'') = Some new_year" by code_simp
  from claim_liveness_window [OF o _ _ this, of "''bob''"] show ?thesis by simp
qed

section \<open>The pick\<close>

definition keyed :: "tickets \<Rightarrow> bool" where
  "keyed ts \<longleftrightarrow> distinct (map fst ts) \<and> list_all (\<lambda>(k, t). tk_id t = k) ts"

lemma keyed_get: "keyed ts \<Longrightarrow> (k, t) \<in> set ts \<Longrightarrow> dict_get ts k = Some t \<and> tk_id t = k"
  by (auto simp: keyed_def list_all_iff)

lemma find_split: "find P xs = Some x \<Longrightarrow> \<exists>ys zs. xs = ys @ x # zs \<and> P x \<and> list_all (\<lambda>y. \<not> P y) ys"
proof (induction xs)
  case (Cons a xs)
  show ?case
  proof (cases "P a")
    case True
    with Cons.prems have "a = x" by simp
    with True show ?thesis by (intro exI [of _ "[]"] exI [of _ xs]) simp
  next
    case False
    with Cons obtain ys zs where "xs = ys @ x # zs" "P x" "list_all (\<lambda>y. \<not> P y) ys" by auto
    with False show ?thesis by (intro exI [of _ "a # ys"] exI [of _ zs]) auto
  qed
qed simp

lemma find_filter: "find P (filter Q xs) = find (\<lambda>x. Q x \<and> P x) xs"
  by (induction xs) auto

lemma filter_first: "filter P xs = y # ys \<Longrightarrow> \<exists>us vs. xs = us @ y # vs \<and> P y \<and> list_all (\<lambda>x. \<not> P x) us"
  by (auto simp: filter_eq_Cons_iff list_all_iff)

text \<open>The topmost entry with a property, the one every earlier entry lacks.\<close>

definition topmost :: "(ticket \<Rightarrow> bool) \<Rightarrow> tickets \<Rightarrow> string \<Rightarrow> ticket \<Rightarrow> bool" where
  "topmost P ts tid t \<longleftrightarrow> (\<exists>before after. ts = before @ (tid, t) # after \<and> P t \<and> list_all (\<lambda>(_, u). \<not> P u) before)"

lemma topmost_workable:
  assumes "workable_tickets ts agent now = tid # tids" and k: "keyed ts"
  shows "\<exists>t. topmost (ticket_is_workable ts agent now) ts tid t"
proof -
  from assms(1) obtain e es where e: "filter (\<lambda>e. ticket_is_workable ts agent now (snd e)) ts = e # es"
    and tid: "tid = tk_id (snd e)" by (auto simp: workable_tickets_def case_prod_unfold)
  from filter_first [OF e] obtain us vs where s: "ts = us @ e # vs" "ticket_is_workable ts agent now (snd e)"
    "list_all (\<lambda>(_, t). \<not> ticket_is_workable ts agent now t) us" by (auto simp only: case_prod_unfold)
  have "e = (tid, snd e)" using k s(1) tid by (auto simp: keyed_def)
  with s show ?thesis unfolding topmost_def by metis
qed

lemma topmost_explicit:
  assumes "find (\<lambda>tid. is_user_explicit (the (dict_get ts tid))) (workable_tickets ts agent now) = Some tid"
    and k: "keyed ts"
  shows "\<exists>t. topmost (\<lambda>t. ticket_is_workable ts agent now t \<and> is_user_explicit t) ts tid t"
proof -
  let ?W = "\<lambda>e. ticket_is_workable ts agent now (snd e)" and ?X = "\<lambda>tid. is_user_explicit (the (dict_get ts tid))"
  have ids: "workable_tickets ts agent now = map fst (filter ?W ts)"
    using k unfolding workable_tickets_def
    by (intro map_cong) (auto simp: keyed_def list_all_iff case_prod_unfold)
  have "find ?X (map fst es) = map_option fst (find (\<lambda>e. ?X (fst e)) es)" for es :: tickets
    by (induction es) auto
  with assms(1) obtain e where e: "find (\<lambda>e. ?X (fst e)) (filter ?W ts) = Some e" and tid: "tid = fst e"
    unfolding ids by auto
  from e have "find (\<lambda>e. ?W e \<and> ?X (fst e)) ts = Some e" unfolding find_filter .
  from find_split [OF this] obtain us vs where s: "ts = us @ e # vs" "?W e" "?X (fst e)"
    "list_all (\<lambda>e. \<not> (?W e \<and> ?X (fst e))) us" by blast
  have x: "?X (fst f) = is_user_explicit (snd f)" if "f \<in> set ts" for f
    using keyed_get [OF k, of "fst f" "snd f"] that by simp
  have "is_user_explicit (snd e)" using s x [of e] by simp
  moreover have "list_all (\<lambda>(_, u). \<not> (ticket_is_workable ts agent now u \<and> is_user_explicit u)) us"
    using s(1,4) x by (auto simp: list_all_iff case_prod_unfold)
  ultimately show ?thesis using s unfolding topmost_def tid by (metis prod.collapse)
qed

lemma blocked_child_Some:
  "blocked_child ts agent now (k, parent) = Some child \<longleftrightarrow> tk_section parent = ''## BLOCKED'' \<and>
     dict_get ts (field_text parent ''blocked_on'') = Some child \<and>
     field_text parent ''blocked_on'' \<in> set (tk_needs parent) \<and> ticket_is_workable ts agent now child"
  by (auto simp: blocked_child_def split: option.splits)

lemma in_map_filter: "x \<in> set (List.map_filter f xs) \<longleftrightarrow> (\<exists>e \<in> set xs. f e = Some x)"
  by (auto simp: List.map_filter_def) force

lemma reserved_child_workable:
  assumes "reserved_continuation_child ts agent now = Some child"
  shows "\<exists>k parent. (k, parent) \<in> set ts \<and> tk_section parent = ''## BLOCKED'' \<and>
    dict_get ts (field_text parent ''blocked_on'') = Some child \<and>
    field_text parent ''blocked_on'' \<in> set (tk_needs parent) \<and> ticket_is_workable ts agent now child"
proof -
  from assms have "List.map_filter (blocked_child ts agent now) ts = [child]"
    by (auto simp: reserved_continuation_child_def the_one_def split: list.splits)
  with in_map_filter [of child "blocked_child ts agent now" ts]
  obtain k parent where "(k, parent) \<in> set ts" "blocked_child ts agent now (k, parent) = Some child" by auto
  then show ?thesis unfolding blocked_child_Some by blast
qed

definition demo_backlog :: string where
  "demo_backlog = unlines [''## DOING'', ''## TODO'', ''- [ ] T-3 speculative idea'',
     ''- [ ] T-4 waits | needs: T-9'', ''- [ ] T-5 asked for | user_explicit: true'', ''## DONE'',
     ''## BLOCKED'', ''- [ ] T-9 credentials | blocker: WAIT_USER_DECISION -- key'']"

definition demo_tickets :: tickets where
  "demo_tickets = w_tickets (parse_board demo_backlog)"

lemma demo_keyed: "keyed demo_tickets"
  by code_simp

text \<open>
  C33: the Pick Rule: the answer is always a workable ticket of the board; a unique workable child
  reserved by a blocked parent wins, then the topmost workable ticket of explicit user origin, then the
  topmost workable ticket; and no ticket is named only when none is workable.
\<close>

theorem pick_next_work_exact:
  assumes k: "keyed ts" and pick: "pick_next_work ts agent now = (r, reason)"
  shows "case r of
      None \<Rightarrow> reason = ''none'' \<and> (\<forall>(k, t) \<in> set ts. \<not> ticket_is_workable ts agent now t)
    | Some tid \<Rightarrow>
        reason = ''dependency-continuation'' \<and> (\<exists>p parent child. (p, parent) \<in> set ts \<and> reserves tid parent \<and>
          dict_get ts tid = Some child \<and> ticket_is_workable ts agent now child) \<or>
        reason = ''start-user-explicit'' \<and> reserved_continuation_child ts agent now = None \<and>
          (\<exists>t. topmost (\<lambda>t. ticket_is_workable ts agent now t \<and> is_user_explicit t) ts tid t) \<or>
        reason = ''start'' \<and> reserved_continuation_child ts agent now = None \<and>
          (\<forall>(k, t) \<in> set ts. \<not> (ticket_is_workable ts agent now t \<and> is_user_explicit t)) \<and>
          (\<exists>t. topmost (ticket_is_workable ts agent now) ts tid t)"
proof (cases "reserved_continuation_child ts agent now")
  case (Some child)
  from reserved_child_workable [OF this] obtain p parent where
    c: "(p, parent) \<in> set ts" "tk_section parent = ''## BLOCKED''"
      "dict_get ts (field_text parent ''blocked_on'') = Some child"
      "field_text parent ''blocked_on'' \<in> set (tk_needs parent)" "ticket_is_workable ts agent now child" by blast
  have "tk_id child = field_text parent ''blocked_on''"
    using keyed_get [OF k map_of_SomeD [OF c(3)]] by simp
  with Some c pick show ?thesis
    by (auto simp: pick_next_work_def reserves_def intro!: exI [of _ p] exI [of _ parent])
next
  case none: None
  let ?W = "workable_tickets ts agent now" and ?X = "\<lambda>tid. is_user_explicit (the (dict_get ts tid))"
  show ?thesis
  proof (cases "find ?X ?W")
    case (Some tid)
    then have "r = Some tid" "reason = ''start-user-explicit''"
      using none pick by (simp_all add: pick_next_work_def Let_def)
    with none topmost_explicit [OF Some k] show ?thesis by simp
  next
    case None
    have no: "\<not> (ticket_is_workable ts agent now t \<and> is_user_explicit t)" if "(i, t) \<in> set ts" for i t
    proof
      assume w: "ticket_is_workable ts agent now t \<and> is_user_explicit t"
      with that have "tk_id t \<in> set ?W" by (force simp: workable_tickets_def)
      with None w keyed_get [OF k that] show False by (auto simp: find_None_iff)
    qed
    show ?thesis
    proof (cases ?W)
      case Nil
      then have "\<not> ticket_is_workable ts agent now t" if "(i, t) \<in> set ts" for i t
        using that by (auto simp: workable_tickets_def filter_empty_conv)
      moreover have "r = None" "reason = ''none''"
        using none None Nil pick by (simp_all add: pick_next_work_def Let_def)
      ultimately show ?thesis by auto
    next
      case (Cons tid tids)
      then have "r = Some tid" "reason = ''start''"
        using none None pick by (simp_all add: pick_next_work_def Let_def)
      with none no topmost_workable [OF Cons k] show ?thesis by auto
    qed
  qed
qed

theorem pick_next_work_exact_witness:
  "pick_next_work demo_tickets ''ann'' 0 = (Some ''T-5'', ''start-user-explicit'') \<and>
   reserved_continuation_child demo_tickets ''ann'' 0 = None"
proof -
  have p: "pick_next_work demo_tickets ''ann'' 0 = (Some ''T-5'', ''start-user-explicit'')" by code_simp
  from pick_next_work_exact [OF demo_keyed p] p show ?thesis by auto
qed

section \<open>Progress\<close>

lemma idle_stuck:
  assumes k: "keyed ts" and idle: "fst (pick_next_work ts agent now) = None" and e: "(i, u) \<in> set ts"
  shows "\<not> ticket_is_workable ts agent now u"
proof
  assume "ticket_is_workable ts agent now u"
  with e have "workable_tickets ts agent now \<noteq> []" by (force simp: workable_tickets_def filter_empty_conv)
  with idle show False by (auto simp: pick_next_work_def Let_def split: option.splits list.splits)
qed

lemma unfinished_need:
  assumes c: "board_semantic_errors t = []" and v: "claim_status t agent now \<noteq> INVALID"
    and s: "tk_section t = ''## TODO''" and w: "\<not> ticket_is_workable ts agent now t"
    and b: "tk_checkbox t \<in> set '' x/''"
  shows "\<exists>need \<in> set (tk_needs t). \<not> is_done ts need"
proof -
  have "box_errors t = []" "ticket_status_error t = None"
    using c by (simp_all add: board_semantic_errors_def split: option.splits)
  then have "tk_checkbox t = CHR '' ''" "\<not> ticket_has_blocker t"
    using s b by (auto simp: box_errors_def rule_def ticket_status_error_def split: if_splits)
  with s v w show ?thesis by (auto simp: ticket_is_workable_def Let_def list_all_iff)
qed

lemma needs_rel_wf: "acyclic (needs_rel ts) \<Longrightarrow> wf ((needs_rel ts)\<inverse>)"
proof -
  have "needs_rel ts \<subseteq> ids ts \<times> ids ts" by (auto simp: needs_rel_def)
  then have "finite (needs_rel ts)" by (rule finite_subset) simp
  then show "acyclic (needs_rel ts) \<Longrightarrow> wf ((needs_rel ts)\<inverse>)" by (rule finite_acyclic_wf_converse)
qed

text \<open>What a stopped board knows of every ticket.\<close>

definition clean_board :: "tickets \<Rightarrow> string \<Rightarrow> nat \<Rightarrow> bool" where
  "clean_board ts agent now \<longleftrightarrow> keyed ts \<and> board_graph_errors ts = [] \<and>
     list_all (\<lambda>(_, t). tk_section t \<in> set REQUIRED_HEADINGS \<and> tk_checkbox t \<in> set '' x/'' \<and>
       board_semantic_errors t = [] \<and> claim_status t agent now \<noteq> INVALID) ts"

text \<open>
  C38: the scheduler never starves a sound board: when nothing is picked and nothing is in progress,
  every TODO ticket waits, through a chain of needs, on a BLOCKED ticket; in particular a board without
  blocked tickets always yields work until everything is DONE.
\<close>

theorem pick_progress:
  assumes clean: "clean_board ts agent now" and idle: "fst (pick_next_work ts agent now) = None"
    and doing: "list_all (\<lambda>(_, t). tk_section t \<noteq> ''## DOING'') ts"
    and todo: "dict_get ts tid = Some t" "tk_section t = ''## TODO''"
  shows "\<exists>b u. (tid, b) \<in> (needs_rel ts)\<^sup>+ \<and> dict_get ts b = Some u \<and> tk_section u = ''## BLOCKED''"
proof -
  have k: "keyed ts" and g: "sound_graph ts"
    using clean board_graph_exact_lemma [of ts] by (auto simp: clean_board_def keyed_def)
  have stuck: "\<not> ticket_is_workable ts agent now u" if "(i, u) \<in> set ts" for i u
    using idle_stuck [OF k idle that] .
  have "wf ((needs_rel ts)\<inverse>)" using g needs_rel_wf by (simp add: sound_graph_def)
  then show ?thesis using todo
  proof (induction tid arbitrary: t rule: wf_induct_rule)
    case (less tid)
    have mem: "(tid, t) \<in> set ts" using less.prems(1) by (rule map_of_SomeD)
    with clean have facts: "board_semantic_errors t = []" "claim_status t agent now \<noteq> INVALID" "tk_checkbox t \<in> set '' x/''"
      by (auto simp: clean_board_def list_all_iff)
    from unfinished_need [OF facts(1,2) less.prems(2) stuck [OF mem] facts(3)] obtain need where
      need: "need \<in> set (tk_needs t)" "\<not> is_done ts need" by blast
    with g mem have "need \<in> ids ts" by (auto simp: sound_graph_def)
    then obtain u where u: "dict_get ts need = Some u" by (cases "dict_get ts need") (auto simp: dict_get_None)
    have e: "(tid, need) \<in> needs_rel ts"
      using need(1) \<open>need \<in> ids ts\<close> mem less.prems(1) by (force simp: needs_rel_def needs_of_def)
    have "(need, u) \<in> set ts" using u by (rule map_of_SomeD)
    with clean doing need(2) u have "tk_section u = ''## TODO'' \<or> tk_section u = ''## BLOCKED''"
      by (auto simp: clean_board_def list_all_iff REQUIRED_HEADINGS_def is_done_def)
    then show ?case
    proof
      assume "tk_section u = ''## TODO''"
      with less.IH [of need u] e u obtain b v where
        "(need, b) \<in> (needs_rel ts)\<^sup>+" "dict_get ts b = Some v" "tk_section v = ''## BLOCKED''" by auto
      with e show ?thesis by (meson trancl_into_trancl2)
    next
      assume "tk_section u = ''## BLOCKED''"
      with e u show ?thesis by blast
    qed
  qed
qed

definition demo_stopped :: tickets where
  "demo_stopped = w_tickets (parse_board (unlines [''## DOING'', ''## TODO'', ''- [ ] T-4 waits | needs: T-5'',
     ''- [ ] T-5 waits too | needs: T-9'', ''## DONE'', ''## BLOCKED'',
     ''- [ ] T-9 credentials | blocker: WAIT_USER_DECISION -- key'']))"

theorem pick_progress_witness:
  "\<exists>b u. (''T-4'', b) \<in> (needs_rel demo_stopped)\<^sup>+ \<and> dict_get demo_stopped b = Some u \<and>
     tk_section u = ''## BLOCKED''"
proof -
  have c: "clean_board demo_stopped ''ann'' 0" by code_simp
  have i: "fst (pick_next_work demo_stopped ''ann'' 0) = None" by code_simp
  have d: "list_all (\<lambda>(_, t). tk_section t \<noteq> ''## DOING'') demo_stopped" by code_simp
  have "\<exists>t. dict_get demo_stopped ''T-4'' = Some t \<and> tk_section t = ''## TODO''"
    by (rule evaluated_Some) code_simp
  with pick_progress [OF c i d] show ?thesis by blast
qed

end
