(* ===== verification/BoardWriters.thy ===== *)
theory BoardWriters
  imports BoardMoves SchedulingLaws
begin

text \<open>
  The remaining writers as updates of the abstract board: fields in place, the claim with the seat it
  takes, the removal that hands back its record, and the allocation of an identity with the insertion
  under TODO.
\<close>

section \<open>Fields in place\<close>

definition field_changes :: "string list \<Rightarrow> (string, string) dict \<Rightarrow> change list" where
  "field_changes remove us = map Clear remove @ map (\<lambda>(f, u). Assign f u) us"

lemma field_edits: "map Drop_Field remove @ set_edits (map (\<lambda>(f, u). (f, escape_text u)) us) =
    map edit_of (field_changes remove us)"
  by (auto simp: field_changes_def set_edits_def)

text \<open>
  C21: editing fields in place refines an update of the abstract board: removed fields are gone, written
  ones hold exactly the text the caller had before escaping, whatever pipes and backslashes it contains,
  and every other ticket and every other field stays as it was.
\<close>

theorem board_edit_refines:
  assumes doc: "canonical doc" "w_errors (parse_board doc) = []"
    and t: "dict_get (w_tickets (parse_board doc)) tid = Some t" and tidy: "tidy (tk_raw t)"
    and ok: "list_all change_ok (field_changes remove us)"
  shows "outcome cap ((board_view doc)(tid \<mapsto> changed (field_changes remove us) (ticket_card t)))
    (ticket_fields_in_place doc tid (map (\<lambda>(f, u). (f, escape_text u)) us) remove cap)"
  using edit_in_place_outcome [OF doc t tidy ok, of cap] t
  by (simp add: ticket_fields_in_place_def flip: field_edits)

theorem board_edit_refines_witness:
  "\<exists>doc'. ticket_fields_in_place work_board ''T-3'' [(''verify'', escape_text ''a | b'')] [''needs''] False = Inr doc' \<and>
     board_view doc' ''T-3'' =
       Some \<lparr>c_section = ''## TODO'', c_box = CHR '' '', c_fields = [(''verify'', ''a | b'')], c_description = ''lexer''\<rparr>"
proof -
  let ?t = "the (dict_get (w_tickets (parse_board work_board)) ''T-3'')"
  have c: "canonical work_board" "w_errors (parse_board work_board) = []" "tidy (tk_raw ?t)"
    "list_all change_ok (field_changes [''needs''] [(''verify'', ''a | b'')])"
    "dict_get (w_tickets (parse_board work_board)) ''T-3'' = Some ?t"
    by code_simp+
  have v: "changed (field_changes [''needs''] [(''verify'', ''a | b'')]) (ticket_card ?t) =
    \<lparr>c_section = ''## TODO'', c_box = CHR '' '', c_fields = [(''verify'', ''a | b'')], c_description = ''lexer''\<rparr>" by code_simp
  from outcome_uncapped [OF board_edit_refines [OF c(1,2,5,3,4), of False, unfolded v]]
  show ?thesis by auto
qed

section \<open>Claims\<close>

definition claim_changes :: "string \<Rightarrow> string \<Rightarrow> string option \<Rightarrow> (string, string) dict \<Rightarrow> change list" where
  "claim_changes agent utc session_binding ws =
     [Assign ''owner'' agent, Assign ''claim_time'' utc,
      (case session_binding of
         Some b \<Rightarrow> if b = [] then Clear ''claim_session'' else Assign ''claim_session'' b
       | None \<Rightarrow> Clear ''claim_session'')] @
     map Clear CLAIM_WITNESSES @ map (\<lambda>(f, u). Assign f u) ws"

definition claim_values :: "string \<Rightarrow> string \<Rightarrow> string option \<Rightarrow> (string, string) dict \<Rightarrow> bool" where
  "claim_values agent utc session_binding ws \<longleftrightarrow> word agent \<and> word utc \<and>
     (case session_binding of Some b \<Rightarrow> b = [] \<or> word b | None \<Rightarrow> True) \<and>
     list_all (\<lambda>(f, u). f \<in> set CLAIM_WITNESSES \<and> word u) ws"

lemma session_change: "(case session_binding of Some b \<Rightarrow> b = [] \<or> word b | None \<Rightarrow> True) \<Longrightarrow>
    session_edit session_binding = edit_of (case session_binding of
         Some b \<Rightarrow> if b = [] then Clear ''claim_session'' else Assign ''claim_session'' b
       | None \<Rightarrow> Clear ''claim_session'')"
  by (auto simp: session_edit_def escape_word split: option.splits)

lemma claim_edits:
  assumes "claim_values agent utc session_binding ws"
  shows "[Set_Field ''owner'' agent, Set_Field ''claim_time'' utc, session_edit session_binding] @
      map Drop_Field CLAIM_WITNESSES @ set_edits ws = map edit_of (claim_changes agent utc session_binding ws)"
proof -
  have "set_edits ws = map edit_of (map (\<lambda>(f, u). Assign f u) ws)"
    using assms by (auto simp: claim_values_def set_edits_def list_all_iff escape_word)
  moreover have "session_edit session_binding = edit_of (case session_binding of
         Some b \<Rightarrow> if b = [] then Clear ''claim_session'' else Assign ''claim_session'' b
       | None \<Rightarrow> Clear ''claim_session'')"
    using assms by (intro session_change) (simp add: claim_values_def)
  ultimately show ?thesis using assms by (simp add: claim_changes_def claim_values_def escape_word)
qed

lemma claim_fields_known:
  "list_all (\<lambda>f. f \<in> set KNOWN_FIELDS) (''owner'' # ''claim_time'' # ''claim_session'' # CLAIM_WITNESSES)"
  by code_simp

lemma claim_changes_ok: "claim_values agent utc session_binding ws \<Longrightarrow>
    list_all change_ok (claim_changes agent utc session_binding ws)"
  using claim_fields_known
  by (auto simp: claim_changes_def claim_values_def word_def list_all_iff split: option.splits)

fun change_name :: "change \<Rightarrow> string" where
  "change_name (Assign f u) = f"
| "change_name (Clear f) = f"

lemma changes_other: "k \<notin> change_name ` set cs \<Longrightarrow> dict_get (foldl (\<lambda>fs c. change_fields c fs) fs cs) k = dict_get fs k"
proof (induction cs arbitrary: fs)
  case (Cons c cs)
  then show ?case by (cases c) auto
qed simp

lemma claim_seat:
  assumes "claim_values agent utc session_binding ws"
  shows "dict_get (foldl (\<lambda>fs c. change_fields c fs) fs (claim_changes agent utc session_binding ws)) ''owner'' = Some agent"
    "dict_get (foldl (\<lambda>fs c. change_fields c fs) fs (claim_changes agent utc session_binding ws)) ''claim_time'' = Some utc"
proof -
  let ?cs = "tl (tl (claim_changes agent utc session_binding ws))"
  have "change_name ` set ?cs \<subseteq> {''claim_session'', ''claim_run'', ''claim_generation''}"
    using assms by (auto simp: claim_changes_def claim_values_def list_all_iff CLAIM_WITNESSES_def split: option.splits)
  then have o: "''owner'' \<notin> change_name ` set ?cs" "''claim_time'' \<notin> change_name ` set ?cs" by auto
  have c: "claim_changes agent utc session_binding ws = Assign ''owner'' agent # Assign ''claim_time'' utc # ?cs"
    by (simp add: claim_changes_def)
  show "dict_get (foldl (\<lambda>fs c. change_fields c fs) fs (claim_changes agent utc session_binding ws)) ''owner'' = Some agent"
    "dict_get (foldl (\<lambda>fs c. change_fields c fs) fs (claim_changes agent utc session_binding ws)) ''claim_time'' = Some utc"
    by (subst c, simp add: changes_other [OF o(1)] changes_other [OF o(2)])+
qed

lemma view_ticket:
  "board_view doc tid = Some c \<Longrightarrow> \<exists>t. dict_get (w_tickets (parse_board doc)) tid = Some t \<and> ticket_card t = c"
  by (auto simp: board_view_def)

lemma seat_self:
  assumes v: "claim_values agent utc session_binding ws" and stamp: "iso_utc_sort_key utc \<noteq> None"
    and fs: "tk_fields t = foldl (\<lambda>fs c. change_fields c fs) fs (claim_changes agent utc session_binding ws)"
  shows "claim_status t agent now = SELF"
proof -
  from v have w: "strip agent = agent" "agent \<noteq> []" "strip utc = utc" "utc \<noteq> []"
    by (auto simp: claim_values_def word_def writable_def trimmed_iff)
  have "field_text t ''owner'' = agent" "field_text t ''claim_time'' = utc"
    using w by (simp_all add: field_text_def fs claim_seat [OF v])
  with w stamp show ?thesis by (auto simp: claim_status_def claim_of_def)
qed

text \<open>
  claiming takes the seat: the abstract board changes in one identity only, the ticket stands in
  DOING with the in-progress box and the fields of the claim, and the claimant reads it as its own
  whatever the clock says.
\<close>

theorem claim_takes_seat:
  assumes m: "movable doc tid t" and box: "tk_checkbox t = CHR '' ''"
    and v: "claim_values agent utc session_binding ws" and stamp: "iso_utc_sort_key utc \<noteq> None"
  shows "outcome cap ((board_view doc)(tid \<mapsto>
       moved_card ''## DOING'' CHR ''/'' (claim_changes agent utc session_binding ws) (ticket_card t)))
     (claim_move doc tid agent utc session_binding cap (Some ws)) \<and>
    (\<forall>doc' now. claim_move doc tid agent utc session_binding cap (Some ws) = Inr doc' \<longrightarrow>
       (\<exists>t'. dict_get (w_tickets (parse_board doc')) tid = Some t' \<and> tk_section t' = ''## DOING'' \<and>
          claim_status t' agent now = SELF))"
proof -
  let ?os = "[opener CHR '' '' tid]" and ?cs = "claim_changes agent utc session_binding ws"
  let ?s = "scan_board ?os [''## DOING''] doc" and ?h = "''## DOING''"
  let ?view = "(board_view doc)(tid \<mapsto> moved_card ?h CHR ''/'' ?cs (ticket_card t))"
  from m box have op: "startswith (tk_raw t) (opener CHR '' '' tid)" by (simp add: movable_def)
  then have os: "list_ex (startswith (tk_raw t)) ?os" "\<forall>o' \<in> set ?os. \<exists>b. o' = opener b tid \<and> b \<noteq> CHR 92" by auto
  have h: "?h \<in> set [?h]" "?h \<in> set REQUIRED_HEADINGS" by (simp_all add: REQUIRED_HEADINGS_def)
  obtain idx where s: "sc_line ?s = Some (tk_raw t)" "dict_get (sc_heads ?s) ?h = Some idx"
    and put: "places (board_view doc) tid ?h (sc_out ?s) idx"
    by (rule relocation [OF m h os])
  have r: "reads (rebox CHR ''/'' (tk_raw t)) tid CHR ''/'' (tk_description t) (tk_fields t)"
    using reads_rebox [OF movable_reads(1) [OF m], of "CHR ''/''"] op box by simp
  then have "rstrip (rebox CHR ''/'' (tk_raw t)) = rebox CHR ''/'' (tk_raw t)"
    by (auto simp: reads_def intro: trimmed_rstrip tidy_trimmed)
  with replace_rebox [OF op, of "CHR ''/''"] have line:
    "rstrip (replace_once ''- [ ] '' ''- [/] '' (tk_raw t)) = rebox CHR ''/'' (tk_raw t)" by simp
  have "outcome cap ?view
    (case apply_edits cap (map edit_of ?cs) (rebox CHR ''/'' (tk_raw t)) of
       Inl e \<Rightarrow> Inl (Bad_Record e) | Inr marked \<Rightarrow> Inr (concat (insert_after idx (nl marked) (sc_out ?s))))"
  proof (rule moved_outcome [OF r claim_changes_ok [OF v]])
    fix new
    assume n: "reads new tid CHR ''/'' (tk_description t) (foldl (\<lambda>fs c. change_fields c fs) (tk_fields t) ?cs)"
    show "outcome cap ?view (Inr (concat (insert_after idx (nl new) (sc_out ?s))))"
      using put [unfolded places_def, rule_format, OF n] by (simp add: moved_card_def changed_def ticket_card_def)
  qed
  moreover have "claim_move doc tid agent utc session_binding cap (Some ws) =
    (case apply_edits cap (map edit_of ?cs) (rebox CHR ''/'' (tk_raw t)) of
       Inl e \<Rightarrow> Inl (Bad_Record e) | Inr marked \<Rightarrow> Inr (concat (insert_after idx (nl marked) (sc_out ?s))))"
    by (simp only: claim_move_def Let_def s prod.case option.case claim_edits [OF v] line)
  ultimately have o: "outcome cap ?view (claim_move doc tid agent utc session_binding cap (Some ws))" by simp
  moreover have "\<exists>t'. dict_get (w_tickets (parse_board doc')) tid = Some t' \<and> tk_section t' = ?h \<and>
      claim_status t' agent now = SELF"
    if "claim_move doc tid agent utc session_binding cap (Some ws) = Inr doc'" for doc' now
  proof -
    from o that have "board_view doc' tid = Some (moved_card ?h CHR ''/'' ?cs (ticket_card t))"
      by (simp add: outcome_def)
    from view_ticket [OF this] obtain t' where t': "dict_get (w_tickets (parse_board doc')) tid = Some t'"
      "ticket_card t' = moved_card ?h CHR ''/'' ?cs (ticket_card t)" by blast
    then have "tk_section t' = ?h" "tk_fields t' = foldl (\<lambda>fs c. change_fields c fs) (tk_fields t) ?cs"
      by (simp_all add: ticket_card_def moved_card_def changed_def)
    with t'(1) seat_self [OF v stamp] show ?thesis by blast
  qed
  ultimately show ?thesis by blast
qed

theorem claim_takes_seat_witness:
  "\<exists>doc'. claim_move work_board ''T-3'' ''bob'' ''2026-01-01T00:00:00Z'' None False (Some []) = Inr doc' \<and>
     (\<exists>t'. dict_get (w_tickets (parse_board doc')) ''T-3'' = Some t' \<and> claim_status t' ''bob'' 0 = SELF)"
proof -
  let ?t = "the (dict_get (w_tickets (parse_board work_board)) ''T-3'')"
  have c: "movable work_board ''T-3'' ?t" "tk_checkbox ?t = CHR '' ''"
    "claim_values ''bob'' ''2026-01-01T00:00:00Z'' None []" "iso_utc_sort_key ''2026-01-01T00:00:00Z'' \<noteq> None"
    by code_simp+
  note s = claim_takes_seat [OF c, of False]
  from outcome_uncapped [OF conjunct1 [OF s]] obtain doc' where
    d: "claim_move work_board ''T-3'' ''bob'' ''2026-01-01T00:00:00Z'' None False (Some []) = Inr doc'" by auto
  from conjunct2 [OF s, rule_format, OF d] d show ?thesis by blast
qed

section \<open>Removal\<close>

lemma seen_other: "list_all (\<lambda>h. \<not> startswith l h) REQUIRED_HEADINGS \<Longrightarrow> seen_heading l seen = seen"
proof -
  have "list_all (\<lambda>h. \<not> startswith l h) hs \<Longrightarrow> foldl (\<lambda>s h. if startswith l h then h else s) seen hs = seen" for hs
    by (induction hs) auto
  then show "list_all (\<lambda>h. \<not> startswith l h) REQUIRED_HEADINGS \<Longrightarrow> ?thesis" by (simp add: seen_heading_def)
qed

lemma seen_exact:
  assumes "h \<in> set REQUIRED_HEADINGS" "startswith l h" "list_all (\<lambda>h'. startswith l h' \<longrightarrow> h' = h) REQUIRED_HEADINGS"
  shows "seen_heading l seen = h"
proof -
  have "foldl (\<lambda>s h. if startswith l h then h else s) s hs = (if list_ex (startswith l) hs then h else s)"
    if "list_all (\<lambda>h'. startswith l h' \<longrightarrow> h' = h) hs" for hs s
    using that by (induction hs arbitrary: s) auto
  with assms show ?thesis by (auto simp: seen_heading_def list_ex_iff)
qed

definition unopened_record :: "string \<Rightarrow> string \<Rightarrow> bool" where
  "unopened_record tid l \<longleftrightarrow> \<not> list_ex (\<lambda>box. startswith l (opener box tid)) ''/ x''"

lemma removal_keeps:
  "list_all plain_line ls \<Longrightarrow> list_all (unopened_record tid) ls \<Longrightarrow>
   foldl (remove_line tid) s (map nl ls) =
     s\<lparr>rm_out := rm_out s @ map nl ls, rm_seen := foldl (\<lambda>seen l. seen_heading l seen) (rm_seen s) ls\<rparr>"
proof (induction ls arbitrary: s)
  case (Cons l ls)
  then have p: "plain_line l" and u: "unopened_record tid l" by simp_all
  have "remove_line tid s (nl l) = s\<lparr>rm_out := rm_out s @ [nl l], rm_seen := seen_heading l (rm_seen s)\<rparr>"
    unfolding remove_line_def Let_def chomp_line [OF p] by (rule if_not_P [OF u [unfolded unopened_record_def]])
  moreover have "list_all plain_line ls" "list_all (unopened_record tid) ls" using Cons.prems by simp_all
  ultimately show ?case using Cons.IH by simp
qed simp

lemma seen_section:
  "exact_headings ls \<Longrightarrow> section_after None ls = Some h \<Longrightarrow> h \<in> set REQUIRED_HEADINGS \<Longrightarrow>
   foldl (\<lambda>seen l. seen_heading l seen) seen ls = h"
proof (induction ls arbitrary: h rule: rev_induct)
  case Nil
  then show ?case by (simp add: section_after_def)
next
  case (snoc l ls)
  have ex: "exact_headings ls" "\<And>h'. h' \<in> set REQUIRED_HEADINGS \<Longrightarrow> startswith l h' \<Longrightarrow> strip l = h'"
    using snoc.prems(1) by (auto simp: exact_headings_def list_all_iff)
  show ?case
  proof (cases "is_heading_line l")
    case True
    then have "strip l = h" using snoc.prems(2) by (simp add: section_after_def)
    with heading_starts [OF True] have "startswith l h" by simp
    moreover have "list_all (\<lambda>h'. startswith l h' \<longrightarrow> h' = h) REQUIRED_HEADINGS"
      unfolding list_all_iff using ex(2) \<open>strip l = h\<close> by metis
    ultimately show ?thesis using seen_exact [OF snoc.prems(3)] by simp
  next
    case False
    then have "section_after None ls = Some h" using snoc.prems(2) by (simp add: section_after_def)
    moreover have "seen_heading l s = s" for s
      using False startswith_trans [OF _ required_heading] by (intro seen_other) (auto simp: list_all_iff is_heading_line_def)
    ultimately show ?thesis using snoc.IH [OF ex(1) _ snoc.prems(3)] by simp
  qed
qed

lemma unopened_records:
  assumes ok: "board_ok ls" and p: "list_all plain_line ls" and t: "ticket_name tid" "tid \<notin> fst ` set (cards None ls)"
  shows "list_all (unopened_record tid) ls"
proof -
  have "\<forall>o' \<in> set (map (\<lambda>b. opener b tid) ''/ x''). \<exists>b. o' = opener b tid \<and> b \<noteq> CHR 92" by auto
  from others_unopened [OF ok p t this]
  have "\<not> startswith l (opener b tid)" if "l \<in> set ls" "b \<in> set ''/ x''" for l b
    using that unfolding unopened_def list_all_iff list_ex_iff set_map by blast
  then have "unopened_record tid l" if "l \<in> set ls" for l
    using that unfolding unopened_record_def list_ex_iff by blast
  then show ?thesis unfolding list_all_iff by blast
qed

text \<open>
  removing a record hands back exactly its line and its section, and the board without it is one
  the parser accepts, with every other ticket unchanged.
\<close>

theorem removal_hands_back_record:
  assumes m: "movable doc tid t"
  shows "\<exists>doc'. remove_ticket doc tid = Inr (doc', tk_raw t, tk_section t) \<and>
    outcome False ((board_view doc)(tid := None)) (Inr doc')"
proof -
  from m have doc: "canonical doc" "w_errors (parse_board doc) = []" "exact_headings (splitlines doc)"
    and t: "dict_get (w_tickets (parse_board doc)) tid = Some t"
    and op: "startswith (tk_raw t) (opener (tk_checkbox t) tid)" and tidy: "tidy (tk_raw t)" by (simp_all add: movable_def)
  obtain A B where l: "splitlines doc = A @ tk_raw t # B"
    "record_card (section_after None A) (tk_raw t) = Some (tid, ticket_card t)" "is_record_line (tk_raw t)"
    by (rule ticket_line [OF doc(2) t]) blast
  have plain: "list_all plain_line (A @ B)" "plain_line (tk_raw t)" using plain_splitlines [of doc] l(1) by simp_all
  have "board_ok (A @ tk_raw t # B)" using doc(2) l(1) by (simp add: parse_board_clean_iff)
  note rest = drop_record [OF this l(3,2)]
  from unopened_records [OF rest(1) plain(1) movable_reads(2) [OF m] rest(3)]
  have u: "list_all (unopened_record tid) A" "list_all (unopened_record tid) B" by simp_all
  from plain(1) have pl: "list_all plain_line A" "list_all plain_line B" by simp_all
  have ex: "exact_headings A" using doc(3) l(1) by (auto simp: exact_headings_def list_all_iff)
  from card_reads(2,3) [OF tidy plain(2) l(2)] have sec: "section_after None A = Some (tk_section t)"
    "tk_section t \<in> set REQUIRED_HEADINGS"
    by (auto simp: ticket_card_def work_section_def split: option.splits)
  let ?e = "\<lparr>rm_out = [], rm_record = None, rm_section = [], rm_seen = []\<rparr>" and ?raw = "tk_raw t"
  let ?seen = "foldl (\<lambda>seen l. seen_heading l seen) [] A"
  have seen: "?seen = tk_section t" by (rule seen_section [OF ex sec])
  have "list_ex (\<lambda>box. startswith ?raw (opener box tid)) ''/ x''"
    using op movable_reads(3) [OF m] by (simp only: list_ex_iff) auto
  moreover have "seen_heading ?raw s = s" for s
    using record_facts [OF l(3)] startswith_trans [OF _ required_heading]
    by (intro seen_other) (auto simp: list_all_iff is_heading_line_def)
  ultimately have raw: "remove_line tid s (nl ?raw) = s\<lparr>rm_record := Some ?raw, rm_section := rm_seen s, rm_seen := rm_seen s\<rparr>" for s
    by (simp only: remove_line_def Let_def chomp_line [OF plain(2)] if_True)
  have "foldl (remove_line tid) ?e (keeplines doc) =
     \<lparr>rm_out = map nl (A @ B), rm_record = Some ?raw, rm_section = tk_section t,
      rm_seen = foldl (\<lambda>seen l. seen_heading l seen) (tk_section t) B\<rparr>"
    by (simp add: canonical_keeplines [OF doc(1)] l(1) removal_keeps [OF pl(1) u(1)] removal_keeps [OF pl(2) u(2)] raw seen)
  then have rm: "remove_ticket doc tid = Inr (unlines (A @ B), ?raw, tk_section t)"
    by (simp add: remove_ticket_def Let_def unlines_def)
  have "outcome False ((board_view doc)(tid := None)) (Inr (unlines (A @ B)))"
    using board_of_lines [OF plain(1) rest(1)] canonical_unlines [OF plain(1)] rest(2) l(1)
    by (simp add: outcome_def board_view_cards [OF doc(2)])
  with rm show ?thesis by blast
qed

theorem removal_hands_back_record_witness:
  "\<exists>doc'. remove_ticket work_board ''T-1'' = Inr (doc', ''- [x] T-1 setup | verify: ok'', ''## DONE'') \<and>
     board_view doc' ''T-1'' = None"
proof -
  let ?t = "the (dict_get (w_tickets (parse_board work_board)) ''T-1'')"
  have m: "movable work_board ''T-1'' ?t" by code_simp
  have t: "tk_raw ?t = ''- [x] T-1 setup | verify: ok''" "tk_section ?t = ''## DONE''" by code_simp+
  from removal_hands_back_record [OF m, unfolded t] show ?thesis by (auto simp: outcome_def)
qed

section \<open>Allocation\<close>

lemma hide_unprefix: "hide_pipes s = p @ q \<Longrightarrow> PIPE_SENTINEL \<notin> set p \<Longrightarrow> \<exists>s'. s = p @ s' \<and> hide_pipes s' = q"
proof (induction p arbitrary: s)
  case (Cons c p)
  then obtain t where "s = c # t" "hide_pipes t = p @ q"
    by (cases s) (auto simp: hide_pipes_Cons split: if_splits)
  with Cons.IH [of t] Cons.prems(2) show ?case by auto
qed simp

lemma ticket_re_shape:
  assumes "ticket_re s = Some (box, tid, desc)"
  shows "\<exists>blanks. blanks \<noteq> [] \<and> list_all is_space blanks \<and> s = (''- ['' @ [box] @ ''] '' @ tid) @ blanks @ desc"
proof -
  from assms obtain rest where s: "startswith s ''- [''" "6 \<le> length s" "s ! 4 = CHR '']''" "s ! 5 = CHR '' ''" "box = s ! 3"
    and t: "ticket_ref (drop 6 s) = Some (tid, rest)"
    and b: "takeWhile is_space rest \<noteq> []" "desc = dropWhile is_space rest"
    by (auto simp: ticket_re_def span_def split: if_splits option.splits)
  from s(1,2) obtain a b c r where "s = ''- ['' @ a # b # c # r"
    by (auto simp: startswith_iff_prefix prefix_def Suc_le_length_iff numeral_eq_Suc)
  with s(3-5) have "s = ''- ['' @ [box] @ ''] '' @ drop 6 s" by simp
  also have "drop 6 s = tid @ takeWhile is_space rest @ desc" using ticket_ref_name [OF t] b(2) by simp
  finally show ?thesis using b(1)
    by (intro exI [of _ "takeWhile is_space rest"]) (auto simp: list_all_iff dest: set_takeWhileD)
qed

lemma ticket_name_no_sentinel: "ticket_name tid \<Longrightarrow> PIPE_SENTINEL \<notin> set tid"
proof -
  assume t: "ticket_name tid"
  then have tid: "tid = ''T-'' @ drop 2 tid" "list_all is_digit (drop 2 tid)"
    using startswith_drop [of tid "''T-''"] by (auto simp: ticket_name_def numeral_2_eq_2)
  then have "PIPE_SENTINEL \<notin> set (drop 2 tid)" by (auto simp: list_all_iff is_digit_def PIPE_SENTINEL_def Let_def)
  then show ?thesis by (subst tid(1)) (simp add: PIPE_SENTINEL_def)
qed

lemma space_not_word: "is_space c \<Longrightarrow> \<not> is_word c"
  by (auto simp: is_word_def is_alnum_def is_alpha_def is_upper_def is_lower_def is_digit_def is_space_def Let_def)

text \<open>Every record the parser reads is seen by the allocator.\<close>

lemma record_allocated:
  assumes "record_card s l = Some (tid, c)"
  shows "board_ticket_line (strip l) = ticket_number tid" "ticket_name tid"
proof -
  from assms obtain rest where r: "ticket_re (hide_pipes (strip l)) = Some (c_box c, tid, rest)"
    by (auto simp: record_card_def split: option.splits if_splits)
  note n = ticket_re_name [OF r]
  then show t: "ticket_name tid" by simp
  let ?p = "''- ['' @ [c_box c] @ ''] '' @ tid"
  from ticket_re_shape [OF r] obtain blanks where b: "blanks \<noteq> []" "list_all is_space blanks"
    "hide_pipes (strip l) = ?p @ blanks @ rest" by blast
  have "PIPE_SENTINEL \<notin> set ?p" using n ticket_name_no_sentinel [OF t] by (auto simp: PIPE_SENTINEL_def)
  from hide_unprefix [OF b(3) this] obtain s' where s': "strip l = ?p @ s'" "hide_pipes s' = blanks @ rest" by blast
  then have ne: "s' \<noteq> []" using b(1) by auto
  with hide_ends [of s'] s'(2) b have sp: "is_space (hd s')" by (cases blanks) auto
  then have "\<not> is_digit (hd s')" by (auto simp: is_space_def is_digit_def Let_def)
  with ticket_ref_exact [OF t, of s'] have "ticket_ref (tid @ s') = Some (tid, s')" by simp
  moreover have "lstrip ('' '' @ tid @ s') = tid @ s'"
    using t by (cases tid) (auto simp: ticket_name_def startswith_iff_prefix lstrip_def is_space_def Let_def)
  moreover have "lstrip ('' ['' @ [c_box c] @ ''] '' @ tid @ s') = ''['' @ [c_box c] @ ''] '' @ tid @ s'"
    by (simp add: lstrip_def is_space_def Let_def)
  ultimately show "board_ticket_line (strip l) = ticket_number tid"
    using n sp space_not_word by (auto simp: board_ticket_line_def s'(1))
qed

lemma foldl_max: "m \<le> foldl max m ns \<and> (\<forall>n \<in> set ns. n \<le> foldl max m ns)" for m :: nat
proof (induction ns arbitrary: m)
  case (Cons n ns)
  from Cons [of "max m n"] show ?case by auto
qed simp

lemma next_id_above:
  "n \<in> set (List.map_filter (\<lambda>l. board_ticket_line (strip l)) (splitlines doc)) \<or> 0 < n \<and> n = hist \<Longrightarrow>
   n < next_ticket_id doc hist"
  using foldl_max [of 0 "List.map_filter (\<lambda>l. board_ticket_line (strip l)) (splitlines doc) @ (if 0 < hist then [hist] else [])"]
  by (auto simp: next_ticket_id_def Let_def less_Suc_eq_le)

lemma card_line: "(tid, c) \<in> set (cards s ls) \<Longrightarrow> \<exists>s' l. l \<in> set ls \<and> record_card s' l = Some (tid, c)"
  by (induction s ls rule: cards.induct) (auto split: if_splits option.splits)

lemma ticket_number_show: "ticket_number (''T-'' @ show_nat n) = Some n"
  using show_nat_digits [of n] number_of_show [of n] by (simp add: ticket_number_def ticket_name_def)

lemma find_index_first: "\<not> list_ex P C \<Longrightarrow> P x \<Longrightarrow> find_index P (C @ x # D) = Some (length C)"
  by (induction C) auto

lemma startswith_nl: "CHR 10 \<notin> set h \<Longrightarrow> startswith (nl l) h = startswith l h"
  by (induction l h rule: startswith.induct) auto

text \<open>
  C22: the identity handed out next is used by no ticket of the board and lies above the frontier of the
  history, and a record inserted under TODO for it appears there without disturbing any other ticket.
\<close>

theorem fresh_ticket_inserted:
  assumes doc: "canonical doc" "w_errors (parse_board doc) = []" "exact_headings (splitlines doc)"
    and r: "reads line (''T-'' @ show_nat (next_ticket_id doc frontier)) box description fs"
    and size: "length line \<le> MAX_LIVE_RECORD_CHARS"
  shows "frontier < next_ticket_id doc frontier \<and>
    board_view doc (''T-'' @ show_nat (next_ticket_id doc frontier)) = None \<and>
    (\<exists>doc'. insert_todo doc line = Inr doc' \<and>
       outcome False ((board_view doc)(''T-'' @ show_nat (next_ticket_id doc frontier) \<mapsto>
         \<lparr>c_section = ''## TODO'', c_box = box, c_fields = fs, c_description = description\<rparr>)) (Inr doc'))"
proof -
  let ?n = "next_ticket_id doc frontier" and ?ls = "splitlines doc" and ?h = "''## TODO''"
  let ?tid = "''T-'' @ show_nat ?n"
  have ok: "board_ok ?ls" using doc(2) by (simp add: parse_board_clean_iff)
  have fresh: "?tid \<notin> fst ` set (cards None ?ls)"
  proof
    assume "?tid \<in> fst ` set (cards None ?ls)"
    then obtain c s l where l: "l \<in> set ?ls" "record_card s l = Some (?tid, c)" using card_line by fastforce
    from record_allocated(1) [OF l(2)] have "board_ticket_line (strip l) = Some ?n" by (simp only: ticket_number_show)
    with l(1) have "?n \<in> set (List.map_filter (\<lambda>l. board_ticket_line (strip l)) ?ls)"
      by (force simp: List.map_filter_def)
    then have "?n < ?n" by (intro next_id_above) simp
    then show False by simp
  qed
  have hi: "frontier < ?n"
    using next_id_above [of frontier doc frontier] by (cases "frontier = 0") (auto simp: next_ticket_id_def Let_def)
  have h: "?h \<in> set REQUIRED_HEADINGS" by (simp add: REQUIRED_HEADINGS_def)
  obtain C x D where e: "?ls = C @ x # D" "is_heading_line x" "strip x = ?h" "startswith x ?h"
    "list_all (\<lambda>l. \<not> startswith l ?h) C" "list_all (\<lambda>l. \<not> startswith l ?h) D"
    by (rule heading_place [OF ok doc(3) h])
  have keep: "keeplines doc = map nl (C @ x # D)" using canonical_keeplines [OF doc(1)] e(1) by simp
  have "\<not> list_ex (\<lambda>l. startswith l ?h) (map nl C)" using e(5) by (auto simp: list_ex_iff list_all_iff startswith_nl)
  then have idx: "find_index (\<lambda>l. startswith l ?h) (map nl (C @ x # D)) = Some (length C)"
    using find_index_first [of "\<lambda>l. startswith l ?h" "map nl C" "nl x" "map nl D"] e(4) by (simp add: startswith_nl)
  have plain: "plain_line line" using r by (simp add: reads_def)
  have "assert_live_record line = Inr line"
    using size by (simp add: assert_live_record_def assert_single_record_def record_separator_in_plain [THEN iffD2, OF plain])
  then have ins: "insert_todo doc line = Inr (unlines ((C @ [x]) @ line # D))"
    unfolding insert_todo_def keep idx by (simp only: sum.case option.case insert_after_heading append.simps append_assoc)
  have sec: "section_after None (C @ [x]) = Some ?h" by (simp add: section_after_def e(2,3))
  then have w: "work_section (section_after None (C @ [x]))" using h by (simp add: work_section_def)
  have cx: "?ls = (C @ [x]) @ D" using e(1) by simp
  note b = add_record [OF ok [unfolded cx] reads_card(2) [OF r w] reads_card(1) [OF r w] fresh [unfolded cx]]
  have p: "list_all plain_line ((C @ [x]) @ line # D)" using plain_splitlines [of doc] plain unfolding cx by simp
  have v: "map_of (cards None ((C @ [x]) @ line # D)) = (board_view doc)(?tid \<mapsto>
      \<lparr>c_section = ?h, c_box = box, c_fields = fs, c_description = description\<rparr>)"
    using b(2) by (simp add: board_view_cards [OF doc(2)] sec cx)
  have "outcome False ((board_view doc)(?tid \<mapsto>
      \<lparr>c_section = ?h, c_box = box, c_fields = fs, c_description = description\<rparr>)) (Inr (unlines ((C @ [x]) @ line # D)))"
    using board_of_lines [OF p b(1)] v canonical_unlines [OF p] by (simp only: outcome_def sum.case simp_thms)
  moreover have "board_view doc ?tid = None"
    using fresh by (simp add: board_view_cards [OF doc(2)] map_of_eq_None_iff)
  ultimately show ?thesis using ins hi by blast
qed

theorem fresh_ticket_inserted_witness:
  "next_ticket_id work_board 7 = 8 \<and>
   (\<exists>doc'. insert_todo work_board ''- [ ] T-8 printer'' = Inr doc' \<and> board_view doc' ''T-8'' =
      Some \<lparr>c_section = ''## TODO'', c_box = CHR '' '', c_fields = [], c_description = ''printer''\<rparr>)"
proof -
  have n: "next_ticket_id work_board 7 = 8" by code_simp
  have tid: "''T-'' @ show_nat 8 = ''T-8''" by code_simp
  have d: "canonical work_board" "w_errors (parse_board work_board) = []" "exact_headings (splitlines work_board)"
    by code_simp+
  have l: "tidy ''- [ ] T-8 printer''" "plain_line ''- [ ] T-8 printer''" "length ''- [ ] T-8 printer'' \<le> MAX_LIVE_RECORD_CHARS"
    "record_card (Some ''## TODO'') ''- [ ] T-8 printer'' =
      Some (''T-8'', \<lparr>c_section = ''## TODO'', c_box = CHR '' '', c_fields = [], c_description = ''printer''\<rparr>)"
    by code_simp+
  have r: "reads ''- [ ] T-8 printer'' (''T-'' @ show_nat (next_ticket_id work_board 7)) CHR '' '' ''printer'' []"
    using card_reads(1) [OF l(1,2,4)] unfolding n tid by simp
  from fresh_ticket_inserted [OF d r l(3)] show ?thesis unfolding n tid by (auto simp: outcome_def)
qed

end
