(* ===== verification/BoardIncidents.thy ===== *)
theory BoardIncidents
  imports BoardWriters
begin

text \<open>
  Boards the parser accepts and the writers turn into boards it refuses: the conditions the refinement
  theorems put on a document (canonical lines, exact headings, tidy records, writable values) are not
  checked by the writers themselves.
\<close>

definition breaks :: "string \<Rightarrow> edit_error + string \<Rightarrow> bool" where
  "breaks doc r \<longleftrightarrow> w_errors (parse_board doc) = [] \<and>
     (case r of Inl _ \<Rightarrow> False | Inr doc' \<Rightarrow> w_errors (parse_board doc') \<noteq> [])"

text \<open>The last heading without a line feed, as an editor may leave it.\<close>

definition unterminated_board :: string where
  "unterminated_board = unlines [''## DOING'', ''- [/] T-2 parser'', ''## TODO'', ''## DONE''] @ ''## BLOCKED''"

text \<open>A section whose name continues the name of a work section.\<close>

definition archive_board :: string where
  "archive_board = unlines [''## DOING'', ''- [/] T-2 parser'', ''## TODO'', ''## DONE'', ''## BLOCKED'', ''## DONE archive'']"

text \<open>Two blanks before a field.\<close>

definition padded_board :: string where
  "padded_board = unlines [''## DOING'', ''- [/] T-2 parser |  owner: ann'', ''## TODO'', ''## DONE'', ''## BLOCKED'']"

text \<open>A form feed between two records.\<close>

definition form_feed_board :: string where
  "form_feed_board = unlines [''## DOING'', ''- [/] T-2 parser'' @ [CHR 12] @ ''- [/] T-3 lexer'', ''## TODO'', ''## DONE'', ''## BLOCKED'']"

text \<open>
  Five accepted boards whose rewritten text the parser refuses: a heading without its line feed
  swallows the moved record, a section that continues the name of a work section attracts it, a
  field behind two blanks is written a second time, a form feed glues the next record to the edited one,
  and a blocker text that mentions a checkbox and an identity reads as a second record.
\<close>

theorem writers_break_accepted_boards:
  "breaks unterminated_board (move_ticket unterminated_board ''T-2'' ''## BLOCKED'' Block ''waits'' [] [] True) \<and>
   breaks archive_board (move_ticket archive_board ''T-2'' ''## DONE'' Finish [] [] [] True) \<and>
   breaks padded_board (ticket_fields_in_place padded_board ''T-2'' [(''owner'', ''bob'')] [] True) \<and>
   breaks form_feed_board (ticket_fields_in_place form_feed_board ''T-2'' [(''owner'', ''bob'')] [] True) \<and>
   breaks work_board (move_ticket work_board ''T-2'' ''## BLOCKED'' Block ''after [x] T-1'' [] [] True)"
  by (intro conjI; code_simp)

end
