(* ===== verification/Frontmatter.thy ===== *)
theory Frontmatter
  imports TicketText
begin

text \<open>
  The STATE document of \<open>state.py\<close>: the scalar codec \<open>coerce\<close> / \<open>_render_value\<close>, the strict
  \<open>parse_frontmatter\<close> and the surgical writers \<open>patch_state\<close> and \<open>remove_state_fields\<close>.  A raised
  \<open>ValueError\<close> is the left side of a sum; floats do not occur in the document.
\<close>

section \<open>The scalar codec\<close>

datatype scalar = SStr string | SInt int | SBool bool

datatype sval = Scalar scalar | SList "scalar list"

text \<open>The body of a single-quoted scalar: a doubled apostrophe is one, a lone one is malformed.\<close>

fun unquote_single :: "string \<Rightarrow> string option" where
  "unquote_single [] = Some []"
| "unquote_single [c] = (if c = CHR 39 then None else Some [c])"
| "unquote_single (c # d # s) =
     (if c = CHR 39 then (if d = CHR 39 then map_option (Cons c) (unquote_single s) else None)
      else map_option (Cons c) (unquote_single (d # s)))"

text \<open>The body of a double-quoted one: only an escaped backslash or quote is special.\<close>

fun unquote_double :: "string \<Rightarrow> string" where
  "unquote_double [] = []"
| "unquote_double [c] = [c]"
| "unquote_double (c # d # s) =
     (if c = CHR 92 \<and> (d = CHR 92 \<or> d = CHR 34) then d # unquote_double s
      else c # unquote_double (d # s))"

definition quoted_by :: "char \<Rightarrow> string \<Rightarrow> bool" where
  "quoted_by q raw \<longleftrightarrow> 2 \<le> length raw \<and> hd raw = q \<and> last raw = q"

definition decode_quoted :: "string \<Rightarrow> string option" where
  "decode_quoted raw =
     (case (if quoted_by (CHR 39) raw then unquote_single (butlast (tl raw)) else None) of
        Some s \<Rightarrow> Some s
      | None \<Rightarrow> if quoted_by (CHR 34) raw then Some (unquote_double (butlast (tl raw))) else None)"

text \<open>\<open>-?\d+\<close>, and the number it denotes.\<close>

definition int_text :: "string \<Rightarrow> bool" where
  "int_text s \<longleftrightarrow> (let ds = (if startswith s ''-'' then tl s else s) in ds \<noteq> [] \<and> list_all is_digit ds)"

definition int_value :: "string \<Rightarrow> int" where
  "int_value s = (if startswith s ''-'' then - int (digits_value (tl s)) else int (digits_value s))"

definition coerce :: "string \<Rightarrow> scalar" where
  "coerce raw =
     (case decode_quoted raw of
        Some s \<Rightarrow> SStr s
      | None \<Rightarrow>
          if raw = ''true'' \<or> raw = ''false'' then SBool (raw = ''true'')
          else if int_text raw then SInt (int_value raw)
          else SStr raw)"

definition show_int :: "int \<Rightarrow> string" where
  "show_int n = (if n < 0 then CHR ''-'' # show_nat (nat (- n)) else show_nat (nat n))"

definition QUOTE_CHARS :: string where
  "QUOTE_CHARS = '':,[]{}&*!|>'' @ [CHR 39, CHR 34] @ ''%@'' @ [CHR 96]"

definition needs_quote :: "string \<Rightarrow> bool" where
  "needs_quote s \<longleftrightarrow>
     int_text s \<or> s = ''true'' \<or> s = ''false'' \<or> list_ex (\<lambda>c. c \<in> set QUOTE_CHARS) s \<or>
     s \<noteq> strip s \<or> list_ex is_space s"

definition quote :: "string \<Rightarrow> string" where
  "quote s = [CHR 34] @ replace_all [CHR 34] [CHR 92, CHR 34] (replace_all [CHR 92] [CHR 92, CHR 92] s) @ [CHR 34]"

datatype state_error =
    Separator_In_Scalar char
  | No_Opening_Fence
  | No_Closing_Fence
  | Stray_Item nat
  | Unparseable string
  | Duplicate_State_Field nat string

definition render_value :: "scalar \<Rightarrow> state_error + string" where
  "render_value v =
     (case v of
        SBool b \<Rightarrow> Inr (if b then ''true'' else ''false'')
      | SInt n \<Rightarrow> Inr (show_int n)
      | SStr s \<Rightarrow>
          if s = [] then Inr [CHR 34, CHR 34]
          else (case record_separator_in s of
            Some sep \<Rightarrow> Inl (Separator_In_Scalar sep)
          | None \<Rightarrow> Inr (if needs_quote s then quote s else s)))"

section \<open>Parsing\<close>

definition name_char :: "char \<Rightarrow> bool" where
  "name_char c \<longleftrightarrow> is_alnum c \<or> c = CHR ''_''"

text \<open>\<open>^([A-Za-z_][A-Za-z0-9_]*):\s*(.*)$\<close>: the key and the rest of the line.\<close>

definition key_line :: "string \<Rightarrow> (string \<times> string) option" where
  "key_line line =
     (case span name_char line of (key, rest) \<Rightarrow>
        if key \<noteq> [] \<and> \<not> is_digit (hd key) \<and> startswith rest '':'' then Some (key, lstrip (tl rest)) else None)"

text \<open>\<open>^\s+-\s+(.*)$\<close>: a list item.\<close>

definition item_line :: "string \<Rightarrow> string option" where
  "item_line line =
     (case span is_space line of (blanks, rest) \<Rightarrow>
        if blanks \<noteq> [] \<and> startswith rest ''-'' \<and> tl rest \<noteq> [] \<and> is_space (hd (tl rest)) then Some (lstrip (tl rest))
        else None)"

type_synonym state_fields = "(string, sval) dict"

definition push_item :: "string \<Rightarrow> scalar \<Rightarrow> state_fields \<Rightarrow> state_fields" where
  "push_item key v fs =
     (case dict_get fs key of Some (SList vs) \<Rightarrow> dict_set key (SList (vs @ [v])) fs | _ \<Rightarrow> fs)"

text \<open>One line of the loop; the list key that is open travels with the fields.\<close>

definition front_line :: "nat \<Rightarrow> string \<Rightarrow> state_fields \<times> string option \<Rightarrow> state_error + state_fields \<times> string option" where
  "front_line n line st =
     (case st of (fs, open_key) \<Rightarrow>
        if strip line = [] then Inr (fs, open_key)
        else case item_line line of
          Some item \<Rightarrow>
            (case open_key of
               None \<Rightarrow> Inl (Stray_Item n)
             | Some key \<Rightarrow> Inr (push_item key (coerce (strip item)) fs, open_key))
        | None \<Rightarrow>
            (case key_line line of
               None \<Rightarrow> Inl (Unparseable line)
             | Some (key, rest) \<Rightarrow>
                 let raw = strip rest in
                 if dict_get fs key \<noteq> None then Inl (Duplicate_State_Field n key)
                 else if raw = [] then Inr (fs @ [(key, SList [])], Some key)
                 else Inr (fs @ [(key, Scalar (coerce raw))], None)))"

definition is_fence :: "string \<Rightarrow> bool" where
  "is_fence line \<longleftrightarrow> strip line = ''---''"

fun front_loop :: "nat \<Rightarrow> string list \<Rightarrow> state_fields \<times> string option \<Rightarrow> state_error + state_fields" where
  "front_loop n [] st = Inl No_Closing_Fence"
| "front_loop n (line # ls) st =
     (if is_fence line then Inr (fst st)
      else case front_line n line st of Inl e \<Rightarrow> Inl e | Inr st' \<Rightarrow> front_loop (Suc n) ls st')"

definition parse_frontmatter :: "string \<Rightarrow> state_error + state_fields" where
  "parse_frontmatter doc =
     (case splitlines doc of
        [] \<Rightarrow> Inl No_Opening_Fence
      | line # ls \<Rightarrow> if is_fence line then front_loop 2 ls ([], None) else Inl No_Opening_Fence)"

text \<open>A field read as a text; the fields the engine reads this way are strings.\<close>

definition state_string :: "state_fields \<Rightarrow> string \<Rightarrow> string option" where
  "state_string fs key = (case dict_get fs key of Some (Scalar (SStr s)) \<Rightarrow> Some s | _ \<Rightarrow> None)"

section \<open>Surgical writers\<close>

definition render_items :: "scalar list \<Rightarrow> state_error + string list" where
  "render_items vs =
     foldr (\<lambda>v acc. case render_value v of
        Inl e \<Rightarrow> Inl e
      | Inr s \<Rightarrow> (case acc of Inl e \<Rightarrow> Inl e | Inr ls \<Rightarrow> Inr ((''  - '' @ s) # ls))) vs (Inr [])"

definition emit_block :: "string \<Rightarrow> sval \<Rightarrow> state_error + string list" where
  "emit_block key v =
     (case v of
        Scalar s \<Rightarrow> map_sum id (\<lambda>t. [key @ '': '' @ t]) (render_value s)
      | SList vs \<Rightarrow> map_sum id (Cons (key @ '':'')) (render_items vs))"

text \<open>Two results in sequence.\<close>

definition also_lines :: "state_error + string list \<Rightarrow> state_error + string list \<Rightarrow> state_error + string list" where
  "also_lines a b = (case a of Inl e \<Rightarrow> Inl e | Inr xs \<Rightarrow> map_sum id (append xs) b)"

definition is_list :: "sval \<Rightarrow> bool" where
  "is_list v = (case v of SList _ \<Rightarrow> True | Scalar _ \<Rightarrow> False)"

lemma dropWhile_shorter: "length (dropWhile P xs) < Suc (length xs)"
  by (simp add: length_dropWhile_le less_Suc_eq_le)

text \<open>The body of the frontmatter; what is still pending at its end is appended.\<close>

function patch_body :: "(string, sval) dict \<Rightarrow> string list \<Rightarrow> state_error + string list" where
  "patch_body pending [] = foldr (\<lambda>(k, v). also_lines (emit_block k v)) pending (Inr [])"
| "patch_body pending (line # body) =
     (case key_line line of
        Some (key, _) \<Rightarrow>
          (case dict_get pending key of
             Some v \<Rightarrow>
               also_lines (emit_block key v)
                 (patch_body (dict_pop key pending)
                    (if is_list v then dropWhile (\<lambda>l. item_line l \<noteq> None) body else body))
           | None \<Rightarrow> also_lines (Inr [line]) (patch_body pending body))
      | None \<Rightarrow> also_lines (Inr [line]) (patch_body pending body))"
  by pat_completeness auto
termination
  by (relation "measure (\<lambda>(_, body). length body)") (auto simp: dropWhile_shorter)

declare patch_body.simps [simp del]

text \<open>The lines before the closing fence and the rest, closing fence included.\<close>

definition split_front :: "string \<Rightarrow> state_error + string list \<times> string list" where
  "split_front doc =
     (if \<not> startswith doc ''---'' then Inl No_Opening_Fence
      else case parse_frontmatter doc of
        Inl e \<Rightarrow> Inl e
      | Inr _ \<Rightarrow>
          let ls = tl (split_on (CHR 10) doc) in
          if list_ex is_fence ls then Inr (takeWhile (\<lambda>l. \<not> is_fence l) ls, dropWhile (\<lambda>l. \<not> is_fence l) ls)
          else Inl No_Closing_Fence)"

definition rebuild :: "string list \<Rightarrow> string list \<Rightarrow> string" where
  "rebuild out rest = ''---'' @ [CHR 10] @ join [CHR 10] out @ [CHR 10] @ join [CHR 10] rest"

definition patch_state :: "string \<Rightarrow> (string, sval) dict \<Rightarrow> state_error + string" where
  "patch_state doc owned =
     (case split_front doc of
        Inl e \<Rightarrow> Inl e
      | Inr (body, rest) \<Rightarrow> map_sum id (\<lambda>out. rebuild out rest) (patch_body owned body))"

function remove_lines :: "string list \<Rightarrow> string list \<Rightarrow> string list" where
  "remove_lines keys [] = []"
| "remove_lines keys (line # body) =
     (case key_line line of
        Some (key, rest) \<Rightarrow>
          if key \<in> set keys
          then remove_lines keys (if strip rest = [] then dropWhile (\<lambda>l. item_line l \<noteq> None) body else body)
          else line # remove_lines keys body
      | None \<Rightarrow> line # remove_lines keys body)"
  by pat_completeness auto
termination
  by (relation "measure (\<lambda>(_, body). length body)") (auto simp: dropWhile_shorter)

declare remove_lines.simps [simp del]

definition remove_state_fields :: "string \<Rightarrow> string list \<Rightarrow> state_error + string" where
  "remove_state_fields doc keys =
     (case split_front doc of
        Inl e \<Rightarrow> Inl e
      | Inr (body, rest) \<Rightarrow> Inr (rebuild (remove_lines keys body) rest))"

end
