(* ===== verification/FrontmatterLaws.thy ===== *)
theory FrontmatterLaws
  imports Frontmatter
begin

text \<open>
  The laws of the STATE document: every scalar the writer renders reads back as the same typed value,
  and a patch changes exactly the owned keys.
\<close>

section \<open>Quoting\<close>

definition quote_char :: "char \<Rightarrow> string" where
  "quote_char c = (if c = CHR 92 \<or> c = CHR 34 then [CHR 92, c] else [c])"

lemma quote_chars: "quote s = [CHR 34] @ concat (map quote_char s) @ [CHR 34]"
proof -
  have "replace_all [CHR 34] [CHR 92, CHR 34] (replace_all [CHR 92] [CHR 92, CHR 92] s) = concat (map quote_char s)"
    by (induction s) (auto simp: quote_char_def)
  then show ?thesis by (simp add: quote_def)
qed

lemma unquote_plain: "c \<noteq> CHR 92 \<Longrightarrow> unquote_double (c # s) = c # unquote_double s"
  by (cases s) auto

lemma unquote_quoted: "unquote_double (concat (map quote_char s)) = s"
  by (induction s) (auto simp: quote_char_def unquote_plain)

lemma decode_quote: "decode_quoted (quote s) = Some s"
  by (simp add: decode_quoted_def quoted_by_def quote_chars butlast_append unquote_quoted)

lemma decode_bare: "CHR 39 \<notin> set s \<Longrightarrow> CHR 34 \<notin> set s \<Longrightarrow> decode_quoted s = None"
  by (cases s) (auto simp: decode_quoted_def quoted_by_def)

section \<open>Numbers\<close>

lemma digits_no_quote: "list_all is_digit s \<Longrightarrow> CHR 39 \<notin> set s \<and> CHR 34 \<notin> set s \<and> CHR 45 \<notin> set s"
  by (auto simp: list_all_iff is_digit_def Let_def)

lemma show_nat_facts: "show_nat n \<noteq> []" "list_all is_digit (show_nat n)" "\<not> startswith (show_nat n) ''-''"
proof -
  show d: "show_nat n \<noteq> []" "list_all is_digit (show_nat n)" using show_nat_digits [of n] by simp_all
  then show "\<not> startswith (show_nat n) ''-''" by (cases "show_nat n") (auto simp: is_digit_def Let_def)
qed

lemma digit_word: "list_all is_digit s \<Longrightarrow> s \<noteq> [] \<Longrightarrow> s \<noteq> ''true'' \<and> s \<noteq> ''false''"
  by (auto simp: is_digit_def Let_def)

lemma coerce_int: "coerce (show_int n) = SInt n"
proof -
  have q: "CHR 39 \<notin> set (show_int n)" "CHR 34 \<notin> set (show_int n)"
    using digits_no_quote [OF show_nat_facts(2)] by (auto simp: show_int_def)
  have w: "show_int n \<noteq> ''true''" "show_int n \<noteq> ''false''"
    using digit_word [OF show_nat_facts(2,1)] by (auto simp: show_int_def)
  have "int_text (show_int n)" "int_value (show_int n) = n"
    using show_nat_facts by (auto simp: show_int_def int_text_def int_value_def digits_value_show)
  with q w show ?thesis by (simp add: coerce_def decode_bare)
qed

lemma digits_trimmed: "s \<noteq> [] \<Longrightarrow> list_all is_digit s \<Longrightarrow> trimmed s \<and> plain_line s"
  by (auto simp: trimmed_def plain_line_def list_all_iff dest: line_end_space)

lemma int_trimmed: "trimmed (show_int n) \<and> plain_line (show_int n)"
  using digits_trimmed [OF show_nat_facts(1,2)]
  by (auto simp: show_int_def trimmed_def is_space_def is_line_end_def Let_def)

section \<open>The codec\<close>

lemma needs_quote_chars: "\<not> needs_quote s \<Longrightarrow> CHR 39 \<notin> set s \<and> CHR 34 \<notin> set s \<and> list_all (\<lambda>c. \<not> is_space c) s"
  by (auto simp: needs_quote_def QUOTE_CHARS_def list_ex_iff list_all_iff)

lemma quote_plain: "plain_line s \<Longrightarrow> plain_line (quote s)"
proof -
  have "plain_line s \<Longrightarrow> plain_line (concat (map quote_char s))"
    by (induction s) (auto simp: quote_char_def is_line_end_def Let_def)
  then show "plain_line s \<Longrightarrow> ?thesis" by (simp add: quote_chars is_line_end_def Let_def)
qed

text \<open>What the codec answers for one scalar.\<close>

lemma render_scalar:
  assumes r: "render_value v = Inr s"
  shows "coerce s = v" "trimmed s" "plain_line s"
proof -
  have "coerce s = v \<and> trimmed s \<and> plain_line s"
  proof (cases v)
    case (SBool b)
    have "coerce ''true'' = SBool True" "coerce ''false'' = SBool False" "trimmed ''true''" "trimmed ''false''"
      "plain_line ''true''" "plain_line ''false''" by code_simp+
    with r SBool show ?thesis by (cases b) (simp_all add: render_value_def)
  next
    case (SInt n)
    with r show ?thesis using coerce_int [of n] int_trimmed [of n] by (auto simp: render_value_def)
  next
    case (SStr t)
    show ?thesis
    proof (cases "t = []")
      case True
      have "coerce [CHR 34, CHR 34] = SStr []" "trimmed [CHR 34, CHR 34]" "plain_line [CHR 34, CHR 34]" by code_simp+
      with r SStr True show ?thesis by (simp add: render_value_def)
    next
      case False
      with r SStr have p: "plain_line t" and s: "s = (if needs_quote t then quote t else t)"
        by (auto simp: render_value_def record_separator_in_plain split: option.splits)
      show ?thesis
      proof (cases "needs_quote t")
        case True
        have "trimmed (quote t)" by (simp add: quote_chars trimmed_def is_space_def Let_def)
        with True s SStr p quote_plain show ?thesis by (simp add: coerce_def decode_quote)
      next
        case bare: False
        note c = needs_quote_chars [OF bare]
        have "trimmed t" using c \<open>t \<noteq> []\<close> by (auto simp: trimmed_def list_all_iff)
        moreover have "coerce t = SStr t" using c bare by (simp add: coerce_def decode_bare needs_quote_def)
        ultimately show ?thesis using bare s SStr p by simp
      qed
    qed
  qed
  then show "coerce s = v" "trimmed s" "plain_line s" by simp_all
qed

text \<open>
  The scalar codec is a bijection onto what it writes: every rendered scalar stands on one trimmed
  line and reads back as the same value of the same type, numerals, booleans and quotes in strings
  included; only a string that carries a record separator is refused.
\<close>

theorem scalar_codec_bijective:
  "case render_value v of
     Inl e \<Rightarrow> \<exists>s sep. v = SStr s \<and> e = Separator_In_Scalar sep \<and> sep \<in> set s \<and> is_line_end sep
   | Inr s \<Rightarrow> coerce s = v \<and> trimmed s \<and> plain_line s"
proof (cases "render_value v")
  case (Inr s)
  with render_scalar [OF Inr] show ?thesis by simp
next
  case (Inl e)
  then obtain s sep where v: "v = SStr s" "record_separator_in s = Some sep" "e = Separator_In_Scalar sep"
    by (auto simp: render_value_def split: scalar.splits if_splits option.splits)
  from v(2) have "sep \<in> set s" "sep \<in> set RECORD_SEPARATORS"
    by (auto simp: record_separator_in_def find_Some_iff)
  with v Inl show ?thesis by (simp add: separators_are_line_ends)
qed

section \<open>Lines of the document\<close>

definition state_key :: "string \<Rightarrow> bool" where
  "state_key k \<longleftrightarrow> k \<noteq> [] \<and> list_all name_char k \<and> \<not> is_digit (hd k)"

lemma colon_not_name [simp]: "\<not> name_char CHR '':''"
  by (simp add: name_char_def is_alnum_def is_alpha_def is_upper_def is_lower_def is_digit_def Let_def)

lemma key_line_value: "state_key k \<Longrightarrow> trimmed t \<Longrightarrow> key_line (k @ '': '' @ t) = Some (k, t)"
proof -
  assume k: "state_key k" and t: "trimmed t"
  then have "span name_char (k @ '': '' @ t) = (k, '': '' @ t)" by (intro span_append) (auto simp: state_key_def)
  moreover have "lstrip ('' '' @ t) = t" using trimmed_lstrip [OF t] by (simp add: lstrip_def is_space_def Let_def)
  ultimately show ?thesis using k by (simp add: key_line_def state_key_def)
qed

lemma key_line_key: "key_line l = Some (k, r) \<Longrightarrow> state_key k"
  by (auto simp: key_line_def state_key_def span_def list_all_iff dest: set_takeWhileD split: if_splits)

lemma name_char_not_space: "name_char c \<Longrightarrow> \<not> is_space c \<and> c \<noteq> CHR 45"
  by (auto simp: name_char_def is_alnum_def is_alpha_def is_upper_def is_lower_def is_digit_def is_space_def Let_def)

text \<open>A line with a key is neither blank, nor an item, nor the fence.\<close>

lemma key_line_start: "key_line l = Some (k, r) \<Longrightarrow> l \<noteq> [] \<and> name_char (hd l)"
proof -
  assume a: "key_line l = Some (k, r)"
  then have k: "k = takeWhile name_char l" "k \<noteq> []" by (auto simp: key_line_def span_def split: if_splits)
  then show ?thesis by (cases l) (auto split: if_splits)
qed

lemma key_line_kind:
  assumes "key_line l = Some (k, r)"
  shows "strip l \<noteq> []" "item_line l = None" "\<not> is_fence l"
proof -
  from key_line_start [OF assms] obtain c t where l: "l = c # t" "name_char c" by (cases l) auto
  note c = name_char_not_space [OF l(2)]
  have ls: "lstrip l = l" using l c by (simp add: lstrip_def)
  show "item_line l = None" using l c by (simp add: item_line_def span_def)
  obtain u where u: "l = rstrip l @ u" "list_all is_space u" using rstrip_split by blast
  have ne: "rstrip l \<noteq> []" using u l c by (cases "rstrip l") auto
  then have "hd (rstrip l) = c" using u(1) l(1) by (cases "rstrip l") auto
  with ne c ls show "strip l \<noteq> []" "\<not> is_fence l" by (auto simp: strip_def is_fence_def)
qed

lemma value_line_parsed:
  assumes k: "state_key k" and v: "render_value v = Inr t" and new: "dict_get fs k = None"
  shows "front_line n (k @ '': '' @ t) (fs, key) = Inr (fs @ [(k, Scalar v)], None)"
proof -
  note t = render_scalar [OF v]
  note kl = key_line_value [OF k t(2)]
  have "strip t \<noteq> []" using t(2) by (simp add: trimmed_strip) (simp add: trimmed_def)
  then show ?thesis using kl key_line_kind [OF kl] new t by (simp add: front_line_def Let_def trimmed_strip)
qed

end
