(* ===== verification/StatePatch.thy ===== *)
theory StatePatch
  imports FrontmatterLaws
begin

text \<open>
  What the surgical writer of STATE promises: a patch of scalar fields rewrites exactly the owned keys,
  the document still parses, to the old fields updated, and every other line keeps its bytes.
\<close>

section \<open>The abstract update\<close>

type_synonym owned = "(string, scalar) dict"

text \<open>\<open>dict.update\<close> with the owned scalars.\<close>

definition update :: "owned \<Rightarrow> state_fields \<Rightarrow> state_fields" where
  "update owned fs = foldl (\<lambda>d (k, v). dict_set k (Scalar v) d) fs owned"

definition as_values :: "owned \<Rightarrow> (string, sval) dict" where
  "as_values owned = map (\<lambda>(k, v). (k, Scalar v)) owned"

definition unseen :: "owned \<Rightarrow> state_fields \<Rightarrow> owned" where
  "unseen owned fs = filter (\<lambda>(k, _). dict_get fs k = None) owned"

definition overlay :: "owned \<Rightarrow> state_fields \<Rightarrow> state_fields" where
  "overlay owned fs = map (\<lambda>(k, v). (k, case dict_get owned k of Some s \<Rightarrow> Scalar s | None \<Rightarrow> v)) fs"

definition holds_list :: "state_fields \<Rightarrow> string \<Rightarrow> bool" where
  "holds_list fs k = (case dict_get fs k of Some (SList _) \<Rightarrow> True | _ \<Rightarrow> False)"

definition owned_keys :: "owned \<Rightarrow> bool" where
  "owned_keys owned \<longleftrightarrow> distinct (map fst owned) \<and> list_all (\<lambda>(k, _). state_key k) owned"

lemma overlay_snoc: "overlay owned (fs @ [(k, v)]) =
    overlay owned fs @ [(k, case dict_get owned k of Some s \<Rightarrow> Scalar s | None \<Rightarrow> v)]"
  by (simp add: overlay_def)

lemma overlay_get_None [simp]: "dict_get (overlay owned fs) k = None \<longleftrightarrow> dict_get fs k = None"
  by (induction fs) (auto simp: overlay_def)

lemma overlay_get: "dict_get owned k = None \<Longrightarrow> dict_get (overlay owned fs) k = dict_get fs k"
  by (induction fs) (auto simp: overlay_def)

lemma overlay_set: "dict_get owned k = None \<Longrightarrow> dict_get fs k \<noteq> None \<Longrightarrow> overlay owned (dict_set k v fs) = dict_set k v (overlay owned fs)"
  by (induction fs) (auto simp: overlay_def split: if_splits)

lemma overlay_push: "dict_get owned k = None \<Longrightarrow> overlay owned (push_item k v fs) = push_item k v (overlay owned fs)"
  by (auto simp: push_item_def overlay_get overlay_set split: option.splits sval.splits)

lemma push_keys: "dict_get (push_item k v fs) x = None \<longleftrightarrow> dict_get fs x = None"
  by (auto simp: push_item_def split: option.splits sval.splits)

lemma push_holds: "holds_list fs x \<Longrightarrow> holds_list (push_item k v fs) x"
  by (auto simp: push_item_def holds_list_def split: option.splits sval.splits)

lemma unseen_push [simp]: "unseen owned (push_item k v fs) = unseen owned fs"
  by (simp add: unseen_def push_keys)

lemma unseen_snoc: "dict_get owned k = None \<Longrightarrow> unseen owned (fs @ [(k, v)]) = unseen owned fs"
  by (auto simp: unseen_def map_add_def split: option.splits intro!: filter_cong) (metis map_of_eq_None_iff image_eqI fst_conv)

lemma unseen_taken: "dict_pop k (as_values (unseen owned fs)) = as_values (unseen owned (fs @ [(k, v)]))"
  by (auto simp: unseen_def as_values_def dict_pop_def map_add_def filter_map o_def case_prod_unfold
      split: option.splits intro!: arg_cong [where f = "map _"] filter_cong)

lemma unseen_get: "dict_get (as_values (unseen owned fs)) k =
    (if dict_get fs k = None then map_option Scalar (dict_get owned k) else None)"
  by (induction owned) (auto simp: as_values_def unseen_def)

lemma front_line_holds: "front_line n l (fs, key) = Inr (gs, key') \<Longrightarrow> holds_list fs x \<Longrightarrow> holds_list gs x"
  by (auto simp: front_line_def Let_def push_holds split: if_splits option.splits prod.splits)
     (auto simp: holds_list_def map_add_def split: option.splits)

lemma front_loop_holds: "front_loop n ls (fs, key) = Inr res \<Longrightarrow> holds_list fs x \<Longrightarrow> holds_list res x"
proof (induction ls arbitrary: n fs key)
  case (Cons l ls)
  then show ?case by (auto split: if_splits sum.splits dest: front_line_holds)
qed simp

section \<open>The loop of the writer\<close>

text \<open>The lines no owned key claims.\<close>

definition unowned :: "owned \<Rightarrow> string \<Rightarrow> bool" where
  "unowned owned line = (case key_line line of Some (k, _) \<Rightarrow> dict_get owned k = None | None \<Rightarrow> True)"

text \<open>What holds of the lines the writer emits.\<close>

definition faithful_lines :: "owned \<Rightarrow> string list \<Rightarrow> string list \<Rightarrow> bool" where
  "faithful_lines owned body out \<longleftrightarrow>
     list_all plain_line out \<and> list_all (\<lambda>l. \<not> is_fence l) out \<and>
     filter (unowned owned) out = filter (unowned owned) body"

lemma state_key_plain: "state_key k \<Longrightarrow> plain_line k"
proof -
  have "name_char c \<Longrightarrow> \<not> is_line_end c" for c using name_char_not_space line_end_space by blast
  then show "state_key k \<Longrightarrow> plain_line k" by (auto simp: state_key_def plain_line_def list_all_iff)
qed

lemma emitted_line:
  assumes "owned_keys owned" "(k, v) \<in> set owned" "render_value v = Inr t"
  shows "key_line (k @ '': '' @ t) = Some (k, t)" "plain_line (k @ '': '' @ t)" "\<not> is_fence (k @ '': '' @ t)"
    "\<not> unowned owned (k @ '': '' @ t)"
proof -
  from assms have k: "state_key k" "dict_get owned k = Some v" by (auto simp: owned_keys_def list_all_iff)
  note t = render_scalar [OF assms(3)]
  show kl: "key_line (k @ '': '' @ t) = Some (k, t)" by (rule key_line_value [OF k(1) t(2)])
  show "plain_line (k @ '': '' @ t)" using k t by (simp add: state_key_plain is_line_end_def Let_def)
  show "\<not> is_fence (k @ '': '' @ t)" by (rule key_line_kind(3) [OF kl])
  show "\<not> unowned owned (k @ '': '' @ t)" unfolding unowned_def kl by (simp add: k)
qed

lemma also_scalar:
  "also_lines (emit_block k (Scalar v)) r =
     (case render_value v of Inl e \<Rightarrow> Inl e | Inr t \<Rightarrow> map_sum id (Cons (k @ '': '' @ t)) r)"
  by (auto simp: also_lines_def emit_block_def append_def split: sum.splits)

lemma tail_emitted:
  assumes "owned_keys owned" "set ps \<subseteq> set owned" "distinct (map fst ps)" "list_all (\<lambda>p. dict_get gs (fst p) = None) ps"
  shows "case foldr (\<lambda>(k, v). also_lines (emit_block k v)) (as_values ps) (Inr []) of
           Inl e \<Rightarrow> \<exists>k v. (k, v) \<in> set owned \<and> render_value v = Inl e
         | Inr out \<Rightarrow> faithful_lines owned [] out \<and>
             (\<forall>n key fence ls. is_fence fence \<longrightarrow> front_loop n (out @ fence # ls) (gs, key) = Inr (gs @ as_values ps))"
  using assms(2-)
proof (induction ps arbitrary: gs)
  case Nil
  then show ?case by (simp add: as_values_def faithful_lines_def)
next
  case (Cons p ps)
  obtain k v where p: "p = (k, v)" by (cases p)
  let ?rest = "foldr (\<lambda>(k, v). also_lines (emit_block k v)) (as_values ps) (Inr [])"
  have unfold: "foldr (\<lambda>(k, v). also_lines (emit_block k v)) (as_values (p # ps)) (Inr []) =
      also_lines (emit_block k (Scalar v)) ?rest" by (simp add: as_values_def p)
  have mem: "(k, v) \<in> set owned" using Cons.prems p by auto
  show ?case
  proof (cases "render_value v")
    case (Inl e)
    with mem show ?thesis unfolding unfold also_scalar by auto
  next
    case (Inr t)
    have fresh: "list_all (\<lambda>p. dict_get (gs @ [(k, Scalar v)]) (fst p) = None) ps"
      using Cons.prems p by (force simp: map_add_def list_all_iff split: option.splits)
    note ih = Cons.IH [of "gs @ [(k, Scalar v)]", OF _ _ fresh]
    note line = emitted_line [OF assms(1) mem Inr]
    have sk: "state_key k" using assms(1) mem by (auto simp: owned_keys_def list_all_iff)
    have new: "dict_get gs k = None" using Cons.prems p by auto
    show ?thesis
    proof (cases ?rest)
      case (Inl e)
      with ih Cons.prems p Inr show ?thesis unfolding unfold also_scalar by simp
    next
      case rest: (Inr out)
      have "front_loop n ((k @ '': '' @ t) # out @ fence # ls) (gs, key) = Inr (gs @ as_values (p # ps))"
        if "is_fence fence" for n key fence ls
        using ih rest Cons.prems p that line value_line_parsed [OF sk Inr new] by (simp add: as_values_def)
      with ih rest Cons.prems p Inr line show ?thesis
        unfolding unfold also_scalar by (simp add: faithful_lines_def)
    qed
  qed
qed

text \<open>One line the writer keeps leaves the two parses in step.\<close>

definition in_step :: "owned \<Rightarrow> string list \<Rightarrow> state_fields \<times> string option \<Rightarrow> state_fields \<Rightarrow> state_error + string list \<Rightarrow> string list \<Rightarrow> bool" where
  "in_step owned rest st res r body \<longleftrightarrow>
     (case r of
        Inl e \<Rightarrow> \<exists>k v. (k, v) \<in> set owned \<and> render_value v = Inl e
      | Inr out \<Rightarrow> faithful_lines owned body out \<and>
          (\<forall>n. front_loop n (out @ rest) (overlay owned (fst st), snd st) = Inr (overlay owned res @ as_values (unseen owned res))))"

lemma in_step_kept:
  assumes "in_step owned rest st' res r body" "plain_line l" "\<not> is_fence l"
    and "\<And>n. front_line n l (overlay owned (fst st), snd st) = Inr (overlay owned (fst st'), snd st')"
  shows "in_step owned rest st res (also_lines (Inr [l]) r) (l # body)"
  using assms by (auto simp: in_step_def also_lines_def faithful_lines_def split: sum.splits)

lemma in_step_owned:
  assumes "in_step owned rest (fs @ [(k, Scalar w)], None) res r body" "owned_keys owned" "dict_get owned k = Some v"
    "dict_get fs k = None" "\<not> unowned owned l"
  shows "in_step owned rest (fs, key) res (also_lines (emit_block k (Scalar v)) r) (l # body)"
proof -
  from assms(2,3) have mem: "(k, v) \<in> set owned" and sk: "state_key k"
    by (auto simp: owned_keys_def list_all_iff dest: map_of_SomeD)
  show ?thesis
  proof (cases "render_value v")
    case (Inl e)
    with mem show ?thesis unfolding also_scalar by (auto simp: in_step_def)
  next
    case (Inr t)
    note line = emitted_line [OF assms(2) mem Inr]
    have "front_line n (k @ '': '' @ t) (overlay owned fs, key) = Inr (overlay owned (fs @ [(k, Scalar w)]), None)" for n
      using value_line_parsed [OF sk Inr] assms(3,4) by (simp add: overlay_snoc)
    with line assms(1,5) show ?thesis
      unfolding also_scalar Inr by (auto simp: in_step_def faithful_lines_def split: sum.splits)
  qed
qed

lemma loop_patched:
  assumes "owned_keys owned" "is_fence fence"
    and "list_all plain_line body" "list_all (\<lambda>l. \<not> is_fence l) body"
    and "front_loop n (body @ fence # ls) (fs, key) = Inr res"
    and "\<And>k. dict_get owned k \<noteq> None \<Longrightarrow> \<not> holds_list res k"
    and "\<And>k. key = Some k \<Longrightarrow> dict_get owned k = None"
  shows "in_step owned (fence # ls) (fs, key) res (patch_body (as_values (unseen owned fs)) body) body"
  using assms(3-)
proof (induction body arbitrary: n fs key)
  case Nil
  then have res: "res = fs" using assms(2) by simp
  have u: "set (unseen owned fs) \<subseteq> set owned" "distinct (map fst (unseen owned fs))"
    using assms(1) by (auto simp: unseen_def owned_keys_def distinct_map inj_on_subset)
  have "list_all (\<lambda>p. dict_get (overlay owned fs) (fst p) = None) (unseen owned fs)"
    by (auto simp: unseen_def list_all_iff)
  note tail_emitted [OF assms(1) u this]
  with assms(2) show ?case
    by (simp add: in_step_def patch_body.simps res split: sum.splits)
next
  case (Cons l body)
  from Cons.prems have l: "plain_line l" "\<not> is_fence l" and body: "list_all plain_line body" "list_all (\<lambda>l. \<not> is_fence l) body"
    by simp_all
  from Cons.prems l obtain fs' key' where
    step: "front_line n l (fs, key) = Inr (fs', key')" and rest: "front_loop (Suc n) (body @ fence # ls) (fs', key') = Inr res"
    by (auto split: sum.splits)
  note ih = Cons.IH [OF body rest Cons.prems(4)]
  show ?case
  proof (cases "key_line l")
    case None
    with step Cons.prems(5) have "key' = key" "unseen owned fs' = unseen owned fs"
      "\<And>n. front_line n l (overlay owned fs, key) = Inr (overlay owned fs', key')"
      by (auto simp: front_line_def overlay_push split: if_splits option.splits)
    with ih Cons.prems(5) show ?thesis by (simp add: patch_body.simps None in_step_kept [OF _ l])
  next
    case (Some kr)
    obtain k r where kr: "kr = (k, r)" by (cases kr)
    note kind = key_line_kind [OF Some [unfolded kr]]
    have new: "dict_get fs k = None" using step kind Some kr by (auto simp: front_line_def Let_def split: if_splits)
    show ?thesis
    proof (cases "dict_get owned k")
      case None
      with step kind Some kr new have key': "key' = None \<or> key' = Some k" and
        s: "unseen owned fs' = unseen owned fs" "\<And>n. front_line n l (overlay owned fs, key) = Inr (overlay owned fs', key')"
        by (auto simp: front_line_def Let_def unseen_snoc overlay_snoc split: if_splits)
      from key' None ih have "in_step owned (fence # ls) (fs', key') res (patch_body (as_values (unseen owned fs')) body) body"
        by auto
      with s None show ?thesis by (simp add: patch_body.simps Some kr unseen_get in_step_kept [OF _ l])
    next
      case own: (Some v)
      have "\<not> holds_list fs' k" using front_loop_holds [OF rest] Cons.prems(4) own by auto
      with step kind Some kr new obtain w where fs': "fs' = fs @ [(k, Scalar w)]" "key' = None"
        by (auto simp: front_line_def Let_def holds_list_def map_add_def split: if_splits)
      have "\<not> unowned owned l" by (simp add: unowned_def Some kr own)
      with ih fs' own new show ?thesis
        by (simp add: patch_body.simps Some kr unseen_get is_list_def unseen_taken [where v = "Scalar w"]
            in_step_owned [OF _ assms(1) own new])
    qed
  qed
qed

section \<open>The document\<close>

lemma overlay_Nil [simp]: "overlay [] fs = fs"
  by (simp add: overlay_def case_prod_unfold)

lemma overlay_keys [simp]: "map fst (overlay owned fs) = map fst fs"
  by (induction fs) (auto simp: overlay_def)

lemma update_overlay:
  assumes "distinct (map fst owned)" "distinct (map fst fs)"
  shows "overlay owned fs @ as_values (unseen owned fs) = update owned fs"
  using assms
proof (induction owned arbitrary: fs)
  case Nil
  then show ?case by (simp add: update_def unseen_def as_values_def)
next
  case (Cons p owned)
  obtain k v where p: "p = (k, v)" by (cases p)
  have nk: "dict_get owned k = None" using Cons.prems p by (simp add: map_of_eq_None_iff)
  have d: "distinct (map fst (dict_set k (Scalar v) fs))"
    using Cons.prems(2)
    by (cases "dict_get fs k") (auto simp: dict_set_absent dict_set_present map_of_eq_None_iff o_def case_prod_unfold)
  have u: "update (p # owned) fs = update owned (dict_set k (Scalar v) fs)" by (simp add: update_def p)
  have ih: "update owned (dict_set k (Scalar v) fs) =
      overlay owned (dict_set k (Scalar v) fs) @ as_values (unseen owned (dict_set k (Scalar v) fs))"
    using Cons d by simp
  show ?case
  proof (cases "dict_get fs k")
    case None
    have "unseen owned (fs @ [(k, Scalar v)]) = unseen owned fs" by (rule unseen_snoc [OF nk])
    moreover have "overlay (p # owned) fs = overlay owned fs"
    proof -
      have "fst x \<noteq> k" if "x \<in> set fs" for x using None that by (auto simp: map_of_eq_None_iff)
      then show ?thesis unfolding overlay_def p by (intro map_cong) auto
    qed
    ultimately show ?thesis
      using None nk unfolding u ih by (simp add: dict_set_absent overlay_snoc unseen_def as_values_def p)
  next
    case (Some w)
    have "overlay (p # owned) fs = overlay owned (dict_set k (Scalar v) fs)"
      using Some Cons.prems(2) nk by (auto simp: overlay_def dict_set_present p case_prod_unfold split: option.splits)
    moreover have "unseen owned (dict_set k (Scalar v) fs) = unseen (p # owned) fs"
      using Some by (auto simp: unseen_def p intro!: filter_cong split: if_splits)
    ultimately show ?thesis unfolding u ih by simp
  qed
qed

lemma front_line_keys: "front_line n l (fs, key) = Inr (gs, key') \<Longrightarrow> distinct (map fst fs) \<Longrightarrow> distinct (map fst gs)"
proof -
  have push: "distinct (map fst (push_item k v fs)) \<longleftrightarrow> distinct (map fst fs)" if "distinct (map fst fs)" for k v
    using that by (auto simp: push_item_def dict_set_present o_def case_prod_unfold split: option.splits sval.splits)
  show "front_line n l (fs, key) = Inr (gs, key') \<Longrightarrow> distinct (map fst fs) \<Longrightarrow> distinct (map fst gs)"
    using push by (auto simp: front_line_def Let_def map_of_eq_None_iff split: if_splits option.splits prod.splits)
qed

lemma front_loop_keys: "front_loop n ls (fs, key) = Inr res \<Longrightarrow> distinct (map fst fs) \<Longrightarrow> distinct (map fst res)"
proof (induction ls arbitrary: n fs key)
  case (Cons l ls)
  then show ?case by (auto split: if_splits sum.splits dest: front_line_keys)
qed simp

lemma front_loop_fence: "front_loop n ls st = Inr res \<Longrightarrow> list_ex is_fence ls"
  by (induction ls arbitrary: n st) (auto split: if_splits sum.splits)

lemma split_on_unlines: "list_all plain_line ls \<Longrightarrow> split_on (CHR 10) (unlines ls) = ls @ [[]]"
proof -
  have *: "plain_line l \<Longrightarrow> split_on (CHR 10) (l @ CHR 10 # s) = l # split_on (CHR 10) s" for l s
    by (induction l) (auto simp: is_line_end_def Let_def)
  show "list_all plain_line ls \<Longrightarrow> split_on (CHR 10) (unlines ls) = ls @ [[]]"
    by (induction ls) (simp_all add: unlines_def *)
qed

lemma join_unlines: "join [CHR 10] (ls @ [[]]) = unlines ls"
  by (induction ls) (simp_all add: unlines_def join_cons)

lemma rebuild_unlines: "out \<noteq> [] \<Longrightarrow> rebuild out (ls @ [[]]) = unlines (''---'' # out @ ls)"
proof -
  have "out \<noteq> [] \<Longrightarrow> join [CHR 10] out @ [CHR 10] = unlines out"
    by (induction out rule: induct_list012) (simp_all add: unlines_def)
  then show "out \<noteq> [] \<Longrightarrow> ?thesis" by (simp add: rebuild_def join_unlines) (simp add: unlines_def)
qed

definition front_part :: "string \<Rightarrow> string list" where
  "front_part doc = takeWhile (\<lambda>l. \<not> is_fence l) (tl (splitlines doc))"

definition after_front :: "string \<Rightarrow> string list" where
  "after_front doc = dropWhile (\<lambda>l. \<not> is_fence l) (tl (splitlines doc))"

lemma front_split:
  assumes "list_all plain_line ls" "parse_frontmatter (unlines ls) = Inr fs" "startswith (unlines ls) ''---''"
  shows "split_front (unlines ls) = Inr (front_part (unlines ls), after_front (unlines ls) @ [[]])"
    "\<exists>fence rest. after_front (unlines ls) = fence # rest \<and> is_fence fence \<and>
       front_loop 2 (front_part (unlines ls) @ fence # rest) ([], None) = Inr fs"
proof -
  note sl = splitlines_unlines [OF assms(1)]
  from assms(2) obtain l ls' where ls: "ls = l # ls'" "is_fence l" and loop: "front_loop 2 ls' ([], None) = Inr fs"
    by (auto simp: parse_frontmatter_def sl split: list.splits if_splits)
  note ex = front_loop_fence [OF loop]
  then have tw: "takeWhile (\<lambda>l. \<not> is_fence l) (ls' @ [[]]) = takeWhile (\<lambda>l. \<not> is_fence l) ls'"
    "dropWhile (\<lambda>l. \<not> is_fence l) (ls' @ [[]]) = dropWhile (\<lambda>l. \<not> is_fence l) ls' @ [[]]"
    by (auto simp: list_ex_iff)
  show "split_front (unlines ls) = Inr (front_part (unlines ls), after_front (unlines ls) @ [[]])"
    using assms ex ls tw by (simp add: split_front_def split_on_unlines front_part_def after_front_def sl [unfolded ls(1)] Let_def)
  obtain fence rest where d: "dropWhile (\<lambda>l. \<not> is_fence l) ls' = fence # rest"
    using ex by (cases "dropWhile (\<lambda>l. \<not> is_fence l) ls'") (auto simp: list_ex_iff dropWhile_eq_Nil_conv)
  have "is_fence fence" using hd_dropWhile [of "\<lambda>l. \<not> is_fence l" ls'] d by simp
  moreover have "takeWhile (\<lambda>l. \<not> is_fence l) ls' @ fence # rest = ls'" using d by (metis takeWhile_dropWhile_id)
  ultimately show "\<exists>fence rest. after_front (unlines ls) = fence # rest \<and> is_fence fence \<and>
       front_loop 2 (front_part (unlines ls) @ fence # rest) ([], None) = Inr fs"
    using d loop by (simp add: front_part_def after_front_def sl [unfolded ls(1)] ls(1))
qed

lemma patched_document:
  assumes "list_all plain_line out" "list_all (\<lambda>l. \<not> is_fence l) out" "list_all plain_line (fence # rest)" "is_fence fence"
  shows "splitlines (unlines (''---'' # out @ fence # rest)) = ''---'' # out @ fence # rest"
    "front_part (unlines (''---'' # out @ fence # rest)) = out"
    "after_front (unlines (''---'' # out @ fence # rest)) = fence # rest"
    "parse_frontmatter (unlines (''---'' # out @ fence # rest)) = front_loop 2 (out @ fence # rest) ([], None)"
proof -
  have "list_all plain_line (''---'' # out @ fence # rest)" using assms by (simp add: is_line_end_def Let_def)
  from splitlines_unlines [OF this] show sl: "splitlines (unlines (''---'' # out @ fence # rest)) = ''---'' # out @ fence # rest" .
  have "is_fence ''---''" by code_simp
  then show "front_part (unlines (''---'' # out @ fence # rest)) = out"
    "after_front (unlines (''---'' # out @ fence # rest)) = fence # rest"
    "parse_frontmatter (unlines (''---'' # out @ fence # rest)) = front_loop 2 (out @ fence # rest) ([], None)"
    using assms by (simp_all add: front_part_def after_front_def sl parse_frontmatter_def takeWhile_append2 dropWhile_append2 list_all_iff)
qed

lemma patch_outcome:
  assumes "list_all plain_line ls" "startswith (unlines ls) ''---''" "parse_frontmatter (unlines ls) = Inr fs"
    and "owned_keys owned" "owned \<noteq> []" "list_all (\<lambda>(k, _). \<not> holds_list fs k) owned"
  shows "case patch_state (unlines ls) (as_values owned) of
      Inl e \<Rightarrow> \<exists>k v. (k, v) \<in> set owned \<and> render_value v = Inl e
    | Inr doc \<Rightarrow> parse_frontmatter doc = Inr (update owned fs) \<and>
        filter (unowned owned) (front_part doc) = filter (unowned owned) (front_part (unlines ls)) \<and>
        after_front doc = after_front (unlines ls)"
proof -
  let ?doc = "unlines ls"
  note sl = splitlines_unlines [OF assms(1)]
  obtain fence rest where a: "after_front ?doc = fence # rest" "is_fence fence"
    and loop: "front_loop 2 (front_part ?doc @ fence # rest) ([], None) = Inr fs"
    using front_split(2) [OF assms(1,3,2)] by blast
  have plain: "list_all plain_line (front_part ?doc)" "list_all plain_line (fence # rest)"
    using assms(1) a(1) unfolding front_part_def after_front_def sl
    by (metis (no_types, lifting) list_all_iff set_takeWhileD set_dropWhileD list.set_sel(2) tl_Nil)+
  have nofence: "list_all (\<lambda>l. \<not> is_fence l) (front_part ?doc)"
    by (auto simp: front_part_def list_all_iff dest: set_takeWhileD)
  have lists: "\<not> holds_list fs k" if "dict_get owned k \<noteq> None" for k
    using that assms(6) by (auto simp: list_all_iff dest: map_of_SomeD)
  have un: "unseen owned [] = owned" by (simp add: unseen_def)
  note step = loop_patched [OF assms(4) a(2) plain(1) nofence loop lists, unfolded un]
  show ?thesis
  proof (cases "patch_body (as_values owned) (front_part ?doc)")
    case (Inl e)
    with step show ?thesis by (simp add: in_step_def patch_state_def front_split(1) [OF assms(1,3,2)])
  next
    case (Inr out)
    with step have f: "faithful_lines owned (front_part ?doc) out" and
      p: "front_loop 2 (out @ fence # rest) ([], None) = Inr (update owned fs)"
      using update_overlay [of owned fs] assms(4) front_loop_keys [OF loop]
      by (simp_all add: in_step_def owned_keys_def overlay_def)
    have "update owned fs \<noteq> []"
      using assms(5) update_overlay [of owned fs] assms(4) front_loop_keys [OF loop]
      by (cases fs) (auto simp: owned_keys_def overlay_def unseen_def as_values_def)
    then have "out \<noteq> []" using p a(2) by auto
    with f p a plain patched_document [of out fence rest] show ?thesis
      by (simp add: patch_state_def front_split(1) [OF assms(1,3,2)] Inr faithful_lines_def
          rebuild_unlines [where ls = "fence # rest", simplified])
  qed
qed

text \<open>
  C32: on a STATE document of LF lines that parses, patching scalar fields over scalar or absent keys
  either meets a value that carries a record separator, or yields a document that parses to exactly the
  old fields updated (rewritten in place, new keys appended), in which every line of another key
  and the whole text after the closing fence are kept.
\<close>

theorem patch_state_exact:
  assumes "list_all plain_line ls" "startswith (unlines ls) ''---''" "parse_frontmatter (unlines ls) = Inr fs"
    and "owned_keys owned" "owned \<noteq> []" "list_all (\<lambda>(k, _). \<not> holds_list fs k) owned"
  shows "case patch_state (unlines ls) (as_values owned) of
      Inl e \<Rightarrow> \<exists>k v. (k, v) \<in> set owned \<and> render_value v = Inl e
    | Inr doc \<Rightarrow> parse_frontmatter doc = Inr (update owned fs) \<and>
        filter (unowned owned) (front_part doc) = filter (unowned owned) (front_part (unlines ls)) \<and>
        after_front doc = after_front (unlines ls)"
  by (rule patch_outcome [OF assms])

text \<open>A phase patched and a field added; the list of requirements and the text below the fence stay.\<close>

definition sample_state :: "string list" where
  "sample_state = [''---'', ''phase: BUILD'', ''requires:'', ''  - T-1'', ''active_ticket: T-2'', ''---'', ''BOUNDARY'']"

definition sample_fields :: state_fields where
  "sample_fields = [(''phase'', Scalar (SStr ''BUILD'')), (''requires'', SList [SStr ''T-1'']),
     (''active_ticket'', Scalar (SStr ''T-2''))]"

definition sample_owned :: owned where
  "sample_owned = [(''phase'', SStr ''VERIFY''), (''blocker'', SStr ''wait: 007'')]"

lemma sample_reads:
  "list_all plain_line sample_state" "startswith (unlines sample_state) ''---''"
  "parse_frontmatter (unlines sample_state) = Inr sample_fields" "owned_keys sample_owned" "sample_owned \<noteq> []"
  "list_all (\<lambda>(k, _). \<not> holds_list sample_fields k) sample_owned"
  "patch_state (unlines sample_state) (as_values sample_owned) = Inr (unlines
     [''---'', ''phase: VERIFY'', ''requires:'', ''  - T-1'', ''active_ticket: T-2'', ''blocker: '' @ [CHR 34] @ ''wait: 007'' @ [CHR 34],
      ''---'', ''BOUNDARY''])"
  by code_simp+

theorem patch_state_exact_witness:
  "case patch_state (unlines sample_state) (as_values sample_owned) of
     Inl _ \<Rightarrow> False
   | Inr doc \<Rightarrow> parse_frontmatter doc = Inr (update sample_owned sample_fields)"
  using patch_state_exact [OF sample_reads(1-6)] by (simp add: sample_reads(7))

section \<open>A scalar over a list\<close>

text \<open>
  The writer rewrites the key line of a list block but keeps its items when the owned value is a scalar:
  the document it returns no longer parses.
\<close>

theorem scalar_over_list_breaks_state:
  "parse_frontmatter (unlines sample_state) = Inr sample_fields"
  "patch_state (unlines sample_state) (as_values [(''requires'', SStr ''none'')]) = Inr (unlines
     [''---'', ''phase: BUILD'', ''requires: none'', ''  - T-1'', ''active_ticket: T-2'', ''---'', ''BOUNDARY''])"
  "parse_frontmatter (unlines
     [''---'', ''phase: BUILD'', ''requires: none'', ''  - T-1'', ''active_ticket: T-2'', ''---'', ''BOUNDARY'']) = Inl (Stray_Item 4)"
  by code_simp+

end
