(* ===== verification/Log.thy ===== *)
theory Log
  imports Identity Text
begin

text \<open>
  The LOG of \<open>log.py\<close>: the event line with its parser and its builder, the history as one pass over the
  sealed segments and the active LOG, the contract of the immutable ledger, the routing summary and the
  cut of a foreign tail.  The framed digest, \<open>codec._decode\<close> and the resolver of externalised details are
  the fields of \<open>log_env\<close>.
\<close>

section \<open>The event line\<close>

record event =
  ev_date :: "string option"
  ev_id :: nat
  ev_parent :: "nat option"
  ev_ticket :: "string option"
  ev_agent :: "string option"
  ev_op :: "string option"
  ev_taxonomy :: string
  ev_text :: string
  ev_detail :: "(string \<times> bool) option"

text \<open>\<open>\d{2}[./]\d{2}[./]\d{2} \d{2}:\d{2}\<close>.\<close>

definition date_separator :: "char \<Rightarrow> bool" where
  "date_separator c \<longleftrightarrow> c = CHR ''.'' \<or> c = CHR ''/''"

definition date_shape :: "(char \<Rightarrow> bool) list" where
  "date_shape =
     [is_digit, is_digit, date_separator, is_digit, is_digit, date_separator, is_digit, is_digit,
      (\<lambda>c. c = CHR '' ''), is_digit, is_digit, (\<lambda>c. c = CHR '':''), is_digit, is_digit]"

definition shaped :: "(char \<Rightarrow> bool) list \<Rightarrow> string \<Rightarrow> bool" where
  "shaped ps s \<longleftrightarrow> length s = length ps \<and> list_all2 (\<lambda>p c. p c) ps s"

definition log_date :: "string \<Rightarrow> string option \<times> string" where
  "log_date s =
     (if shaped date_shape (take 14 s) \<and> startswith (drop 14 s) '' '' then (Some (take 14 s), drop 15 s) else (None, s))"

text \<open>One bracketed group, \<open>open value ]\<close>, with a value of one class.\<close>

definition bracket :: "string \<Rightarrow> (char \<Rightarrow> bool) \<Rightarrow> string \<Rightarrow> (string \<times> string) option" where
  "bracket opening P s =
     (if startswith s opening then
        (case span P (drop (length opening) s) of (v, rest) \<Rightarrow>
           if startswith rest '']'' then Some (v, tl rest) else None)
      else None)"

definition not_close :: "char \<Rightarrow> bool" where
  "not_close c \<longleftrightarrow> c \<noteq> CHR '']''"

definition optional_group :: "string \<Rightarrow> (char \<Rightarrow> bool) \<Rightarrow> string \<Rightarrow> string option \<times> string" where
  "optional_group opening P s =
     (case bracket opening P s of Some (v, rest) \<Rightarrow> if v = [] then (None, s) else (Some v, rest) | None \<Rightarrow> (None, s))"

text \<open>\<open>(?: \[(T-[^\]]*)\])?\<close>: the value may stop right after the dash.\<close>

definition ticket_group :: "string \<Rightarrow> string option \<times> string" where
  "ticket_group s =
     (case bracket '' [T-'' not_close s of Some (v, rest) \<Rightarrow> (Some (''T-'' @ v), rest) | None \<Rightarrow> (None, s))"

text \<open>\<open> ([A-Z]+): (.*)$\<close>.\<close>

definition log_payload :: "string \<Rightarrow> (string \<times> string) option" where
  "log_payload s =
     (if startswith s '' '' then
        (case span is_upper (tl s) of (tax, rest) \<Rightarrow>
           if tax = [] \<or> \<not> startswith rest '': '' then None
           else (case span (\<lambda>c. c \<noteq> CHR 10) (drop 2 rest) of (body, end) \<Rightarrow>
             if end = [] \<or> end = [CHR 10] then Some (tax, body) else None))
      else None)"

definition parse_log_line :: "string \<Rightarrow> event option" where
  "parse_log_line line =
     (if \<not> startswith line ''- '' then None
      else case log_date (drop 2 line) of (date, s1) \<Rightarrow>
        (case bracket ''[E-'' is_digit s1 of
           None \<Rightarrow> None
         | Some (num, s2) \<Rightarrow>
             if num = [] then None
             else case optional_group '' [parent: E-'' is_digit s2 of (parent, s3) \<Rightarrow>
               (case ticket_group s3 of (ticket, s4) \<Rightarrow>
               (case optional_group '' [agent: '' not_close s4 of (agent, s5) \<Rightarrow>
               (case optional_group '' [op: '' not_close s5 of (op_id, s6) \<Rightarrow>
               (case log_payload s6 of
                  None \<Rightarrow> None
                | Some (tax, body) \<Rightarrow>
                    Some \<lparr>ev_date = date, ev_id = digits_value num, ev_parent = map_option digits_value parent,
                      ev_ticket = ticket, ev_agent = agent, ev_op = op_id, ev_taxonomy = tax, ev_text = body,
                      ev_detail = None\<rparr>))))))"

text \<open>\<open>\[E-(\d+)\]\<close> anywhere in a text.\<close>

fun declared_event_id :: "string \<Rightarrow> nat option" where
  "declared_event_id [] = None"
| "declared_event_id (c # s) =
     (case bracket ''[E-'' is_digit (c # s) of
        Some (num, _) \<Rightarrow> if num = [] then declared_event_id s else Some (digits_value num)
      | None \<Rightarrow> declared_event_id s)"

definition VALID_TAXONOMIES :: "string list" where
  "VALID_TAXONOMIES = [''DEC'', ''RUN'', ''WAIT'', ''REVERT'', ''NOTE'', ''OPS'']"

definition MAX_NEW_EVENT_BYTES :: nat where
  "MAX_NEW_EVENT_BYTES = 1024"

datatype event_error = Outside_Taxonomy | Event_Oversize nat | Not_One_Event

definition tagged :: "string \<Rightarrow> string option \<Rightarrow> string list" where
  "tagged name v = (case v of Some t \<Rightarrow> if t = [] then [] else [''['' @ name @ t @ '']''] | None \<Rightarrow> [])"

definition next_event :: "nat option \<Rightarrow> nat" where
  "next_event tail = (case tail of Some n \<Rightarrow> n + 1 | None \<Rightarrow> 1)"

definition render_event ::
    "nat option \<Rightarrow> string \<Rightarrow> string \<Rightarrow> string option \<Rightarrow> string option \<Rightarrow> string \<Rightarrow> string option \<Rightarrow> event_error + string" where
  "render_event tail taxonomy message ticket agent now op_id =
     (if taxonomy \<notin> set VALID_TAXONOMIES then Inl Outside_Taxonomy
      else Inr (join '' '' (
        [''- '' @ now @ '' [E-'' @ show_nat (next_event tail) @ '']''] @
        (case tail of Some n \<Rightarrow> if n = 0 then [] else [''[parent: E-'' @ show_nat n @ '']''] | None \<Rightarrow> []) @
        tagged [] ticket @ tagged ''agent: '' agent @ tagged ''op: '' op_id @
        [taxonomy @ '': '' @ message])))"

definition utf8_length :: "string \<Rightarrow> nat" where
  "utf8_length s = sum_list (map (\<lambda>c. if (of_char c :: nat) < 128 then 1 else 2) s)"

definition build_event ::
    "nat option \<Rightarrow> string \<Rightarrow> string \<Rightarrow> string option \<Rightarrow> string option \<Rightarrow> string \<Rightarrow> string option \<Rightarrow> event_error + nat \<times> string" where
  "build_event tail taxonomy message ticket agent now op_id =
     (case render_event tail taxonomy message ticket agent now op_id of
        Inl e \<Rightarrow> Inl e
      | Inr line \<Rightarrow>
          if MAX_NEW_EVENT_BYTES < utf8_length line then Inl (Event_Oversize (utf8_length line))
          else Inr (next_event tail, line))"

text \<open>The guard of \<open>prepare_bounded_event\<close> on the line it is about to hand out.\<close>

definition one_legal_event :: "string \<Rightarrow> bool" where
  "one_legal_event line \<longleftrightarrow> length (splitlines line) = 1 \<and> parse_log_line line \<noteq> None"

section \<open>The history\<close>

record log_env =
  l_digest :: "(string \<times> bytes) list \<Rightarrow> string"
  l_text :: "bytes \<Rightarrow> string"
  l_restore :: "event \<Rightarrow> (string \<times> string option) option"

datatype damage = Damage (d_file: string) (d_line: nat) (d_text: string)

datatype history_error = Logs_Not_Directory | Node_Not_Regular string | Active_Not_Canonical

text \<open>\<open>^LOG-(\d+)\.md$\<close>.\<close>

definition segment_number :: "string \<Rightarrow> nat option" where
  "segment_number name =
     (if startswith name ''LOG-'' then
        (case span is_digit (drop 4 name) of (ds, rest) \<Rightarrow>
           if ds \<noteq> [] \<and> rest = ''.md'' then Some (digits_value ds) else None)
      else None)"

definition LOGS_DIR :: ppath where
  "LOGS_DIR = [''.saipen'', ''logs'']"

definition ACTIVE_LOG :: ppath where
  "ACTIVE_LOG = [''.saipen'', ''LOG.md'']"

text \<open>The sealed segments by number, then the active LOG.\<close>

definition sealed_segments :: "store \<Rightarrow> ppath list" where
  "sealed_segments st =
     (if dict_get st LOGS_DIR = Some Dir
      then map snd (sort_key fst (List.map_filter
             (\<lambda>(p, _). if length p = 3 \<and> take 2 p = LOGS_DIR
                       then map_option (\<lambda>n. (n, p)) (segment_number (last p)) else None) st))
      else [])"

definition history_paths :: "store \<Rightarrow> ppath list" where
  "history_paths st = sealed_segments st @ [ACTIVE_LOG]"

definition validate_history_ownership :: "store \<Rightarrow> history_error + ppath list" where
  "validate_history_ownership st =
     (case dict_get st LOGS_DIR of
        Some (File _) \<Rightarrow> Inl Logs_Not_Directory
      | Some Special \<Rightarrow> Inl Logs_Not_Directory
      | _ \<Rightarrow>
          (case find (\<lambda>p. case dict_get st p of Some (File _) \<Rightarrow> False | None \<Rightarrow> False | _ \<Rightarrow> True) (history_paths st) of
             Some p \<Rightarrow> Inl (Node_Not_Regular (last p))
           | None \<Rightarrow> Inr (history_paths st)))"

definition is_canonical_encoding :: "bytes \<Rightarrow> bool" where
  "is_canonical_encoding raw \<longleftrightarrow> take 3 raw \<noteq> map char_of [239, 187, 191 :: nat] \<and> utf8_decode raw \<noteq> None"

definition normalised :: "string \<Rightarrow> string" where
  "normalised s = replace_all [CHR 13] [CHR 10] (replace_all [CHR 13, CHR 10] [CHR 10] s)"

type_synonym segment = "string \<times> bytes \<times> string"

fun read_segments :: "log_env \<Rightarrow> store \<Rightarrow> ppath list \<Rightarrow> history_error + segment list" where
  "read_segments env st [] = Inr []"
| "read_segments env st (p # ps) =
     (case dict_get st p of
        Some (File raw) \<Rightarrow>
          if p = ACTIVE_LOG \<and> \<not> is_canonical_encoding raw then Inl Active_Not_Canonical
          else map_sum id (Cons (as_posix p, raw, normalised (l_text env raw)))
                 (read_segments env st ps)
      | _ \<Rightarrow> read_segments env st ps)"

datatype entry = Recorded event string | Damaged damage | Skipped

text \<open>A compacted event stands for the message its proved detail file holds.\<close>

definition restored :: "log_env \<Rightarrow> event \<Rightarrow> event" where
  "restored env ev =
     (case l_restore env ev of
        None \<Rightarrow> ev
      | Some (reference, None) \<Rightarrow> ev\<lparr>ev_detail := Some (reference, False)\<rparr>
      | Some (reference, Some message) \<Rightarrow> ev\<lparr>ev_detail := Some (reference, True), ev_text := message\<rparr>)"

definition blank_or_comment :: "string \<Rightarrow> bool" where
  "blank_or_comment line \<longleftrightarrow> strip line = [] \<or> startswith (strip line) ''#''"

definition entry_of :: "log_env \<Rightarrow> string \<Rightarrow> nat \<times> string \<Rightarrow> entry" where
  "entry_of env name nl =
     (case nl of (n, line) \<Rightarrow>
        (case parse_log_line line of
           Some ev \<Rightarrow> Recorded (restored env ev) line
         | None \<Rightarrow> if blank_or_comment line then Skipped else Damaged (Damage name n (take 80 (strip line)))))"

definition file_name :: "string \<Rightarrow> string" where
  "file_name path = last (split_on (CHR ''/'') path)"

definition log_entries :: "log_env \<Rightarrow> segment list \<Rightarrow> entry list" where
  "log_entries env segs =
     concat (map (\<lambda>(path, _, body). map (entry_of env (file_name path)) (enumerate 1 (splitlines body))) segs)"

definition events_of :: "entry list \<Rightarrow> event list" where
  "events_of es = List.map_filter (\<lambda>e. case e of Recorded ev _ \<Rightarrow> Some ev | _ \<Rightarrow> None) es"

definition lines_of :: "entry list \<Rightarrow> string list" where
  "lines_of es = List.map_filter (\<lambda>e. case e of Recorded _ l \<Rightarrow> Some l | _ \<Rightarrow> None) es"

definition damages_of :: "entry list \<Rightarrow> damage list" where
  "damages_of es = List.map_filter (\<lambda>e. case e of Damaged d \<Rightarrow> Some d | _ \<Rightarrow> None) es"

definition raise_tail :: "nat option \<Rightarrow> nat \<Rightarrow> nat option" where
  "raise_tail t n = (case t of None \<Rightarrow> Some n | Some m \<Rightarrow> if m < n then Some n else t)"

definition claimed_ids :: "damage list \<Rightarrow> nat list" where
  "claimed_ids ds = List.map_filter (declared_event_id \<circ> d_text) ds"

definition tail_of :: "event list \<Rightarrow> damage list \<Rightarrow> nat option" where
  "tail_of evs ds = foldl raise_tail (foldl raise_tail None (map ev_id evs)) (claimed_ids ds)"

definition ticket_of_event :: "event \<Rightarrow> nat option" where
  "ticket_of_event ev =
     (case ev_ticket ev of Some t \<Rightarrow> if ticket_name t then Some (digits_value (drop 2 t)) else None | None \<Rightarrow> None)"

definition max_ticket :: "event list \<Rightarrow> nat" where
  "max_ticket evs = foldl max 0 (List.map_filter ticket_of_event evs)"

record snapshot =
  sn_hash :: string
  sn_text :: string
  sn_tail :: "nat option"
  sn_events :: "event list"
  sn_illegal :: "damage list"
  sn_lines :: "string list"
  sn_max_ticket :: nat

definition snapshot_of :: "log_env \<Rightarrow> segment list \<Rightarrow> snapshot" where
  "snapshot_of env segs =
     (let es = log_entries env segs in
      \<lparr>sn_hash = take 16 (l_digest env (map (\<lambda>(path, raw, _). (path, raw)) segs)),
       sn_text = join [CHR 10] (map (\<lambda>(_, _, body). body) segs),
       sn_tail = tail_of (events_of es) (damages_of es),
       sn_events = events_of es,
       sn_illegal = damages_of es,
       sn_lines = lines_of es,
       sn_max_ticket = max_ticket (events_of es)\<rparr>)"

definition read_history_snapshot :: "log_env \<Rightarrow> store \<Rightarrow> history_error + snapshot" where
  "read_history_snapshot env st =
     (case validate_history_ownership st of
        Inl e \<Rightarrow> Inl e
      | Inr ps \<Rightarrow> map_sum id (snapshot_of env) (read_segments env st ps))"

definition log_tail_event :: "string \<Rightarrow> nat option" where
  "log_tail_event doc = foldl raise_tail None (List.map_filter (map_option ev_id \<circ> parse_log_line) (splitlines doc))"

end
