(* ===== verification/Ledger.thy ===== *)
theory Ledger
  imports Log
begin

text \<open>
  What \<open>log.py\<close> concludes from one pass over the history: the contract of the immutable ledger
  (\<open>snapshot_contract_errors\<close>), the bounded routing summary, and the cut of a foreign tail.
\<close>

section \<open>The contract of the ledger\<close>

datatype ledger_error =
    Illegal_Line damage
  | Duplicate_Ids "nat list"
  | Missing_Parent nat nat
  | Parent_Not_Older nat nat
  | Out_Of_Order nat nat

definition duplicate_ids :: "nat list \<Rightarrow> nat list" where
  "duplicate_ids ids = sort (filter (\<lambda>e. 1 < count_list ids e) (remdups ids))"

definition parent_errors :: "nat list \<Rightarrow> nat list \<Rightarrow> event \<Rightarrow> ledger_error list" where
  "parent_errors seen claimed ev =
     (case ev_parent ev of
        None \<Rightarrow> []
      | Some p \<Rightarrow>
          if p \<notin> set seen \<and> p \<notin> set claimed then [Missing_Parent (ev_id ev) p]
          else if ev_id ev \<le> p then [Parent_Not_Older (ev_id ev) p] else [])"

definition order_errors :: "nat option \<Rightarrow> event \<Rightarrow> ledger_error list" where
  "order_errors prev ev =
     (case prev of None \<Rightarrow> [] | Some p \<Rightarrow> if ev_id ev \<le> p then [Out_Of_Order (ev_id ev) p] else [])"

fun edge_errors :: "nat list \<Rightarrow> nat list \<Rightarrow> nat option \<Rightarrow> event list \<Rightarrow> ledger_error list" where
  "edge_errors seen claimed prev [] = []"
| "edge_errors seen claimed prev (ev # evs) =
     parent_errors seen claimed ev @ order_errors prev ev @ edge_errors seen claimed (Some (ev_id ev)) evs"

definition snapshot_contract_errors :: "snapshot \<Rightarrow> ledger_error list" where
  "snapshot_contract_errors sn =
     (let ids = map ev_id (sn_events sn); dupes = duplicate_ids ids in
      map Illegal_Line (take 4 (sn_illegal sn)) @
      (if dupes = [] then [] else [Duplicate_Ids (take 10 dupes)]) @
      edge_errors ids (claimed_ids (sn_illegal sn)) None (sn_events sn))"

section \<open>The routing summary\<close>

record routing =
  rt_highest :: nat
  rt_seen :: "nat list"
  rt_count :: nat
  rt_duplicates :: "nat list"
  rt_ordering :: "(string \<times> nat \<times> nat \<times> nat) list"
  rt_max_ticket :: nat
  rt_illegal :: "damage list"
  rt_events :: "event list"

definition ROUTING_TAIL_EVENTS :: nat where
  "ROUTING_TAIL_EVENTS = 16"

definition ROUTING_DIAGNOSTIC_CAP :: nat where
  "ROUTING_DIAGNOSTIC_CAP = 32"

text \<open>A list that grows to the cap, and the newest elements of a \<open>deque(maxlen=n)\<close>.\<close>

definition capped_append :: "'a list \<Rightarrow> 'a \<Rightarrow> 'a list" where
  "capped_append xs x = (if length xs < ROUTING_DIAGNOSTIC_CAP then xs @ [x] else xs)"

definition deque_append :: "nat \<Rightarrow> 'a list \<Rightarrow> 'a \<Rightarrow> 'a list" where
  "deque_append n xs x = drop (Suc (length xs) - n) (xs @ [x])"

definition route_event :: "log_env \<Rightarrow> string \<Rightarrow> nat \<Rightarrow> event \<Rightarrow> routing \<Rightarrow> routing" where
  "route_event env name n ev r =
     r\<lparr>rt_count := rt_count r + 1,
       rt_duplicates := (if ev_id ev \<in> set (rt_seen r) then capped_append (rt_duplicates r) (ev_id ev) else rt_duplicates r),
       rt_seen := (if ev_id ev \<in> set (rt_seen r) then rt_seen r else ev_id ev # rt_seen r),
       rt_highest := max (rt_highest r) (ev_id ev),
       rt_ordering :=
         (case ev_parent ev of
            Some p \<Rightarrow> if ev_id ev \<le> p then capped_append (rt_ordering r) (name, n, ev_id ev, p) else rt_ordering r
          | None \<Rightarrow> rt_ordering r),
       rt_max_ticket := (case ticket_of_event ev of Some t \<Rightarrow> max (rt_max_ticket r) t | None \<Rightarrow> rt_max_ticket r),
       rt_events := deque_append ROUTING_TAIL_EVENTS (rt_events r) (restored env ev)\<rparr>"

definition route_line :: "log_env \<Rightarrow> string \<Rightarrow> routing \<Rightarrow> nat \<times> string \<Rightarrow> routing" where
  "route_line env name r nl =
     (case nl of (n, line) \<Rightarrow>
        (case parse_log_line line of
           Some ev \<Rightarrow> route_event env name n ev r
         | None \<Rightarrow>
             if blank_or_comment line then r
             else r\<lparr>rt_illegal := rt_illegal r @ [Damage name n (take 80 (strip line))]\<rparr>))"

definition route_segment :: "log_env \<Rightarrow> routing \<Rightarrow> segment \<Rightarrow> routing" where
  "route_segment env r seg =
     (case seg of (path, _, body) \<Rightarrow> foldl (route_line env (file_name path)) r (enumerate 1 (splitlines body)))"

definition no_routing :: routing where
  "no_routing = \<lparr>rt_highest = 0, rt_seen = [], rt_count = 0, rt_duplicates = [], rt_ordering = [], rt_max_ticket = 0,
     rt_illegal = [], rt_events = []\<rparr>"

record summary =
  su_hash :: string
  su_tail :: "nat option"
  su_illegal :: "damage list"
  su_max_ticket :: nat
  su_count :: nat
  su_duplicates :: "nat list"
  su_ordering :: "(string \<times> nat \<times> nat \<times> nat) list"
  su_events :: "event list"

definition summary_of :: "log_env \<Rightarrow> segment list \<Rightarrow> summary" where
  "summary_of env segs =
     (let r = foldl (route_segment env) no_routing segs in
      \<lparr>su_hash = take 16 (l_digest env (map (\<lambda>(path, raw, _). (path, raw)) segs)),
       su_tail = foldl raise_tail (if rt_highest r = 0 then None else Some (rt_highest r)) (claimed_ids (rt_illegal r)),
       su_illegal = rt_illegal r,
       su_max_ticket = rt_max_ticket r,
       su_count = rt_count r,
       su_duplicates = sort (remdups (rt_duplicates r)),
       su_ordering = rt_ordering r,
       su_events = rt_events r\<rparr>)"

definition read_history_routing_summary :: "log_env \<Rightarrow> store \<Rightarrow> history_error + summary" where
  "read_history_routing_summary env st =
     (case validate_history_ownership st of
        Inl e \<Rightarrow> Inl e
      | Inr ps \<Rightarrow> map_sum id (summary_of env) (read_segments env st ps))"

definition history_log_tail :: "log_env \<Rightarrow> store \<Rightarrow> history_error + nat option" where
  "history_log_tail env st = map_sum id su_tail (read_history_routing_summary env st)"

section \<open>A foreign tail\<close>

datatype cut_refusal =
    No_Boundary
  | Boundary_Not_Active nat
  | Only_Blanks nat
  | Claims_Above nat nat nat
  | Active_Not_Last
  | Text_Not_Last
  | Damaged_Before "ledger_error list"

record foreign_tail =
  ft_anchor :: nat
  ft_kept :: string
  ft_suffix :: "string list"
  ft_claimed :: "nat list"
  ft_non_event :: int
  ft_snapshot :: snapshot
  ft_floor :: "nat option"

definition legal_event_id :: "string \<Rightarrow> nat option" where
  "legal_event_id line = map_option ev_id (parse_log_line line)"

fun find_index_from :: "nat \<Rightarrow> ('a \<Rightarrow> bool) \<Rightarrow> 'a list \<Rightarrow> nat option" where
  "find_index_from n P [] = None"
| "find_index_from n P (x # xs) = (if P x then Some n else find_index_from (Suc n) P xs)"

text \<open>The suffix line by line: the claimed ids and the number of legal events, or the first id above the bound.\<close>

fun suffix_claims :: "nat option \<Rightarrow> nat \<Rightarrow> string list \<Rightarrow> (nat \<times> nat) + nat list \<times> nat" where
  "suffix_claims bound n [] = Inr ([], 0)"
| "suffix_claims bound n (line # ls) =
     (if blank_or_comment line then suffix_claims bound (Suc n) ls
      else case declared_event_id line of
        None \<Rightarrow> suffix_claims bound (Suc n) ls
      | Some d \<Rightarrow>
          if (case bound of Some b \<Rightarrow> b < d | None \<Rightarrow> False) then Inl (n, d)
          else map_sum id (\<lambda>(ids, k). (d # ids, if parse_log_line line \<noteq> None then Suc k else k))
                 (suffix_claims bound (Suc n) ls))"

definition keep_before :: "nat \<Rightarrow> damage list \<Rightarrow> damage list" where
  "keep_before anchor ds = filter (\<lambda>d. \<not> (d_file d = ''LOG.md'' \<and> anchor + 1 < d_line d)) ds"

text \<open>Ticket references in the ticket and in the text of an event.\<close>

definition mentioned_tickets :: "event \<Rightarrow> nat list" where
  "mentioned_tickets ev =
     map (\<lambda>t. digits_value (drop 2 t))
       (find_tickets (''['' @ (case ev_ticket ev of Some t \<Rightarrow> t | None \<Rightarrow> []) @ ''] '' @ ev_text ev))"

definition without_suffix :: "snapshot \<Rightarrow> nat \<Rightarrow> nat \<Rightarrow> string \<Rightarrow> snapshot" where
  "without_suffix sn anchor k body =
     (let evs = take (length (sn_events sn) - k) (sn_events sn);
          illegal = keep_before anchor (sn_illegal sn)
      in sn\<lparr>sn_text := body, sn_tail := tail_of evs illegal, sn_events := evs, sn_illegal := illegal,
           sn_lines := (if 0 < k \<and> sn_lines sn \<noteq> [] then take (length (sn_lines sn) - k) (sn_lines sn) else sn_lines sn),
           sn_max_ticket := (if 0 < k then foldl max 0 (concat (map mentioned_tickets evs)) else sn_max_ticket sn)\<rparr>)"

definition cut_at :: "snapshot \<Rightarrow> string \<Rightarrow> nat \<Rightarrow> nat option \<Rightarrow> cut_refusal + foreign_tail" where
  "cut_at sn active_text last_event floor =
     (let ls = splitlines active_text in
      case find_index_from 0 (\<lambda>l. legal_event_id l = Some last_event) ls of
        None \<Rightarrow> Inl (Boundary_Not_Active last_event)
      | Some anchor \<Rightarrow>
          let suf = drop (Suc anchor) ls; foreign = filter (\<lambda>l. \<not> blank_or_comment l) suf in
          if foreign = [] then Inl (Only_Blanks last_event)
          else case suffix_claims (if floor = None then Some last_event else None) (anchor + 2) suf of
            Inl (n, d) \<Rightarrow> Inl (Claims_Above n d last_event)
          | Inr (claimed, k) \<Rightarrow>
              let dropped = drop (length (sn_events sn) - k) (map ev_id (sn_events sn));
                  kept = unlines (take (Suc anchor) ls);
                  body = take (length (sn_text sn) - length active_text) (sn_text sn) @ kept in
              if 0 < k \<and> dropped \<noteq> List.map_filter legal_event_id suf then Inl Active_Not_Last
              else if sn_text sn \<noteq> [] \<and> \<not> startswith (rev (sn_text sn)) (rev active_text) then Inl Text_Not_Last
              else
                let clean = without_suffix sn anchor k (if sn_text sn = [] then [] else body);
                    remaining = snapshot_contract_errors clean in
                if remaining \<noteq> [] then Inl (Damaged_Before (take 3 remaining))
                else Inr \<lparr>ft_anchor = anchor + 1, ft_kept = kept, ft_suffix = suf, ft_claimed = claimed,
                       ft_non_event = int (length foreign) - int (length claimed), ft_snapshot = clean,
                       ft_floor = floor\<rparr>)"

text \<open>The boundary is the newest journaled event when that lies below the checkpointed one.\<close>

definition foreign_tail_cut :: "snapshot \<Rightarrow> string \<Rightarrow> nat option \<Rightarrow> nat option \<Rightarrow> cut_refusal + foreign_tail" where
  "foreign_tail_cut sn active_text last_event journal_floor =
     (case (journal_floor, last_event) of
        (Some f, None) \<Rightarrow> cut_at sn active_text f (Some f)
      | (Some f, Some l) \<Rightarrow> if f < l then cut_at sn active_text f (Some f) else cut_at sn active_text l None
      | (None, Some l) \<Rightarrow> cut_at sn active_text l None
      | (None, None) \<Rightarrow> Inl No_Boundary)"

end
