(* ===== verification/LogLaws.thy ===== *)
theory LogLaws
  imports Ledger
begin

text \<open>
  The laws of the LOG: a built event reads back as what it was built from, the contract holds exactly on a
  well-formed ledger and survives every append, the routing summary agrees with the full snapshot, and a
  cut leaves the history as it reads without the suffix.
\<close>

section \<open>Reading what was built\<close>

lemma bracket_value: "list_all P v \<Longrightarrow> \<not> P CHR '']'' \<Longrightarrow> bracket opening P (opening @ v @ CHR '']'' # r) = Some (v, r)"
  by (simp add: bracket_def span_append)

lemma optional_value:
  "v \<noteq> [] \<Longrightarrow> list_all P v \<Longrightarrow> \<not> P CHR '']'' \<Longrightarrow> optional_group opening P (opening @ v @ CHR '']'' # r) = (Some v, r)"
  by (simp add: optional_group_def bracket_value)

lemma optional_none: "\<not> startswith s opening \<Longrightarrow> optional_group opening P s = (None, s)"
  by (simp add: optional_group_def bracket_def)

text \<open>A group value the line grammar can hold.\<close>

definition clean_value :: "string \<Rightarrow> bool" where
  "clean_value v \<longleftrightarrow> v \<noteq> [] \<and> list_all not_close v \<and> plain_line v"

definition clean_option :: "string option \<Rightarrow> bool" where
  "clean_option v = (case v of None \<Rightarrow> True | Some t \<Rightarrow> clean_value t)"

definition clean_ticket :: "string option \<Rightarrow> bool" where
  "clean_ticket v = (case v of None \<Rightarrow> True | Some t \<Rightarrow> startswith t ''T-'' \<and> clean_value t)"

definition group_text :: "string \<Rightarrow> string option \<Rightarrow> string" where
  "group_text name v = (case v of None \<Rightarrow> [] | Some t \<Rightarrow> '' ['' @ name @ t @ '']'')"

definition payload_text :: "string \<Rightarrow> string \<Rightarrow> string" where
  "payload_text tax msg = '' '' @ tax @ '': '' @ msg"

definition parent_of :: "nat option \<Rightarrow> nat option" where
  "parent_of tail = (if tail = Some 0 then None else tail)"

lemma plain_no_LF: "plain_line s \<Longrightarrow> list_all (\<lambda>c. c \<noteq> CHR 10) s"
  by (auto simp: plain_line_def list_all_iff is_line_end_def Let_def)

lemma payload_read: "tax \<in> set VALID_TAXONOMIES \<Longrightarrow> plain_line msg \<Longrightarrow> log_payload (payload_text tax msg) = Some (tax, msg)"
proof -
  assume t: "tax \<in> set VALID_TAXONOMIES" and m: "plain_line msg"
  have up: "list_all is_upper tax \<and> tax \<noteq> []"
    using t by (auto simp: VALID_TAXONOMIES_def is_upper_def Let_def)
  then have "span is_upper (tax @ '': '' @ msg) = (tax, '': '' @ msg)"
    by (intro span_append) (auto simp: is_upper_def Let_def)
  moreover have "span (\<lambda>c. c \<noteq> CHR 10) msg = (msg, [])"
    using span_append [OF plain_no_LF [OF m], of "[]"] by simp
  ultimately show ?thesis using up by (simp add: log_payload_def payload_text_def)
qed

lemma payload_start: "tax \<in> set VALID_TAXONOMIES \<Longrightarrow> \<not> startswith (payload_text tax msg) '' [''"
  by (auto simp: VALID_TAXONOMIES_def payload_text_def)

lemma startswith_shorter: "startswith s (p @ q) \<Longrightarrow> startswith s p"
  by (auto simp: startswith_iff_prefix dest: append_prefixD)

text \<open>The groups in their order; each reader takes its own and leaves the rest.\<close>

lemma op_read:
  assumes "tax \<in> set VALID_TAXONOMIES" "clean_option op_id"
  shows "optional_group '' [op: '' not_close (group_text ''op: '' op_id @ payload_text tax msg) = (op_id, payload_text tax msg)"
proof (cases op_id)
  case None
  have "\<not> startswith (payload_text tax msg) ('' ['' @ ''op: '')" using payload_start [OF assms(1)] startswith_shorter by blast
  with None show ?thesis by (simp add: group_text_def optional_none)
next
  case (Some t)
  with assms(2) optional_value [of t not_close "'' [op: ''" "payload_text tax msg"] show ?thesis
    by (simp add: group_text_def clean_option_def clean_value_def not_close_def)
qed

lemma agent_read:
  assumes "tax \<in> set VALID_TAXONOMIES" "clean_option agent"
  shows "optional_group '' [agent: '' not_close (group_text ''agent: '' agent @ group_text ''op: '' op_id @ payload_text tax msg) =
    (agent, group_text ''op: '' op_id @ payload_text tax msg)"
proof (cases agent)
  case None
  have "\<not> startswith (payload_text tax msg) ('' ['' @ ''agent: '')" using payload_start [OF assms(1)] startswith_shorter by blast
  then have "\<not> startswith (group_text ''op: '' op_id @ payload_text tax msg) '' [agent: ''"
    by (cases op_id) (auto simp: group_text_def)
  with None show ?thesis by (simp add: group_text_def [of _ None] optional_none)
next
  case (Some t)
  with assms(2) optional_value [of t not_close "'' [agent: ''" "group_text ''op: '' op_id @ payload_text tax msg"] show ?thesis
    by (simp add: group_text_def [of _ "Some t"] clean_option_def clean_value_def not_close_def)
qed

lemma ticket_read:
  assumes "tax \<in> set VALID_TAXONOMIES" "clean_ticket ticket"
  shows "ticket_group (group_text [] ticket @ group_text ''agent: '' agent @ group_text ''op: '' op_id @ payload_text tax msg) =
    (ticket, group_text ''agent: '' agent @ group_text ''op: '' op_id @ payload_text tax msg)"
proof (cases ticket)
  case None
  have "\<not> startswith (payload_text tax msg) ('' ['' @ ''T-'')" using payload_start [OF assms(1)] startswith_shorter by blast
  then have "\<not> startswith (group_text ''agent: '' agent @ group_text ''op: '' op_id @ payload_text tax msg) '' [T-''"
    by (cases agent; cases op_id) (auto simp: group_text_def)
  with None show ?thesis by (simp add: group_text_def [of _ None] ticket_group_def bracket_def)
next
  case (Some t)
  with assms(2) obtain w where t: "t = ''T-'' @ w" "list_all not_close w"
    by (auto simp: clean_ticket_def clean_value_def startswith_iff_prefix prefix_def)
  with Some bracket_value [of not_close w "'' [T-''"
      "group_text ''agent: '' agent @ group_text ''op: '' op_id @ payload_text tax msg"]
  show ?thesis by (simp add: group_text_def [of "[]"] ticket_group_def not_close_def)
qed

lemma parent_read:
  assumes "tax \<in> set VALID_TAXONOMIES" "clean_ticket ticket"
  shows "optional_group '' [parent: E-'' is_digit
      (group_text ''parent: E-'' (map_option show_nat parent) @ group_text [] ticket @ group_text ''agent: '' agent @ group_text ''op: '' op_id @ payload_text tax msg) =
    (map_option show_nat parent, group_text [] ticket @ group_text ''agent: '' agent @ group_text ''op: '' op_id @ payload_text tax msg)"
proof (cases parent)
  case None
  have "\<not> startswith (payload_text tax msg) ('' ['' @ ''parent: E-'')" using payload_start [OF assms(1)] startswith_shorter by blast
  then have "\<not> startswith (group_text [] ticket @ group_text ''agent: '' agent @ group_text ''op: '' op_id @ payload_text tax msg) '' [parent: E-''"
    using assms(2) by (cases ticket; cases agent; cases op_id)
      (auto simp: group_text_def clean_ticket_def startswith_iff_prefix prefix_def)
  with None show ?thesis by (simp add: group_text_def [of _ None] optional_none)
next
  case (Some n)
  have "\<not> is_digit CHR '']''" by (simp add: is_digit_def Let_def)
  with Some show_nat_digits [of n] optional_value [of "show_nat n" is_digit "'' [parent: E-''"
      "group_text [] ticket @ group_text ''agent: '' agent @ group_text ''op: '' op_id @ payload_text tax msg"]
  show ?thesis by (simp add: group_text_def [of _ "Some (show_nat n)"])
qed


definition event_of ::
    "nat option \<Rightarrow> string \<Rightarrow> string \<Rightarrow> string option \<Rightarrow> string option \<Rightarrow> string \<Rightarrow> string option \<Rightarrow> event" where
  "event_of tail taxonomy message ticket agent now op_id =
     \<lparr>ev_date = Some now, ev_id = next_event tail, ev_parent = parent_of tail, ev_ticket = ticket, ev_agent = agent,
      ev_op = op_id, ev_taxonomy = taxonomy, ev_text = message, ev_detail = None\<rparr>"

lemma join_blank: "join '' '' (x # xs) = x @ concat (map (\<lambda>y. '' '' @ y) xs)"
  by (induction xs arbitrary: x) simp_all

lemma tagged_text: "clean_option v \<Longrightarrow> concat (map ((#) CHR '' '') (tagged name v)) = group_text name v"
  by (auto simp: tagged_def group_text_def clean_option_def clean_value_def split: option.splits)

lemma rendered_text:
  assumes "tax \<in> set VALID_TAXONOMIES" "clean_ticket ticket" "clean_option agent" "clean_option op_id"
  shows "render_event tail tax msg ticket agent now op_id =
    Inr (''- '' @ now @ '' [E-'' @ show_nat (next_event tail) @ CHR '']'' #
      group_text ''parent: E-'' (map_option show_nat (parent_of tail)) @ group_text [] ticket @
      group_text ''agent: '' agent @ group_text ''op: '' op_id @ payload_text tax msg)"
proof -
  have "clean_option ticket" using assms(2) by (auto simp: clean_ticket_def clean_option_def split: option.splits)
  then show ?thesis using assms
    by (cases tail)
       (simp_all add: render_event_def join_blank tagged_text payload_text_def parent_of_def group_text_def [of "''parent: E-''"])
qed

lemma group_plain: "clean_option v \<Longrightarrow> plain_line name \<Longrightarrow> plain_line (group_text name v)"
  by (auto simp: group_text_def clean_option_def clean_value_def is_line_end_def Let_def split: option.splits)

lemma shaped_plain: "shaped date_shape s \<Longrightarrow> plain_line s"
proof -
  have "list_all2 (\<lambda>p c. p c) ps s \<Longrightarrow> (\<And>p c. p \<in> set ps \<Longrightarrow> p c \<Longrightarrow> \<not> is_line_end c) \<Longrightarrow> plain_line s" for ps s
    by (induction rule: list_all2_induct) auto
  moreover have "\<not> is_line_end c" if "p \<in> set date_shape" "p c" for p c
    using that by (auto simp: date_shape_def is_digit_def date_separator_def is_line_end_def Let_def)
  ultimately show "shaped date_shape s \<Longrightarrow> plain_line s" unfolding shaped_def by blast
qed

lemma digits_plain: "list_all is_digit s \<Longrightarrow> plain_line s"
  by (auto simp: plain_line_def list_all_iff dest: line_end_space)

lemma digits_open: "list_all is_digit s \<Longrightarrow> list_all not_close s"
  by (induction s) (auto simp: not_close_def is_digit_def Let_def)

lemma rendered_line:
  assumes "tax \<in> set VALID_TAXONOMIES" "clean_ticket ticket" "clean_option agent" "clean_option op_id"
    "shaped date_shape now" "plain_line msg" "render_event tail tax msg ticket agent now op_id = Inr line"
  shows "parse_log_line line = Some (event_of tail tax msg ticket agent now op_id)" "plain_line line"
proof -
  let ?groups = "group_text ''parent: E-'' (map_option show_nat (parent_of tail)) @ group_text [] ticket @
      group_text ''agent: '' agent @ group_text ''op: '' op_id @ payload_text tax msg"
  have line: "line = ''- '' @ now @ '' [E-'' @ show_nat (next_event tail) @ CHR '']'' # ?groups"
    using assms(7) by (simp add: rendered_text [OF assms(1-4)])
  have len: "length now = 14" using assms(5) by (simp add: shaped_def date_shape_def)
  have date: "log_date (drop 2 line) = (Some now, ''[E-'' @ show_nat (next_event tail) @ CHR '']'' # ?groups)"
    using assms(5) len by (simp add: line log_date_def)
  have "\<not> is_digit CHR '']''" by (simp add: is_digit_def Let_def)
  then have num: "bracket ''[E-'' is_digit (''[E-'' @ show_nat (next_event tail) @ CHR '']'' # ?groups) =
      Some (show_nat (next_event tail), ?groups)"
    using show_nat_digits by (intro bracket_value) auto
  have start: "startswith line ''- ''" by (simp add: line)
  show "parse_log_line line = Some (event_of tail tax msg ticket agent now op_id)"
    unfolding parse_log_line_def date prod.case num option.case
      parent_read [OF assms(1,2)] ticket_read [OF assms(1,2)] agent_read [OF assms(1,3)] op_read [OF assms(1,4)]
      payload_read [OF assms(1,6)]
    using start show_nat_digits
    by (simp add: event_of_def digits_value_show option.map_comp comp_def option.map_ident)
  have "clean_option ticket" using assms(2) by (auto simp: clean_ticket_def clean_option_def split: option.splits)
  moreover have "clean_option (map_option show_nat (parent_of tail))"
    using show_nat_digits by (cases "parent_of tail")
      (auto simp: clean_option_def clean_value_def digits_plain digits_open)
  moreover have "plain_line tax" using assms(1) by (auto simp: VALID_TAXONOMIES_def is_line_end_def Let_def)
  ultimately show "plain_line line"
    using assms show_nat_digits [of "next_event tail"] shaped_plain
    by (simp add: line group_plain payload_text_def digits_plain is_line_end_def Let_def)
qed

text \<open>
  C25: an event built from a known taxonomy, a well-formed stamp, groups without a bracket and a one-line
  message is one line of the LOG and reads back as exactly the fields it was built from, numbered after the
  tail and with the tail as its parent.
\<close>

theorem event_roundtrip:
  assumes "build_event tail tax msg ticket agent now op_id = Inr (n, line)"
    and "clean_ticket ticket" "clean_option agent" "clean_option op_id" "shaped date_shape now" "plain_line msg"
  shows "one_legal_event line \<and> parse_log_line line = Some (event_of tail tax msg ticket agent now op_id) \<and>
    n = next_event tail \<and> utf8_length line \<le> MAX_NEW_EVENT_BYTES"
proof -
  from assms(1) have r: "render_event tail tax msg ticket agent now op_id = Inr line" "n = next_event tail"
    "utf8_length line \<le> MAX_NEW_EVENT_BYTES"
    by (auto simp: build_event_def split: sum.splits if_splits)
  then have tax: "tax \<in> set VALID_TAXONOMIES" by (auto simp: render_event_def split: if_splits)
  note read = rendered_line [OF tax assms(2-6) r(1)]
  have "line \<noteq> []" using read(1) by (auto simp: parse_log_line_def)
  then have "splitlines line = [line]"
    using splitlines_single read(2) by simp
  with read r show ?thesis by (simp add: one_legal_event_def)
qed

definition stamp0 :: string where
  "stamp0 = ''02.01.26 03:04''"

theorem event_roundtrip_witness:
  "parse_log_line ''- 02.01.26 03:04 [E-8] [parent: E-7] [T-3] [op: claim-1] DEC: claimed: [x]'' =
     Some (event_of (Some 7) ''DEC'' ''claimed: [x]'' (Some ''T-3'') None stamp0 (Some ''claim-1''))"
proof -
  have b: "build_event (Some 7) ''DEC'' ''claimed: [x]'' (Some ''T-3'') None stamp0 (Some ''claim-1'') =
      Inr (8, ''- 02.01.26 03:04 [E-8] [parent: E-7] [T-3] [op: claim-1] DEC: claimed: [x]'')"
    by code_simp
  have c: "clean_ticket (Some ''T-3'')" "clean_option None" "clean_option (Some ''claim-1'')" "shaped date_shape stamp0"
    "plain_line ''claimed: [x]''"
    by code_simp+
  from event_roundtrip [OF b c] show ?thesis by blast
qed

text \<open>
  The guard on a line about to be written looks at its grammar only: an agent name that carries a bracket
  passes it and lends the event an operation it does not have.
\<close>

theorem bracket_in_agent_forges_op:
  "build_event (Some 7) ''RUN'' ''note'' None (Some ''a] [op: finish-00000000'') stamp0 None =
     Inr (8, ''- 02.01.26 03:04 [E-8] [parent: E-7] [agent: a] [op: finish-00000000] RUN: note'')"
  "one_legal_event ''- 02.01.26 03:04 [E-8] [parent: E-7] [agent: a] [op: finish-00000000] RUN: note''"
  "map_option ev_op (parse_log_line ''- 02.01.26 03:04 [E-8] [parent: E-7] [agent: a] [op: finish-00000000] RUN: note'') =
     Some (Some ''finish-00000000'')"
  by code_simp+

end
