(* ===== verification/LedgerLaws.thy ===== *)
theory LedgerLaws
  imports LogLaws
begin

text \<open>
  The contract of the immutable ledger as a property of its events, its preservation by every append, the
  agreement of the routing summary with the full snapshot, and what a cut of a foreign tail leaves.
\<close>

section \<open>The contract\<close>

definition parent_ok :: "nat list \<Rightarrow> event \<Rightarrow> bool" where
  "parent_ok ids ev = (case ev_parent ev of None \<Rightarrow> True | Some p \<Rightarrow> p < ev_id ev \<and> p \<in> set ids)"

text \<open>The reference: no damage, identities in strictly ascending order, every parent recorded before its child.\<close>

definition sound_ledger :: "snapshot \<Rightarrow> bool" where
  "sound_ledger sn \<longleftrightarrow>
     sn_illegal sn = [] \<and> sorted_wrt (<) (map ev_id (sn_events sn)) \<and>
     list_all (parent_ok (map ev_id (sn_events sn))) (sn_events sn)"

lemma count_one: "(\<forall>e \<in> set ids. count_list ids e \<le> 1) \<longleftrightarrow> distinct (ids :: nat list)"
proof (induction ids)
  case (Cons x ids)
  have "(\<forall>e \<in> set (x # ids). count_list (x # ids) e \<le> 1) \<longleftrightarrow> x \<notin> set ids \<and> (\<forall>e \<in> set ids. count_list ids e \<le> 1)"
    by (auto simp: count_list_0_iff split: if_splits)
  with Cons show ?case by simp
qed simp

lemma duplicate_ids_none: "duplicate_ids ids = [] \<longleftrightarrow> distinct ids"
proof -
  have "duplicate_ids ids = [] \<longleftrightarrow> (\<forall>e \<in> set ids. count_list ids e \<le> 1)"
    unfolding duplicate_ids_def
    by (metis (no_types, lifting) empty_set filter_empty_conv not_le set_empty set_remdups set_sort)
  then show ?thesis using count_one by simp
qed

lemma edge_errors_none:
  "edge_errors seen claimed prev evs = [] \<longleftrightarrow>
   list_all (\<lambda>ev. parent_errors seen claimed ev = []) evs \<and>
   successively (<) ((case prev of None \<Rightarrow> [] | Some p \<Rightarrow> [p]) @ map ev_id evs)"
  by (induction evs arbitrary: prev) (auto simp: order_errors_def split: option.splits)

lemma parent_errors_none: "parent_errors seen [] ev = [] \<longleftrightarrow> parent_ok seen ev"
  by (auto simp: parent_errors_def parent_ok_def split: option.splits)

lemma ledger_sound: "snapshot_contract_errors sn = [] \<longleftrightarrow> sound_ledger sn"
proof -
  have "successively (<) ids \<longleftrightarrow> sorted_wrt (<) ids" for ids :: "nat list"
    by (rule successively_conv_sorted_wrt) (simp add: transp_def)
  moreover have "sorted_wrt (<) ids \<Longrightarrow> distinct ids" for ids :: "nat list" by (simp add: strict_sorted_iff)
  ultimately show ?thesis
    by (auto simp: snapshot_contract_errors_def sound_ledger_def Let_def duplicate_ids_none edge_errors_none
        parent_errors_none claimed_ids_def)
qed

text \<open>
  C23: the contract check of the immutable ledger passes exactly on a sound ledger: no illegal line, strictly
  increasing event identities and every parent an earlier event of the same history.
\<close>

theorem ledger_contract_exact: "snapshot_contract_errors sn = [] \<longleftrightarrow> sound_ledger sn"
  by (rule ledger_sound)

section \<open>The tail\<close>

lemma raise_tail_max: "foldl raise_tail (Some m) ns = Some (foldl max m ns)"
  by (induction ns arbitrary: m) (auto simp: raise_tail_def max_def)

lemma raise_tail_all: "foldl raise_tail None ns = (if ns = [] then None else Some (foldl max 0 ns))"
  by (cases ns) (simp_all add: raise_tail_max raise_tail_def [of None])

lemma foldl_max_bounds: "foldl max m ns \<in> insert m (set ns) \<and> m \<le> foldl max m ns \<and> (\<forall>n \<in> set ns. n \<le> foldl max m ns)"
  for m :: nat
proof (induction ns arbitrary: m)
  case (Cons n ns)
  from Cons [of "max m n"] show ?case by (auto simp: max_def split: if_splits)
qed simp

lemma tail_undamaged: "tail_of evs [] = (if evs = [] then None else Some (foldl max 0 (map ev_id evs)))"
  by (simp add: tail_of_def claimed_ids_def raise_tail_all)

lemma tail_empty: "tail_of evs [] = None \<longleftrightarrow> evs = []"
  by (simp add: tail_undamaged)

lemma tail_bounds: "tail_of evs [] = Some m \<Longrightarrow> m \<in> set (map ev_id evs) \<and> (\<forall>ev \<in> set evs. ev_id ev \<le> m)"
proof -
  assume "tail_of evs [] = Some m"
  then have m: "m = foldl max 0 (map ev_id evs)" "evs \<noteq> []" by (auto simp: tail_undamaged split: if_splits)
  from foldl_max_bounds [of 0 "map ev_id evs"] have b: "m = 0 \<or> m \<in> set (map ev_id evs)" "\<forall>ev \<in> set evs. ev_id ev \<le> m"
    unfolding m(1) by auto
  moreover have "m \<in> set (map ev_id evs)" if "m = 0"
  proof -
    from m(2) obtain ev where "ev \<in> set evs" by (cases evs) auto
    with b(2) that show ?thesis by force
  qed
  ultimately show ?thesis by blast
qed

lemma tail_snoc: "tail_of (evs @ [ev]) [] = Some (case tail_of evs [] of None \<Rightarrow> ev_id ev | Some m \<Rightarrow> max m (ev_id ev))"
  by (simp add: tail_undamaged)

section \<open>Appending\<close>

lemma log_entries_append: "log_entries env (a @ b) = log_entries env a @ log_entries env b"
  by (simp add: log_entries_def)

lemma map_filter_append: "List.map_filter f (a @ b) = List.map_filter f a @ List.map_filter f b"
  by (simp add: List.map_filter_def)

lemma collect_append [simp]:
  "events_of (a @ b) = events_of a @ events_of b" "damages_of (a @ b) = damages_of a @ damages_of b"
  "lines_of (a @ b) = lines_of a @ lines_of b"
  by (simp_all add: events_of_def damages_of_def lines_of_def map_filter_append)

lemma collect_one [simp]:
  "events_of [Recorded ev l] = [ev]" "damages_of [Recorded ev l] = []" "lines_of [Recorded ev l] = [l]"
  "events_of [] = []" "damages_of [] = []" "lines_of [] = []"
  by (simp_all add: events_of_def damages_of_def lines_of_def map_filter_simps)

lemma restored_fields [simp]:
  "ev_id (restored env ev) = ev_id ev" "ev_parent (restored env ev) = ev_parent ev" "ev_ticket (restored env ev) = ev_ticket ev"
  "ev_taxonomy (restored env ev) = ev_taxonomy ev" "ev_agent (restored env ev) = ev_agent ev"
  "ev_op (restored env ev) = ev_op ev" "ev_date (restored env ev) = ev_date ev"
  by (simp_all add: restored_def split: option.splits)

lemma last_segment_entries:
  assumes "list_all plain_line ls"
  shows "log_entries env [(path, raw, unlines ls)] = map (entry_of env (file_name path)) (enumerate 1 ls)"
  by (simp add: log_entries_def splitlines_unlines [OF assms])

lemma appended_entries:
  assumes "list_all plain_line ls" "plain_line line"
  shows "log_entries env (segs @ [(path, raw', unlines (ls @ [line]))]) =
    log_entries env (segs @ [(path, raw, unlines ls)]) @ [entry_of env (file_name path) (Suc (length ls), line)]"
proof -
  have "list_all plain_line (ls @ [line])" using assms by simp
  then show ?thesis
    by (simp add: log_entries_append last_segment_entries assms(1) enumerate_append_eq)
qed

text \<open>
  C24: appending a built event to the active LOG keeps the ledger sound.  The number is one more than the tail (one in
  an empty ledger) and becomes the tail; the recorded events are the old ones, unchanged, followed by the new event with
  the taxonomy, the ticket, the agent and the operation it was built for, and its parent is the old tail (none in an
  empty ledger, and none when the tail is E-0, as the code has it).
\<close>

theorem append_keeps_ledger:
  assumes ok: "snapshot_contract_errors (snapshot_of env (segs @ [(path, raw, unlines ls)])) = []"
    and ls: "list_all plain_line ls"
    and built: "build_event (sn_tail (snapshot_of env (segs @ [(path, raw, unlines ls)]))) tax msg ticket agent now op_id = Inr (n, line)"
    and clean: "clean_ticket ticket" "clean_option agent" "clean_option op_id" "shaped date_shape now" "plain_line msg"
  shows "let old = snapshot_of env (segs @ [(path, raw, unlines ls)]);
             new = snapshot_of env (segs @ [(path, raw', unlines (ls @ [line]))])
         in snapshot_contract_errors new = [] \<and> sn_tail new = Some n \<and>
            n = (case sn_tail old of None \<Rightarrow> 1 | Some t \<Rightarrow> t + 1) \<and>
            (\<exists>ev. sn_events new = sn_events old @ [ev] \<and> ev_id ev = n \<and>
               ev_parent ev = (if sn_tail old = Some 0 then None else sn_tail old) \<and>
               ev_taxonomy ev = tax \<and> ev_ticket ev = ticket \<and> ev_agent ev = agent \<and> ev_op ev = op_id \<and> ev_date ev = Some now)"
proof -
  let ?es = "log_entries env (segs @ [(path, raw, unlines ls)])"
  let ?old = "snapshot_of env (segs @ [(path, raw, unlines ls)])"
  let ?new = "snapshot_of env (segs @ [(path, raw', unlines (ls @ [line]))])"
  from built have r: "render_event (sn_tail ?old) tax msg ticket agent now op_id = Inr line" "n = next_event (sn_tail ?old)"
    by (auto simp: build_event_def split: sum.splits if_splits)
  then have tax: "tax \<in> set VALID_TAXONOMIES" by (auto simp: render_event_def split: if_splits)
  note read = rendered_line [OF tax clean r(1)]
  let ?ev = "restored env (event_of (sn_tail ?old) tax msg ticket agent now op_id)"
  have es: "log_entries env (segs @ [(path, raw', unlines (ls @ [line]))]) = ?es @ [Recorded ?ev line]"
    by (simp add: appended_entries [OF ls read(2), of env segs path raw' raw] entry_of_def read(1))
  from ok have sound: "sound_ledger ?old" by (simp add: ledger_sound)
  then have ill: "damages_of ?es = []" by (simp add: sound_ledger_def snapshot_of_def Let_def)
  have tail: "sn_tail ?old = tail_of (events_of ?es) []" by (simp add: snapshot_of_def Let_def ill)
  have id: "ev_id ?ev = n" by (simp add: event_of_def r(2))
  have above: "ev_id ev < n" if "ev \<in> set (events_of ?es)" for ev
    using that tail_bounds [of "events_of ?es"] r(2) tail tail_empty [of "events_of ?es"]
    by (cases "sn_tail ?old") (force simp: next_event_def)+
  have parent: "parent_ok (map ev_id (events_of ?es) @ [n]) ?ev"
    using tail_bounds [of "events_of ?es"] tail r(2)
    by (auto simp: parent_ok_def event_of_def parent_of_def next_event_def split: option.splits)
  have "sound_ledger ?new"
    using sound above parent id es
    by (auto simp: sound_ledger_def snapshot_of_def Let_def ill sorted_wrt_append list_all_iff parent_ok_def split: option.splits)
  moreover have "sn_tail ?new = Some n"
    using above tail_bounds [of "events_of ?es"] r(2) tail
    by (simp add: snapshot_of_def es Let_def ill tail_snoc id)
       (auto simp: snapshot_of_def Let_def ill next_event_def event_of_def split: option.splits)
  moreover have "sn_events ?new = sn_events ?old @ [?ev]" by (simp add: snapshot_of_def Let_def es)
  moreover have "ev_parent ?ev = (if sn_tail ?old = Some 0 then None else sn_tail ?old)"
    by (simp add: event_of_def parent_of_def)
  moreover have "ev_taxonomy ?ev = tax \<and> ev_ticket ?ev = ticket \<and> ev_agent ?ev = agent \<and> ev_op ?ev = op_id \<and> ev_date ?ev = Some now"
    by (simp add: event_of_def)
  moreover have "n = (case sn_tail ?old of None \<Rightarrow> 1 | Some t \<Rightarrow> t + 1)" by (simp add: r(2) next_event_def split: option.split)
  ultimately show ?thesis using id by (auto simp: ledger_sound Let_def)
qed

definition plain_log_env :: log_env where
  "plain_log_env = \<lparr>l_digest = (\<lambda>_. []), l_text = (\<lambda>raw. raw), l_restore = (\<lambda>_. None)\<rparr>"

definition sample_segments :: "segment list" where
  "sample_segments = [(''.saipen/logs/LOG-1.md'', [], unlines [''# sealed'', ''- [E-1] NOTE: first''])]"

definition sample_log :: "string list" where
  "sample_log = [''- 01.01.26 00:00 [E-2] [parent: E-1] [T-4] DEC: claimed'', [], ''- 01.01.26 00:01 [E-5] [parent: E-2] RUN: done'']"

theorem append_keeps_ledger_witness:
  "case build_event (Some 5) ''WAIT'' ''operator'' (Some ''T-4'') None stamp0 None of
     Inl _ \<Rightarrow> False
   | Inr (n, line) \<Rightarrow>
       n = 6 \<and> snapshot_contract_errors
         (snapshot_of plain_log_env (sample_segments @ [(''.saipen/LOG.md'', [], unlines (sample_log @ [line]))])) = [] \<and>
       map ev_parent (sn_events (snapshot_of plain_log_env (sample_segments @ [(''.saipen/LOG.md'', [], unlines (sample_log @ [line]))]))) =
         [None, Some 1, Some 2, Some 5]"
proof -
  have ok: "snapshot_contract_errors (snapshot_of plain_log_env (sample_segments @ [(''.saipen/LOG.md'', [], unlines sample_log)])) = []"
    and tail: "sn_tail (snapshot_of plain_log_env (sample_segments @ [(''.saipen/LOG.md'', [], unlines sample_log)])) = Some 5"
    and ls: "list_all plain_line sample_log"
    by code_simp+
  have b: "build_event (Some 5) ''WAIT'' ''operator'' (Some ''T-4'') None stamp0 None =
      Inr (6, ''- 02.01.26 03:04 [E-6] [parent: E-5] [T-4] WAIT: operator'')"
    by code_simp
  have c: "clean_ticket (Some ''T-4'')" "clean_option None" "shaped date_shape stamp0" "plain_line ''operator''"
    by code_simp+
  have old: "map ev_parent (sn_events (snapshot_of plain_log_env (sample_segments @ [(''.saipen/LOG.md'', [], unlines sample_log)]))) =
      [None, Some 1, Some 2]"
    by code_simp
  from append_keeps_ledger [OF ok ls b [folded tail] c(1,2,2,3,4), where raw' = "[]"] old show ?thesis
    unfolding b by (auto simp: Let_def tail)
qed

end
