(* ===== verification/RoutingLaws.thy ===== *)
theory RoutingLaws
  imports LedgerLaws
begin

text \<open>
  The routing summary keeps a bounded number of events and still answers what the full snapshot answers.
\<close>

section \<open>The state of the pass\<close>

text \<open>What the pass holds once it has read the entries \<open>es\<close>.\<close>

definition routed :: "entry list \<Rightarrow> routing \<Rightarrow> bool" where
  "routed es r \<longleftrightarrow>
     rt_illegal r = damages_of es \<and> rt_count r = length (events_of es) \<and>
     rt_highest r = foldl max 0 (map ev_id (events_of es)) \<and> set (rt_seen r) = set (map ev_id (events_of es)) \<and>
     rt_max_ticket r = max_ticket (events_of es) \<and>
     rt_events r = drop (length (events_of es) - ROUTING_TAIL_EVENTS) (events_of es) \<and>
     (rt_duplicates r = [] \<longleftrightarrow> distinct (map ev_id (events_of es))) \<and>
     set (rt_duplicates r) \<subseteq> set (map ev_id (events_of es)) \<and>
     (rt_ordering r = [] \<longleftrightarrow> list_all (\<lambda>ev. case ev_parent ev of Some p \<Rightarrow> p < ev_id ev | None \<Rightarrow> True) (events_of es))"

lemma deque_newest: "deque_append n (drop (length xs - n) xs) x = drop (length (xs @ [x]) - n) (xs @ [x])"
proof (cases "n \<le> length xs")
  case True
  then have "length (drop (length xs - n) xs) = n" by simp
  with True show ?thesis by (cases n) (simp_all add: deque_append_def Suc_diff_Suc Suc_le_eq)
next
  case False
  then show ?thesis by (simp add: deque_append_def)
qed

lemma capped_nonempty: "capped_append xs x \<noteq> []"
  by (auto simp: capped_append_def ROUTING_DIAGNOSTIC_CAP_def)

lemma capped_subset: "set (capped_append xs x) \<subseteq> insert x (set xs)"
  by (auto simp: capped_append_def)

lemma routed_event:
  assumes "routed es r"
  shows "routed (es @ [Recorded (restored env ev) l]) (route_event env name n ev r)"
proof -
  let ?evs = "events_of es"
  have tick: "ticket_of_event (restored env ev) = ticket_of_event ev" by (simp add: ticket_of_event_def)
  have "max_ticket (?evs @ [restored env ev]) = (case ticket_of_event ev of Some t \<Rightarrow> max (max_ticket ?evs) t | None \<Rightarrow> max_ticket ?evs)"
    by (simp add: max_ticket_def map_filter_append tick split: option.splits)
  then have top: "rt_max_ticket (route_event env name n ev r) = max_ticket (?evs @ [restored env ev])"
    using assms by (simp add: route_event_def routed_def split: option.split)
  have newest: "rt_events (route_event env name n ev r) =
      drop (length (?evs @ [restored env ev]) - ROUTING_TAIL_EVENTS) (?evs @ [restored env ev])"
    using assms deque_newest [of ROUTING_TAIL_EVENTS ?evs "restored env ev"] by (simp add: route_event_def routed_def)
  have dup: "rt_duplicates (route_event env name n ev r) = [] \<longleftrightarrow> distinct (map ev_id (?evs @ [restored env ev]))"
    "set (rt_duplicates (route_event env name n ev r)) \<subseteq> set (map ev_id (?evs @ [restored env ev]))"
    "set (rt_seen (route_event env name n ev r)) = set (map ev_id (?evs @ [restored env ev]))"
    using assms capped_nonempty [of "rt_duplicates r" "ev_id ev"] capped_subset [of "rt_duplicates r" "ev_id ev"]
    by (cases "ev_id ev \<in> set (rt_seen r)"; auto simp: route_event_def routed_def)+
  have ord: "rt_ordering (route_event env name n ev r) = [] \<longleftrightarrow>
      list_all (\<lambda>ev. case ev_parent ev of Some p \<Rightarrow> p < ev_id ev | None \<Rightarrow> True) (?evs @ [restored env ev])"
  proof (cases "ev_parent ev")
    case None
    then show ?thesis using assms by (simp add: route_event_def routed_def)
  next
    case (Some p)
    then show ?thesis using assms by (cases "ev_id ev \<le> p") (simp_all add: route_event_def routed_def capped_nonempty not_le)
  qed
  have rest: "rt_illegal (route_event env name n ev r) = damages_of es"
    "rt_count (route_event env name n ev r) = length (?evs @ [restored env ev])"
    "rt_highest (route_event env name n ev r) = foldl max 0 (map ev_id (?evs @ [restored env ev]))"
    using assms by (simp_all add: route_event_def routed_def)
  show ?thesis unfolding routed_def collect_append collect_one by (intro conjI) (use top newest dup ord rest in simp_all)
qed

lemma routed_line:
  assumes "routed es r"
  shows "routed (es @ [entry_of env name nl]) (route_line env name r nl)"
proof -
  obtain n line where nl: "nl = (n, line)" by (cases nl)
  show ?thesis
  proof (cases "parse_log_line line")
    case (Some ev)
    with routed_event [OF assms] show ?thesis by (simp add: nl entry_of_def route_line_def)
  next
    case None
    with assms show ?thesis
      by (auto simp: nl entry_of_def route_line_def routed_def events_of_def damages_of_def map_filter_append)
  qed
qed

lemma routed_lines:
  "routed es r \<Longrightarrow> routed (es @ map (entry_of env name) nls) (foldl (route_line env name) r nls)"
proof (induction nls arbitrary: es r)
  case (Cons nl nls)
  from Cons.IH [OF routed_line [OF Cons.prems]] show ?case by simp
qed simp

lemma routed_segments: "routed es r \<Longrightarrow> routed (es @ log_entries env segs) (foldl (route_segment env) r segs)"
proof (induction segs arbitrary: es r)
  case (Cons seg segs)
  obtain path raw body where seg: "seg = (path, raw, body)" by (cases seg)
  have "routed (es @ log_entries env [seg]) (route_segment env r seg)"
    using routed_lines [OF Cons.prems] by (simp add: seg log_entries_def route_segment_def)
  from Cons.IH [OF this] log_entries_append [of env "[seg]" segs] show ?case by simp
qed (simp add: log_entries_def)

lemma routed_start: "routed [] no_routing"
  by (simp add: routed_def no_routing_def max_ticket_def)

text \<open>
  C40: on a history whose events are numbered from one, the routing summary, which keeps sixteen events, gives
  the same digest, illegal lines, highest ticket and tail as the full snapshot, counts its events and keeps the
  newest; it reports a duplicate exactly when an identity occurs twice and an ordering error exactly when a
  parent is not older than its child.
\<close>

theorem routing_summary_agrees:
  assumes "list_all (\<lambda>ev. 0 < ev_id ev) (sn_events (snapshot_of env segs))"
  shows "let su = summary_of env segs; sn = snapshot_of env segs in
    su_hash su = sn_hash sn \<and> su_illegal su = sn_illegal sn \<and> su_max_ticket su = sn_max_ticket sn \<and>
    su_tail su = sn_tail sn \<and> su_count su = length (sn_events sn) \<and>
    su_events su = drop (length (sn_events sn) - 16) (sn_events sn) \<and>
    (su_duplicates su = [] \<longleftrightarrow> distinct (map ev_id (sn_events sn))) \<and>
    (su_ordering su = [] \<longleftrightarrow> list_all (\<lambda>ev. case ev_parent ev of Some p \<Rightarrow> p < ev_id ev | None \<Rightarrow> True) (sn_events sn))"
proof -
  let ?r = "foldl (route_segment env) no_routing segs" and ?es = "log_entries env segs"
  have r: "routed ?es ?r" using routed_segments [OF routed_start] by simp
  have "foldl raise_tail None (map ev_id (events_of ?es)) = (if rt_highest ?r = 0 then None else Some (rt_highest ?r))"
  proof (cases "events_of ?es")
    case Nil
    with r show ?thesis by (simp add: routed_def)
  next
    case (Cons ev evs)
    have "0 < ev_id ev" using assms Cons by (simp add: snapshot_of_def Let_def)
    moreover have "ev_id ev \<le> foldl max 0 (map ev_id (events_of ?es))"
      using foldl_max_bounds [of 0 "map ev_id (events_of ?es)"] Cons by simp
    ultimately show ?thesis using r Cons by (simp add: routed_def raise_tail_max raise_tail_def [of None])
  qed
  moreover have "sort (remdups ids) = [] \<longleftrightarrow> ids = []" for ids :: "nat list" by (metis set_empty set_remdups set_sort)
  ultimately show ?thesis using r
    by (simp add: summary_of_def snapshot_of_def Let_def routed_def tail_of_def ROUTING_TAIL_EVENTS_def)
qed

definition sample_history :: "segment list" where
  "sample_history = sample_segments @ [(''.saipen/LOG.md'', [], unlines (sample_log @ [''broken [E-9]'']))]"

theorem routing_summary_agrees_witness:
  "su_tail (summary_of plain_log_env sample_history) = sn_tail (snapshot_of plain_log_env sample_history) \<and>
   sn_tail (snapshot_of plain_log_env sample_history) = Some 9"
proof -
  have "list_all (\<lambda>ev. 0 < ev_id ev) (sn_events (snapshot_of plain_log_env sample_history))"
    "sn_tail (snapshot_of plain_log_env sample_history) = Some 9"
    by code_simp+
  with routing_summary_agrees [of plain_log_env sample_history] show ?thesis by (simp add: Let_def)
qed

text \<open>An event numbered zero is the tail of the snapshot and no tail at all for the summary.\<close>

theorem event_zero_tail_differs:
  "sn_tail (snapshot_of plain_log_env [(''.saipen/LOG.md'', [], unlines [''- [E-0] NOTE: zero''])]) = Some 0"
  "su_tail (summary_of plain_log_env [(''.saipen/LOG.md'', [], unlines [''- [E-0] NOTE: zero''])]) = None"
  by code_simp+

end
