(* ===== verification/CutLaws.thy ===== *)
theory CutLaws
  imports LedgerLaws
begin

text \<open>
  The cut of a foreign tail leaves the history exactly as it reads without the suffix, and that history
  satisfies the contract of the ledger.
\<close>

section \<open>Event lines\<close>

lemma declared_somewhere:
  "ds \<noteq> [] \<Longrightarrow> list_all is_digit ds \<Longrightarrow> declared_event_id (u @ ''[E-'' @ ds @ CHR '']'' # r) \<noteq> None"
proof (induction u)
  case Nil
  have "\<not> is_digit CHR '']''" by (simp add: is_digit_def Let_def)
  with Nil bracket_value [of is_digit ds "''[E-''" r] show ?case by simp
next
  case (Cons c u)
  let ?s = "u @ ''[E-'' @ ds @ CHR '']'' # r"
  have "declared_event_id (c # ?s) \<noteq> None"
    using Cons by (cases "bracket ''[E-'' is_digit (c # ?s)") (auto split: prod.splits)
  then show ?case by simp
qed

lemma bracket_text: "bracket opening P s = Some (v, r) \<Longrightarrow> s = opening @ v @ CHR '']'' # r \<and> list_all P v"
proof -
  assume a: "bracket opening P s = Some (v, r)"
  then obtain rest where s: "startswith s opening" "span P (drop (length opening) s) = (v, rest)"
    "startswith rest '']''" "r = tl rest"
    by (auto simp: bracket_def split: if_splits prod.splits)
  from s(3) have "rest = CHR '']'' # tl rest" by (cases rest) auto
  with s startswith_drop [OF s(1)] span_inverse [OF s(2)] span_class [OF s(2)] show ?thesis by simp
qed

lemma log_date_text: "log_date s = (d, r) \<Longrightarrow> \<exists>u. s = u @ r"
proof -
  assume "log_date s = (d, r)"
  then have "s = take 15 s @ r \<or> s = r" by (auto simp: log_date_def split: if_splits)
  then show ?thesis by (metis append_Nil)
qed

text \<open>A legal event is neither blank nor a comment and declares an identity.\<close>

lemma legal_line:
  assumes "parse_log_line l = Some ev"
  shows "\<not> blank_or_comment l" "declared_event_id l \<noteq> None"
proof -
  from assms obtain d s1 num s2 where a: "startswith l ''- ''" "log_date (drop 2 l) = (d, s1)"
    "bracket ''[E-'' is_digit s1 = Some (num, s2)" "num \<noteq> []"
    by (auto simp: parse_log_line_def split: if_splits prod.splits option.splits)
  from startswith_drop [OF a(1)] have l: "l = CHR ''-'' # CHR '' '' # drop 2 l" by (simp add: numeral_2_eq_2)
  from log_date_text [OF a(2)] obtain u where "drop 2 l = u @ s1" by blast
  with l bracket_text [OF a(3)] have "l = (CHR ''-'' # CHR '' '' # u) @ ''[E-'' @ num @ CHR '']'' # s2" "list_all is_digit num" by auto
  with declared_somewhere [OF a(4)] show "declared_event_id l \<noteq> None" by metis
  have "lstrip l = l" by (subst l) (simp add: lstrip_def is_space_def Let_def, metis l)
  moreover obtain t where t: "l = rstrip l @ t" "list_all is_space t" using rstrip_split by blast
  moreover have "\<not> is_space CHR ''-''" by (simp add: is_space_def Let_def)
  then have "rstrip l \<noteq> []" using t l by (metis append_Nil list.pred_inject(2))
  ultimately have "strip l \<noteq> [] \<and> hd (strip l) = CHR ''-''"
    unfolding strip_def by (metis hd_append2 l list.sel(1))
  then show "\<not> blank_or_comment l" by (cases "strip l") (auto simp: blank_or_comment_def)
qed

lemma map_sum_Inr: "map_sum id f x = Inr y \<longleftrightarrow> (\<exists>z. x = Inr z \<and> y = f z)"
  by (cases x) auto

lemma suffix_claims_events:
  "suffix_claims bound n ls = Inr (claimed, k) \<Longrightarrow> k = length (events_of (map (entry_of env name) (enumerate m ls)))"
proof (induction ls arbitrary: n m claimed k)
  case (Cons l ls)
  show ?case
  proof (cases "parse_log_line l")
    case (Some ev)
    with Cons.prems legal_line [OF Some] obtain c k' where
      r: "suffix_claims bound (Suc n) ls = Inr (c, k')" "k = Suc k'"
      by (auto simp: map_sum_Inr split: if_splits option.splits)
    from Cons.IH [OF r(1), of "Suc m"] r(2) Some show ?thesis by (simp add: events_of_def entry_of_def)
  next
    case None
    with Cons.prems obtain c where r: "suffix_claims bound (Suc n) ls = Inr (c, k)"
      by (auto simp: map_sum_Inr split: if_splits option.splits)
    from Cons.IH [OF r, of "Suc m"] None show ?thesis by (simp add: events_of_def entry_of_def)
  qed
qed (simp add: events_of_def)

definition below_bound :: "nat \<Rightarrow> string \<Rightarrow> bool" where
  "below_bound b l \<longleftrightarrow> blank_or_comment l \<or> (case declared_event_id l of Some d \<Rightarrow> d \<le> b | None \<Rightarrow> True)"

lemma suffix_claims_bound: "suffix_claims (Some b) n ls = Inr r \<Longrightarrow> list_all (below_bound b) ls"
proof (induction ls arbitrary: n r)
  case (Cons l ls)
  then obtain r' where r: "suffix_claims (Some b) (Suc n) ls = Inr r'"
    by (auto simp: map_sum_Inr split: if_splits option.splits)
  have "below_bound b l" using Cons.prems by (auto simp: below_bound_def split: if_splits option.splits)
  with Cons.IH [OF r] show ?case by simp
qed simp

section \<open>The cut\<close>

lemma find_index_bound: "find_index_from n P xs = Some i \<Longrightarrow> n \<le> i \<and> i < n + length xs \<and> P (xs ! (i - n))"
  by (induction xs arbitrary: n) (fastforce split: if_splits simp: nth_Cons')+

lemma keep_before_append: "keep_before a (xs @ ys) = keep_before a xs @ keep_before a ys"
  by (simp add: keep_before_def)

lemma damage_lines:
  "d \<in> set (damages_of (map (entry_of env name) (enumerate n ls))) \<Longrightarrow> d_file d = name \<and> n \<le> d_line d \<and> d_line d < n + length ls"
proof (induction ls arbitrary: n)
  case (Cons l ls)
  then show ?case
    by (force simp: damages_of_def entry_of_def split: option.splits if_splits dest: Cons.IH [of "Suc n", unfolded damages_of_def])
qed (simp add: damages_of_def)

lemma damage_files: "d \<in> set (damages_of (log_entries env segs)) \<Longrightarrow> \<exists>seg \<in> set segs. d_file d = file_name (fst seg)"
proof (induction segs)
  case (Cons seg segs)
  obtain path raw body where seg: "seg = (path, raw, body)" by (cases seg)
  from Cons log_entries_append [of env "[seg]" segs] damage_lines [of d env "file_name path" 1 "splitlines body"] show ?case
    by (auto simp: seg log_entries_def)
qed (simp add: log_entries_def damages_of_def)

lemma contract_congruence:
  "sn_events a = sn_events b \<Longrightarrow> sn_illegal a = sn_illegal b \<Longrightarrow> snapshot_contract_errors a = snapshot_contract_errors b"
  by (simp add: snapshot_contract_errors_def)

lemma join_snoc: "\<exists>u. \<forall>y. join sep (xs @ [y]) = u @ y"
proof (induction xs)
  case (Cons x xs)
  then obtain u where u: "\<forall>y. join sep (xs @ [y]) = u @ y" by blast
  then have "\<forall>y. join sep ((x # xs) @ [y]) = (x @ sep @ u) @ y" by (simp add: join_cons)
  then show ?case by blast
qed (auto intro: exI [of _ "[]"])

lemma snapshot_fields [simp]:
  "sn_events (snapshot_of env segs) = events_of (log_entries env segs)"
  "sn_illegal (snapshot_of env segs) = damages_of (log_entries env segs)"
  "sn_lines (snapshot_of env segs) = lines_of (log_entries env segs)"
  "sn_tail (snapshot_of env segs) = tail_of (events_of (log_entries env segs)) (damages_of (log_entries env segs))"
  "sn_text (snapshot_of env segs) = join [CHR 10] (map (\<lambda>(_, _, body). body) segs)"
  by (simp_all add: snapshot_of_def Let_def)

lemma lines_events: "length (lines_of es) = length (events_of es)"
  by (induction es) (auto simp: lines_of_def events_of_def split: entry.splits)

text \<open>The history without the lines from \<open>n\<close> on, up to its digest and its ticket frontier.\<close>

definition history_reads_as :: "snapshot \<Rightarrow> snapshot \<Rightarrow> bool" where
  "history_reads_as a b \<longleftrightarrow>
     sn_events a = sn_events b \<and> sn_illegal a = sn_illegal b \<and> sn_tail a = sn_tail b \<and> sn_lines a = sn_lines b \<and>
     sn_text a = sn_text b"

lemma without_suffix_reads:
  assumes ls: "list_all plain_line ls" and a: "a < length ls" and name: "file_name path = ''LOG.md''"
    and sealed: "list_all (\<lambda>seg. file_name (fst seg) \<noteq> ''LOG.md'') segs"
    and k: "k = length (events_of (map (entry_of env ''LOG.md'') (enumerate (Suc (Suc a)) (drop (Suc a) ls))))"
  shows "history_reads_as
    (without_suffix (snapshot_of env (segs @ [(path, raw, unlines ls)])) a k
       (let t = sn_text (snapshot_of env (segs @ [(path, raw, unlines ls)]))
        in take (length t - length (unlines ls)) t @ unlines (take (Suc a) ls)))
    (snapshot_of env (segs @ [(path, raw', unlines (take (Suc a) ls))]))"
proof -
  let ?S = "map (entry_of env ''LOG.md'') (enumerate (Suc (Suc a)) (drop (Suc a) ls))"
  let ?K = "log_entries env (segs @ [(path, raw', unlines (take (Suc a) ls))])"
  have plain: "list_all plain_line (take (Suc a) ls)" using ls by (metis append_take_drop_id list_all_append)
  have "enumerate 1 ls = enumerate 1 (take (Suc a) ls) @ enumerate (Suc (Suc a)) (drop (Suc a) ls)"
    using a enumerate_append_eq [of 1 "take (Suc a) ls" "drop (Suc a) ls"] by simp
  then have E: "log_entries env (segs @ [(path, raw, unlines ls)]) = ?K @ ?S"
    by (simp add: log_entries_append last_segment_entries ls plain name)
  have keepK: "keep_before a (damages_of ?K) = damages_of ?K"
  proof -
    have "\<not> (d_file d = ''LOG.md'' \<and> a + 1 < d_line d)" if d: "d \<in> set (damages_of ?K)" for d
    proof -
      from d consider "d \<in> set (damages_of (log_entries env segs))"
        | "d \<in> set (damages_of (map (entry_of env ''LOG.md'') (enumerate 1 (take (Suc a) ls))))"
        by (auto simp: log_entries_append last_segment_entries plain name)
      then show ?thesis
      proof cases
        case 1
        from damage_files [OF this] sealed show ?thesis by (auto simp: list_all_iff)
      next
        case 2
        from damage_lines [OF this] a show ?thesis by simp
      qed
    qed
    then show ?thesis by (simp add: keep_before_def filter_id_conv)
  qed
  have "d_file d = ''LOG.md'' \<and> a + 1 < d_line d" if "d \<in> set (damages_of ?S)" for d
    using damage_lines [OF that] by simp
  then have keepS: "keep_before a (damages_of ?S) = []" by (simp add: keep_before_def filter_empty_conv)
  have body: "take (length (join [CHR 10] (map (\<lambda>(_, _, body). body) segs @ [unlines ls])) - length (unlines ls))
      (join [CHR 10] (map (\<lambda>(_, _, body). body) segs @ [unlines ls])) @ unlines (take (Suc a) ls) =
    join [CHR 10] (map (\<lambda>(_, _, body). body) segs @ [unlines (take (Suc a) ls)])"
  proof -
    from join_snoc obtain u where "\<forall>y. join [CHR 10] (map (\<lambda>(_, _, body). body) segs @ [y]) = u @ y" by blast
    then show ?thesis by simp
  qed
  have "lines_of ?S = []" if "k = 0" using that k lines_events [of ?S] by simp
  then have lines: "(if 0 < k \<and> lines_of (?K @ ?S) \<noteq> [] then take (length (lines_of (?K @ ?S)) - k) (lines_of (?K @ ?S))
      else lines_of (?K @ ?S)) = lines_of ?K"
    using k lines_events [of ?S] by auto
  show ?thesis
    unfolding history_reads_as_def without_suffix_def Let_def snapshot_fields E
    using keepK keepS k lines body by (simp add: keep_before_append)
qed

text \<open>The frontier of the tickets: what a cut reports is never below the tickets of the events it keeps.\<close>

lemma ticket_named_found:
  assumes "ticket_name t"
  shows "t \<in> set (find_tickets (''['' @ t @ ''] '' @ s))"
proof -
  from assms have t: "startswith t ''T-''" "drop 2 t \<noteq> []" "list_all is_digit (drop 2 t)" by (auto simp: ticket_name_def)
  let ?ds = "drop 2 t"
  have "t = CHR ''T'' # CHR ''-'' # ?ds" using startswith_drop [OF t(1)] by (simp add: numeral_2_eq_2)
  with t obtain ds where ds: "t = CHR ''T'' # CHR ''-'' # ds" "ds \<noteq> []" "list_all is_digit ds" by blast
  have "\<not> is_digit CHR '']''" by (simp add: is_digit_def Let_def)
  then have "span is_digit (ds @ CHR '']'' # CHR '' '' # s) = (ds, CHR '']'' # CHR '' '' # s)"
    using ds(3) by (intro span_append) auto
  then have "ticket_ref (t @ ''] '' @ s) = Some (t, ''] '' @ s)"
    using ds by (simp add: ticket_ref_def)
  moreover have "ticket_ref (''['' @ t @ ''] '' @ s) = None" by (simp add: ticket_ref_def)
  ultimately show ?thesis
    using find_tickets.simps [of "''['' @ t @ ''] '' @ s"] find_tickets.simps [of "t @ ''] '' @ s"] ds(1) by simp
qed

lemma ticket_mentioned: "ticket_of_event ev = Some n \<Longrightarrow> n \<in> set (mentioned_tickets ev)"
  using ticket_named_found by (force simp: ticket_of_event_def mentioned_tickets_def split: option.splits if_splits)

lemma frontier_covers: "max_ticket evs \<le> foldl max 0 (concat (map mentioned_tickets evs))"
proof -
  have "n \<le> foldl max 0 (concat (map mentioned_tickets evs))" if "n \<in> set (List.map_filter ticket_of_event evs)" for n
  proof -
    from that obtain ev where "ev \<in> set evs" "ticket_of_event ev = Some n" by (auto simp: List.map_filter_def)
    then have "n \<in> set (concat (map mentioned_tickets evs))" using ticket_mentioned by fastforce
    then show ?thesis using foldl_max_bounds by blast
  qed
  then show ?thesis using foldl_max_bounds [of 0 "List.map_filter ticket_of_event evs"] by (auto simp: max_ticket_def)
qed

lemma no_legal_event: "events_of (map (entry_of env name) (enumerate n ls)) = [] \<longleftrightarrow> list_all (\<lambda>l. legal_event_id l = None) ls"
proof (induction ls arbitrary: n)
  case (Cons l ls)
  from Cons [of "Suc n"] show ?case
    by (auto simp: events_of_def entry_of_def legal_event_id_def map_filter_simps split: option.splits)
qed (simp add: events_of_def map_filter_simps)

lemma find_index_least: "find_index_from n P xs = Some i \<Longrightarrow> j < i - n \<Longrightarrow> \<not> P (xs ! j)"
proof (induction xs arbitrary: n j)
  case (Cons x xs)
  then show ?case using find_index_bound [of "Suc n" P xs i] by (cases j) (auto split: if_splits)
qed simp

text \<open>The event a cut keeps last: the checkpointed one, or the newest a journal record stands behind when that is older.\<close>

definition boundary :: "nat option \<Rightarrow> nat option \<Rightarrow> nat option" where
  "boundary journal_floor last_event =
     (case (journal_floor, last_event) of
        (Some f, Some l) \<Rightarrow> Some (min f l) | (Some f, None) \<Rightarrow> Some f | (None, l) \<Rightarrow> l)"

definition journal_bound :: "nat option \<Rightarrow> nat option \<Rightarrow> bool" where
  "journal_bound journal_floor last_event =
     (case (journal_floor, last_event) of (Some f, Some l) \<Rightarrow> f < l | (Some f, None) \<Rightarrow> True | _ \<Rightarrow> False)"

text \<open>
  C31: when the cut of a foreign tail is granted, it is made right after the first line of the active LOG that is a
  legal event with the number of the boundary, which is STATE's last event, or the floor of the journal where that
  lies below it, and something other than blanks and comments follows.  The snapshot handed on is exactly what the
  history reads without the rest (events, illegal lines, tail, event lines and text) and satisfies the ledger contract.
  Its ticket frontier covers the ticket of every kept event; when a legal event was dropped it is the largest ticket
  the kept events name or mention (so possibly above what the kept history alone reads), otherwise that of the kept
  history.  Unless the journal drew the boundary, no dropped line claims a number above it.
\<close>

theorem foreign_cut_exact:
  assumes cut: "foreign_tail_cut (snapshot_of env (segs @ [(path, raw, unlines ls)])) (unlines ls) last_event floor = Inr ft"
    and ls: "list_all plain_line ls" and name: "file_name path = ''LOG.md''"
    and sealed: "list_all (\<lambda>seg. file_name (fst seg) \<noteq> ''LOG.md'') segs"
  shows "\<exists>b pre l. boundary floor last_event = Some b \<and> ls = pre @ l # ft_suffix ft \<and>
    legal_event_id l = Some b \<and> list_all (\<lambda>l'. legal_event_id l' \<noteq> Some b) pre \<and>
    ft_anchor ft = length pre + 1 \<and> ft_kept ft = unlines (pre @ [l]) \<and> list_ex (\<lambda>l'. \<not> blank_or_comment l') (ft_suffix ft) \<and>
    history_reads_as (ft_snapshot ft) (snapshot_of env (segs @ [(path, raw', ft_kept ft)])) \<and>
    snapshot_contract_errors (snapshot_of env (segs @ [(path, raw', ft_kept ft)])) = [] \<and>
    (journal_bound floor last_event \<or> list_all (below_bound b) (ft_suffix ft)) \<and>
    sn_max_ticket (snapshot_of env (segs @ [(path, raw', ft_kept ft)])) \<le> sn_max_ticket (ft_snapshot ft) \<and>
    sn_max_ticket (ft_snapshot ft) =
      (if list_all (\<lambda>l'. legal_event_id l' = None) (ft_suffix ft) then max_ticket (sn_events (ft_snapshot ft))
       else foldl max 0 (concat (map mentioned_tickets (sn_events (ft_snapshot ft)))))"
proof -
  let ?sn = "snapshot_of env (segs @ [(path, raw, unlines ls)])"
  from cut obtain b fl where c: "cut_at ?sn (unlines ls) b fl = Inr ft" and bound: "boundary floor last_event = Some b"
    "fl = None \<or> journal_bound floor last_event"
    by (auto simp: foreign_tail_cut_def boundary_def journal_bound_def min_def split: option.splits if_splits)
  note sl = splitlines_unlines [OF ls]
  from c obtain a where a: "find_index_from 0 (\<lambda>l. legal_event_id l = Some b) ls = Some a"
    by (auto simp: cut_at_def Let_def sl split: option.splits)
  note ab = find_index_bound [OF a]
  from c a obtain claimed k where claims: "suffix_claims (if fl = None then Some b else None) (a + 2) (drop (Suc a) ls) = Inr (claimed, k)"
    by (auto simp: cut_at_def Let_def sl split: option.splits sum.splits if_splits)
  let ?clean = "without_suffix ?sn a k (if sn_text ?sn = [] then []
      else take (length (sn_text ?sn) - length (unlines ls)) (sn_text ?sn) @ unlines (take (Suc a) ls))"
  from c a claims have ft: "ft_kept ft = unlines (take (Suc a) ls)" "ft_anchor ft = a + 1" "ft_suffix ft = drop (Suc a) ls"
    "ft_snapshot ft = ?clean" and ok: "snapshot_contract_errors ?clean = []"
    and foreign: "list_ex (\<lambda>l'. \<not> blank_or_comment l') (drop (Suc a) ls)"
    by (auto simp: cut_at_def Let_def sl filter_empty_conv list_ex_iff split: option.splits sum.splits if_splits)
  have "unlines ls \<noteq> []" using ab by (cases ls) (auto simp: unlines_def)
  moreover obtain u where "\<forall>y. join [CHR 10] (map (\<lambda>(_, _, body). body) segs @ [y]) = u @ y" using join_snoc by blast
  ultimately have ne: "sn_text ?sn \<noteq> []" by simp
  have k: "k = length (events_of (map (entry_of env ''LOG.md'') (enumerate (Suc (Suc a)) (drop (Suc a) ls))))"
    by (rule suffix_claims_events [OF claims])
  let ?new = "snapshot_of env (segs @ [(path, raw', unlines (take (Suc a) ls))])"
  have r: "history_reads_as ?clean ?new"
    using without_suffix_reads [OF ls _ name sealed k] ab ne by (simp add: Let_def)
  then have sound: "snapshot_contract_errors ?new = []"
    using ok contract_congruence unfolding history_reads_as_def by metis
  have above: "list_all (below_bound b) (drop (Suc a) ls)" if "fl = None"
    using claims that suffix_claims_bound by simp
  have evs: "sn_events ?clean = sn_events ?new" using r by (simp add: history_reads_as_def)
  have k0: "k = 0 \<longleftrightarrow> list_all (\<lambda>l'. legal_event_id l' = None) (drop (Suc a) ls)"
    unfolding k using no_legal_event by simp
  have kept: "sn_max_ticket ?clean = (if k = 0 then max_ticket (sn_events ?clean)
      else foldl max 0 (concat (map mentioned_tickets (sn_events ?clean))))"
    by (simp add: without_suffix_def Let_def snapshot_of_def)
  have frontier: "sn_max_ticket ?new \<le> sn_max_ticket ?clean"
    using frontier_covers [of "sn_events ?new"] unfolding kept evs by (simp add: snapshot_of_def Let_def)
  have split: "ls = take a ls @ ls ! a # drop (Suc a) ls" "take (Suc a) ls = take a ls @ [ls ! a]"
    using ab by (simp_all add: id_take_nth_drop take_Suc_conv_app_nth)
  have first: "list_all (\<lambda>l'. legal_event_id l' \<noteq> Some b) (take a ls)"
    using find_index_least [OF a] by (auto simp: list_all_length)
  show ?thesis
    by (intro exI [of _ b] exI [of _ "take a ls"] exI [of _ "ls ! a"] conjI)
       (use bound ab first ft foreign r sound above frontier kept k0 split in \<open>auto simp: ft simp del: snapshot_fields\<close>)
qed

text \<open>Three lines typed below the checkpoint: a duplicate event, a broken line and a comment.\<close>

definition foreign_log :: "string list" where
  "foreign_log = sample_log @ [''- 01.01.26 00:00 [E-2] [parent: E-1] RUN: again'', ''--help'', ''# note'']"

theorem foreign_cut_exact_witness:
  "case foreign_tail_cut (snapshot_of plain_log_env (sample_segments @ [(''.saipen/LOG.md'', [], unlines foreign_log)]))
       (unlines foreign_log) (Some 5) None of
     Inl _ \<Rightarrow> False
   | Inr ft \<Rightarrow> ft_anchor ft = 3 \<and> ft_claimed ft = [2] \<and> ft_kept ft = unlines (take 3 foreign_log)"
proof -
  let ?cut = "foreign_tail_cut (snapshot_of plain_log_env (sample_segments @ [(''.saipen/LOG.md'', [], unlines foreign_log)]))
       (unlines foreign_log) (Some 5) None"
  have e: "case ?cut of Inl _ \<Rightarrow> False | Inr ft \<Rightarrow> ft_anchor ft = 3 \<and> ft_claimed ft = [2]" by code_simp
  then obtain ft where c: "?cut = Inr ft" "ft_anchor ft = 3" "ft_claimed ft = [2]" by (auto split: sum.splits)
  have l: "list_all plain_line foreign_log" "file_name ''.saipen/LOG.md'' = ''LOG.md''"
    "list_all (\<lambda>seg. file_name (fst seg) \<noteq> ''LOG.md'') sample_segments" by code_simp+
  from foreign_cut_exact [OF c(1) l, where raw' = "[]"] c(2) obtain pre l where
    p: "foreign_log = pre @ l # ft_suffix ft" "length pre = 2" "ft_kept ft = unlines (pre @ [l])" "legal_event_id l = Some 5"
    unfolding boundary_def by auto
  have "take 3 foreign_log = pre @ [l]" by (subst p(1)) (simp add: p(2))
  with p(3) c show ?thesis by simp
qed

text \<open>
  The ticket frontier of the snapshot a cut hands on is not the one the kept history reads: the cut also counts
  the tickets that texts mention.
\<close>

theorem cut_frontier_differs:
  "case foreign_tail_cut
      (snapshot_of plain_log_env [(''.saipen/LOG.md'', [], unlines [''- [E-1] [T-4] RUN: like T-90'', ''- [E-1] RUN: copy''])])
      (unlines [''- [E-1] [T-4] RUN: like T-90'', ''- [E-1] RUN: copy'']) (Some 1) None of
     Inl _ \<Rightarrow> False
   | Inr ft \<Rightarrow> sn_max_ticket (ft_snapshot ft) = 90"
  "sn_max_ticket (snapshot_of plain_log_env [(''.saipen/LOG.md'', [], unlines [''- [E-1] [T-4] RUN: like T-90''])]) = 4"
  by code_simp+

end
