(* ===== verification/Evidence.thy ===== *)
theory Evidence
  imports Ledger Regex
begin

text \<open>
  The classifiers of evidence in \<open>log.py\<close> and \<open>oracle.py\<close>: which operation tags are canonical, when a
  text claims a failure, the verdict on a ticket's current VERIFY cycle in its single and its bulk form, the
  legacy form, and the verdict on a regression pair.  The patterns are those of the code, in the operators of
  \<open>Regex\<close>.
\<close>

section \<open>Extents of a pattern in a text\<close>

definition match_at :: "rx \<Rightarrow> string \<Rightarrow> nat \<Rightarrow> nat option" where
  "match_at r s i = (case hits r s i of [] \<Rightarrow> None | j # _ \<Rightarrow> Some j)"

definition rx_search :: "rx \<Rightarrow> string \<Rightarrow> bool" where
  "rx_search r s \<longleftrightarrow> list_ex (\<lambda>i. hits r s i \<noteq> []) [0..<Suc (length s)]"

text \<open>The matches from left to right that do not overlap; no pattern here matches the empty text.\<close>

definition rx_findall :: "rx \<Rightarrow> string \<Rightarrow> (nat \<times> nat) list" where
  "rx_findall r s =
     snd (foldl (\<lambda>(free, found) i.
       if i < free then (free, found)
       else case match_at r s i of None \<Rightarrow> (free, found) | Some j \<Rightarrow> (max j (Suc i), found @ [(i, j)]))
     (0, []) [0..<Suc (length s)])"

fun splice :: "string \<Rightarrow> string \<Rightarrow> nat \<Rightarrow> (nat \<times> nat) list \<Rightarrow> string" where
  "splice rep s p [] = drop p s"
| "splice rep s p ((i, j) # ms) = take (i - p) (drop p s) @ rep @ splice rep s j ms"

definition rx_sub :: "rx \<Rightarrow> string \<Rightarrow> string \<Rightarrow> string" where
  "rx_sub r rep s = splice rep s 0 (rx_findall r s)"

section \<open>Provenance of an operation tag\<close>

definition OP_CLASSES :: "(string list \<times> nat list) list" where
  "OP_CLASSES = [
     ([''checkpoint-'', ''claim-'', ''converge_intent-'', ''crew-defer-'', ''crew-run-'',
      ''finalize_crew-'', ''finalize_done-'', ''finalize_ship-'', ''finish-'', ''fpc-'',
      ''scope-'', ''stop-'', ''ticket-'', ''transition-'', ''valve-'',
      ''wait-''], [8, 32]),
     ([''goal-''], [8, 16, 32]),
     ([''attempt-close-'', ''attempt-open-'', ''bind-cohort-'', ''board-compact-'', ''board-scrub-'',
      ''ccc-entry-'', ''clear-wait-role-'', ''cohort-reconcile-'', ''convergence-'', ''crew-closure-'',
      ''goal-entry-'', ''goal-authorize-'', ''handover-'', ''improve-hold-'', ''improve-unhold-'',
      ''metadata-repair-'', ''migrate_generation-'', ''needs-detach-'', ''normalize-log-'', ''quarantine-log-tail-'',
      ''rebind_home-'', ''resolve-external-'', ''retire-'', ''retire-source-'', ''seal-log-'',
      ''supersede-'', ''ticket-reasoning-'', ''ticket-requires-'', ''ticket-verify-'', ''userreq-'',
      ''duplicate-id-'', ''release-'', ''source.requirement_add-'', ''cycle-'', ''improve-admit-'',
      ''improve-rebind-'', ''report-'', ''regression-execution-'', ''retrospective-'', ''run-'',
      ''seat-'', ''sweep-'', ''userperson-'', ''userperson-reset-''], [32]),
     ([''sub-adopt-'', ''sub-clean-'', ''sub-collect-'', ''sub-disposition-'', ''sub-pause-'',
      ''sub-reconcile-'', ''sub-resume-'', ''sub-spawn-'', ''sub-sync-''], [8]),
     ([''audit-consume-'', ''authority-capture-'', ''build-intake-'', ''cut-intake-'', ''milestone-'',
      ''source-link-'', ''undo-'', ''undo-intake-''], [16]),
     ([''accepted_debt.rebind-'', ''accepted_debt.register-'', ''debt.snapshot-'', ''receipt-'', ''reverify.'',
      ''source.purge-'', ''source.receipt-range-'', ''source.reconcile-''], [12]),
     ([''reconcile-''], [20])]"

text \<open>\<open>^(?:...)$\<close>: a registered prefix and a body of lower-case hex of one of its widths.\<close>

definition op_id_canonical :: "string \<Rightarrow> bool" where
  "op_id_canonical op_id \<longleftrightarrow>
     list_ex (\<lambda>(prefixes, widths). list_ex (\<lambda>p.
       startswith op_id p \<and>
       (let body = drop (length p) op_id;
            hex = (if body \<noteq> [] \<and> last body = CHR 10 then butlast body else body)
        in length hex \<in> set widths \<and> list_all is_hex hex)) prefixes) OP_CLASSES"

datatype provenance = Canonical | Hand_Authored | No_Tag

definition op_id_provenance :: "string option \<Rightarrow> provenance" where
  "op_id_provenance op_id =
     (case op_id of
        None \<Rightarrow> No_Tag
      | Some s \<Rightarrow> if s = [] then No_Tag else if op_id_canonical s then Canonical else Hand_Authored)"

definition hand_authored :: "event \<Rightarrow> bool" where
  "hand_authored ev \<longleftrightarrow> op_id_provenance (ev_op ev) = Hand_Authored"

section \<open>Claims of failure\<close>

definition spaces :: rx where
  "spaces = Many blank_rx"

definition spaces1 :: rx where
  "spaces1 = Some_Of blank_rx"

definition number_rx :: rx where
  "number_rx = Some_Of digit_rx"

definition one_of :: "string \<Rightarrow> rx" where
  "one_of cs = Ch (\<lambda>c. c \<in> set cs)"

definition negation_re :: rx where
  "negation_re = seqs [Edge, word_ci ''NOT'', spaces1, any_of [word_ci ''PASS'', word_ci ''MANUAL-VERIFY''], Edge]"

definition fail_word :: rx where
  "fail_word = Seq (word_ci ''FAIL'') (Opt (any_of [word_ci ''S'', word_ci ''ED'', word_ci ''URE'', word_ci ''URES'']))"

definition not_a_field_key :: rx where
  "not_a_field_key = Ahead_Not (seqs [spaces, one_of ''=:'', spaces, digit_rx])"

definition not_zero :: rx where
  "not_zero = Ahead_Not (seqs [Some_Of (Ch (\<lambda>c. c = CHR ''0'')), Edge])"

definition zero_fail_re :: rx where
  "zero_fail_re =
     seqs [Edge, any_of [lit ''0'', word_ci ''NO'', word_ci ''ZERO''], spaces1, fail_word, Edge, not_a_field_key]"

definition fail_token_re :: rx where
  "fail_token_re = seqs [Edge, fail_word, Edge]"

definition not_an_identifier_tail :: rx where
  "not_an_identifier_tail =
     Seq (Behind_Not 2 (Seq (Ch is_alpha) (lit ''-'')))
         (Behind_Not 2 (Seq (Ch (\<lambda>c. is_alnum c \<or> c = CHR ''_'')) (lit '':'')))"

definition fail_counted_re :: rx where
  "fail_counted_re =
     seqs [Edge, not_an_identifier_tail, not_zero, number_rx, spaces1, fail_word, Edge, not_a_field_key]"

definition fail_field_re :: rx where
  "fail_field_re = seqs [Edge, fail_word, spaces, one_of ''=:'', spaces, not_zero, number_rx]"

definition zero_field_re :: rx where
  "zero_field_re = seqs [Edge, fail_word, spaces, one_of ''=:'', spaces, Some_Of (Ch (\<lambda>c. c = CHR ''0'')), Edge]"

definition count_fail :: rx where
  "count_fail = seqs [number_rx, spaces1, fail_word, Edge]"

definition warn_tail :: rx where
  "warn_tail =
     Opt (seqs [spaces, Opt (lit ''/''), spaces, Many digit_rx, spaces, word_ci ''WARN'',
       Opt (any_of [word_ci ''ING'', word_ci ''INGS'']), Edge])"

definition plural :: "string \<Rightarrow> rx" where
  "plural w = Seq (word_ci w) (Opt (word_ci ''S''))"

definition foreign_scope :: rx where
  "foreign_scope = any_of (map word_ci [''INHERITED'', ''UNRELATED'', ''PRE-EXISTING'', ''CARRIED'', ''FOREIGN''])"

definition foreign_fail_re :: rx where
  "foreign_fail_re = any_of [
     seqs [Edge, foreign_scope, spaces1, count_fail],
     seqs [Edge, number_rx, spaces1, foreign_scope, spaces1, fail_word, Edge],
     seqs [Edge, count_fail, warn_tail, spaces,
       any_of [seqs [lit ''('', spaces, foreign_scope, spaces, lit '')''], seqs [Edge, foreign_scope, Edge]]]]"

definition connective :: rx where
  "connective = Opt (any_of [word_ci ''HAD'', word_ci ''SHOWED'', word_ci ''WITH'', Seq (word_ci ''OF'') spaces1])"

definition historical_scope :: rx where
  "historical_scope = any_of (map word_ci [''PREVIOUS'', ''PRIOR'', ''LAST'', ''EARLIER''])"

definition historical_run :: rx where
  "historical_run = any_of (map plural [''RUN'', ''RESULT'', ''ATTEMPT''])"

definition hist_fail_re :: rx where
  "hist_fail_re = any_of [
     seqs [Edge, historical_scope, spaces1, historical_run, spaces, Opt (one_of '':;,''), spaces, connective, spaces, Edge, count_fail],
     seqs [Edge, count_fail, spaces1, any_of (map word_ci [''IN'', ''ON'', ''DURING'', ''FOR'']), spaces1, word_ci ''THE'',
       spaces1, historical_scope, spaces1, historical_run, Edge]]"

definition control_scope :: rx where
  "control_scope = any_of [
     seqs [word_ci ''RED'', Opt (one_of ''- ''), plural ''CONTROL''], seqs [word_ci ''PRE'', one_of ''- '', word_ci ''FIX'']]"

definition control_run :: rx where
  "control_run = any_of (map plural [''RUN'', ''MEASURE'', ''MEASUREMENT'', ''BASELINE'', ''STATE''])"

definition control_fail_re :: rx where
  "control_fail_re = any_of [
     seqs [Edge, control_scope, Opt (Seq spaces1 control_run), spaces, Opt (one_of '':;,''), spaces, connective, spaces, Edge, count_fail],
     seqs [Edge, count_fail, warn_tail, spaces,
       any_of [
         seqs [lit ''('', spaces, control_scope,
           Opt (seqs [spaces, one_of '',;'', Up_To 40 (Ch (\<lambda>c. c \<noteq> CHR ''('' \<and> c \<noteq> CHR '')''))]), spaces, lit '')''],
         seqs [Edge, control_scope, Edge]]]]"

definition pair_other_count :: rx where
  "pair_other_count = seqs [number_rx, spaces1, any_of (map word_ci [''RAN'', ''PASSED'', ''SKIPPED''])]"

definition pair_exit :: rx where
  "pair_exit = seqs [spaces, Opt (lit '':''), spaces, word_ci ''EXIT'', spaces, Opt (Seq (word_ci ''CODE'') spaces),
     Opt (one_of '':=''), spaces]"

definition pair_counts :: rx where
  "pair_counts = Seq (Many (seqs [pair_other_count, spaces, lit '','', spaces])) count_fail"

definition pair_red_half_re :: rx where
  "pair_red_half_re =
     seqs [Edge, word_ci ''BEFORE'', pair_exit, lit ''1'', Edge, spaces,
       any_of [
         seqs [lit ''('', spaces, pair_counts, Many (seqs [spaces, lit '','', spaces, pair_other_count]), spaces, lit '')''],
         seqs [lit '','', spaces, pair_counts]],
       Ahead (seqs [spaces, Opt (one_of ''/;,''), spaces,
         Opt (any_of [Seq (word_ci ''AND'') spaces1, Seq (word_ci ''THEN'') spaces1]),
         word_ci ''AFTER'', pair_exit, lit ''0'', Edge])]"

text \<open>The counts that belong to another surface, an earlier run, a control or the red half are taken out.\<close>

definition scoped_text :: "string \<Rightarrow> string" where
  "scoped_text s =
     rx_sub pair_red_half_re '' '' (rx_sub control_fail_re '' '' (rx_sub hist_fail_re '' '' (rx_sub foreign_fail_re '' '' s)))"

definition claims_failure :: "string \<Rightarrow> bool" where
  "claims_failure s \<longleftrightarrow>
     (rx_search negation_re s \<or>
      (let scoped = scoped_text s in
        rx_search fail_counted_re scoped \<or> rx_search fail_field_re scoped \<or>
        (let verdict = hd (split_str '' -- '' scoped);
             total = length (rx_findall fail_token_re verdict);
             exempt = length (rx_findall zero_fail_re verdict) + length (rx_findall zero_field_re verdict)
         in total \<noteq> 0 \<and> exempt < total)))"

end
