(* ===== verification/Verdicts.thy ===== *)
theory Verdicts
  imports Evidence
begin

text \<open>
  The verdicts on recorded evidence: one ticket at a time (\<open>verification_evidence\<close>), all tickets in one backward
  pass (\<open>bulk_verification_evidence\<close>), the legacy generation, and the regression pair of \<open>oracle.py\<close>.
\<close>

section \<open>Records in a text\<close>

definition NO_VERIFY_BOUNDARY :: string where
  "NO_VERIFY_BOUNDARY = ''no current-cycle VERIFY boundary''"

definition UNPROVEN :: string where
  "UNPROVEN = ''unproven/failed''"

definition word_ends :: "string \<Rightarrow> bool" where
  "word_ends rest \<longleftrightarrow> rest = [] \<or> \<not> is_word (hd rest)"

text \<open>\<open>FAIL\<close> or \<open>PASS\<close> as a whole word at the start of a text.\<close>

definition leading_result :: "string \<Rightarrow> (bool \<times> string) option" where
  "leading_result s =
     (if startswith s ''FAIL'' \<and> word_ends (drop 4 s) then Some (False, drop 4 s)
      else if startswith s ''PASS'' \<and> word_ends (drop 4 s) then Some (True, drop 4 s)
      else None)"

definition evidence_record :: "string \<Rightarrow> (bool \<times> string) option" where
  "evidence_record s =
     (let stripped = strip s; key = ''REGRESSION-EVIDENCE''; rest = drop (length key) stripped in
      if startswith stripped key \<and> rest \<noteq> [] \<and> is_space (hd rest) then leading_result (lstrip rest) else None)"

definition is_regression_evidence :: "string \<Rightarrow> bool" where
  "is_regression_evidence s \<longleftrightarrow> evidence_record s \<noteq> None"

definition VERIFY_BOUNDARY :: string where
  "VERIFY_BOUNDARY = ''transition to VERIFY''"

definition is_verify_boundary :: "event \<Rightarrow> bool" where
  "is_verify_boundary ev \<longleftrightarrow> ev_text ev = VERIFY_BOUNDARY \<or> startswith (ev_text ev) (VERIFY_BOUNDARY @ '' -- '')"

text \<open>\<open>^MANUAL-VERIFY RESULT:\s*(PASS|FAIL)\b\<close> on the stripped text.\<close>

definition manual_result :: "string \<Rightarrow> bool option" where
  "manual_result s =
     (let key = ''MANUAL-VERIFY RESULT:'' in
      if startswith (strip s) key then map_option fst (leading_result (lstrip (drop (length key) (strip s)))) else None)"

definition pass_token_re :: rx where
  "pass_token_re = seqs [Edge, lit ''PASS'', Edge]"

text \<open>What one text decides: negative evidence first, then a human verdict, then a \<open>PASS\<close> with its confidence.\<close>

definition decisive :: "string \<Rightarrow> (bool \<times> string) option" where
  "decisive s =
     (if claims_failure s then Some (False, s)
      else case manual_result s of
        Some ok \<Rightarrow> Some (ok, s)
      | None \<Rightarrow>
          if rx_search pass_token_re s then
            (if substring ''conf: low'' s \<or> substring ''conf: med'' s then Some (False, s)
             else if substring ''conf: high'' s then Some (True, s) else None)
          else None)"

section \<open>One ticket\<close>

definition closes_the_cycle :: "string \<Rightarrow> event \<Rightarrow> bool" where
  "closes_the_cycle tid ev \<longleftrightarrow>
     ev_ticket ev = Some tid \<and> ev_taxonomy ev = ''DEC'' \<and>
     startswith (case ev_op ev of Some s \<Rightarrow> s | None \<Rightarrow> []) ''finish-'' \<and>
     startswith (ev_text ev) ''ticket finished via SAIOPS'' \<and> \<not> hand_authored ev"

text \<open>A \<open>RUN\<close> of the ticket whose operation tag does not read as typed by hand; a line without a tag counts.\<close>

definition counted_run :: "string \<Rightarrow> event \<Rightarrow> bool" where
  "counted_run tid ev \<longleftrightarrow> ev_ticket ev = Some tid \<and> ev_taxonomy ev = ''RUN'' \<and> \<not> hand_authored ev"

fun last_index :: "('a \<Rightarrow> bool) \<Rightarrow> 'a list \<Rightarrow> nat option" where
  "last_index P [] = None"
| "last_index P (x # xs) =
     (case last_index P xs of Some i \<Rightarrow> Some (Suc i) | None \<Rightarrow> if P x then Some 0 else None)"

text \<open>The newest decisive record, read from the end of the cycle.\<close>

fun first_verdict :: "string \<Rightarrow> event list \<Rightarrow> bool \<times> string" where
  "first_verdict tid [] = (False, UNPROVEN)"
| "first_verdict tid (ev # evs) =
     (if \<not> counted_run tid ev \<or> is_regression_evidence (ev_text ev) then first_verdict tid evs
      else case decisive (ev_text ev) of Some v \<Rightarrow> v | None \<Rightarrow> first_verdict tid evs)"

definition verification_evidence :: "string \<Rightarrow> event list \<Rightarrow> bool \<times> string" where
  "verification_evidence tid evs =
     (if tid = [] then (False, ''no ticket id provided'')
      else case last_index (\<lambda>ev. counted_run tid ev \<and> is_verify_boundary ev) evs of
        None \<Rightarrow> (False, NO_VERIFY_BOUNDARY)
      | Some start \<Rightarrow>
          let cycle_end = (case find_index_from start (closes_the_cycle tid) (drop start evs) of
                             Some i \<Rightarrow> i | None \<Rightarrow> length evs - 1)
          in first_verdict tid (rev (drop start (take (Suc cycle_end) evs))))"

section \<open>All tickets in one pass\<close>

record bulk =
  b_verdicts :: "(string, bool \<times> string) dict"
  b_seen :: "string list"
  b_pending :: "(string, bool \<times> string) dict"

definition note_pending :: "string \<Rightarrow> (bool \<times> string) option \<Rightarrow> bulk \<Rightarrow> bulk" where
  "note_pending tid d b =
     (case d of
        Some v \<Rightarrow> if dict_get (b_pending b) tid = None then b\<lparr>b_pending := dict_set tid v (b_pending b)\<rparr> else b
      | None \<Rightarrow> b)"

definition settle_boundary :: "string \<Rightarrow> bulk \<Rightarrow> bulk" where
  "settle_boundary tid b =
     b\<lparr>b_seen := tid # b_seen b,
       b_verdicts := dict_set tid (case dict_get (b_pending b) tid of Some v \<Rightarrow> v | None \<Rightarrow> (False, UNPROVEN)) (b_verdicts b)\<rparr>"

definition bulk_step :: "string list \<Rightarrow> bulk \<Rightarrow> event \<Rightarrow> bulk" where
  "bulk_step wanted b ev =
     (case ev_ticket ev of
        None \<Rightarrow> b
      | Some tid \<Rightarrow>
          if tid \<in> set wanted \<and> dict_get (b_verdicts b) tid = None \<and> tid \<notin> set (b_seen b) \<and> closes_the_cycle tid ev
          then b\<lparr>b_pending := dict_pop tid (b_pending b)\<rparr>
          else if ev_taxonomy ev \<noteq> ''RUN'' \<or> tid \<notin> set wanted \<or> dict_get (b_verdicts b) tid \<noteq> None \<or>
            tid \<in> set (b_seen b) \<or> hand_authored ev \<or> is_regression_evidence (ev_text ev)
          then b
          else let noted = note_pending tid (decisive (ev_text ev)) b in
            if is_verify_boundary ev then settle_boundary tid noted else noted)"

definition bulk_verification_evidence :: "event list \<Rightarrow> string list \<Rightarrow> (string, bool \<times> string) dict" where
  "bulk_verification_evidence evs wanted =
     (let b = foldl (bulk_step wanted) \<lparr>b_verdicts = [], b_seen = [], b_pending = []\<rparr> (rev evs) in
      foldl (\<lambda>d tid. if dict_get d tid = None
                     then dict_set tid (False, if tid \<notin> set (b_seen b) then NO_VERIFY_BOUNDARY else UNPROVEN) d else d)
        (b_verdicts b) wanted)"

section \<open>Markers\<close>

definition structural_marker_events :: "event list \<Rightarrow> string \<Rightarrow> string list \<Rightarrow> nat \<Rightarrow> nat list" where
  "structural_marker_events evs marker taxonomies after_event =
     (if marker = [] then []
      else List.map_filter (\<lambda>ev.
        if ev_taxonomy ev \<in> set taxonomies \<and> after_event \<le> ev_id ev \<and> startswith (ev_text ev) marker
        then Some (ev_id ev) else None) evs)"

section \<open>The legacy generation\<close>

definition LEGACY_DONE_ATTESTATION :: string where
  "LEGACY_DONE_ATTESTATION = ''legacy completion attested''"

definition legacy_execution_re :: rx where
  "legacy_execution_re = seqs [Edge, any_of (map lit [''BUILD'', ''SHIP'', ''VERIFY'', ''PASS'']), Edge]"

text \<open>\<open>str.isdigit\<close> also holds of superscripts, on which \<open>int\<close> raises \<open>ValueError\<close>.\<close>

definition isdigit_char :: "char \<Rightarrow> bool" where
  "isdigit_char c \<longleftrightarrow> is_digit c \<or> (of_char c :: nat) \<in> {178, 179, 185}"

datatype value_error = Not_A_Number string

fun legacy_cutoff :: "nat \<Rightarrow> nat \<Rightarrow> event list \<Rightarrow> value_error + nat" where
  "legacy_cutoff end pos [] = Inr pos"
| "legacy_cutoff end pos (ev # evs) =
     (let tid = (case ev_ticket ev of Some t \<Rightarrow> t | None \<Rightarrow> []); num = drop 2 tid in
      if ev_taxonomy ev = ''RUN'' \<and> startswith tid ''T-'' \<and> num \<noteq> [] \<and> list_all isdigit_char num then
        (if \<not> list_all is_digit num then Inl (Not_A_Number num)
         else if end < digits_value num then Inr pos else legacy_cutoff end (Suc pos) evs)
      else legacy_cutoff end (Suc pos) evs)"

definition legacy_step ::
    "string list \<Rightarrow> nat \<Rightarrow> (string, bool \<times> string) dict \<Rightarrow> nat \<times> event \<Rightarrow> (string, bool \<times> string) dict" where
  "legacy_step wanted cutoff d pe =
     (case pe of (pos, ev) \<Rightarrow>
        (case ev_ticket ev of
           None \<Rightarrow> d
         | Some tid \<Rightarrow>
             if tid \<notin> set wanted \<or> dict_get d tid \<noteq> None then d
             else if substring LEGACY_DONE_ATTESTATION (ev_text ev) then dict_set tid (True, ev_text ev) d
             else if cutoff \<le> pos \<or> ev_taxonomy ev \<noteq> ''RUN'' \<or> is_regression_evidence (ev_text ev) then d
             else if claims_failure (ev_text ev) then dict_set tid (False, ev_text ev) d
             else if rx_search legacy_execution_re (ev_text ev) then dict_set tid (True, ev_text ev) d
             else d))"

definition bulk_legacy_completion_evidence ::
    "event list \<Rightarrow> string list \<Rightarrow> nat option \<Rightarrow> value_error + (string, bool \<times> string) dict" where
  "bulk_legacy_completion_evidence evs wanted generation_end =
     map_sum id (\<lambda>cutoff.
       foldl (\<lambda>d tid. dict_setdefault tid (False, ''no historical execution evidence in the complete history'') d)
         (foldl (legacy_step wanted cutoff) [] (rev (enumerate 0 evs))) wanted)
     (case generation_end of None \<Rightarrow> Inr (length evs) | Some end \<Rightarrow> legacy_cutoff end 0 evs)"

section \<open>The regression pair\<close>

record identity_tokens =
  it_verifier :: "string option"
  it_subject :: "string option"

record oracle_record = identity_tokens +
  or_pass :: bool

text \<open>\<open>\b(verifier|oracle|subject):([0-9a-f]{8,64})\b\<close>, as the kind and the value.\<close>

definition token_at :: "string \<Rightarrow> nat \<Rightarrow> ((bool \<times> string) \<times> nat) option" where
  "token_at s i =
     (if \<not> edge_at s i then None
      else case find (startswith (drop i s)) [''verifier:'', ''oracle:'', ''subject:''] of
        None \<Rightarrow> None
      | Some key \<Rightarrow>
          let from_value = drop (i + length key) s; n = length (takeWhile is_hex from_value); m = min n 64;
              len = (if word_ends (drop m from_value) then m else 0)
          in if 8 \<le> len then Some ((key \<noteq> ''subject:'', take len from_value), i + length key + len) else None)"

definition tokens :: "string \<Rightarrow> (bool \<times> string) list" where
  "tokens s =
     snd (foldl (\<lambda>(free, found) i.
       if i < free then (free, found)
       else case token_at s i of None \<Rightarrow> (free, found) | Some (t, j) \<Rightarrow> (j, found @ [t]))
     (0, []) [0..<length s])"

fun collect_tokens :: "identity_tokens \<Rightarrow> (bool \<times> string) list \<Rightarrow> identity_tokens" where
  "collect_tokens r [] = r"
| "collect_tokens r ((verifier, v) # ts) =
     (let old = (if verifier then it_verifier r else it_subject r) in
      if old \<noteq> None \<and> old \<noteq> Some v then \<lparr>it_verifier = None, it_subject = None\<rparr>
      else collect_tokens (if verifier then r\<lparr>it_verifier := Some v\<rparr> else r\<lparr>it_subject := Some v\<rparr>) ts)"

definition parse_identity :: "string \<Rightarrow> identity_tokens" where
  "parse_identity s = collect_tokens \<lparr>it_verifier = None, it_subject = None\<rparr> (tokens s)"

definition parse_evidence :: "string \<Rightarrow> oracle_record option" where
  "parse_evidence s =
     map_option (\<lambda>(ok, rest). identity_tokens.extend (parse_identity rest) \<lparr>or_pass = ok\<rparr>) (evidence_record s)"

datatype oracle_code =
    ADMISSIBLE
  | ORACLE_CHANGED
  | SUBJECT_UNCHANGED
  | SUBJECT_UNRECORDED
  | NOT_A_REGRESSION_PAIR
  | NO_EVIDENCE

definition recorded :: "string option \<Rightarrow> bool" where
  "recorded v \<longleftrightarrow> v \<noteq> None \<and> v \<noteq> Some []"

definition regression_pair_verdict :: "oracle_record \<Rightarrow> oracle_record \<Rightarrow> oracle_code" where
  "regression_pair_verdict before after =
     (if or_pass before \<or> \<not> or_pass after then NOT_A_REGRESSION_PAIR
      else if \<not> recorded (it_verifier before) \<or> \<not> recorded (it_verifier after) then ORACLE_CHANGED
      else if it_verifier before \<noteq> it_verifier after then ORACLE_CHANGED
      else if recorded (it_subject before) \<and> recorded (it_subject after) \<and> it_subject before = it_subject after
      then SUBJECT_UNCHANGED
      else if \<not> recorded (it_subject before) \<or> \<not> recorded (it_subject after) then SUBJECT_UNRECORDED
      else ADMISSIBLE)"

definition regression_evidence_verdict :: "oracle_record list \<Rightarrow> oracle_code" where
  "regression_evidence_verdict rs =
     (case (last_index (\<lambda>r. \<not> or_pass r) rs, last_index or_pass rs) of
        (Some i, Some j) \<Rightarrow> if j \<le> i then NOT_A_REGRESSION_PAIR else regression_pair_verdict (rs ! i) (rs ! j)
      | _ \<Rightarrow> NO_EVIDENCE)"

end
