(* ===== verification/VerdictLaws.thy ===== *)
theory VerdictLaws
  imports Verdicts
begin

text \<open>
  The bulk classifier answers for every ticket what the single one answers, hand-authored lines decide
  nothing, a verdict has its witness in the current cycle, and the regression pair admits exactly one case.
\<close>

section \<open>Indexes\<close>

lemma last_index_None: "last_index P xs = None \<longleftrightarrow> list_all (\<lambda>x. \<not> P x) xs"
  by (induction xs) (auto split: option.splits)

lemma last_index_Some:
  "last_index P xs = Some i \<Longrightarrow> i < length xs \<and> P (xs ! i) \<and> list_all (\<lambda>x. \<not> P x) (drop (Suc i) xs)"
  by (induction xs arbitrary: i) (auto simp: last_index_None split: option.splits if_splits)

lemma find_index_None: "find_index_from n P xs = None \<longleftrightarrow> list_all (\<lambda>x. \<not> P x) xs"
  by (induction xs arbitrary: n) auto

lemma find_index_Some:
  "find_index_from n P xs = Some i \<Longrightarrow> n \<le> i \<and> i - n < length xs \<and> P (xs ! (i - n)) \<and> list_all (\<lambda>x. \<not> P x) (take (i - n) xs)"
proof (induction xs arbitrary: n)
  case (Cons x xs)
  show ?case
  proof (cases "P x")
    case True
    with Cons.prems show ?thesis by simp
  next
    case False
    with Cons.prems Cons.IH [of "Suc n"] have "Suc n \<le> i \<and> i - Suc n < length xs \<and> P (xs ! (i - Suc n)) \<and>
        list_all (\<lambda>x. \<not> P x) (take (i - Suc n) xs)" by simp
    moreover from this have "i - n = Suc (i - Suc n)" by linarith
    ultimately show ?thesis using False by simp
  qed
qed simp

section \<open>One pass for one ticket\<close>

abbreviation machine_boundary :: "string \<Rightarrow> event \<Rightarrow> bool" where
  "machine_boundary tid ev \<equiv> counted_run tid ev \<and> is_verify_boundary ev"

definition decides :: "string \<Rightarrow> event \<Rightarrow> bool" where
  "decides tid ev \<longleftrightarrow> counted_run tid ev \<and> \<not> is_regression_evidence (ev_text ev)"

fun pend_over :: "string \<Rightarrow> event list \<Rightarrow> (bool \<times> string) option \<Rightarrow> (bool \<times> string) option" where
  "pend_over tid [] p = p"
| "pend_over tid (ev # evs) p =
     (if closes_the_cycle tid ev then pend_over tid evs None
      else if \<not> decides tid ev then pend_over tid evs p
      else pend_over tid evs (case p of None \<Rightarrow> decisive (ev_text ev) | Some _ \<Rightarrow> p))"

fun backward :: "string \<Rightarrow> event list \<Rightarrow> (bool \<times> string) option \<Rightarrow> (bool \<times> string) option" where
  "backward tid [] p = None"
| "backward tid (ev # evs) p =
     (if machine_boundary tid ev
      then Some (case pend_over tid [ev] p of Some v \<Rightarrow> v | None \<Rightarrow> (False, UNPROVEN))
      else backward tid evs (pend_over tid [ev] p))"

lemma closing_not_run: "closes_the_cycle tid ev \<Longrightarrow> \<not> counted_run tid ev"
  by (auto simp: closes_the_cycle_def counted_run_def)

lemma boundary_no_evidence: "is_verify_boundary ev \<Longrightarrow> \<not> is_regression_evidence (ev_text ev)"
proof -
  assume b: "is_verify_boundary ev"
  then obtain t where s: "ev_text ev = CHR ''t'' # t" by (auto simp: is_verify_boundary_def VERIFY_BOUNDARY_def startswith_iff_prefix prefix_def)
  then have ls: "lstrip (ev_text ev) = ev_text ev" by (simp add: lstrip_def is_space_def Let_def)
  obtain u where u: "ev_text ev = rstrip (ev_text ev) @ u" "list_all is_space u" using rstrip_split by blast
  have "\<not> is_space CHR ''t''" by (simp add: is_space_def Let_def)
  then have "rstrip (ev_text ev) \<noteq> []" using u s by (metis append_Nil list.pred_inject(2))
  then have "\<exists>v. strip (ev_text ev) = CHR ''t'' # v" unfolding strip_def ls using u(1) s by (metis append_eq_Cons_conv)
  then show ?thesis by (auto simp: is_regression_evidence_def evidence_record_def Let_def)
qed

section \<open>The bulk pass, seen by one ticket\<close>

definition bulk_view :: "string \<Rightarrow> (bool \<times> string) option \<Rightarrow> (bool \<times> string) option \<Rightarrow> bulk \<Rightarrow> bool" where
  "bulk_view tid v p b \<longleftrightarrow>
     dict_get (b_verdicts b) tid = v \<and> (tid \<in> set (b_seen b) \<longleftrightarrow> v \<noteq> None) \<and> (v = None \<longrightarrow> dict_get (b_pending b) tid = p)"

lemma bulk_settled: "bulk_view tid (Some v) p b \<Longrightarrow> bulk_view tid (Some v) p (bulk_step wanted b ev)"
  by (auto simp: bulk_view_def bulk_step_def note_pending_def settle_boundary_def Let_def split: option.splits)

lemma bulk_open:
  assumes "bulk_view tid None p b" "tid \<in> set wanted"
  shows "if machine_boundary tid ev
         then bulk_view tid (Some (case pend_over tid [ev] p of Some v \<Rightarrow> v | None \<Rightarrow> (False, UNPROVEN))) q (bulk_step wanted b ev)
         else bulk_view tid None (pend_over tid [ev] p) (bulk_step wanted b ev)"
proof (cases "ev_ticket ev = Some tid")
  case False
  with assms show ?thesis
    by (auto simp: bulk_view_def bulk_step_def note_pending_def settle_boundary_def Let_def counted_run_def decides_def
        closes_the_cycle_def split: option.splits)
next
  case True
  consider "closes_the_cycle tid ev" | "\<not> closes_the_cycle tid ev" "\<not> decides tid ev" | "\<not> closes_the_cycle tid ev" "decides tid ev"
    by blast
  then show ?thesis
  proof cases
    case 1
    with assms True closing_not_run [OF 1] show ?thesis by (simp add: bulk_view_def bulk_step_def)
  next
    case 2
    then have "\<not> machine_boundary tid ev" using boundary_no_evidence by (auto simp: decides_def)
    with 2 assms True show ?thesis
      by (auto simp: bulk_view_def bulk_step_def decides_def counted_run_def)
  next
    case 3
    with assms True show ?thesis
      by (cases "decisive (ev_text ev)"; cases p)
         (auto simp: bulk_view_def bulk_step_def decides_def counted_run_def note_pending_def settle_boundary_def Let_def)
  qed
qed

lemma bulk_pass:
  "bulk_view tid v p b \<Longrightarrow> tid \<in> set wanted \<Longrightarrow>
   \<exists>q. bulk_view tid (case v of Some _ \<Rightarrow> v | None \<Rightarrow> backward tid evs p) q (foldl (bulk_step wanted) b evs)"
proof (induction evs arbitrary: v p b)
  case Nil
  then show ?case by (cases v) auto
next
  case (Cons ev evs)
  show ?case
  proof (cases v)
    case (Some w)
    with Cons.IH [OF bulk_settled] Cons.prems show ?thesis by auto
  next
    case None
    note step = bulk_open [OF Cons.prems(1) [unfolded None] Cons.prems(2), of ev p]
    show ?thesis
    proof (cases "machine_boundary tid ev")
      case True
      with step Cons.IH [OF _ Cons.prems(2)] None show ?thesis by fastforce
    next
      case False
      with step Cons.IH [OF _ Cons.prems(2)] None show ?thesis by fastforce
    qed
  qed
qed

lemma bulk_rest:
  "dict_get (foldl (\<lambda>d tid. if dict_get d tid = None then dict_set tid (f tid) d else d) d wanted) tid =
   (case dict_get d tid of Some v \<Rightarrow> Some v | None \<Rightarrow> if tid \<in> set wanted then Some (f tid) else None)"
  by (induction wanted arbitrary: d) (auto split: option.splits)

section \<open>The two forms agree\<close>

lemma backward_none: "list_all (\<lambda>ev. \<not> machine_boundary tid ev) evs \<Longrightarrow> backward tid evs p = None"
  by (induction evs arbitrary: p) auto

lemma pend_append: "pend_over tid (xs @ ys) p = pend_over tid ys (pend_over tid xs p)"
  by (induction xs arbitrary: p) auto

lemma backward_split:
  "list_all (\<lambda>ev. \<not> machine_boundary tid ev) xs \<Longrightarrow> machine_boundary tid b \<Longrightarrow>
   backward tid (xs @ b # ys) p = Some (case pend_over tid (xs @ [b]) p of Some v \<Rightarrow> v | None \<Rightarrow> (False, UNPROVEN))"
proof (induction xs arbitrary: p)
  case (Cons x xs)
  then have "backward tid ((x # xs) @ b # ys) p = backward tid (xs @ b # ys) (pend_over tid [x] p)"
    unfolding append_Cons by (subst backward.simps) auto
  with Cons show ?case using pend_append [of tid "[x]" "xs @ [b]" p] by simp
next
  case Nil
  then show ?case unfolding append_Nil by (subst backward.simps) simp
qed

lemma pend_kept: "list_all (\<lambda>ev. \<not> closes_the_cycle tid ev) xs \<Longrightarrow> pend_over tid xs (Some w) = Some w"
  by (induction xs) auto

lemma pend_first_verdict:
  "list_all (\<lambda>ev. \<not> closes_the_cycle tid ev) xs \<Longrightarrow>
   (case pend_over tid xs None of Some v \<Rightarrow> v | None \<Rightarrow> (False, UNPROVEN)) = first_verdict tid xs"
proof (induction xs)
  case (Cons x xs)
  then show ?case by (cases "decisive (ev_text x)") (auto simp: decides_def pend_kept)
qed simp

text \<open>The current cycle: from the newest machine boundary to the first canonical finish after it.\<close>

definition current_cycle :: "string \<Rightarrow> event list \<Rightarrow> event list \<Rightarrow> event \<Rightarrow> event list \<Rightarrow> event list \<Rightarrow> bool" where
  "current_cycle tid evs pre b cyc rest \<longleftrightarrow>
     evs = pre @ b # cyc @ rest \<and> machine_boundary tid b \<and> list_all (\<lambda>ev. \<not> machine_boundary tid ev) (cyc @ rest) \<and>
     list_all (\<lambda>ev. \<not> closes_the_cycle tid ev) cyc \<and> (rest = [] \<or> closes_the_cycle tid (hd rest))"

lemma cycle_exact:
  assumes "tid \<noteq> []" "last_index (machine_boundary tid) evs = Some start"
  shows "\<exists>pre b cyc rest. current_cycle tid evs pre b cyc rest \<and> verification_evidence tid evs = first_verdict tid (rev (b # cyc))"
proof -
  let ?b = "evs ! start" and ?post = "drop (Suc start) evs"
  note l = last_index_Some [OF assms(2)]
  have evs: "evs = take start evs @ ?b # ?post" using l id_take_nth_drop by blast
  have cyc: "drop start evs = ?b # ?post" using l by (simp add: Cons_nth_drop_Suc)
  have nb: "\<not> closes_the_cycle tid ?b" using l closing_not_run by blast
  show ?thesis
  proof (cases "find_index_from start (closes_the_cycle tid) (drop start evs)")
    case None
    then have "list_all (\<lambda>ev. \<not> closes_the_cycle tid ev) (drop start evs)" by (simp only: find_index_None)
    then have "current_cycle tid evs (take start evs) ?b ?post []" using evs l by (simp add: cyc current_cycle_def)
    moreover have "drop start (take (Suc (length evs - 1)) evs) = ?b # ?post" using l cyc by simp
    ultimately show ?thesis using None assms by (auto simp: verification_evidence_def)
  next
    case (Some i)
    note f = find_index_Some [OF Some]
    define k where "k = i - start"
    have k: "i = start + k" "k \<le> length ?post" "closes_the_cycle tid ((?b # ?post) ! k)"
      "list_all (\<lambda>ev. \<not> closes_the_cycle tid ev) (take k (?b # ?post))"
      using f l unfolding cyc k_def by auto
    then obtain m where m: "k = Suc m" using nb by (cases k) auto
    let ?c = "?post ! m"
    have post: "?post = take m ?post @ ?c # drop (Suc m) ?post" using k(2) m by (intro id_take_nth_drop) simp
    have c: "closes_the_cycle tid ?c" using k(3) m by simp
    have "list_all (\<lambda>ev. \<not> closes_the_cycle tid ev) (take m ?post)" using k(4) m by simp
    then have "current_cycle tid evs (take start evs) ?b (take m ?post) (?c # drop (Suc m) ?post)"
      using evs l c post unfolding current_cycle_def by (metis list.sel(1))
    moreover have "drop start (take (Suc i) evs) = take (Suc k) (?b # ?post)" using k(1) cyc by (simp add: drop_take)
    then have "drop start (take (Suc i) evs) = ?b # take m ?post @ [?c]" using k(2) m by (simp add: take_Suc_conv_app_nth)
    then have "first_verdict tid (rev (drop start (take (Suc i) evs))) = first_verdict tid (rev (?b # take m ?post))"
      using closing_not_run [OF c] by simp
    ultimately show ?thesis using Some assms by (auto simp: verification_evidence_def)
  qed
qed

lemma backward_cycle:
  assumes c: "current_cycle tid evs pre b cyc rest"
  shows "backward tid (rev evs) None = Some (first_verdict tid (rev (b # cyc)))"
proof -
  have r: "list_all (\<lambda>ev. \<not> machine_boundary tid ev) (rev rest @ rev cyc)" "machine_boundary tid b"
    using c by (auto simp: current_cycle_def list_all_iff)
  have "rev evs = (rev rest @ rev cyc) @ b # rev pre" using c by (simp add: current_cycle_def)
  with backward_split [OF r, of "rev pre" None] have
    "backward tid (rev evs) None = Some (case pend_over tid (rev rest @ rev cyc @ [b]) None of Some v \<Rightarrow> v | None \<Rightarrow> (False, UNPROVEN))"
    by simp
  moreover have "pend_over tid (rev rest @ rev cyc @ [b]) None = pend_over tid (rev cyc @ [b]) None"
    using c by (cases rest) (auto simp: current_cycle_def pend_append)
  moreover have "list_all (\<lambda>ev. \<not> closes_the_cycle tid ev) (rev cyc @ [b])"
    using c closing_not_run by (auto simp: current_cycle_def)
  ultimately show ?thesis using pend_first_verdict by simp
qed

lemma backward_single:
  assumes "tid \<noteq> []"
  shows "verification_evidence tid evs =
    (case backward tid (rev evs) None of Some v \<Rightarrow> v | None \<Rightarrow> (False, NO_VERIFY_BOUNDARY))"
proof (cases "last_index (machine_boundary tid) evs")
  case None
  then have "list_all (\<lambda>ev. \<not> machine_boundary tid ev) (rev evs)" by (simp only: last_index_None list_all_rev)
  from backward_none [OF this, of None] None assms show ?thesis by (simp add: verification_evidence_def)
next
  case (Some start)
  from cycle_exact [OF assms Some] show ?thesis using backward_cycle by (metis option.simps(5))
qed


text \<open>
  C27: for every ticket asked for, the one backward pass over the whole history gives exactly the verdict and the
  reason of the single-ticket classifier.
\<close>

theorem bulk_equals_single:
  assumes "tid \<in> set wanted" "tid \<noteq> []"
  shows "dict_get (bulk_verification_evidence evs wanted) tid = Some (verification_evidence tid evs)"
proof -
  let ?b = "foldl (bulk_step wanted) \<lparr>b_verdicts = [], b_seen = [], b_pending = []\<rparr> (rev evs)"
  have "bulk_view tid None None \<lparr>b_verdicts = [], b_seen = [], b_pending = []\<rparr>" by (simp add: bulk_view_def)
  from bulk_pass [OF this assms(1), of "rev evs"] obtain q where q: "bulk_view tid (backward tid (rev evs) None) q ?b" by auto
  with assms show ?thesis
    by (cases "backward tid (rev evs) None")
       (simp_all add: bulk_verification_evidence_def Let_def bulk_rest backward_single bulk_view_def)
qed

section \<open>Who decides\<close>

lemma hand_authored_skipped: "hand_authored ev \<Longrightarrow> \<not> counted_run tid ev \<and> \<not> closes_the_cycle tid ev"
  by (simp add: counted_run_def closes_the_cycle_def)

lemma backward_machine: "backward tid (filter (\<lambda>ev. \<not> hand_authored ev) evs) p = backward tid evs p"
proof (induction evs arbitrary: p)
  case (Cons ev evs)
  show ?case
  proof (cases "hand_authored ev")
    case True
    with hand_authored_skipped [OF True, of tid] Cons show ?thesis by (simp add: decides_def)
  next
    case False
    with Cons show ?thesis by simp
  qed
qed simp

text \<open>
  a line whose operation tag no writer emits decides nothing: dropping every hand-authored event from the
  history leaves the verdict of every ticket as it is.
\<close>

theorem hand_authored_decides_nothing:
  "verification_evidence tid (filter (\<lambda>ev. \<not> hand_authored ev) evs) = verification_evidence tid evs"
proof (cases "tid = []")
  case False
  then show ?thesis using backward_machine [of tid "rev evs"] by (simp add: backward_single rev_filter)
qed (simp add: verification_evidence_def)







text \<open>A cycle with a hand-typed refusal in it and a note after the finish.\<close>

definition run_of :: "nat \<Rightarrow> string \<Rightarrow> string option \<Rightarrow> string \<Rightarrow> event" where
  "run_of n tax op_id s =
     \<lparr>ev_date = None, ev_id = n, ev_parent = None, ev_ticket = Some ''T-1'', ev_agent = None, ev_op = op_id, ev_taxonomy = tax,
      ev_text = s, ev_detail = None\<rparr>"

definition sample_cycle :: "event list" where
  "sample_cycle =
     [run_of 1 ''RUN'' (Some ''transition-0123abcd'') ''transition to VERIFY'',
      run_of 2 ''RUN'' None ''PASS -- conf: high'',
      run_of 3 ''RUN'' (Some ''verify-01'') ''NOT PASS'',
      run_of 4 ''DEC'' (Some ''finish-0123abcd'') ''ticket finished via SAIOPS'',
      run_of 5 ''RUN'' None ''2 FAIL'']"

lemma sample_verdict: "verification_evidence ''T-1'' sample_cycle = (True, ''PASS -- conf: high'')"
  by code_simp

theorem bulk_equals_single_witness:
  "dict_get (bulk_verification_evidence sample_cycle [''T-1'', ''T-2'']) ''T-1'' = Some (True, ''PASS -- conf: high'')"
  using bulk_equals_single [of "''T-1''" "[''T-1'', ''T-2'']" sample_cycle] by (simp add: sample_verdict)


text \<open>
  The classifier calls its boundary machine-owned, yet two lines typed without any operation tag open a cycle and
  pass it.
\<close>

theorem untagged_lines_pass:
  "verification_evidence ''T-1'' [run_of 1 ''RUN'' None ''transition to VERIFY'', run_of 2 ''RUN'' None ''PASS -- conf: high''] =
     (True, ''PASS -- conf: high'')"
  by code_simp

text \<open>A ticket number with a superscript passes the guard of the legacy cutoff and then is no number.\<close>

theorem superscript_raises:
  "bulk_legacy_completion_evidence [(run_of 1 ''RUN'' None ''BUILD'')\<lparr>ev_ticket := Some (''T-'' @ [CHR 0xB2])\<rparr>] [''T-1''] (Some 5) =
     Inl (Not_A_Number [CHR 0xB2])"
  by code_simp

end
