(* ===== verification/Attempt.thy ===== *)
theory Attempt
  imports Verdicts Frontmatter
begin

text \<open>
  The Attempt lifecycle of \<open>attempt.py\<close>: the grammar of the open and close events, the fold of a history into
  attempt records with its lineage pass, the contract against STATE and the admission of a DONE ticket.  The
  sealed runtime provenance of an open event is read by the field \<open>prov\<close>, which answers the executor it names.
\<close>

section \<open>Vocabularies\<close>

definition RESULT_STOP_MATRIX :: "(string \<times> string list) list" where
  "RESULT_STOP_MATRIX = [
     (''candidate'', [''completed_execution'']),
     (''failed'', [''validation_failure'', ''capability_missing'']),
     (''interrupted'', [''context_limit'', ''provider_limit'', ''provider_failure'', ''process_crash'', ''unknown'']),
     (''yielded'', [''user_stop'', ''deliberate_handoff'']),
     (''superseded'', [''deliberate_handoff'', ''unknown''])]"

definition RESULTS :: "string list" where
  "RESULTS = [''candidate'', ''failed'', ''interrupted'', ''yielded'', ''superseded'']"

definition STOP_REASONS :: "string list" where
  "STOP_REASONS = [''completed_execution'', ''context_limit'', ''provider_limit'', ''provider_failure'', ''process_crash'',
     ''user_stop'', ''capability_missing'', ''validation_failure'', ''deliberate_handoff'', ''unknown'']"

definition allowed_stops :: "string \<Rightarrow> string list" where
  "allowed_stops result = (case dict_get RESULT_STOP_MATRIX result of Some ss \<Rightarrow> ss | None \<Rightarrow> [])"

definition MAX_EVIDENCE_REFS :: nat where
  "MAX_EVIDENCE_REFS = 8"

definition MAX_UNKNOWN_CHARS :: nat where
  "MAX_UNKNOWN_CHARS = 200"

section \<open>The event grammar\<close>

text \<open>\<open>A-\d{3,}\<close> at the start of a text, and the rest.\<close>

definition attempt_id :: "string \<Rightarrow> (string \<times> string) option" where
  "attempt_id s =
     (if startswith s ''A-'' then
        (case span is_digit (drop 2 s) of (ds, rest) \<Rightarrow> if 3 \<le> length ds then Some (''A-'' @ ds, rest) else None)
      else None)"

definition after :: "string \<Rightarrow> string \<Rightarrow> string option" where
  "after p s = (if startswith s p then Some (drop (length p) s) else None)"

definition name_or_under :: "char \<Rightarrow> bool" where
  "name_or_under c \<longleftrightarrow> is_lower c \<or> c = CHR ''_''"

definition lower_word :: "string \<Rightarrow> (string \<times> string) option" where
  "lower_word s = (case span name_or_under s of (w, rest) \<Rightarrow> if w = [] then None else Some (w, rest))"

text \<open>\<open>[A-Za-z0-9_-]+\.[0-9a-f]{64}\<close>, the whole text.\<close>

definition provenance_token :: "string \<Rightarrow> bool" where
  "provenance_token s \<longleftrightarrow>
     (case span (\<lambda>c. is_alnum c \<or> c = CHR ''_'' \<or> c = CHR ''-'') s of (body, rest) \<Rightarrow>
        body \<noteq> [] \<and> startswith rest ''.'' \<and> length rest = 65 \<and> list_all is_hex (tl rest))"

datatype attempt_text =
    Opened (a_id: string) (a_supersedes: "string option") (a_provenance: "string option")
  | Closed (a_id: string) (a_result: string) (a_stop: string) (a_evidence: "string list") (a_unknown: "string option")

datatype attempt_error =
    Bad_Provenance
  | Malformed_Attempt
  | Unknown_Not_One_Line
  | Unknown_Too_Long nat
  | Malformed_Tail
  | Too_Many_Refs nat
  | Bad_Ref string
  | Executor_Mismatch string
  | Duplicate_Attempt string
  | Unknown_Predecessor string
  | Close_Without_Open string
  | Closed_Twice string
  | Other_Ticket string
  | Bad_Result string
  | Bad_Stop string
  | Bad_Pairing string string
  | Lineage_Cycle string string
  | Many_Open "string list"
  | On_No_Work string
  | Unknown_Work string string
  | Dangling_Evidence string string
  | Pointer_Without_Task sval
  | Pointer_Without_Open sval
  | Pointer_Closed sval
  | Pointer_Other_Work sval
  | Many_On_Work "string list"
  | Missing_Pointer string
  | Other_Pointer sval string

text \<open>\<open>OPEN_RE\<close> on a stripped text.\<close>

definition open_match :: "string \<Rightarrow> attempt_text option" where
  "open_match s =
     (case Option.bind (after ''attempt '' s) attempt_id of
        None \<Rightarrow> None
      | Some (aid, r1) \<Rightarrow>
          (case after '' open'' r1 of
             None \<Rightarrow> None
           | Some r2 \<Rightarrow>
               (case (case Option.bind (after ''; supersedes '' r2) attempt_id of
                        Some (p, r) \<Rightarrow> (Some p, r) | None \<Rightarrow> (None, r2)) of
                  (sup_id, r3) \<Rightarrow>
                    if r3 = [] then Some (Opened aid sup_id None)
                    else (case after ''; provenance '' r3 of
                      Some tok \<Rightarrow> if provenance_token tok then Some (Opened aid sup_id (Some tok)) else None
                    | None \<Rightarrow> None))))"

text \<open>\<open>_CLOSE_HEAD_RE\<close>: identity, result, stop and the rest.\<close>

definition close_head :: "string \<Rightarrow> (string \<times> string \<times> string \<times> string) option" where
  "close_head s =
     (case Option.bind (after ''attempt '' s) attempt_id of
        None \<Rightarrow> None
      | Some (aid, r1) \<Rightarrow>
          (case Option.bind (after '' close result '' r1) lower_word of
             None \<Rightarrow> None
           | Some (result, r2) \<Rightarrow>
               (case Option.bind (after '' stop '' r2) lower_word of
                  None \<Rightarrow> None
                | Some (stop, r3) \<Rightarrow> Some (aid, result, stop, r3))))"

definition UNKNOWN_SEP :: string where
  "UNKNOWN_SEP = ''; unknown:''"

text \<open>\<open>^E-\d+$\<close> on a stripped reference.\<close>

definition evidence_item :: "string \<Rightarrow> bool" where
  "evidence_item s \<longleftrightarrow> startswith s ''E-'' \<and> drop 2 s \<noteq> [] \<and> list_all is_digit (drop 2 s)"

definition close_evidence :: "string \<Rightarrow> attempt_error + string list" where
  "close_evidence body =
     (if body = [] then Inr []
      else case after ''-- evidence '' body of
        None \<Rightarrow> Inl Malformed_Tail
      | Some refs_text \<Rightarrow>
          let refs = map strip (split_on (CHR '','') refs_text) in
          if MAX_EVIDENCE_REFS < length refs then Inl (Too_Many_Refs (length refs))
          else case find (\<lambda>r. \<not> evidence_item r) refs of Some r \<Rightarrow> Inl (Bad_Ref r) | None \<Rightarrow> Inr refs)"

definition close_unknown :: "string \<Rightarrow> attempt_error + string \<times> string option" where
  "close_unknown rest =
     (if substring UNKNOWN_SEP rest then
        (let parts = split_str UNKNOWN_SEP rest; clause = strip (drop (length (hd parts) + length UNKNOWN_SEP) rest) in
         if CHR 10 \<in> set clause then Inl Unknown_Not_One_Line
         else if MAX_UNKNOWN_CHARS < length clause then Inl (Unknown_Too_Long (length clause))
         else Inr (hd parts, Some clause))
      else Inr (rest, None))"

text \<open>Only a second token \<open>A-\d+\<close> claims the grammar; then a broken tail is an error.\<close>

definition claims_grammar :: "string \<Rightarrow> bool" where
  "claims_grammar stripped \<longleftrightarrow>
     startswith stripped ''attempt '' \<and>
     (let second = takeWhile (\<lambda>c. \<not> is_space c) (lstrip (drop 7 stripped))
      in startswith second ''A-'' \<and> drop 2 second \<noteq> [] \<and> list_all is_digit (drop 2 second))"

definition parse_attempt_text :: "(string \<Rightarrow> string option) \<Rightarrow> string \<Rightarrow> attempt_error + attempt_text option" where
  "parse_attempt_text prov s =
     (let stripped = strip s in
      if \<not> claims_grammar stripped then Inr None
      else case open_match stripped of
        Some rec \<Rightarrow>
          (case a_provenance rec of
             Some tok \<Rightarrow> if prov tok = None then Inl Bad_Provenance else Inr (Some rec)
           | None \<Rightarrow> Inr (Some rec))
      | None \<Rightarrow>
          (case close_head stripped of
             None \<Rightarrow> Inl Malformed_Attempt
           | Some (aid, result, stop, rest) \<Rightarrow>
               (case close_unknown rest of
                  Inl e \<Rightarrow> Inl e
                | Inr (body, unknown) \<Rightarrow>
                    (case close_evidence (strip body) of
                       Inl e \<Rightarrow> Inl e
                     | Inr refs \<Rightarrow> Inr (Some (Closed aid result stop refs unknown))))))"

definition parse_attempt_event :: "(string \<Rightarrow> string option) \<Rightarrow> event \<Rightarrow> attempt_error + attempt_text option" where
  "parse_attempt_event prov ev =
     (if ev_taxonomy ev \<noteq> ''DEC'' then Inr None
      else case parse_attempt_text prov (ev_text ev) of
        Inr (Some (Opened aid sup_id (Some tok))) \<Rightarrow>
          if prov tok \<noteq> ev_agent ev then Inl (Executor_Mismatch aid) else Inr (Some (Opened aid sup_id (Some tok)))
      | r \<Rightarrow> r)"

section \<open>The fold\<close>

record attempt =
  at_id :: string
  at_ticket :: "string option"
  at_agent :: "string option"
  at_open :: nat
  at_close :: "nat option"
  at_result :: "string option"
  at_stop :: "string option"
  at_evidence :: "string list"
  at_unknown :: "string option"
  at_supersedes :: "string option"
  at_provenance :: "string option"
  at_close_agent :: "string option"

type_synonym attempts = "(string, attempt) dict"

definition non_empty :: "string option \<Rightarrow> bool" where
  "non_empty v \<longleftrightarrow> v \<noteq> None \<and> v \<noteq> Some []"

definition fresh_attempt :: "event \<Rightarrow> string \<Rightarrow> string option \<Rightarrow> string option \<Rightarrow> attempt" where
  "fresh_attempt ev aid sup_id tok =
     \<lparr>at_id = aid, at_ticket = ev_ticket ev, at_agent = ev_agent ev, at_open = ev_id ev, at_close = None, at_result = None,
      at_stop = None, at_evidence = [], at_unknown = None, at_supersedes = sup_id, at_provenance = tok, at_close_agent = None\<rparr>"

definition closed_attempt :: "event \<Rightarrow> string \<Rightarrow> string \<Rightarrow> string list \<Rightarrow> string option \<Rightarrow> attempt \<Rightarrow> attempt" where
  "closed_attempt ev result stop refs unknown rec =
     rec\<lparr>at_close := Some (ev_id ev), at_result := Some result, at_stop := Some stop, at_evidence := refs, at_unknown := unknown,
         at_agent := (if non_empty (ev_agent ev) \<and> \<not> non_empty (at_agent rec) then ev_agent ev else at_agent rec),
         at_close_agent := (if non_empty (ev_agent ev) then ev_agent ev else at_close_agent rec)\<rparr>"

definition open_step :: "event \<Rightarrow> string \<Rightarrow> string option \<Rightarrow> string option \<Rightarrow> attempts \<Rightarrow> attempts \<times> attempt_error list" where
  "open_step ev aid sup_id tok rs =
     (if dict_get rs aid \<noteq> None then (rs, [Duplicate_Attempt aid])
      else (rs @ [(aid, fresh_attempt ev aid sup_id tok)],
            case sup_id of Some p \<Rightarrow> if dict_get rs p = None then [Unknown_Predecessor aid] else [] | None \<Rightarrow> []))"

definition close_problem :: "event \<Rightarrow> string \<Rightarrow> string \<Rightarrow> string \<Rightarrow> attempts \<Rightarrow> attempt_error option" where
  "close_problem ev aid result stop rs =
     (case dict_get rs aid of
        None \<Rightarrow> Some (Close_Without_Open aid)
      | Some rec \<Rightarrow>
          if at_close rec \<noteq> None then Some (Closed_Twice aid)
          else if ev_ticket ev \<noteq> at_ticket rec then Some (Other_Ticket aid)
          else if result \<notin> set RESULTS then Some (Bad_Result aid)
          else if stop \<notin> set STOP_REASONS then Some (Bad_Stop aid)
          else if stop \<notin> set (allowed_stops result) then Some (Bad_Pairing result stop)
          else None)"

definition attempt_step :: "(string \<Rightarrow> string option) \<Rightarrow> attempts \<times> attempt_error list \<Rightarrow> event \<Rightarrow> attempts \<times> attempt_error list" where
  "attempt_step prov st ev =
     (case st of (rs, es) \<Rightarrow>
        (case parse_attempt_event prov ev of
           Inl e \<Rightarrow> (rs, es @ [e])
         | Inr None \<Rightarrow> (rs, es)
         | Inr (Some (Opened aid sup_id tok)) \<Rightarrow> (case open_step ev aid sup_id tok rs of (rs', new) \<Rightarrow> (rs', es @ new))
         | Inr (Some (Closed aid result stop refs unknown)) \<Rightarrow>
             (case close_problem ev aid result stop rs of
                Some e \<Rightarrow> (rs, es @ [e])
              | None \<Rightarrow> (dict_set aid (closed_attempt ev result stop refs unknown (the (dict_get rs aid))) rs, es))))"

text \<open>The lineage pass: back over the predecessors until none, an unknown one, or one already met.\<close>

function lineage :: "attempts \<Rightarrow> string \<Rightarrow> string list \<Rightarrow> string option \<Rightarrow> attempt_error list" where
  "lineage rs aid seen cur =
     (case cur of
        None \<Rightarrow> []
      | Some c \<Rightarrow>
          if c \<in> set seen then [Lineage_Cycle c aid]
          else case dict_get rs c of None \<Rightarrow> [] | Some rec \<Rightarrow> lineage rs aid (c # seen) (at_supersedes rec))"
  by pat_completeness auto
termination
proof (relation "measure (\<lambda>(rs, _, seen, _). card (fst ` set rs - set seen))")
  fix rs :: attempts and aid :: string and seen cur c rec
  assume a: "cur = Some c" "c \<notin> set seen" "dict_get rs c = Some rec"
  then have "c \<in> fst ` set rs - set seen" by (auto dest: map_of_SomeD intro: rev_image_eqI)
  then have "card (fst ` set rs - set (c # seen)) < card (fst ` set rs - set seen)"
    by (intro psubset_card_mono) auto
  then show "((rs, aid, c # seen, at_supersedes rec), rs, aid, seen, cur) \<in> measure (\<lambda>(rs, _, seen, _). card (fst ` set rs - set seen))"
    by simp
qed simp

declare lineage.simps [simp del]

definition lineage_errors :: "attempts \<Rightarrow> attempt_error list" where
  "lineage_errors rs = concat (map (\<lambda>(aid, rec). lineage rs aid [aid] (at_supersedes rec)) rs)"

definition build_attempts :: "(string \<Rightarrow> string option) \<Rightarrow> event list \<Rightarrow> attempts \<times> attempt_error list" where
  "build_attempts prov evs =
     (case foldl (attempt_step prov) ([], []) evs of (rs, es) \<Rightarrow> (rs, es @ lineage_errors rs))"

definition active_attempts :: "attempts \<Rightarrow> string list" where
  "active_attempts rs =
     List.map_filter (\<lambda>(aid, rec). if at_close rec = None then Some aid else None) (sort_key (\<lambda>(_, rec). at_open rec) rs)"

text \<open>\<open>{n:03d}\<close>.\<close>

definition three_digits :: "nat \<Rightarrow> string" where
  "three_digits n = replicate (3 - length (show_nat n)) CHR ''0'' @ show_nat n"

definition next_attempt_id :: "(string \<Rightarrow> string option) \<Rightarrow> event list \<Rightarrow> string" where
  "next_attempt_id prov evs =
     ''A-'' @ three_digits (Suc (foldl max 0 (List.map_filter (\<lambda>ev.
        case parse_attempt_event prov ev of
          Inr (Some rec) \<Rightarrow> Some (digits_value (drop 2 (a_id rec))) | _ \<Rightarrow> None) evs)))"

section \<open>The contract\<close>

definition no_task :: "sval option \<Rightarrow> bool" where
  "no_task task \<longleftrightarrow> task = None \<or> task = Some (Scalar (SStr [])) \<or> task = Some (Scalar (SStr ''none''))"

text \<open>A ticket of a record compared with a field of STATE, whatever the type of the field.\<close>

definition same_text :: "string option \<Rightarrow> sval option \<Rightarrow> bool" where
  "same_text t v \<longleftrightarrow> (case v of None \<Rightarrow> t = None | Some (Scalar (SStr s)) \<Rightarrow> t = Some s | Some _ \<Rightarrow> False)"

definition work_errors :: "attempts \<Rightarrow> string list \<Rightarrow> attempt_error list" where
  "work_errors rs known =
     List.map_filter (\<lambda>(aid, rec).
       if at_ticket rec = Some ''T-none'' then Some (On_No_Work aid)
       else if non_empty (at_ticket rec) \<and> the (at_ticket rec) \<notin> set known then Some (Unknown_Work aid (the (at_ticket rec)))
       else None) rs"

definition evidence_errors :: "attempts \<Rightarrow> nat list \<Rightarrow> attempt_error list" where
  "evidence_errors rs ids =
     concat (map (\<lambda>(aid, rec).
       map (Dangling_Evidence aid) (filter (\<lambda>ref. digits_value (drop 2 ref) \<notin> set ids) (at_evidence rec))) rs)"

text \<open>A list is no key of a dict: looking it up raises \<open>TypeError\<close>.\<close>

datatype contract_raise = Unhashable_Pointer

definition record_at :: "attempts \<Rightarrow> scalar \<Rightarrow> attempt option" where
  "record_at rs s = (case s of SStr p \<Rightarrow> dict_get rs p | _ \<Rightarrow> None)"

definition pointer_errors :: "attempts \<Rightarrow> sval option \<Rightarrow> sval option \<Rightarrow> contract_raise + attempt_error list" where
  "pointer_errors rs pointer task =
     (case pointer of
        None \<Rightarrow> Inr []
      | Some v \<Rightarrow>
          if no_task task then Inr [Pointer_Without_Task v]
          else case v of
            SList _ \<Rightarrow> Inl Unhashable_Pointer
          | Scalar s \<Rightarrow>
              (case record_at rs s of
                 None \<Rightarrow> Inr [Pointer_Without_Open v]
               | Some rec \<Rightarrow>
                   if at_close rec \<noteq> None then Inr [Pointer_Closed v]
                   else if \<not> same_text (at_ticket rec) task then Inr [Pointer_Other_Work v] else Inr []))"

definition work_opens :: "attempts \<Rightarrow> string option \<Rightarrow> string list" where
  "work_opens rs task = filter (\<lambda>aid. at_ticket (the (dict_get rs aid)) = task) (active_attempts rs)"

definition task_opens :: "attempts \<Rightarrow> sval option \<Rightarrow> string list" where
  "task_opens rs task = filter (\<lambda>aid. same_text (at_ticket (the (dict_get rs aid))) task) (active_attempts rs)"

definition open_errors :: "attempts \<Rightarrow> sval option \<Rightarrow> sval option \<Rightarrow> attempt_error list" where
  "open_errors rs pointer task =
     (case task_opens rs task of
        [] \<Rightarrow> []
      | [a] \<Rightarrow> (case pointer of None \<Rightarrow> [Missing_Pointer a] | Some v \<Rightarrow> if v \<noteq> Scalar (SStr a) then [Other_Pointer v a] else [])
      | opens \<Rightarrow> [Many_On_Work opens])"

definition contract_errors ::
    "(string \<Rightarrow> string option) \<Rightarrow> event list \<Rightarrow> state_fields \<Rightarrow> string list option \<Rightarrow> contract_raise + attempt_error list" where
  "contract_errors prov evs fs known =
     (case build_attempts prov evs of (rs, es) \<Rightarrow>
        let active = active_attempts rs; pointer = dict_get fs ''attempt''; task = dict_get fs ''task'' in
        map_sum id (\<lambda>pointed.
          es @ (if 1 < length active then [Many_Open active] else []) @
          (case known of Some ids \<Rightarrow> work_errors rs ids | None \<Rightarrow> []) @
          evidence_errors rs (map ev_id evs) @ pointed @ open_errors rs pointer task)
        (pointer_errors rs pointer task))"

section \<open>Admission of a finished ticket\<close>

definition boundary_after :: "string \<Rightarrow> nat \<Rightarrow> event list \<Rightarrow> bool" where
  "boundary_after tid close_event evs \<longleftrightarrow>
     list_ex (\<lambda>ev. ev_ticket ev = Some tid \<and> ev_taxonomy ev = ''RUN'' \<and> is_verify_boundary ev \<and> close_event < ev_id ev) evs"

definition admission_error :: "attempt \<Rightarrow> string \<Rightarrow> event list \<Rightarrow> string option" where
  "admission_error rec tid evs =
     (case at_close rec of
        None \<Rightarrow> None
      | Some close_event \<Rightarrow>
          if at_result rec \<noteq> Some ''candidate'' \<or> boundary_after tid close_event evs then None else Some (at_id rec))"

text \<open>The first candidate of the ticket whose close no VERIFY boundary follows.\<close>

definition ticket_admission_error :: "string \<Rightarrow> attempts \<Rightarrow> event list \<Rightarrow> string option" where
  "ticket_admission_error tid rs evs =
     map_option at_id (find (\<lambda>rec. \<not> boundary_after tid (the (at_close rec)) evs)
       (sort_key at_open (filter (\<lambda>rec. at_ticket rec = Some tid \<and> at_result rec = Some ''candidate'' \<and> at_close rec \<noteq> None)
          (map snd rs))))"

end
