(* ===== verification/AttemptLaws.thy ===== *)
theory AttemptLaws
  imports Attempt LedgerLaws
begin

text \<open>
  The laws of the Attempt history: a fold without errors is a well-formed register whose lineage runs back in
  time, the contract pins the open attempt and the STATE pointer to each other, and what the writers put into
  the LOG reads back.
\<close>

section \<open>The register\<close>

text \<open>
  What holds of every record: it stands under its identity, a closed one has a result with an allowed stop and
  was closed after it was opened, and a predecessor was opened before.
\<close>

definition sound_attempt :: "attempts \<Rightarrow> string \<times> attempt \<Rightarrow> bool" where
  "sound_attempt rs = (\<lambda>(aid, rec).
     at_id rec = aid \<and>
     (case at_close rec of
        None \<Rightarrow> at_result rec = None \<and> at_stop rec = None
      | Some c \<Rightarrow> at_open rec < c \<and> (\<exists>r s. at_result rec = Some r \<and> at_stop rec = Some s \<and> s \<in> set (allowed_stops r))) \<and>
     (case at_supersedes rec of
        None \<Rightarrow> True
      | Some p \<Rightarrow> (\<exists>prior. dict_get rs p = Some prior \<and> at_open prior < at_open rec)))"

definition sound_register :: "attempts \<Rightarrow> bool" where
  "sound_register rs \<longleftrightarrow> distinct (map fst rs) \<and> list_all (sound_attempt rs) rs"

text \<open>Every record was opened, and closed, at an event before \<open>n\<close>.\<close>

definition before :: "nat \<Rightarrow> attempts \<Rightarrow> bool" where
  "before n rs \<longleftrightarrow> list_all (\<lambda>(_, rec). at_open rec < n) rs"

lemma before_get: "before n rs \<Longrightarrow> dict_get rs a = Some rec \<Longrightarrow> at_open rec < n"
  by (auto simp: before_def list_all_iff dest: map_of_SomeD)

lemma sound_mono:
  assumes a: "sound_attempt rs x"
    and keep: "\<And>p prior. dict_get rs p = Some prior \<Longrightarrow> \<exists>prior'. dict_get rs' p = Some prior' \<and> at_open prior' = at_open prior"
  shows "sound_attempt rs' x"
proof -
  have "\<exists>prior. dict_get rs' p = Some prior \<and> at_open prior < n" if "\<exists>prior. dict_get rs p = Some prior \<and> at_open prior < n" for p n
    using that keep by metis
  with a show ?thesis unfolding sound_attempt_def by (auto split: option.splits)
qed

lemma open_sound:
  assumes "sound_register rs" "before (ev_id ev) rs" "open_step ev aid sup_id tok rs = (rs', [])"
  shows "sound_register rs'" "before (Suc (ev_id ev)) rs'"
proof -
  from assms(3) have new: "dict_get rs aid = None" and rs': "rs' = rs @ [(aid, fresh_attempt ev aid sup_id tok)]"
    and sup: "\<And>p. sup_id = Some p \<Longrightarrow> dict_get rs p \<noteq> None"
    by (auto simp: open_step_def split: if_splits option.splits)
  have keep: "dict_get rs p = Some prior \<Longrightarrow> dict_get rs' p = Some prior" for p prior
    using new by (auto simp: rs' map_add_def split: option.split)
  have "sound_attempt rs' (aid, fresh_attempt ev aid sup_id tok)"
  proof (cases sup_id)
    case (Some p)
    with sup obtain prior where p: "dict_get rs p = Some prior" by blast
    from before_get [OF assms(2) p] keep [OF p] Some show ?thesis by (simp add: sound_attempt_def fresh_attempt_def)
  qed (simp add: sound_attempt_def fresh_attempt_def)
  moreover have "list_all (sound_attempt rs') rs"
    using assms(1) keep sound_mono unfolding sound_register_def list_all_iff by blast
  ultimately show "sound_register rs'" using assms(1) new by (simp add: sound_register_def rs' map_of_eq_None_iff)
  show "before (Suc (ev_id ev)) rs'" using assms(2) by (auto simp: before_def rs' fresh_attempt_def list_all_iff less_Suc_eq)
qed

lemma close_sound:
  assumes "sound_register rs" "before (ev_id ev) rs" "close_problem ev aid result stop rs = None"
  shows "sound_register (dict_set aid (closed_attempt ev result stop refs unknown (the (dict_get rs aid))) rs)"
    "before (Suc (ev_id ev)) (dict_set aid (closed_attempt ev result stop refs unknown (the (dict_get rs aid))) rs)"
proof -
  from assms(3) obtain rec where rec: "dict_get rs aid = Some rec" "stop \<in> set (allowed_stops result)"
    by (auto simp: close_problem_def split: option.splits if_splits)
  let ?new = "closed_attempt ev result stop refs unknown rec"
  let ?rs' = "dict_set aid ?new rs"
  have d: "distinct (map fst rs)" using assms(1) by (simp add: sound_register_def)
  have rs': "?rs' = map (\<lambda>(k, w). (k, if k = aid then ?new else w)) rs" using d rec(1) by (simp add: dict_set_present)
  have keep: "\<exists>prior'. dict_get ?rs' p = Some prior' \<and> at_open prior' = at_open prior" if "dict_get rs p = Some prior" for p prior
    using that rec(1) by (auto simp: closed_attempt_def)
  have mem: "(aid, rec) \<in> set rs" using rec(1) by (rule map_of_SomeD)
  have old: "sound_attempt rs (aid, rec)" "at_open rec < ev_id ev"
    using assms(1,2) mem by (auto simp: sound_register_def before_def list_all_iff)
  then have "sound_attempt rs (aid, ?new)" using rec(2) by (auto simp: sound_attempt_def closed_attempt_def split: option.splits)
  then have "sound_attempt ?rs' x" if "x \<in> set ?rs'" for x
    using that keep sound_mono assms(1) unfolding rs' sound_register_def list_all_iff
    by (fastforce split: if_splits)
  then show "sound_register (dict_set aid (closed_attempt ev result stop refs unknown (the (dict_get rs aid))) rs)"
    using d by (simp add: sound_register_def list_all_iff rec(1)) (simp add: rs' o_def case_prod_unfold)
  have "at_open w < Suc (ev_id ev)" if "(k, w) \<in> set ?rs'" for k w
    using that assms(2) old(2) unfolding rs' by (auto simp: before_def list_all_iff closed_attempt_def less_Suc_eq)
  then show "before (Suc (ev_id ev)) (dict_set aid (closed_attempt ev result stop refs unknown (the (dict_get rs aid))) rs)"
    unfolding rec(1) option.sel before_def list_all_iff by blast
qed

lemma before_mono: "before n rs \<Longrightarrow> n \<le> m \<Longrightarrow> before m rs"
  by (auto simp: before_def list_all_iff)

lemma step_errors: "attempt_step prov (rs, es) ev = (rs', es') \<Longrightarrow> \<exists>new. es' = es @ new"
  by (auto simp: attempt_step_def split: sum.splits option.splits attempt_text.splits prod.splits)

lemma fold_errors: "foldl (attempt_step prov) (rs, es) evs = (rs', es') \<Longrightarrow> \<exists>new. es' = es @ new"
proof (induction evs arbitrary: rs es)
  case (Cons ev evs)
  obtain rs1 es1 where s: "attempt_step prov (rs, es) ev = (rs1, es1)" by (cases "attempt_step prov (rs, es) ev")
  with Cons.prems have "foldl (attempt_step prov) (rs1, es1) evs = (rs', es')" by simp
  from Cons.IH [OF this] step_errors [OF s] show ?case by auto
qed simp

lemma step_sound:
  assumes "sound_register rs" "before (ev_id ev) rs" "attempt_step prov (rs, []) ev = (rs', [])"
  shows "sound_register rs'" "before (Suc (ev_id ev)) rs'"
proof -
  have "sound_register rs' \<and> before (Suc (ev_id ev)) rs'"
  proof (cases "parse_attempt_event prov ev")
    case (Inr rec)
    show ?thesis
    proof (cases rec)
      case None
      with Inr assms before_mono show ?thesis by (auto simp: attempt_step_def)
    next
      case (Some r)
      show ?thesis
      proof (cases r)
        case (Opened aid sup_id tok)
        with Inr Some assms open_sound [OF assms(1,2)] show ?thesis by (auto simp: attempt_step_def split: prod.splits)
      next
        case (Closed aid result stop refs unknown)
        with Inr Some assms close_sound [OF assms(1,2)] show ?thesis by (auto simp: attempt_step_def split: option.splits)
      qed
    qed
  qed (use assms in \<open>simp add: attempt_step_def\<close>)
  then show "sound_register rs'" "before (Suc (ev_id ev)) rs'" by simp_all
qed

lemma fold_sound:
  "sorted_wrt (<) (map ev_id evs) \<Longrightarrow> list_all (\<lambda>ev. n \<le> ev_id ev) evs \<Longrightarrow> before n rs \<Longrightarrow> sound_register rs \<Longrightarrow>
   foldl (attempt_step prov) (rs, []) evs = (rs', []) \<Longrightarrow> sound_register rs'"
proof (induction evs arbitrary: n rs)
  case (Cons ev evs)
  obtain rs1 es1 where s: "attempt_step prov (rs, []) ev = (rs1, es1)" by (cases "attempt_step prov (rs, []) ev")
  with Cons.prems have f: "foldl (attempt_step prov) (rs1, es1) evs = (rs', [])" by simp
  with fold_errors [OF f] have es1: "es1 = []" by simp
  have "before (ev_id ev) rs" using Cons.prems before_mono by auto
  note st = step_sound [OF Cons.prems(4) this s [unfolded es1]]
  have "list_all (\<lambda>e. Suc (ev_id ev) \<le> ev_id e) evs" using Cons.prems(1) by (auto simp: list_all_iff Suc_le_eq)
  with Cons.IH [OF _ this st(2,1) f [unfolded es1]] Cons.prems(1) show ?case by simp
qed simp

section \<open>Lineage\<close>

lemma lineage_none:
  "sound_register rs \<Longrightarrow>
   (\<And>c rec. cur = Some c \<Longrightarrow> dict_get rs c = Some rec \<Longrightarrow> list_all (\<lambda>s. case dict_get rs s of Some r \<Rightarrow> at_open rec < at_open r | None \<Rightarrow> False) seen) \<Longrightarrow>
   (\<And>c. cur = Some c \<Longrightarrow> dict_get rs c \<noteq> None) \<Longrightarrow> lineage rs aid seen cur = []"
proof (induction rs aid seen cur rule: lineage.induct)
  case (1 rs aid seen cur)
  show ?case
  proof (cases cur)
    case None
    then show ?thesis by (simp add: lineage.simps)
  next
    case (Some c)
    with "1.prems"(3) obtain rec where rec: "dict_get rs c = Some rec" by blast
    from "1.prems"(2) [OF Some rec] have seen: "list_all (\<lambda>s. case dict_get rs s of Some r \<Rightarrow> at_open rec < at_open r | None \<Rightarrow> False) seen" .
    have c: "c \<notin> set seen" using seen rec by (auto simp: list_all_iff)
    from rec "1.prems"(1) have "sound_attempt rs (c, rec)"
      by (auto simp: sound_register_def list_all_iff dest: map_of_SomeD)
    then have up: "dict_get rs p \<noteq> None \<and> (\<forall>prior. dict_get rs p = Some prior \<longrightarrow> at_open prior < at_open rec)"
      if "at_supersedes rec = Some p" for p using that by (auto simp: sound_attempt_def)
    have "lineage rs aid (c # seen) (at_supersedes rec) = []"
    proof (rule "1.IH" [OF Some c rec "1.prems"(1)])
      fix p prior
      assume p: "at_supersedes rec = Some p" "dict_get rs p = Some prior"
      with up have lt: "at_open prior < at_open rec" by blast
      have "case dict_get rs s of Some r \<Rightarrow> at_open prior < at_open r | None \<Rightarrow> False"
        if "case dict_get rs s of Some r \<Rightarrow> at_open rec < at_open r | None \<Rightarrow> False" for s
        using that lt by (auto split: option.splits)
      with seen lt rec show "list_all (\<lambda>s. case dict_get rs s of Some r \<Rightarrow> at_open prior < at_open r | None \<Rightarrow> False) (c # seen)"
        by (auto simp: list_all_iff)
    qed (use up in blast)
    then show ?thesis using Some c rec by (simp add: lineage.simps)
  qed
qed

lemma lineage_errors_none: "sound_register rs \<Longrightarrow> lineage_errors rs = []"
proof -
  assume s: "sound_register rs"
  have "lineage rs aid [aid] (at_supersedes rec) = []" if m: "(aid, rec) \<in> set rs" for aid rec
  proof -
    from s m have g: "dict_get rs aid = Some rec" and a: "sound_attempt rs (aid, rec)"
      by (auto simp: sound_register_def list_all_iff)
    show ?thesis
      by (rule lineage_none [OF s]) (use g a in \<open>auto simp: sound_attempt_def\<close>)
  qed
  then show ?thesis by (auto simp: lineage_errors_def)
qed

text \<open>
  C30: over a history of increasing event numbers, an Attempt fold without errors is a sound register: identities
  are unique, a closed attempt carries a result with one of its allowed stops and was closed after it opened,
  every predecessor was opened earlier; and the independent lineage pass never reports more than the fold.
\<close>

theorem attempt_register_sound:
  assumes "sorted_wrt (<) (map ev_id evs)"
  shows "build_attempts prov evs = (rs, []) \<longleftrightarrow> foldl (attempt_step prov) ([], []) evs = (rs, []) \<and> sound_register rs"
proof -
  have start: "sound_register []" "before 0 []" "list_all (\<lambda>ev. 0 \<le> ev_id ev) evs"
    by (simp_all add: sound_register_def before_def list_all_iff)
  show ?thesis
  proof
    assume "build_attempts prov evs = (rs, [])"
    then have f: "foldl (attempt_step prov) ([], []) evs = (rs, [])" by (auto simp: build_attempts_def split: prod.splits)
    with fold_sound [OF assms start(3,2,1)] show "foldl (attempt_step prov) ([], []) evs = (rs, []) \<and> sound_register rs" by blast
  next
    assume "foldl (attempt_step prov) ([], []) evs = (rs, []) \<and> sound_register rs"
    then show "build_attempts prov evs = (rs, [])" by (simp add: build_attempts_def lineage_errors_none)
  qed
qed

definition sample_event :: "nat \<Rightarrow> string \<Rightarrow> string \<Rightarrow> string \<Rightarrow> event" where
  "sample_event n ticket agent txt =
     \<lparr>ev_date = None, ev_id = n, ev_parent = None, ev_ticket = Some ticket, ev_agent = Some agent, ev_op = None,
      ev_taxonomy = ''DEC'', ev_text = txt, ev_detail = None\<rparr>"

definition sample_attempts :: "event list" where
  "sample_attempts =
     [sample_event 3 ''T-1'' ''ada'' ''attempt A-001 open'',
      sample_event 5 ''T-1'' ''bob'' ''attempt A-001 close result interrupted stop unknown -- evidence E-3; unknown: host died'',
      sample_event 7 ''T-1'' ''bob'' ''attempt A-002 open; supersedes A-001'']"

theorem attempt_register_sound_witness:
  "sound_register (fst (build_attempts (\<lambda>_. None) sample_attempts)) \<and> active_attempts (fst (build_attempts (\<lambda>_. None) sample_attempts)) = [''A-002'']"
proof -
  have e: "snd (build_attempts (\<lambda>_. None) sample_attempts) = []"
    and s: "sorted_wrt (<) (map ev_id sample_attempts)"
    and a: "active_attempts (fst (build_attempts (\<lambda>_. None) sample_attempts)) = [''A-002'']"
    by code_simp+
  with attempt_register_sound [OF s, of "\<lambda>_. None" "fst (build_attempts (\<lambda>_. None) sample_attempts)"] show ?thesis
    by (cases "build_attempts (\<lambda>_. None) sample_attempts") simp
qed

section \<open>The contract\<close>

text \<open>Identities are unique in every fold, whatever its errors.\<close>

lemma step_distinct: "distinct (map fst rs) \<Longrightarrow> attempt_step prov (rs, es) ev = (rs', es') \<Longrightarrow> distinct (map fst rs')"
  by (auto simp: attempt_step_def open_step_def close_problem_def dict_set_present map_of_eq_None_iff o_def case_prod_unfold
      split: sum.splits option.splits attempt_text.splits prod.splits if_splits)

lemma fold_distinct: "distinct (map fst (fst st)) \<Longrightarrow> distinct (map fst (fst (foldl (attempt_step prov) st evs)))"
proof (induction evs arbitrary: st)
  case (Cons ev evs)
  obtain rs es where st: "st = (rs, es)" by (cases st)
  obtain rs' es' where s: "attempt_step prov (rs, es) ev = (rs', es')" by (cases "attempt_step prov (rs, es) ev")
  from step_distinct [OF _ s] Cons.prems st have "distinct (map fst (fst (rs', es')))" by simp
  from Cons.IH [OF this] show ?case by (simp add: st s)
qed simp

lemma build_distinct: "build_attempts prov evs = (rs, es) \<Longrightarrow> distinct (map fst rs)"
  using fold_distinct [of "([], [])" prov evs] by (auto simp: build_attempts_def split: prod.splits)

lemma active_set: "p \<in> set (active_attempts rs) \<longleftrightarrow> (\<exists>rec. (p, rec) \<in> set rs \<and> at_close rec = None)"
  by (force simp: active_attempts_def List.map_filter_def split: if_splits)

lemma active_get:
  "distinct (map fst rs) \<Longrightarrow> p \<in> set (active_attempts rs) \<longleftrightarrow> (\<exists>rec. dict_get rs p = Some rec \<and> at_close rec = None)"
  by (simp add: active_set)

text \<open>What the contract promises: at most one open attempt, and the pointer names it exactly when it runs on the claimed Work.\<close>

definition attempts_coherent :: "attempts \<Rightarrow> sval option \<Rightarrow> sval option \<Rightarrow> bool" where
  "attempts_coherent rs pointer task \<longleftrightarrow>
     (case pointer of
        Some v \<Rightarrow> (\<exists>p tid. v = Scalar (SStr p) \<and> task = Some (Scalar (SStr tid)) \<and> tid \<notin> {[], ''none''} \<and>
          active_attempts rs = [p] \<and> at_ticket (the (dict_get rs p)) = Some tid)
      | None \<Rightarrow> length (active_attempts rs) \<le> 1 \<and> task_opens rs task = [])"

definition evidence_present :: "attempts \<Rightarrow> nat list \<Rightarrow> bool" where
  "evidence_present rs ids \<longleftrightarrow> list_all (\<lambda>(_, rec). list_all (\<lambda>ref. digits_value (drop 2 ref) \<in> set ids) (at_evidence rec)) rs"

definition on_known_work :: "attempts \<Rightarrow> string list \<Rightarrow> bool" where
  "on_known_work rs known \<longleftrightarrow>
     list_all (\<lambda>(_, rec). at_ticket rec \<noteq> Some ''T-none'' \<and> (non_empty (at_ticket rec) \<longrightarrow> the (at_ticket rec) \<in> set known)) rs"

lemma work_errors_none: "work_errors rs known = [] \<longleftrightarrow> on_known_work rs known"
  by (induction rs) (auto simp: work_errors_def on_known_work_def split: if_splits)

lemma evidence_errors_none: "evidence_errors rs ids = [] \<longleftrightarrow> evidence_present rs ids"
  by (induction rs) (auto simp: evidence_errors_def evidence_present_def filter_empty_conv list_all_iff)

lemma pointer_none:
  assumes "distinct (map fst rs)"
  shows "length (active_attempts rs) \<le> 1 \<and> pointer_errors rs pointer task = Inr [] \<and> open_errors rs pointer task = [] \<longleftrightarrow>
    attempts_coherent rs pointer task"
proof (cases pointer)
  case None
  have "length (task_opens rs task) \<le> length (active_attempts rs)" by (simp add: task_opens_def)
  then show ?thesis using None
    by (auto simp: pointer_errors_def open_errors_def attempts_coherent_def split: list.splits)
next
  case (Some v)
  let ?act = "active_attempts rs"
  show ?thesis
  proof (cases "\<exists>p tid. v = Scalar (SStr p) \<and> task = Some (Scalar (SStr tid)) \<and> tid \<notin> {[], ''none''}")
    case True
    then obtain p tid where v: "v = Scalar (SStr p)" "task = Some (Scalar (SStr tid))" "tid \<notin> {[], ''none''}" by blast
    have single: "length ?act \<le> 1 \<and> p \<in> set ?act \<longleftrightarrow> ?act = [p]" by (cases ?act) (auto simp: le_Suc_eq)
    have ptr: "pointer_errors rs pointer task = Inr [] \<longleftrightarrow> p \<in> set ?act \<and> at_ticket (the (dict_get rs p)) = Some tid"
      using active_get [OF assms, of p] v
      by (auto simp: pointer_errors_def Some no_task_def same_text_def record_at_def split: option.splits)
    have opn: "open_errors rs pointer task = []" if "?act = [p]"
      using that by (simp add: open_errors_def task_opens_def Some v)
    show ?thesis using single ptr opn v by (auto simp: attempts_coherent_def Some)
  next
    case False
    then have "pointer_errors rs pointer task \<noteq> Inr []"
      by (auto simp: pointer_errors_def Some no_task_def same_text_def record_at_def split: option.splits sval.splits scalar.splits)
    then show ?thesis using False by (auto simp: attempts_coherent_def Some)
  qed
qed

text \<open>
  C29: the Attempt contract accepts a history and a STATE exactly when the history folds without error, every
  attempt runs on known Work, every cited event exists, and the pointer is coherent: with a pointer, it is a text, it
  names the one open attempt of the project, on the claimed Work; without one, at most one attempt is open and none
  on the claimed Work.
\<close>

theorem contract_exact:
  "contract_errors prov evs fs known = Inr [] \<longleftrightarrow>
     (case build_attempts prov evs of (rs, es) \<Rightarrow>
        es = [] \<and> (case known of Some ids \<Rightarrow> on_known_work rs ids | None \<Rightarrow> True) \<and> evidence_present rs (map ev_id evs) \<and>
        attempts_coherent rs (dict_get fs ''attempt'') (dict_get fs ''task''))"
proof -
  obtain rs es where b: "build_attempts prov evs = (rs, es)" by (cases "build_attempts prov evs")
  from pointer_none [OF build_distinct [OF b], of "dict_get fs ''attempt''" "dict_get fs ''task''"] show ?thesis
    by (cases "pointer_errors rs (dict_get fs ''attempt'') (dict_get fs ''task'')")
       (auto simp: contract_errors_def b Let_def work_errors_none evidence_errors_none not_less split: option.split)
qed

section \<open>What the contract and the admission leave open\<close>

text \<open>
  An open attempt on another Work needs no pointer: the contract accepts it, though its comment calls the pointer
  invariant bidirectional.
\<close>

theorem unpointed_attempt_accepted:
  "contract_errors (\<lambda>_. None) [sample_event 3 ''T-2'' ''ada'' ''attempt A-001 open'']
     [(''task'', Scalar (SStr ''T-1''))] (Some [''T-1'', ''T-2'']) = Inr [] \<and>
   active_attempts (fst (build_attempts (\<lambda>_. None) [sample_event 3 ''T-2'' ''ada'' ''attempt A-001 open''])) = [''A-001'']"
  by code_simp

text \<open>
  A boundary typed by hand satisfies the admission of a finished ticket, though the verdict on the same history
  knows no boundary at all.
\<close>

definition typed_boundary :: "event list" where
  "typed_boundary =
     [sample_event 3 ''T-1'' ''ada'' ''attempt A-001 open'',
      sample_event 4 ''T-1'' ''ada'' ''attempt A-001 close result candidate stop completed_execution'',
      (sample_event 5 ''T-1'' ''ada'' ''transition to VERIFY'')\<lparr>ev_taxonomy := ''RUN'', ev_op := Some ''verify-by-hand''\<rparr>]"

theorem typed_boundary_admits:
  "list_ex hand_authored typed_boundary"
  "ticket_admission_error ''T-1'' (fst (build_attempts (\<lambda>_. None) typed_boundary)) typed_boundary = None"
  "verification_evidence ''T-1'' typed_boundary = (False, NO_VERIFY_BOUNDARY)"
  by code_simp+

end
