(* ===== verification/Regression.thy ===== *)
theory Regression
  imports VerdictLaws AttemptLaws
begin

text \<open>
  The regression gate of \<open>log.py\<close>: which records of the current VERIFY cycle count towards a ticket's red and
  green pair, the attempt that produced each, and the verdict.  An admissible pair is a red run and a later
  green run of the same verifier on two recorded and different subjects.
\<close>

section \<open>The gate\<close>

record tied_record = oracle_record +
  or_attempt :: "string option"

datatype regression_answer =
    No_Ticket
  | No_Boundary
  | Invalid_History
  | Different_Attempts
  | Judged oracle_code

definition own_attempts :: "string \<Rightarrow> attempts \<Rightarrow> attempt list" where
  "own_attempts tid rs = filter (\<lambda>rec. at_ticket rec = Some tid) (map snd rs)"

definition latest_open :: "attempt list \<Rightarrow> nat" where
  "latest_open own = foldl max 0 (map at_open own)"

text \<open>The one attempt that was open at an event.\<close>

definition producer :: "attempt list \<Rightarrow> nat \<Rightarrow> string option" where
  "producer own n =
     (case filter (\<lambda>rec. at_open rec \<le> n \<and> (case at_close rec of None \<Rightarrow> True | Some c \<Rightarrow> n \<le> c)) own of
        [rec] \<Rightarrow> Some (at_id rec) | _ \<Rightarrow> None)"

definition tie :: "attempt list \<Rightarrow> string \<Rightarrow> event \<Rightarrow> tied_record option" where
  "tie own tid ev =
     (if \<not> counted_run tid ev \<or> ev_id ev < latest_open own then None
      else map_option (\<lambda>r. oracle_record.extend r \<lparr>or_attempt = producer own (ev_id ev)\<rparr>) (parse_evidence (ev_text ev)))"

definition judge :: "tied_record list \<Rightarrow> regression_answer" where
  "judge rs =
     (case (last_index (\<lambda>r. \<not> or_pass r) rs, last_index or_pass rs) of
        (Some i, Some j) \<Rightarrow>
          if or_attempt (rs ! i) \<noteq> or_attempt (rs ! j) then Different_Attempts
          else Judged (regression_evidence_verdict (map oracle_record.truncate rs))
      | _ \<Rightarrow> Judged (regression_evidence_verdict (map oracle_record.truncate rs)))"

definition regression_evidence :: "(string \<Rightarrow> string option) \<Rightarrow> string \<Rightarrow> event list \<Rightarrow> regression_answer" where
  "regression_evidence prov tid evs =
     (if tid = [] then No_Ticket
      else case last_index (\<lambda>ev. counted_run tid ev \<and> is_verify_boundary ev) evs of
        None \<Rightarrow> No_Boundary
      | Some boundary \<Rightarrow>
          (case build_attempts prov evs of
             (rs, es) \<Rightarrow>
               if es \<noteq> [] then Invalid_History
               else judge (List.map_filter (tie (own_attempts tid rs) tid) (drop boundary evs))))"

section \<open>What an admissible pair is\<close>

lemma last_index_append:
  "last_index P (xs @ ys) = (case last_index P ys of Some i \<Rightarrow> Some (length xs + i) | None \<Rightarrow> last_index P xs)"
  by (induction xs) (auto split: option.splits)

lemma last_index_at: "P x \<Longrightarrow> list_all (\<lambda>y. \<not> P y) ys \<Longrightarrow> last_index P (xs @ x # ys) = Some (length xs)"
  by (simp add: last_index_append last_index_None [THEN iffD2])

lemma last_index_split:
  "last_index P xs = Some i \<Longrightarrow> xs = take i xs @ xs ! i # drop (Suc i) xs"
  using last_index_Some [of P xs i] by (simp add: id_take_nth_drop)

lemma last_index_map: "last_index P (map f xs) = last_index (\<lambda>x. P (f x)) xs"
  by (induction xs) (simp_all split: option.split)

lemma filtered_split:
  "List.map_filter f xs = us @ r # rest \<Longrightarrow>
   \<exists>as e bs. xs = as @ e # bs \<and> f e = Some r \<and> List.map_filter f as = us \<and> List.map_filter f bs = rest"
proof (induction xs arbitrary: us)
  case (Cons x xs)
  show ?case
  proof (cases "f x")
    case None
    with Cons.prems have "List.map_filter f xs = us @ r # rest" by simp
    from Cons.IH [OF this] obtain as e bs
      where "xs = as @ e # bs" "f e = Some r" "List.map_filter f as = us" "List.map_filter f bs = rest" by blast
    with None show ?thesis by (intro exI [of _ "x # as"] exI [of _ e] exI [of _ bs]) simp
  next
    case (Some r')
    show ?thesis
    proof (cases us)
      case Nil
      with Some Cons.prems show ?thesis by (intro exI [of _ "[]"] exI [of _ x] exI [of _ xs]) simp
    next
      case (Cons u us')
      with Some Cons.prems have "List.map_filter f xs = us' @ r # rest" and u: "u = r'" by auto
      from Cons.IH [OF this(1)] obtain as e bs
        where "xs = as @ e # bs" "f e = Some r" "List.map_filter f as = us'" "List.map_filter f bs = rest" by blast
      with Some Cons u show ?thesis by (intro exI [of _ "x # as"] exI [of _ e] exI [of _ bs]) simp
    qed
  qed
qed simp


text \<open>The last record is green, and between it and the last red one there are only green ones.\<close>

definition admissible_records :: "tied_record list \<Rightarrow> bool" where
  "admissible_records rs \<longleftrightarrow>
     (\<exists>us r1 vs r2. rs = us @ r1 # vs @ [r2] \<and> \<not> or_pass r1 \<and> or_pass r2 \<and> list_all or_pass vs \<and>
       or_attempt r1 = or_attempt r2 \<and>
       regression_pair_verdict (oracle_record.truncate r1) (oracle_record.truncate r2) = ADMISSIBLE)"

lemma truncate_pass [simp]: "or_pass (oracle_record.truncate r) = or_pass r"
  by (simp add: oracle_record.defs)

lemma truncate_verifier [simp]: "it_verifier (oracle_record.truncate r) = it_verifier r"
  by (simp add: oracle_record.defs)

lemma truncate_subject [simp]: "it_subject (oracle_record.truncate r) = it_subject r"
  by (simp add: oracle_record.defs)

lemma judge_admissible: "judge rs = Judged ADMISSIBLE \<longleftrightarrow> admissible_records rs"
proof
  assume j: "judge rs = Judged ADMISSIBLE"
  then obtain i k where ik: "last_index (\<lambda>r. \<not> or_pass r) rs = Some i" "last_index or_pass rs = Some k"
    by (auto simp: judge_def regression_evidence_verdict_def last_index_map split: option.splits)
  with j have v: "or_attempt (rs ! i) = or_attempt (rs ! k)" "\<not> k \<le> i"
      "regression_pair_verdict (map oracle_record.truncate rs ! i) (map oracle_record.truncate rs ! k) = ADMISSIBLE"
    by (auto simp: judge_def regression_evidence_verdict_def last_index_map split: if_splits)
  note i = last_index_Some [OF ik(1)] and k = last_index_Some [OF ik(2)]
  have "drop (Suc k) rs = []"
  proof (rule ccontr)
    assume "drop (Suc k) rs \<noteq> []"
    then have "hd (drop (Suc k) rs) \<in> set (drop (Suc k) rs)" by simp
    moreover have "set (drop (Suc k) rs) \<subseteq> set (drop (Suc i) rs)" using v(2) by (intro set_drop_subset_set_drop) simp
    ultimately show False using i k by (auto simp: list_all_iff)
  qed
  with k have len: "length rs = Suc k" by simp
  have "drop (Suc i) rs = take (k - Suc i) (drop (Suc i) rs) @ [rs ! k]"
    using v(2) len by (intro nth_equalityI) (auto simp: nth_append intro!: arg_cong [where f = "nth rs"])
  then have "rs = take i rs @ rs ! i # take (k - Suc i) (drop (Suc i) rs) @ [rs ! k]"
    using last_index_split [OF ik(1)] by metis
  moreover have "list_all or_pass (take (k - Suc i) (drop (Suc i) rs))"
    using i by (auto simp: list_all_iff dest: in_set_takeD)
  ultimately show "admissible_records rs"
    using i k v unfolding admissible_records_def
    by (intro exI [of _ "take i rs"] exI [of _ "rs ! i"] exI [of _ "take (k - Suc i) (drop (Suc i) rs)"] exI [of _ "rs ! k"]) simp
next
  assume "admissible_records rs"
  then obtain us r1 vs r2 where r: "rs = us @ r1 # vs @ [r2]" "\<not> or_pass r1" "or_pass r2" "list_all or_pass vs"
      "or_attempt r1 = or_attempt r2" "regression_pair_verdict (oracle_record.truncate r1) (oracle_record.truncate r2) = ADMISSIBLE"
    unfolding admissible_records_def by blast
  have i: "last_index (\<lambda>r. \<not> or_pass r) rs = Some (length us)"
    unfolding r(1) by (rule last_index_at) (use r in \<open>auto simp: list_all_iff\<close>)
  have k: "last_index or_pass rs = Some (length (us @ r1 # vs))"
    using last_index_at [of or_pass r2 "[]" "us @ r1 # vs"] r(3) by (simp add: r(1))
  have n: "rs ! length us = r1" "rs ! length (us @ r1 # vs) = r2" unfolding r(1) by (simp_all add: nth_append)
  from r(5,6) show "judge rs = Judged ADMISSIBLE"
    unfolding judge_def regression_evidence_verdict_def last_index_map truncate_pass i k
    using n by (simp add: r(1) nth_append)
qed


section \<open>The gate on a history\<close>

definition opens_cycle :: "string \<Rightarrow> event \<Rightarrow> bool" where
  "opens_cycle tid ev \<longleftrightarrow> counted_run tid ev \<and> is_verify_boundary ev"

text \<open>The latest cycle of a ticket: from its last VERIFY boundary on.\<close>

definition latest_cycle :: "string \<Rightarrow> event list \<Rightarrow> event list \<Rightarrow> bool" where
  "latest_cycle tid evs cycle \<longleftrightarrow>
     (\<exists>old b rest. evs = old @ cycle \<and> cycle = b # rest \<and> opens_cycle tid b \<and> list_all (\<lambda>ev. \<not> opens_cycle tid ev) rest)"

text \<open>A record counts when the engine wrote it for the ticket and no attempt of the ticket opened after it.\<close>

definition counted_evidence :: "attempt list \<Rightarrow> string \<Rightarrow> event \<Rightarrow> oracle_record option" where
  "counted_evidence own tid ev =
     (if counted_run tid ev \<and> list_all (\<lambda>rec. at_open rec \<le> ev_id ev) own then parse_evidence (ev_text ev) else None)"

definition green :: "attempt list \<Rightarrow> string \<Rightarrow> event \<Rightarrow> bool" where
  "green own tid ev \<longleftrightarrow> (case counted_evidence own tid ev of Some r \<Rightarrow> or_pass r | None \<Rightarrow> True)"

text \<open>
  A red and a green run that count for the ticket, under one attempt (or none), of one recorded verifier, on two
  recorded and different subjects.
\<close>

definition red_green :: "attempt list \<Rightarrow> string \<Rightarrow> event \<Rightarrow> event \<Rightarrow> bool" where
  "red_green own tid e1 e2 \<longleftrightarrow>
     (case (counted_evidence own tid e1, counted_evidence own tid e2) of
        (Some r1, Some r2) \<Rightarrow>
          \<not> or_pass r1 \<and> or_pass r2 \<and> producer own (ev_id e1) = producer own (ev_id e2) \<and>
          recorded (it_verifier r1) \<and> it_verifier r1 = it_verifier r2 \<and>
          recorded (it_subject r1) \<and> recorded (it_subject r2) \<and> it_subject r1 \<noteq> it_subject r2
      | _ \<Rightarrow> False)"

lemma latest_open_le: "latest_open own \<le> n \<longleftrightarrow> list_all (\<lambda>rec. at_open rec \<le> n) own"
proof -
  have "foldl max k (map at_open own) \<le> n \<longleftrightarrow> k \<le> n \<and> list_all (\<lambda>rec. at_open rec \<le> n) own" for k
    by (induction own arbitrary: k) auto
  then show ?thesis by (simp add: latest_open_def)
qed

lemma tie_counted:
  "tie own tid ev = map_option (\<lambda>r. oracle_record.extend r \<lparr>or_attempt = producer own (ev_id ev)\<rparr>) (counted_evidence own tid ev)"
  using latest_open_le [of own "ev_id ev"] by (auto simp: tie_def counted_evidence_def not_less [symmetric])

lemma extend_fields [simp]:
  "or_pass (oracle_record.extend r m) = or_pass r" "it_verifier (oracle_record.extend r m) = it_verifier r"
  "it_subject (oracle_record.extend r m) = it_subject r"
  by (simp_all add: oracle_record.defs)

lemma extend_attempt [simp]: "or_attempt (oracle_record.extend r \<lparr>or_attempt = a\<rparr>) = a"
  by (simp add: oracle_record.defs)

lemma pair_admissible:
  "\<not> or_pass r1 \<Longrightarrow> or_pass r2 \<Longrightarrow> regression_pair_verdict (oracle_record.truncate r1) (oracle_record.truncate r2) = ADMISSIBLE \<longleftrightarrow>
     recorded (it_verifier r1) \<and> it_verifier r1 = it_verifier r2 \<and>
     recorded (it_subject r1) \<and> recorded (it_subject r2) \<and> it_subject r1 \<noteq> it_subject r2"
  by (auto simp: regression_pair_verdict_def)

lemma map_filter_green: "list_all or_pass (List.map_filter (tie own tid) evs) \<longleftrightarrow> list_all (green own tid) evs"
  by (induction evs) (auto simp: green_def tie_counted split: option.splits)

lemma tie_none: "tie own tid ev = None \<longleftrightarrow> counted_evidence own tid ev = None"
  by (simp add: tie_counted)

lemma admissible_events:
  "admissible_records (List.map_filter (tie own tid) evs) \<longleftrightarrow>
     (\<exists>xs red ys grn zs. evs = xs @ red # ys @ grn # zs \<and> red_green own tid red grn \<and>
       list_all (green own tid) ys \<and> list_all (\<lambda>ev. counted_evidence own tid ev = None) zs)"
proof
  assume "admissible_records (List.map_filter (tie own tid) evs)"
  then obtain us r1 vs r2 where r: "List.map_filter (tie own tid) evs = us @ r1 # vs @ [r2]" "\<not> or_pass r1" "or_pass r2"
      "list_all or_pass vs" "or_attempt r1 = or_attempt r2"
      "regression_pair_verdict (oracle_record.truncate r1) (oracle_record.truncate r2) = ADMISSIBLE"
    unfolding admissible_records_def by blast
  from filtered_split [OF r(1)] obtain xs red rest
    where a: "evs = xs @ red # rest" "tie own tid red = Some r1" "List.map_filter (tie own tid) rest = vs @ [r2]" by blast
  from filtered_split [OF a(3)] obtain ys grn zs
    where b: "rest = ys @ grn # zs" "tie own tid grn = Some r2" "List.map_filter (tie own tid) ys = vs"
      "List.map_filter (tie own tid) zs = []" by blast
  from r a(2) b(2) have "red_green own tid red grn" by (auto simp add: red_green_def pair_admissible tie_counted)
  with a b r(4) show "\<exists>xs red ys grn zs. evs = xs @ red # ys @ grn # zs \<and> red_green own tid red grn \<and>
       list_all (green own tid) ys \<and> list_all (\<lambda>ev. counted_evidence own tid ev = None) zs"
    unfolding map_filter_empty tie_none map_filter_green [symmetric] by blast
next
  assume "\<exists>xs red ys grn zs. evs = xs @ red # ys @ grn # zs \<and> red_green own tid red grn \<and>
       list_all (green own tid) ys \<and> list_all (\<lambda>ev. counted_evidence own tid ev = None) zs"
  then obtain xs red ys grn zs where e: "evs = xs @ red # ys @ grn # zs" "red_green own tid red grn"
      "list_all (green own tid) ys" "list_all (\<lambda>ev. counted_evidence own tid ev = None) zs" by blast
  from e(2) obtain r1 r2 where t: "tie own tid red = Some r1" "tie own tid grn = Some r2" "\<not> or_pass r1" "or_pass r2"
    by (auto simp: red_green_def tie_counted split: option.splits)
  have "List.map_filter (tie own tid) evs =
      List.map_filter (tie own tid) xs @ r1 # List.map_filter (tie own tid) ys @ [r2]"
    by (simp add: e(1) map_filter_append t e(4) map_filter_empty tie_none)
  moreover have "regression_pair_verdict (oracle_record.truncate r1) (oracle_record.truncate r2) = ADMISSIBLE"
    "or_attempt r1 = or_attempt r2"
    using e(2) t by (auto simp add: red_green_def pair_admissible tie_counted)
  moreover have "list_all or_pass (List.map_filter (tie own tid) ys)" unfolding map_filter_green by (rule e(3))
  ultimately show "admissible_records (List.map_filter (tie own tid) evs)"
    using t unfolding admissible_records_def by blast
qed

lemma latest_cycle_exact:
  "latest_cycle tid evs cycle \<longleftrightarrow> (\<exists>i. last_index (\<lambda>ev. counted_run tid ev \<and> is_verify_boundary ev) evs = Some i \<and> cycle = drop i evs)"
proof
  assume "latest_cycle tid evs cycle"
  then obtain old b rest where c: "evs = old @ cycle" "cycle = b # rest" "opens_cycle tid b" "list_all (\<lambda>ev. \<not> opens_cycle tid ev) rest"
    unfolding latest_cycle_def by blast
  then have "last_index (\<lambda>ev. counted_run tid ev \<and> is_verify_boundary ev) evs = Some (length old)"
    using last_index_at [of "opens_cycle tid" b rest old] by (simp add: opens_cycle_def [abs_def])
  with c(1) show "\<exists>i. last_index (\<lambda>ev. counted_run tid ev \<and> is_verify_boundary ev) evs = Some i \<and> cycle = drop i evs"
    by (intro exI [of _ "length old"]) simp
next
  assume "\<exists>i. last_index (\<lambda>ev. counted_run tid ev \<and> is_verify_boundary ev) evs = Some i \<and> cycle = drop i evs"
  then obtain i where i: "last_index (opens_cycle tid) evs = Some i" "cycle = drop i evs"
    by (auto simp: opens_cycle_def [abs_def])
  from last_index_Some [OF i(1)] i(2) have "evs = take i evs @ cycle" "cycle = evs ! i # drop (Suc i) evs"
    by (simp_all add: Cons_nth_drop_Suc)
  with last_index_Some [OF i(1)] show "latest_cycle tid evs cycle" unfolding latest_cycle_def by blast
qed

text \<open>
  C26: the regression gate admits a ticket exactly when the Attempt history is sound and the latest VERIFY cycle
  holds a red run and a later green run, under tags that do not read as typed by hand and since the last attempt opened, of the same recorded
  verifier on two recorded and different subjects under the same attempt, where the red one is the last red one
  and the green one the last record of the cycle.
\<close>

theorem regression_gate_exact:
  "regression_evidence prov tid evs = Judged ADMISSIBLE \<longleftrightarrow>
     tid \<noteq> [] \<and> snd (build_attempts prov evs) = [] \<and>
     (\<exists>cycle. latest_cycle tid evs cycle \<and>
       (let own = own_attempts tid (fst (build_attempts prov evs)) in
         \<exists>xs red ys grn zs. cycle = xs @ red # ys @ grn # zs \<and> red_green own tid red grn \<and>
           list_all (green own tid) ys \<and> list_all (\<lambda>ev. counted_evidence own tid ev = None) zs))"
proof -
  obtain rs es where b: "build_attempts prov evs = (rs, es)" by (cases "build_attempts prov evs")
  show ?thesis
    unfolding latest_cycle_exact b fst_conv snd_conv Let_def admissible_events [symmetric] judge_admissible [symmetric]
    by (auto simp: regression_evidence_def b split: option.splits)
qed

end
