(* ===== verification/StateContract.thy ===== *)
theory StateContract
  imports Frontmatter Phases Stamps Evidence
begin

text \<open>
  The field contract of STATE (\<open>state.py\<close>): the closed \<open>WAIT\<close> grammar and when a wait binds,
  \<open>state_contract_errors\<close>, the strict read \<open>parse_state_or_error\<close> and the transition of the execution intent.
  What the running install answers (protocol major, schema revision, voice marker, whether a home is its own)
  is the record \<open>install\<close>.  An error keeps the field it is about, not the prose.
\<close>

section \<open>Registry facts\<close>

definition STATE_REQUIRED_FIELDS :: "string list" where
  "STATE_REQUIRED_FIELDS =
     [''phase'', ''task'', ''next_action'', ''blocker'', ''agent'', ''saipen_version'', ''mode'', ''updated'']"

definition STATE_KNOWN_FIELDS :: "string list" where
  "STATE_KNOWN_FIELDS =
     [''phase'', ''task'', ''attempt'', ''next_action'', ''blocker'', ''agent'', ''saipen_version'', ''schema_version'',
      ''saipen_home'', ''requires'', ''mode'', ''execution_intent'', ''converge_target'', ''goal_mode'', ''goal_waves'',
      ''goal_tickets'', ''last_event'', ''style_contract'', ''updated'', ''human_note'', ''first_publish_confirmation'',
      ''role_revision'', ''paused_from_phase'', ''paused_from_na'', ''transition_from'', ''stop_reason'',
      ''improve_gate'', ''goal_ingress'', ''continuation_authority'', ''authority_source'', ''authority_until'',
      ''safety_valve_mode'']"

definition STATE_STRING_FIELDS :: "string list" where
  "STATE_STRING_FIELDS =
     [''task'', ''attempt'', ''next_action'', ''blocker'', ''agent'', ''saipen_home'', ''style_contract'', ''updated'',
      ''human_note'', ''first_publish_confirmation'', ''role_revision'', ''paused_from_phase'', ''paused_from_na'',
      ''stop_reason'', ''improve_gate'', ''continuation_authority'', ''authority_source'', ''authority_until'',
      ''safety_valve_mode'']"

definition STATE_INTEGER_FIELDS :: "(string \<times> int option) list" where
  "STATE_INTEGER_FIELDS =
     [(''saipen_version'', None), (''schema_version'', Some 1), (''goal_waves'', Some 0), (''goal_tickets'', Some 0),
      (''last_event'', Some 1)]"

definition STATE_MODE_ENUM :: "string list" where
  "STATE_MODE_ENUM = [''full'', ''read-only'', ''no-publish'', ''manual-verify'']"

definition STATE_INTENT_ENUM :: "string list" where
  "STATE_INTENT_ENUM = [''normal'', ''goal'', ''converge'']"

definition STATE_CONVERGE_TARGETS :: "string list" where
  "STATE_CONVERGE_TARGETS = [''done'', ''ship'', ''crew'']"

definition WAIT_CATEGORIES :: "string list" where
  "WAIT_CATEGORIES =
     [''manual-verify'', ''destructive-op'', ''first-publish'', ''user brake'', ''blocked'', ''safety valve'', ''init'']"

section \<open>The \<open>WAIT\<close> grammar\<close>

text \<open>\<open>^safety valve reached \((\d+) waves / (\d+) tickets\) -- run 'cc' to continue$\<close>.\<close>

definition safety_valve_re :: "string \<Rightarrow> bool" where
  "safety_valve_re s \<longleftrightarrow>
     (let p1 = ''safety valve reached (''; p2 = '' waves / '';
          p3 = '' tickets) -- run '' @ [CHR 39] @ ''cc'' @ [CHR 39] @ '' to continue'' in
      startswith s p1 \<and>
      (case span is_digit (drop (length p1) s) of (waves, r1) \<Rightarrow>
         waves \<noteq> [] \<and> startswith r1 p2 \<and>
         (case span is_digit (drop (length p2) r1) of (tickets, r2) \<Rightarrow>
            tickets \<noteq> [] \<and> startswith r2 p3 \<and> drop (length p3) r2 \<in> {[], [CHR 10]})))"

definition MARKHUNT_BRAKE :: string where
  "MARKHUNT_BRAKE = ''WAIT: blocked -- untriaged MARKHUNT findings in ## BLOCKED; triage into ## TODO or dismiss''"

definition progress_tag_re :: rx where
  "progress_tag_re =
     seqs [spaces, lit ''['', Many (Ch (\<lambda>c. c \<noteq> CHR '']'')), lit '']'', spaces, Finish]"

definition second_sentence_re :: rx where
  "second_sentence_re = seqs [lit ''.'', spaces1, Ahead (Ch (\<lambda>c. is_upper c \<or> c = CHR 96))]"

definition wait_body :: "string \<Rightarrow> string" where
  "wait_body na = rx_sub progress_tag_re [] (strip (drop (length ''WAIT:'') (strip na)))"

datatype wait_error =
    Not_A_Wait
  | No_Category
  | Many_Lines
  | No_Delimiter
  | Unknown_Category string
  | Empty_Question
  | Second_Sentence

text \<open>\<open>partition\<close> at the first \<open> -- \<close>.\<close>

definition wait_parts :: "string \<Rightarrow> (string \<times> string) option" where
  "wait_parts body =
     (let sep = '' -- ''; head = hd (split_str sep body) in
      if substring sep body then Some (head, drop (length head + length sep) body) else None)"

definition wait_grammar_error :: "string \<Rightarrow> wait_error option" where
  "wait_grammar_error na =
     (let body = wait_body na in
      if \<not> startswith (strip na) ''WAIT:'' then Some Not_A_Wait
      else if body = [] then Some No_Category
      else if CHR 10 \<in> set body then Some Many_Lines
      else if safety_valve_re body then None
      else case wait_parts body of
        None \<Rightarrow> Some No_Delimiter
      | Some (head, tail) \<Rightarrow>
          if lower (strip head) \<notin> set WAIT_CATEGORIES then Some (Unknown_Category (strip head))
          else if strip tail = [] then Some Empty_Question
          else if rx_search second_sentence_re (strip tail) then Some Second_Sentence
          else None)"

definition parse_wait :: "string \<Rightarrow> string option" where
  "parse_wait na =
     (if wait_grammar_error na \<noteq> None then None
      else if safety_valve_re (wait_body (strip na)) then Some ''safety valve''
      else Some (lower (strip (hd (split_str '' -- '' (wait_body (strip na)))))))"

definition safety_valve_resume_key :: "string \<Rightarrow> string option" where
  "safety_valve_resume_key na =
     (if startswith (strip na) ''WAIT:'' \<and> safety_valve_re (wait_body (strip na)) then Some ''cc'' else None)"

text \<open>The brake a wait is in its context; at \<open>DONE\<close> with an empty \<open>## TODO\<close> only three forms bind.\<close>

definition binding_wait :: "string \<Rightarrow> string \<Rightarrow> bool \<Rightarrow> string option" where
  "binding_wait na phase empty_todo =
     (case parse_wait na of
        None \<Rightarrow> None
      | Some category \<Rightarrow>
          if \<not> (phase = ''DONE'' \<and> empty_todo) then Some category
          else if category = ''safety valve'' then
            (if safety_valve_resume_key (strip na) = Some ''cc'' then Some ''safety valve'' else None)
          else if rx_sub progress_tag_re [] (strip na) = MARKHUNT_BRAKE then Some ''markhunt''
          else if category = ''user brake'' then Some ''user brake''
          else None)"

section \<open>Values\<close>

definition has_field :: "state_fields \<Rightarrow> string \<Rightarrow> bool" where
  "has_field fs key \<longleftrightarrow> dict_get fs key \<noteq> None"

definition is_text_value :: "sval \<Rightarrow> bool" where
  "is_text_value v = (case v of Scalar (SStr _) \<Rightarrow> True | _ \<Rightarrow> False)"

text \<open>An integer that is no Boolean.\<close>

definition plain_int :: "sval \<Rightarrow> int option" where
  "plain_int v = (case v of Scalar (SInt n) \<Rightarrow> Some n | _ \<Rightarrow> None)"

text \<open>Equality with an integer; \<open>True == 1\<close> holds.\<close>

definition equals_int :: "sval option \<Rightarrow> int \<Rightarrow> bool" where
  "equals_int v n = (case v of Some (Scalar (SInt k)) \<Rightarrow> k = n | Some (Scalar (SBool b)) \<Rightarrow> n = of_bool b | _ \<Rightarrow> False)"

text \<open>A field that is present, as a text in a closed list.\<close>

definition in_enum :: "state_fields \<Rightarrow> string \<Rightarrow> string list \<Rightarrow> bool" where
  "in_enum fs key enum \<longleftrightarrow> (case state_string fs key of Some s \<Rightarrow> s \<in> set enum | None \<Rightarrow> False)"

text \<open>The prefix and then at least \<open>n\<close> digits, the whole text.\<close>

definition numbered_id :: "string \<Rightarrow> nat \<Rightarrow> string \<Rightarrow> bool" where
  "numbered_id p n s \<longleftrightarrow> startswith s p \<and> n \<le> length (drop (length p) s) \<and> list_all is_digit (drop (length p) s)"

section \<open>Continuation authority\<close>

definition AUTHORITY_FIELDS :: "string list" where
  "AUTHORITY_FIELDS = [''continuation_authority'', ''authority_source'', ''authority_until'', ''safety_valve_mode'']"

datatype authority_error =
    Only_With_Goal
  | Incomplete_Family
  | Outside_Closed_Enum string
  | Inconsistent_Tuple
  | Bad_Authority_Source
  | No_Goal_Ingress

definition authority_source_re :: "string \<Rightarrow> bool" where
  "authority_source_re s \<longleftrightarrow>
     list_ex (\<lambda>p. numbered_id p 1 s \<and> list_ex (\<lambda>c. c \<noteq> CHR ''0'') (drop (length p) s)) [''E-'', ''SRC-'']"

definition goal_ingress_re :: "string \<Rightarrow> bool" where
  "goal_ingress_re s \<longleftrightarrow> startswith s ''goal-'' \<and> length s = 21 \<and> list_all is_hex (drop 5 s)"

definition authority_tuple_error :: "state_fields \<Rightarrow> authority_error option" where
  "authority_tuple_error fs =
     (case find (\<lambda>(key, enum). \<not> in_enum fs key enum)
        [(''continuation_authority'', [''operator_required'', ''operator_persistent'']),
         (''authority_until'', [''budget'', ''goal_complete'', ''continuous_maintenance'']),
         (''safety_valve_mode'', [''hard_wait'', ''checkpoint''])] of
        Some (key, _) \<Rightarrow> Some (Outside_Closed_Enum key)
      | None \<Rightarrow>
          let persistent = state_string fs ''continuation_authority'' = Some ''operator_persistent'' in
          if \<not> in_enum fs ''authority_until'' (if persistent then [''goal_complete'', ''continuous_maintenance''] else [''budget'']) \<or>
             \<not> in_enum fs ''safety_valve_mode'' (if persistent then [''checkpoint''] else [''hard_wait''])
          then Some Inconsistent_Tuple
          else if \<not> (case state_string fs ''authority_source'' of Some s \<Rightarrow> authority_source_re s | None \<Rightarrow> False)
          then Some Bad_Authority_Source
          else if persistent \<and> \<not> (case state_string fs ''goal_ingress'' of Some s \<Rightarrow> goal_ingress_re s | None \<Rightarrow> False)
          then Some No_Goal_Ingress
          else None)"

definition shape_errors :: "state_fields \<Rightarrow> authority_error list" where
  "shape_errors fs =
     (let present = filter (has_field fs) AUTHORITY_FIELDS in
      if present = [] then []
      else if state_string fs ''execution_intent'' \<noteq> Some ''goal'' then [Only_With_Goal]
      else if length present \<noteq> length AUTHORITY_FIELDS then [Incomplete_Family]
      else case authority_tuple_error fs of Some e \<Rightarrow> [e] | None \<Rightarrow> [])"

section \<open>The contract\<close>

datatype contract_error =
    Missing_Field string
  | Unknown_State_Field string
  | Not_A_String string
  | Outside_Enum string
  | Bad_Identity string
  | Not_An_Integer string
  | Below_Minimum string int
  | Requires_Not_Array
  | Requires_Items
  | Goal_Mode_Not_Bool
  | Authority authority_error
  | Intent_Lacks string
  | Intent_Forbids string
  | Missing_Transition_From
  | From_Outside_Enum string
  | Invalid_Transition string string
  | Bad_Updated string
  | Malformed_Wait wait_error
  | Newer_Protocol int
  | Style_Mismatch
  | Style_Missing

text \<open>A list is looked up in a frozen set of phases.\<close>

datatype type_error = Unhashable

record install =
  ins_major :: "int option"
  ins_schema :: "int option"
  ins_style :: "string option"
  ins_own_home :: "string \<Rightarrow> bool"

definition presence_errors :: "state_fields \<Rightarrow> contract_error list" where
  "presence_errors fs =
     map Missing_Field (filter (\<lambda>key. \<not> has_field fs key) STATE_REQUIRED_FIELDS) @
     List.map_filter (\<lambda>(key, v).
       if key \<notin> set STATE_KNOWN_FIELDS then Some (Unknown_State_Field key)
       else if key \<in> set STATE_STRING_FIELDS \<and> \<not> is_text_value v then Some (Not_A_String key)
       else None) fs"

definition enum_errors :: "state_fields \<Rightarrow> contract_error list" where
  "enum_errors fs =
     (let outside = (\<lambda>key enum. if has_field fs key \<and> \<not> in_enum fs key enum then [Outside_Enum key] else []);
          identity = (\<lambda>key p n. if has_field fs key \<and>
            \<not> (case state_string fs key of Some s \<Rightarrow> numbered_id p n s | None \<Rightarrow> False) then [Bad_Identity key] else [])
      in outside ''phase'' ALL_PHASES @ identity ''attempt'' ''A-'' 3 @ outside ''transition_from'' ALL_PHASES @
         outside ''mode'' STATE_MODE_ENUM @ outside ''execution_intent'' STATE_INTENT_ENUM @
         outside ''converge_target'' STATE_CONVERGE_TARGETS @ identity ''improve_gate'' ''T-'' 1)"

definition number_errors :: "state_fields \<Rightarrow> contract_error list" where
  "number_errors fs =
     List.map_filter (\<lambda>(key, minimum).
       case dict_get fs key of
         None \<Rightarrow> None
       | Some v \<Rightarrow>
           (case plain_int v of
              None \<Rightarrow> Some (Not_An_Integer key)
            | Some n \<Rightarrow> (case minimum of Some m \<Rightarrow> if n < m then Some (Below_Minimum key n) else None | None \<Rightarrow> None)))
       STATE_INTEGER_FIELDS"

definition shape_of_rest :: "state_fields \<Rightarrow> contract_error list" where
  "shape_of_rest fs =
     (case dict_get fs ''requires'' of
        None \<Rightarrow> []
      | Some (SList vs) \<Rightarrow> if list_ex (\<lambda>v. case v of SStr _ \<Rightarrow> False | _ \<Rightarrow> True) vs then [Requires_Items] else []
      | Some _ \<Rightarrow> [Requires_Not_Array]) @
     (case dict_get fs ''goal_mode'' of
        None \<Rightarrow> [] | Some (Scalar (SBool _)) \<Rightarrow> [] | Some _ \<Rightarrow> [Goal_Mode_Not_Bool]) @
     map Authority (shape_errors fs)"

definition intent_errors :: "state_fields \<Rightarrow> contract_error list" where
  "intent_errors fs =
     (let lacks = (\<lambda>key. if has_field fs key then [] else [Intent_Lacks key]);
          forbids = (\<lambda>key. if has_field fs key then [Intent_Forbids key] else []) in
      if state_string fs ''execution_intent'' = Some ''goal''
      then lacks ''goal_waves'' @ lacks ''goal_tickets'' @ forbids ''converge_target''
      else if state_string fs ''execution_intent'' = Some ''converge''
      then lacks ''converge_target'' @ forbids ''goal_waves'' @ forbids ''goal_tickets''
      else if dict_get fs ''execution_intent'' = None \<or> state_string fs ''execution_intent'' = Some ''normal''
      then forbids ''goal_waves'' @ forbids ''goal_tickets'' @ forbids ''converge_target''
      else [])"

text \<open>The shape of a ticket parked from the middle of its run.\<close>

definition parked_shape :: "string \<Rightarrow> string \<Rightarrow> bool" where
  "parked_shape source destination \<longleftrightarrow>
     destination = ''DONE'' \<and> source \<in> {''SCOUT'', ''BUILD'', ''VERIFY'', ''REVIEW'', ''SHIP'', ''HUNT''}"

definition phase_row :: "string \<Rightarrow> string list" where
  "phase_row source = (case dict_get VALID_TRANSITIONS source of Some row \<Rightarrow> row | None \<Rightarrow> [])"

definition transition_errors :: "state_fields \<Rightarrow> type_error + contract_error list" where
  "transition_errors fs =
     (case dict_get fs ''phase'' of
        None \<Rightarrow> Inr []
      | Some ph \<Rightarrow>
          if ph = Scalar (SStr ''INIT'') then Inr []
          else if \<not> has_field fs ''transition_from'' then Inr [Missing_Transition_From]
          else case state_string fs ''transition_from'' of
            None \<Rightarrow> Inr []
          | Some tf \<Rightarrow>
              if tf \<notin> set ALL_PHASES \<and> tf \<notin> set ANY_FROM then Inr [From_Outside_Enum tf]
              else (case ph of
                SList _ \<Rightarrow> Inl Unhashable
              | Scalar (SStr p) \<Rightarrow>
                  Inr (if p \<noteq> tf \<and> p \<notin> set ANY_FROM \<and> \<not> parked_shape tf p \<and> p \<notin> set (phase_row tf)
                       then [Invalid_Transition tf p] else [])
              | Scalar _ \<Rightarrow> Inr [Invalid_Transition tf []]))"

definition text_errors :: "state_fields \<Rightarrow> contract_error list" where
  "text_errors fs =
     (case state_string fs ''updated'' of
        Some u \<Rightarrow> if strict_iso_utc u = [] then [Bad_Updated u] else []
      | None \<Rightarrow> []) @
     (case state_string fs ''next_action'' of
        Some na \<Rightarrow>
          if startswith (strip na) ''WAIT:''
          then (case wait_grammar_error na of Some e \<Rightarrow> [Malformed_Wait e] | None \<Rightarrow> []) else []
      | None \<Rightarrow> [])"

definition version_errors :: "int option \<Rightarrow> state_fields \<Rightarrow> contract_error list" where
  "version_errors major fs =
     (case (major, Option.bind (dict_get fs ''saipen_version'') plain_int) of
        (Some m, Some n) \<Rightarrow> if m < n then [Newer_Protocol n] else []
      | _ \<Rightarrow> [])"

definition style_errors :: "string option \<Rightarrow> int option \<Rightarrow> state_fields \<Rightarrow> contract_error list" where
  "style_errors style schema fs =
     (case style of
        None \<Rightarrow> []
      | Some token \<Rightarrow>
          (case dict_get fs ''style_contract'' of
             Some v \<Rightarrow> if v \<noteq> Scalar (SStr token) then [Style_Mismatch] else []
           | None \<Rightarrow>
               (case schema of
                  Some n \<Rightarrow> if equals_int (dict_get fs ''schema_version'') n then [Style_Missing] else []
                | None \<Rightarrow> [])))"

definition state_contract_errors ::
    "int option \<Rightarrow> string option \<Rightarrow> int option \<Rightarrow> state_fields \<Rightarrow> type_error + contract_error list" where
  "state_contract_errors major style schema fs =
     map_sum id (\<lambda>moves. presence_errors fs @ enum_errors fs @ number_errors fs @ shape_of_rest fs @ intent_errors fs @
       moves @ text_errors fs @ version_errors major fs @ style_errors style schema fs)
     (transition_errors fs)"

section \<open>Strict reads\<close>

text \<open>\<open>is_absolute_home\<close>: POSIX, drive or UNC, whatever the host.\<close>

definition is_absolute_home :: "string \<Rightarrow> bool" where
  "is_absolute_home value =
     (let t = strip value; sep = (\<lambda>c. c = CHR ''/'' \<or> c = CHR 92) in
      t \<noteq> [] \<and>
      (startswith t ''/'' \<or>
       3 \<le> length t \<and> is_alpha (t ! 0) \<and> t ! 1 = CHR '':'' \<and> sep (t ! 2) \<or>
       list_ex (\<lambda>p. startswith t p \<and> (case drop (length p) t of [] \<Rightarrow> False | c # _ \<Rightarrow> \<not> sep c))
         [[CHR 92, CHR 92], ''//'', [CHR 92]]))"

datatype read_problem = Front state_error | Contract "contract_error list"

type_synonym state_read = "type_error + read_problem + state_fields"

definition checked :: "type_error + contract_error list \<Rightarrow> state_fields \<Rightarrow> state_read" where
  "checked r fs = (case r of Inl e \<Rightarrow> Inl e | Inr [] \<Rightarrow> Inr (Inr fs) | Inr es \<Rightarrow> Inr (Inl (Contract es)))"

definition own_style :: "install \<Rightarrow> state_fields \<Rightarrow> string option" where
  "own_style ins fs =
     (case state_string fs ''saipen_home'' of
        Some home \<Rightarrow> if strip home \<noteq> [] \<and> is_absolute_home home \<and> ins_own_home ins home then ins_style ins else None
      | None \<Rightarrow> None)"

definition parse_state_or_error :: "install \<Rightarrow> string \<Rightarrow> state_read" where
  "parse_state_or_error ins doc =
     (if strip doc = [] then Inr (Inr [])
      else case parse_frontmatter doc of
        Inl e \<Rightarrow> Inr (Inl (Front e))
      | Inr fs \<Rightarrow> checked (state_contract_errors (ins_major ins) (own_style ins fs) (ins_schema ins) fs) fs)"

text \<open>The left side stands for the surrogate with \<open>phase: CORRUPT\<close>.\<close>

definition parse_state :: "install \<Rightarrow> string \<Rightarrow> state_read" where
  "parse_state ins doc =
     (if strip doc = [] then Inr (Inr [])
      else case parse_frontmatter doc of
        Inl e \<Rightarrow> Inr (Inl (Front e))
      | Inr fs \<Rightarrow> checked (state_contract_errors (ins_major ins) None None fs) fs)"

section \<open>Hard stops\<close>

definition text_field :: "state_fields \<Rightarrow> string \<Rightarrow> string" where
  "text_field fs key = (case state_string fs key of Some s \<Rightarrow> s | None \<Rightarrow> [])"

datatype brake = Blocked_Phase | Blocker_Set | Wait_Binds

definition binding_brake :: "state_fields \<Rightarrow> bool \<Rightarrow> brake option" where
  "binding_brake fs empty_todo =
     (let phase = text_field fs ''phase''; blocker = strip (text_field fs ''blocker''); na = text_field fs ''next_action'' in
      if upper phase = ''BLOCKED'' then Some Blocked_Phase
      else if blocker \<noteq> [] \<and> lower blocker \<noteq> ''none'' then Some Blocker_Set
      else if startswith na ''WAIT:'' \<and> (case binding_wait na phase empty_todo of None \<Rightarrow> False | Some b \<Rightarrow> b \<noteq> [])
      then Some Wait_Binds
      else None)"

definition GOAL_WAVE_CAP :: int where
  "GOAL_WAVE_CAP = 3"

definition GOAL_TICKET_CAP :: int where
  "GOAL_TICKET_CAP = 20"

definition counter :: "state_fields \<Rightarrow> string \<Rightarrow> int" where
  "counter fs key = (case Option.bind (dict_get fs key) plain_int of Some n \<Rightarrow> n | None \<Rightarrow> 0)"

definition budget_exhausted :: "state_fields \<Rightarrow> bool" where
  "budget_exhausted fs \<longleftrightarrow> state_string fs ''execution_intent'' = Some ''goal'' \<and>
     (GOAL_WAVE_CAP \<le> counter fs ''goal_waves'' \<or> GOAL_TICKET_CAP \<le> counter fs ''goal_tickets'')"

definition valve_wait :: "int \<Rightarrow> int \<Rightarrow> string" where
  "valve_wait waves tickets =
     ''WAIT: safety valve reached ('' @ show_int waves @ '' waves / '' @ show_int tickets @
     '' tickets) -- run '' @ [CHR 39] @ ''cc'' @ [CHR 39] @ '' to continue''"

text \<open>A budget wait needs the counts reconstructed from the history.\<close>

definition goal_valve_wait_is_proven :: "state_fields \<Rightarrow> (string, int) dict option \<Rightarrow> bool" where
  "goal_valve_wait_is_proven fs counters =
     (case counters of
        None \<Rightarrow> False
      | Some cs \<Rightarrow>
          state_string fs ''execution_intent'' = Some ''goal'' \<and>
          list_all (\<lambda>key. case (Option.bind (dict_get fs key) plain_int, dict_get cs key) of
              (Some v, Some e) \<Rightarrow> 0 \<le> v \<and> v = e | _ \<Rightarrow> False) [''goal_waves'', ''goal_tickets''] \<and>
          budget_exhausted fs \<and>
          state_string fs ''next_action'' = Some (valve_wait (counter fs ''goal_waves'') (counter fs ''goal_tickets'')))"

section \<open>The transition of the execution intent\<close>

datatype intent_error =
    Intent_Outside_Enum
  | Target_Required
  | Target_Not_Legal
  | Negative_Counters
  | Patch_Failed state_error
  | Family_Mismatch "string list"
  | Read_Raised type_error

definition INTENT_FAMILY :: "string list" where
  "INTENT_FAMILY = [''execution_intent'', ''goal_mode'', ''goal_waves'', ''goal_tickets'', ''converge_target''] @ AUTHORITY_FIELDS"

definition intent_fields :: "string \<Rightarrow> string option \<Rightarrow> int \<Rightarrow> int \<Rightarrow> state_fields" where
  "intent_fields intent target waves tickets =
     (''execution_intent'', Scalar (SStr intent)) #
     (if intent = ''goal'' then [(''goal_waves'', Scalar (SInt waves)), (''goal_tickets'', Scalar (SInt tickets))]
      else if intent = ''converge''
      then (case target of Some t \<Rightarrow> [(''converge_target'', Scalar (SStr t))] | None \<Rightarrow> [])
      else [])"

definition expected_family :: "string \<Rightarrow> string list" where
  "expected_family intent =
     (if intent = ''goal'' then [''goal_waves'', ''goal_tickets'']
      else if intent = ''converge'' then [''converge_target''] else [])"

definition family_of :: "state_fields \<Rightarrow> string list" where
  "family_of fs = filter (has_field fs) [''goal_waves'', ''goal_tickets'', ''converge_target'']"

definition transition_execution_intent ::
    "install \<Rightarrow> string \<Rightarrow> string \<Rightarrow> string option \<Rightarrow> int \<Rightarrow> int \<Rightarrow> intent_error + string" where
  "transition_execution_intent ins doc intent target waves tickets =
     (if intent \<notin> set STATE_INTENT_ENUM then Inl Intent_Outside_Enum
      else if intent = ''converge'' \<and> \<not> (case target of Some t \<Rightarrow> t \<in> set STATE_CONVERGE_TARGETS | None \<Rightarrow> False)
      then Inl Target_Required
      else if intent \<noteq> ''converge'' \<and> target \<noteq> None then Inl Target_Not_Legal
      else if waves < 0 \<or> tickets < 0 then Inl Negative_Counters
      else case remove_state_fields doc INTENT_FAMILY of
        Inl e \<Rightarrow> Inl (Patch_Failed e)
      | Inr clean \<Rightarrow>
          (case patch_state clean (intent_fields intent target waves tickets) of
             Inl e \<Rightarrow> Inl (Patch_Failed e)
           | Inr result \<Rightarrow>
               (case parse_state ins result of
                  Inl e \<Rightarrow> Inl (Read_Raised e)
                | Inr read \<Rightarrow>
                    let family = (case read of Inr fs \<Rightarrow> family_of fs | Inl _ \<Rightarrow> []) in
                    if set family \<noteq> set (expected_family intent) then Inl (Family_Mismatch family) else Inr result)))"

end
