(* ===== verification/Ownership.thy ===== *)
theory Ownership
  imports StateContract Scheduling
begin

text \<open>
  The execution seat (\<open>ownership.py\<close>) and its consumers in \<open>operations.py\<close>: the classification of the active
  ticket, why a seat may not be preserved or handed over, the committed-state invariant, the gate of every
  active-ticket mutation and the seat a non-transferring one writes.  \<open>now\<close> is the instant of evaluation and an
  absent actor the empty string.
\<close>

section \<open>The classification\<close>

datatype seat_status = No_Active | Claimed_As claim

record seat =
  st_status :: seat_status
  st_active :: "string option"
  st_task :: "string option"
  st_agent :: "string option"
  st_owner :: "string option"
  st_claim_time :: "string option"
  st_bound :: bool
  st_misbound :: bool

definition non_blank :: "string \<Rightarrow> string option" where
  "non_blank s = (if strip s = [] then None else Some (strip s))"

definition state_task :: "state_fields \<Rightarrow> string option" where
  "state_task fs =
     (case state_string fs ''task'' of Some t \<Rightarrow> if t = ''none'' \<or> t = [] then None else Some t | None \<Rightarrow> None)"

definition doing_tickets :: "tickets \<Rightarrow> ticket list" where
  "doing_tickets ts = filter (\<lambda>t. tk_section t = ''## DOING'') (map snd ts)"

text \<open>\<open>locked_out\<close> is the session check of the seat-taking paths; without a root it is never true.\<close>

definition classify_active_ownership ::
    "(ticket \<Rightarrow> bool) \<Rightarrow> state_fields \<Rightarrow> tickets \<Rightarrow> string \<Rightarrow> nat \<Rightarrow> seat" where
  "classify_active_ownership locked_out fs ts actor now =
     (let task = state_task fs; agent = non_blank (text_field fs ''agent'') in
      case doing_tickets ts of
        [] \<Rightarrow> \<lparr>st_status = No_Active, st_active = None, st_task = task, st_agent = agent, st_owner = None,
              st_claim_time = None, st_bound = False, st_misbound = (task \<noteq> None)\<rparr>
      | t # _ \<Rightarrow>
          let c = claim_status t actor now in
          \<lparr>st_status = Claimed_As (if c = SELF \<and> locked_out t then FOREIGN_LIVE else c), st_active = Some (tk_id t),
           st_task = task, st_agent = agent,
           st_owner = non_blank (case dict_get (tk_fields t) ''owner'' of Some v \<Rightarrow> v | None \<Rightarrow> []),
           st_claim_time = non_blank (case dict_get (tk_fields t) ''claim_time'' of Some v \<Rightarrow> v | None \<Rightarrow> []),
           st_bound = (task = Some (tk_id t)), st_misbound = (task \<noteq> None \<and> task \<noteq> Some (tk_id t))\<rparr>)"

definition may_mutate_active :: "seat \<Rightarrow> bool" where
  "may_mutate_active s \<longleftrightarrow> st_status s = No_Active \<or> st_status s = Claimed_As SELF"

definition requires_adoption :: "seat \<Rightarrow> bool" where
  "requires_adoption s \<longleftrightarrow> st_status s = Claimed_As UNCLAIMED \<or> st_status s = Claimed_As FOREIGN_STALE"

section \<open>Errors\<close>

datatype ownership_error =
    Invalid_Claim string
  | Owner_Split string string

text \<open>A corrupt seat may not be preserved.\<close>

definition preexisting_split_error :: "seat \<Rightarrow> string option \<Rightarrow> ownership_error option" where
  "preexisting_split_error s seated =
     (if st_status s = Claimed_As INVALID then Some (Invalid_Claim (the (st_active s)))
      else case (st_active s, st_owner s, seated) of
        (Some _, Some owner, Some sd) \<Rightarrow> if sd \<noteq> [] \<and> sd \<noteq> owner then Some (Owner_Split sd owner) else None
      | _ \<Rightarrow> None)"

definition ownership_invariant_errors :: "state_fields \<Rightarrow> tickets \<Rightarrow> string \<Rightarrow> nat \<Rightarrow> ownership_error list" where
  "ownership_invariant_errors fs ts actor now =
     (let s = classify_active_ownership (\<lambda>_. False) fs ts actor now in
      case st_active s of
        None \<Rightarrow> []
      | Some active \<Rightarrow>
          if \<not> st_bound s then []
          else if st_status s = Claimed_As INVALID then [Invalid_Claim active]
          else case (st_owner s, st_agent s) of
            (Some owner, Some agent) \<Rightarrow> if owner \<noteq> agent then [Owner_Split agent owner] else []
          | _ \<Rightarrow> [])"

datatype handover_error = Foreign_Live_Seat string | Invalid_Seat string

definition handover_refusal_detail :: "seat \<Rightarrow> handover_error option" where
  "handover_refusal_detail s =
     (case st_active s of
        None \<Rightarrow> None
      | Some active \<Rightarrow>
          if st_status s = Claimed_As FOREIGN_LIVE then Some (Foreign_Live_Seat active)
          else if st_status s = Claimed_As INVALID then Some (Invalid_Seat active)
          else None)"

section \<open>The gate of the engine's operations\<close>

datatype refusal_code =
    TICKET_NOT_WORKABLE
  | VALIDATION_FAILED
  | ACTIVE_TICKET_MISMATCH
  | TICKET_NOT_FOUND
  | ILLEGAL_TRANSITION
  | INCOMPLETE_TICKET
  | OPERATOR_DECISION_REQUIRED
  | Other_Refusal string

definition active_claim_refusal :: "state_fields \<Rightarrow> string \<Rightarrow> string \<Rightarrow> nat \<Rightarrow> refusal_code option" where
  "active_claim_refusal fs board_doc agent now =
     (case state_task fs of
        None \<Rightarrow> None
      | Some active \<Rightarrow>
          let ts = w_tickets (parse_board board_doc) in
          (case dict_get ts active of
             None \<Rightarrow> None
           | Some t \<Rightarrow>
               if tk_section t \<noteq> ''## DOING'' then None
               else let s = classify_active_ownership (\<lambda>_. False) fs ts agent now in
                 if st_active s \<noteq> Some active then None
                 else if may_mutate_active s then None
                 else if st_status s = Claimed_As INVALID then Some VALIDATION_FAILED
                 else Some TICKET_NOT_WORKABLE))"

text \<open>What a mutation that moves no seat writes as \<open>STATE.agent\<close>; a corrupt seat raises.\<close>

definition seat_agent :: "state_fields \<Rightarrow> string \<Rightarrow> string \<Rightarrow> nat \<Rightarrow> ownership_error + string" where
  "seat_agent fs board_doc agent now =
     (let seated = state_string fs ''agent'';
          s = classify_active_ownership (\<lambda>_. False) fs (w_tickets (parse_board board_doc)) agent now in
      case preexisting_split_error s seated of
        Some e \<Rightarrow> Inl e
      | None \<Rightarrow> (case seated of Some sd \<Rightarrow> if sd \<noteq> [] then Inr sd else Inr agent | None \<Rightarrow> Inr agent))"

end
