(* ===== verification/Floor.thy ===== *)
theory Floor
  imports Evidence Board
begin

text \<open>
  The raw falsifiers of \<open>floor.py\<close>: scans of the canonical texts that share nothing with the parsers they
  check.  An error keeps the line or the identity it names.
\<close>

section \<open>Lines of a text under \<open>(?m)\<close>\<close>

text \<open>The rest of the text from every line start on.\<close>

fun after_newlines :: "string \<Rightarrow> string list" where
  "after_newlines [] = []"
| "after_newlines (c # s) = (if c = CHR 10 then s # after_newlines s else after_newlines s)"

definition line_starts :: "string \<Rightarrow> string list" where
  "line_starts s = s # after_newlines s"

definition first_some :: "('a \<Rightarrow> 'b option) \<Rightarrow> 'a list \<Rightarrow> 'b option" where
  "first_some f xs = (case List.map_filter f xs of [] \<Rightarrow> None | y # _ \<Rightarrow> Some y)"

section \<open>The board\<close>

datatype floor_error =
    Two_Openers nat nat
  | Floor_Duplicate nat string
  | Not_Increasing nat string
  | No_Doing string
  | Empty_Doing string
  | Many_Doing string
  | Other_Doing string string

text \<open>\<open>- \[[ xX/]\]\s+[A-Z]+-\d+\<close>.\<close>

definition opener_re :: rx where
  "opener_re = seqs [lit ''- ['', one_of '' xX/'', lit '']'', spaces1, Some_Of (Ch is_upper), lit ''-'', number_rx]"

definition board_floor :: "string \<Rightarrow> floor_error list" where
  "board_floor doc =
     List.map_filter (\<lambda>(n, line).
       let openers = length (rx_findall opener_re line) in if 1 < openers then Some (Two_Openers n openers) else None)
     (numbered (splitlines doc))"

section \<open>The ledger\<close>

text \<open>The first \<open>\[(E-(\d+))\]\<close> of a line, as its digits.\<close>

fun raw_event_id :: "string \<Rightarrow> string option" where
  "raw_event_id [] = None"
| "raw_event_id (c # s) =
     (let rest = drop 3 (c # s); ds = takeWhile is_digit rest in
      if startswith (c # s) ''[E-'' \<and> ds \<noteq> [] \<and> startswith (drop (length ds) rest) '']'' then Some ds
      else raw_event_id s)"

text \<open>The loop: identities met so far and the last number, \<open>-1\<close> at first.\<close>

fun log_floor_from :: "string list \<Rightarrow> int \<Rightarrow> (nat \<times> string) list \<Rightarrow> floor_error list" where
  "log_floor_from seen last_id [] = []"
| "log_floor_from seen last_id ((n, line) # ls) =
     (case raw_event_id line of
        None \<Rightarrow> log_floor_from seen last_id ls
      | Some ds \<Rightarrow>
          (if ds \<in> set seen then [Floor_Duplicate n ds]
           else if int (digits_value ds) \<le> last_id then [Not_Increasing n ds] else []) @
          log_floor_from (ds # seen) (int (digits_value ds)) ls)"

definition log_floor :: "string \<Rightarrow> floor_error list" where
  "log_floor doc = log_floor_from [] (-1) (numbered (splitlines doc))"

section \<open>STATE against BOARD\<close>

text \<open>
  \<open>^task:\s*(\S+)\s*$\<close> from a line start on: the token is followed by blanks up to a line feed or the end.
\<close>

definition task_at :: "string \<Rightarrow> string option" where
  "task_at s =
     (if startswith s ''task:'' then
        (case span (\<lambda>c. \<not> is_space c) (lstrip (drop 5 s)) of (tok, rest) \<Rightarrow>
           (case span is_space rest of (blanks, trail) \<Rightarrow>
              if tok \<noteq> [] \<and> (CHR 10 \<in> set blanks \<or> trail = []) then Some tok else None))
      else None)"

text \<open>\<open>[A-Z]+-\d+\<close> at the start of a text.\<close>

definition identity_at :: "string \<Rightarrow> (string \<times> string) option" where
  "identity_at s =
     (case span is_upper s of (word, rest) \<Rightarrow>
        (case span is_digit (drop 1 rest) of (ds, trail) \<Rightarrow>
           if word \<noteq> [] \<and> startswith rest ''-'' \<and> ds \<noteq> [] then Some (word @ ''-'' @ ds, trail) else None))"

text \<open>The text up to the next line that opens a heading, if there is one.\<close>

fun until_heading :: "bool \<Rightarrow> string \<Rightarrow> string option" where
  "until_heading at_start [] = None"
| "until_heading at_start (c # s) =
     (if at_start \<and> startswith (c # s) ''## '' then Some []
      else map_option (Cons c) (until_heading (c = CHR 10) s))"

text \<open>\<open>^## DOING\s*\n(.*?)(?=^## )\<close> from a line start on.\<close>

definition doing_at :: "string \<Rightarrow> string option" where
  "doing_at s =
     (if startswith s ''## DOING'' then
        (case span is_space (drop 8 s) of (blanks, trail) \<Rightarrow>
           if CHR 10 \<in> set blanks
           then until_heading True (rev (takeWhile (\<lambda>c. c \<noteq> CHR 10) (rev blanks)) @ trail) else None)
      else None)"

text \<open>\<open>^- \[[ xX/]\]\s+([A-Z]+-\d+)\<close> from a line start on.\<close>

definition opener_at :: "string \<Rightarrow> string option" where
  "opener_at s =
     (if startswith s ''- ['' \<and> 5 \<le> length s \<and> s ! 3 \<in> set '' xX/'' \<and> s ! 4 = CHR '']'' then
        (case span is_space (drop 5 s) of (blanks, rest) \<Rightarrow>
           if blanks = [] then None else map_option fst (identity_at rest))
      else None)"

definition state_board_floor :: "string \<Rightarrow> string \<Rightarrow> floor_error list" where
  "state_board_floor state_doc board_doc =
     (case first_some task_at (line_starts state_doc) of
        None \<Rightarrow> []
      | Some task \<Rightarrow>
          if \<not> (case identity_at task of Some (_, trail) \<Rightarrow> trail = [] | None \<Rightarrow> False) then []
          else case first_some doing_at (line_starts board_doc) of
            None \<Rightarrow> [No_Doing task]
          | Some body \<Rightarrow>
              (case List.map_filter opener_at (line_starts body) of
                 [] \<Rightarrow> [Empty_Doing task]
               | [tid] \<Rightarrow> if tid = task then [] else [Other_Doing task tid]
               | _ \<Rightarrow> [Many_Doing task]))"

definition raw_floor :: "string \<Rightarrow> string \<Rightarrow> string \<Rightarrow> floor_error list" where
  "raw_floor state_doc board_doc log_doc = board_floor board_doc @ log_floor log_doc @ state_board_floor state_doc board_doc"

end
