(* ===== verification/FastCheck.thy ===== *)
theory FastCheck
  imports Ownership Floor Attempt BoardGraph
begin

text \<open>
  The transactional gate of \<open>fast_check.py\<close>: one pass over the active LOG, the evidence of a parked ticket, the
  defects of the board and \<open>validate_texts\<close>, which every mutation passes before its journal is prepared.  The
  installed contract, the clock and the provenance decoder are parameters; an exception of the strict STATE read
  escapes as the left side.
\<close>

section \<open>One pass over the active LOG\<close>

datatype line_error =
    Illegal_Line nat
  | Line_Duplicate nat nat
  | Line_Gap nat nat nat
  | Line_Parent nat nat nat

record log_walk =
  lw_events :: "event list"
  lw_errors :: "line_error list"
  lw_amnestied :: "(nat \<times> nat) list"
  lw_seen :: "nat list"
  lw_prev :: "nat option"
  lw_highest :: "nat option"

text \<open>\<open>^LEDGER-GAP AMNESTY E-(\d+)\s*->\s*E-(\d+)\b\<close> on a stripped text.\<close>

definition gap_amnesty :: "string \<Rightarrow> (nat \<times> nat) option" where
  "gap_amnesty s =
     (let p = ''LEDGER-GAP AMNESTY E-'' in
      if \<not> startswith s p then None
      else case span is_digit (drop (length p) s) of (a, r1) \<Rightarrow>
        let r2 = lstrip r1; r3 = lstrip (drop 2 r2) in
        case span is_digit (drop 2 r3) of (b, r4) \<Rightarrow>
          if a \<noteq> [] \<and> startswith r2 ''->'' \<and> startswith r3 ''E-'' \<and> b \<noteq> [] \<and> word_ends r4
          then Some (digits_value a, digits_value b) else None)"

definition amnesty_of :: "string \<Rightarrow> ((nat \<times> nat) \<times> nat) option" where
  "amnesty_of line =
     (case parse_log_line line of
        None \<Rightarrow> None
      | Some ev \<Rightarrow>
          if ev_taxonomy ev \<noteq> ''DEC'' then None
          else map_option (\<lambda>pair. (pair, ev_id ev)) (gap_amnesty (strip (ev_text ev))))"

definition ledger_gap_amnesties :: "string \<Rightarrow> (nat \<times> nat, nat) dict" where
  "ledger_gap_amnesties doc =
     foldl (\<lambda>d (pair, n). dict_set pair (max (case dict_get d pair of Some m \<Rightarrow> m | None \<Rightarrow> 0) n) d) []
       (List.map_filter amnesty_of (splitlines doc))"

definition raise_to :: "nat option \<Rightarrow> nat \<Rightarrow> nat option" where
  "raise_to best n = (case best of Some m \<Rightarrow> if m < n then Some n else best | None \<Rightarrow> Some n)"

text \<open>A damaged line spends the number it claims.\<close>

definition walk_damaged :: "nat \<Rightarrow> string \<Rightarrow> log_walk \<Rightarrow> log_walk" where
  "walk_damaged n line w =
     (let w1 = w\<lparr>lw_errors := lw_errors w @ [Illegal_Line n]\<rparr> in
      case declared_event_id line of
        None \<Rightarrow> w1
      | Some k \<Rightarrow>
          w1\<lparr>lw_errors := lw_errors w1 @ (if k \<in> set (lw_seen w) then [Line_Duplicate n k] else []),
             lw_seen := k # lw_seen w, lw_prev := raise_to (lw_prev w) k, lw_highest := raise_to (lw_highest w) k\<rparr>)"

definition gap_at :: "nat option \<Rightarrow> nat \<Rightarrow> nat option" where
  "gap_at prev k = (case prev of Some p \<Rightarrow> if k \<noteq> Suc p then Some p else None | None \<Rightarrow> None)"

definition amnestied_gap :: "(nat \<times> nat, nat) dict \<Rightarrow> nat \<Rightarrow> nat \<Rightarrow> bool" where
  "amnestied_gap am p k \<longleftrightarrow> (case dict_get am (p, k) of Some n \<Rightarrow> k \<le> n | None \<Rightarrow> False)"

definition walk_event :: "(nat \<times> nat, nat) dict \<Rightarrow> nat \<Rightarrow> event \<Rightarrow> log_walk \<Rightarrow> log_walk" where
  "walk_event am n ev w =
     (let k = ev_id ev in
      w\<lparr>lw_events := lw_events w @ [ev],
        lw_errors := lw_errors w @
          (if k \<in> set (lw_seen w) then [Line_Duplicate n k] else []) @
          (case gap_at (lw_prev w) k of Some p \<Rightarrow> if amnestied_gap am p k then [] else [Line_Gap n p k] | None \<Rightarrow> []) @
          (case ev_parent ev of Some p \<Rightarrow> if k \<le> p then [Line_Parent n p k] else [] | None \<Rightarrow> []),
        lw_amnestied := lw_amnestied w @
          (case gap_at (lw_prev w) k of Some p \<Rightarrow> if amnestied_gap am p k then [(p, k)] else [] | None \<Rightarrow> []),
        lw_seen := k # lw_seen w, lw_prev := Some k, lw_highest := raise_to (lw_highest w) k\<rparr>)"

definition walk_log_line :: "(nat \<times> nat, nat) dict \<Rightarrow> log_walk \<Rightarrow> nat \<times> string \<Rightarrow> log_walk" where
  "walk_log_line am w nl =
     (case nl of (n, line) \<Rightarrow>
        if strip line = [] \<or> startswith (lstrip line) ''#'' then w
        else case parse_log_line line of None \<Rightarrow> walk_damaged n line w | Some ev \<Rightarrow> walk_event am n ev w)"

definition empty_log_walk :: log_walk where
  "empty_log_walk = \<lparr>lw_events = [], lw_errors = [], lw_amnestied = [], lw_seen = [], lw_prev = None, lw_highest = None\<rparr>"

definition analyze_log :: "string \<Rightarrow> log_walk" where
  "analyze_log doc = foldl (walk_log_line (ledger_gap_amnesties doc)) empty_log_walk (numbered (splitlines doc))"

section \<open>The evidence of a parked ticket\<close>

definition ACTIVE_TICKET_BLOCK_MARKER :: string where
  "ACTIVE_TICKET_BLOCK_MARKER = ''ticket block via SAIOPS (active)''"

definition one_token :: "string \<Rightarrow> string option" where
  "one_token s = (let t = lstrip s in if t \<noteq> [] \<and> list_all (\<lambda>c. \<not> is_space c) t then Some t else None)"

text \<open>The reference of a compact event and, for a structural one, its dependency.\<close>

definition compact_detail_reference :: "string \<Rightarrow> (string \<times> string option option) option" where
  "compact_detail_reference txt =
     (let s = strip txt;
          tail_ref = (\<lambda>r. Option.bind (after '' -- structural_event: ticket-block-active -- detail_ref:'' r) one_token) in
      case after ACTIVE_TICKET_BLOCK_MARKER s of
        Some r \<Rightarrow>
          (case Option.bind (after '' -- dependency '' r) ticket_ref of
             Some (tid, r2) \<Rightarrow> map_option (\<lambda>ref. (ref, Some (Some tid))) (tail_ref r2)
           | None \<Rightarrow> map_option (\<lambda>ref. (ref, Some None)) (tail_ref r))
      | None \<Rightarrow> map_option (\<lambda>ref. (ref, None)) (Option.bind (after ''detail_ref:'' s) one_token))"

definition detail_authority_valid :: "nat list \<Rightarrow> event \<Rightarrow> bool" where
  "detail_authority_valid planned ev \<longleftrightarrow>
     (let txt = ev_text ev in
      if \<not> (startswith txt ACTIVE_TICKET_BLOCK_MARKER \<and> (substring ''detail_ref:'' txt \<or> substring ''structural_event:'' txt))
      then True
      else if (case compact_detail_reference txt of Some (_, None) \<Rightarrow> True | _ \<Rightarrow> False) then False
      else (case ev_detail ev of Some (_, ok) \<Rightarrow> ok | None \<Rightarrow> False) \<or> ev_id ev \<in> set planned)"

definition op_starts :: "event \<Rightarrow> string \<Rightarrow> bool" where
  "op_starts ev p \<longleftrightarrow> startswith (case ev_op ev of Some s \<Rightarrow> s | None \<Rightarrow> []) p"

definition is_active_block :: "nat list \<Rightarrow> tickets \<Rightarrow> event \<Rightarrow> bool" where
  "is_active_block planned ts ev \<longleftrightarrow>
     (case ev_ticket ev of
        None \<Rightarrow> False
      | Some tid \<Rightarrow> (case dict_get ts tid of None \<Rightarrow> False | Some t \<Rightarrow> tk_section t = ''## BLOCKED'')) \<and>
     ev_taxonomy ev = ''DEC'' \<and> op_starts ev ''ticket-'' \<and> startswith (ev_text ev) ACTIVE_TICKET_BLOCK_MARKER \<and>
     detail_authority_valid planned ev"

definition phase_event :: "event \<Rightarrow> bool" where
  "phase_event ev \<longleftrightarrow>
     list_ex (op_starts ev) [''claim-'', ''transition-'', ''finish-'', ''goal-entry-''] \<or>
     startswith (ev_text ev) ACTIVE_TICKET_BLOCK_MARKER"

text \<open>The event with the highest number, the first of equals.\<close>

definition latest_event :: "event list \<Rightarrow> event option" where
  "latest_event evs =
     foldl (\<lambda>best ev. case best of Some b \<Rightarrow> if ev_id b < ev_id ev then Some ev else best | None \<Rightarrow> Some ev) None evs"

datatype parked_error = Detail_Integrity nat | Unproven_Park string string

definition needs_park_proof :: "state_fields \<Rightarrow> bool" where
  "needs_park_proof fs \<longleftrightarrow>
     state_string fs ''phase'' = Some ''DONE'' \<and>
     (case state_string fs ''transition_from'' of
        Some source \<Rightarrow> source \<in> {''SCOUT'', ''BUILD'', ''VERIFY'', ''REVIEW'', ''SHIP''} \<and> \<not> transition_legal source ''DONE''
      | None \<Rightarrow> False)"

definition block_parked_evidence_error ::
    "state_fields \<Rightarrow> tickets \<Rightarrow> event list \<Rightarrow> nat list \<Rightarrow> parked_error option" where
  "block_parked_evidence_error fs ts evs planned =
     (if \<not> needs_park_proof fs then None
      else let relevant = (case Option.bind (dict_get fs ''last_event'') plain_int of
               None \<Rightarrow> [] | Some bound \<Rightarrow> filter (\<lambda>ev. int (ev_id ev) \<le> bound) evs);
             unproven = Unproven_Park (text_field fs ''transition_from'') (text_field fs ''phase'') in
        case latest_event (filter phase_event relevant) of
          None \<Rightarrow> Some unproven
        | Some ev \<Rightarrow>
            if is_active_block planned ts ev then None
            else if startswith (ev_text ev) ACTIVE_TICKET_BLOCK_MARKER \<and> \<not> detail_authority_valid planned ev
            then Some (Detail_Integrity (ev_id ev))
            else Some unproven)"

section \<open>Defects of the surfaces\<close>

datatype gate_error =
    Floor_Fired floor_error
  | State_Malformed read_problem
  | Gate_Missing string
  | Phase_Outside
  | Next_Action_Phase na_error
  | Next_Action_Form
  | Names_Other_Task string
  | Goal_Lacks_Counters
  | Goal_Has_Target
  | Converge_Lacks_Target
  | Converge_Has_Counters
  | Counters_Without_Goal
  | Target_Without_Converge
  | Intent_Unknown
  | From_Unknown
  | Board_Defect board_error
  | Graph_Defect graph_error
  | Many_Doing_Tickets
  | Ticket_Defect string rule_error
  | Doing_Needs_Open string string
  | Parked parked_error
  | Detached_Ticket string
  | Log_Defect line_error
  | Last_Event_Absent
  | Last_Event_Differs
  | Home_Not_Absolute
  | Seat_Defect ownership_error
  | Bearing_Without_Doing
  | Bearing_Without_Task
  | Task_Not_Active
  | Names_Other_Active string
  | Doing_Outside_Bearing
  | Task_Outside_Bearing
  | Attempt_Event attempt_error
  | Attempt_Fold attempt_error
  | Pointer_Not_Open
  | Pointer_Elsewhere
  | Many_Work_Opens
  | Open_Without_Pointer
  | Pointer_Mismatch

definition open_needs :: "tickets \<Rightarrow> ticket \<Rightarrow> gate_error list" where
  "open_needs ts t =
     map (Doing_Needs_Open (tk_id t))
       (filter (\<lambda>need. tk_section t = ''## DOING'' \<and>
          (case dict_get ts need of None \<Rightarrow> False | Some n \<Rightarrow> tk_section n \<noteq> ''## DONE'')) (tk_needs t))"

definition board_surface_errors :: "string \<Rightarrow> gate_error list" where
  "board_surface_errors doc =
     (let w = parse_board doc; ts = w_tickets w in
      map Board_Defect (w_errors w) @ map Graph_Defect (board_graph_errors ts) @
      (if 1 < length (doing_tickets ts) then [Many_Doing_Tickets] else []) @
      concat (map (\<lambda>(_, t). map (Ticket_Defect (tk_id t)) (board_semantic_errors t) @ open_needs ts t) ts))"

definition log_surface_errors :: "string \<Rightarrow> gate_error list" where
  "log_surface_errors doc = map Log_Defect (lw_errors (analyze_log doc))"

section \<open>The fields of STATE\<close>

text \<open>The ticket a \<open>PHASE\<close> action names: \<open>^PHASE\s+([A-Za-z_-]+)(?:\s+(T-\d+))?\<close>.\<close>

definition named_ticket :: "string \<Rightarrow> string option" where
  "named_ticket na =
     (case after ''PHASE'' (strip na) of
        None \<Rightarrow> None
      | Some r \<Rightarrow>
          (case span is_space r of (b1, r1) \<Rightarrow>
             (case span phase_char r1 of (ph, r2) \<Rightarrow>
                (case span is_space r2 of (b2, r3) \<Rightarrow>
                   if b1 \<noteq> [] \<and> ph \<noteq> [] \<and> b2 \<noteq> [] then map_option fst (ticket_ref r3) else None))))"

definition bears_ticket :: "state_fields \<Rightarrow> bool" where
  "bears_ticket fs \<longleftrightarrow> in_enum fs ''phase'' TICKET_BEARING_PHASES"

definition next_action_errors :: "state_fields \<Rightarrow> gate_error list" where
  "next_action_errors fs =
     (case state_string fs ''next_action'' of
        None \<Rightarrow> []
      | Some na \<Rightarrow>
          (if startswith na ''PHASE ''
           then (case phase_next_action_error na of Some e \<Rightarrow> [Next_Action_Phase e] | None \<Rightarrow> [])
           else if list_ex (startswith na) [''WAIT:'', ''saipen '', ''RUN:'', ''RESUME:''] then [] else [Next_Action_Form]) @
          (case named_ticket na of
             None \<Rightarrow> []
           | Some tid \<Rightarrow>
               let subject = text_field fs ''task'' in
               if subject \<noteq> [] \<and> tid \<noteq> subject \<and> bears_ticket fs then [Names_Other_Task tid] else []))"

definition gate_intent_errors :: "state_fields \<Rightarrow> gate_error list" where
  "gate_intent_errors fs =
     (let has_counter = has_field fs ''goal_waves'' \<or> has_field fs ''goal_tickets''; target = has_field fs ''converge_target'' in
      if state_string fs ''execution_intent'' = Some ''goal'' then
        (if has_field fs ''goal_waves'' \<and> has_field fs ''goal_tickets'' then [] else [Goal_Lacks_Counters]) @
        (if target then [Goal_Has_Target] else [])
      else if state_string fs ''execution_intent'' = Some ''converge'' then
        (if in_enum fs ''converge_target'' STATE_CONVERGE_TARGETS then [] else [Converge_Lacks_Target]) @
        (if has_counter then [Converge_Has_Counters] else [])
      else if \<not> has_field fs ''execution_intent'' \<or> state_string fs ''execution_intent'' = Some ''normal'' then
        (if has_counter then [Counters_Without_Goal] else []) @ (if target then [Target_Without_Converge] else [])
      else [Intent_Unknown])"

definition known_phase :: "string \<Rightarrow> bool" where
  "known_phase p \<longleftrightarrow> p \<in> set ALL_PHASES \<or> p \<in> set ANY_FROM"

definition gate_state_errors :: "state_fields \<Rightarrow> gate_error list" where
  "gate_state_errors fs =
     map Gate_Missing (filter (\<lambda>key. \<not> has_field fs key) STATE_REQUIRED_FIELDS) @
     (case state_string fs ''phase'' of
        Some p \<Rightarrow> if known_phase p then [] else [Phase_Outside] | None \<Rightarrow> [Phase_Outside]) @
     next_action_errors fs @ gate_intent_errors fs @
     (let p = text_field fs ''phase''; tf = text_field fs ''transition_from'' in
      if p \<noteq> [] \<and> tf \<noteq> [] \<and> p \<noteq> ''INIT'' \<and> \<not> known_phase tf then [From_Unknown] else [])"

section \<open>Across the documents\<close>

text \<open>The captured history first, then what the proposed LOG adds.\<close>

definition proposed_events :: "snapshot option \<Rightarrow> event list \<Rightarrow> event list" where
  "proposed_events sealed active =
     (case sealed of
        None \<Rightarrow> active
      | Some sn \<Rightarrow> sn_events sn @ filter (\<lambda>ev. ev_id ev \<notin> set (map ev_id (sn_events sn))) active)"

definition named_tickets :: "event list \<Rightarrow> string list" where
  "named_tickets evs = List.map_filter (\<lambda>ev. case ev_ticket ev of Some t \<Rightarrow> if t = [] then None else Some t | None \<Rightarrow> None) evs"

definition allocation_errors :: "snapshot option \<Rightarrow> event list \<Rightarrow> tickets \<Rightarrow> gate_error list" where
  "allocation_errors sealed evs ts =
     (case sealed of
        None \<Rightarrow> []
      | Some sn \<Rightarrow>
          if sn_max_ticket sn = 0 then []
          else let known = ''T-none'' # named_tickets evs @ filter ticket_name (named_tickets (sn_events sn)) in
            List.map_filter (\<lambda>(tid, t).
              if tk_section t \<in> {''## TODO'', ''## DOING''} \<and> tid \<notin> set known then Some (Detached_Ticket tid) else None) ts)"

definition last_event_errors :: "install \<Rightarrow> state_fields \<Rightarrow> nat option \<Rightarrow> gate_error list" where
  "last_event_errors ins fs tail =
     (let current = (case ins_schema ins of Some n \<Rightarrow> equals_int (dict_get fs ''schema_version'') n | None \<Rightarrow> False) in
      (case tail of
         None \<Rightarrow> []
       | Some n \<Rightarrow>
           (case dict_get fs ''last_event'' of
              None \<Rightarrow> if current then [Last_Event_Absent] else []
            | Some v \<Rightarrow> if equals_int (Some v) (int n) then [] else [Last_Event_Differs])) @
      (let home = text_field fs ''saipen_home'' in
       if current \<and> home \<noteq> [] \<and> \<not> is_absolute_home home then [Home_Not_Absolute] else []))"

definition binding_errors :: "state_fields \<Rightarrow> tickets \<Rightarrow> string \<Rightarrow> nat \<Rightarrow> gate_error list" where
  "binding_errors fs ts actor now =
     (let task = text_field fs ''task''; bound = task \<noteq> [] \<and> task \<noteq> ''none''; active = doing_tickets ts in
      if bears_ticket fs then
        (if active = [] then [Bearing_Without_Doing] else []) @
        (if \<not> bound then [Bearing_Without_Task]
         else if active \<noteq> [] \<and> task \<noteq> tk_id (hd active) then [Task_Not_Active] else []) @
        (case Option.bind (state_string fs ''next_action'') named_ticket of
           Some tid \<Rightarrow> if active \<noteq> [] \<and> tid \<noteq> tk_id (hd active) then [Names_Other_Active tid] else []
         | None \<Rightarrow> [])
      else
        (if active \<noteq> [] \<and>
            claim_status (hd active) (if actor \<noteq> [] then actor else text_field fs ''agent'') now \<in> {SELF, INVALID}
         then [Doing_Outside_Bearing] else []) @
        (if bound then [Task_Outside_Bearing] else []))"

text \<open>The gate reads STATE strictly first, so the task is a text here; a pointer of another type names no episode.\<close>

definition attempt_pointer_errors :: "state_fields \<Rightarrow> attempts \<Rightarrow> gate_error list" where
  "attempt_pointer_errors fs rs =
     (let pointer = dict_get fs ''attempt''; task = state_string fs ''task'' in
      (case pointer of
         None \<Rightarrow> []
       | Some (Scalar p) \<Rightarrow>
           (case record_at rs p of
              None \<Rightarrow> [Pointer_Not_Open]
            | Some rec \<Rightarrow> if at_close rec \<noteq> None then [Pointer_Not_Open]
                          else if task \<noteq> at_ticket rec then [Pointer_Elsewhere] else [])
       | Some (SList _) \<Rightarrow> [Pointer_Not_Open]) @
      (case work_opens rs task of
         [] \<Rightarrow> []
       | [a] \<Rightarrow> (case pointer of None \<Rightarrow> [Open_Without_Pointer] | Some v \<Rightarrow> if v \<noteq> Scalar (SStr a) then [Pointer_Mismatch] else [])
       | _ \<Rightarrow> [Many_Work_Opens]))"

definition gate_attempt_errors :: "(string \<Rightarrow> string option) \<Rightarrow> state_fields \<Rightarrow> event list \<Rightarrow> gate_error list" where
  "gate_attempt_errors prov fs evs =
     List.map_filter (\<lambda>ev. case parse_attempt_event prov ev of Inl e \<Rightarrow> Some (Attempt_Event e) | Inr _ \<Rightarrow> None) evs @
     (case build_attempts prov evs of (rs, es) \<Rightarrow> map Attempt_Fold es @ attempt_pointer_errors fs rs)"

record gate_env =
  g_install :: install
  g_prov :: "string \<Rightarrow> string option"
  g_now :: nat

definition validate_texts ::
    "gate_env \<Rightarrow> string \<Rightarrow> string \<Rightarrow> string \<Rightarrow> string \<Rightarrow> snapshot option \<Rightarrow> nat list \<Rightarrow> type_error + gate_error list" where
  "validate_texts env state_doc board_doc log_doc actor sealed planned =
     (let floor = map Floor_Fired (raw_floor state_doc board_doc log_doc) in
      case parse_state_or_error (g_install env) state_doc of
        Inl e \<Rightarrow> Inl e
      | Inr (Inl problem) \<Rightarrow>
          Inr (floor @ [State_Malformed problem] @ board_surface_errors board_doc @ log_surface_errors log_doc)
      | Inr (Inr fs) \<Rightarrow>
          let ts = w_tickets (parse_board board_doc); w = analyze_log log_doc; evs = proposed_events sealed (lw_events w) in
          Inr (floor @ gate_state_errors fs @ board_surface_errors board_doc @
            (case block_parked_evidence_error fs ts evs planned of Some e \<Rightarrow> [Parked e] | None \<Rightarrow> []) @
            allocation_errors sealed evs ts @ log_surface_errors log_doc @
            last_event_errors (g_install env) fs (lw_highest w) @
            map Seat_Defect (ownership_invariant_errors fs ts actor (g_now env)) @
            binding_errors fs ts actor (g_now env) @ gate_attempt_errors (g_prov env) fs evs))"

section \<open>What a proposal adds\<close>

text \<open>\<open>[A-Za-z_][A-Za-z_0-9]*\.md\<close> and \<open>:\d+:?\<close>: the name, whether it ends in a colon, and the rest.\<close>

definition doc_char :: "char \<Rightarrow> bool" where
  "doc_char c \<longleftrightarrow> is_alpha c \<or> c = CHR ''_''"

definition position_match :: "string \<Rightarrow> (string \<times> bool \<times> string) option" where
  "position_match s =
     (case span (\<lambda>c. doc_char c \<or> is_digit c) s of (name, r1) \<Rightarrow>
        (case span is_digit (drop 4 r1) of (ds, r2) \<Rightarrow>
           if name \<noteq> [] \<and> doc_char (hd name) \<and> startswith r1 ''.md:'' \<and> ds \<noteq> []
           then Some (name @ ''.md'', startswith r2 '':'', if startswith r2 '':'' then drop 1 r2 else r2) else None))"

lemma position_shorter: "position_match s = Some (name, colon, r) \<Longrightarrow> length r < length s"
proof -
  assume "position_match s = Some (name, colon, r)"
  then obtain a r1 ds r2 where a: "span (\<lambda>c. doc_char c \<or> is_digit c) s = (a, r1)" "a \<noteq> []" "span is_digit (drop 4 r1) = (ds, r2)"
    "r = r2 \<or> r = drop 1 r2" by (auto simp: position_match_def split: prod.splits if_splits)
  from span_inverse [OF a(1)] a(2) have "length r1 < length s" by simp
  moreover from arg_cong [OF span_inverse [OF a(3)], of length] have "length r2 \<le> length r1" by simp
  ultimately show ?thesis using a(4) by auto
qed

text \<open>The substitution; the flag says whether a word character stands before.\<close>

function strip_positions :: "bool \<Rightarrow> string \<Rightarrow> string" where
  "strip_positions prior s =
     (case s of
        [] \<Rightarrow> []
      | c # cs \<Rightarrow>
          (case (if prior then None else position_match s) of
             Some (name, colon, r) \<Rightarrow> name @ '':'' @ strip_positions (\<not> colon) r
           | None \<Rightarrow> c # strip_positions (is_word c) cs))"
  by pat_completeness auto
termination
  by (relation "measure (\<lambda>(_, s). length s)") (auto dest: position_shorter split: if_splits)

declare strip_positions.simps [simp del]

definition defect_signature :: "string \<Rightarrow> string" where
  "defect_signature error = strip (strip_positions False error)"

text \<open>The loop over the errors after the proposal, with what is left of those before.\<close>

fun split_defects :: "(string, nat) dict \<Rightarrow> string list \<Rightarrow> string list \<times> string list" where
  "split_defects seen [] = ([], [])"
| "split_defects seen (e # es) =
     (let key = defect_signature e; left = (case dict_get seen key of Some n \<Rightarrow> n | None \<Rightarrow> 0) in
      if 0 < left then (case split_defects (dict_set key (left - 1) seen) es of (introduced, inherited) \<Rightarrow> (introduced, e # inherited))
      else (case split_defects seen es of (introduced, inherited) \<Rightarrow> (e # introduced, inherited)))"

definition defect_delta :: "string list \<Rightarrow> string list \<Rightarrow> string list \<times> string list" where
  "defect_delta before proposed =
     split_defects
       (foldl (\<lambda>seen e. dict_set (defect_signature e)
          (Suc (case dict_get seen (defect_signature e) of Some n \<Rightarrow> n | None \<Rightarrow> 0)) seen) [] before) proposed"

end
