(* ===== verification/StateContractLaws.thy ===== *)
theory StateContractLaws
  imports StateContract StatePatch
begin

text \<open>
  What the field contract of STATE guarantees: an accepted document is a typed lifecycle state, removing fields
  removes exactly those, and a transition of the execution intent replaces one family of fields by another and
  keeps the rest.
\<close>

section \<open>Removing fields\<close>

definition without_fields :: "string list \<Rightarrow> state_fields \<Rightarrow> state_fields" where
  "without_fields keys fs = filter (\<lambda>(k, _). k \<notin> set keys) fs"

lemma without_get: "dict_get (without_fields keys fs) k = (if k \<in> set keys then None else dict_get fs k)"
  by (induction fs) (auto simp: without_fields_def)

lemma without_set: "k \<notin> set keys \<Longrightarrow> without_fields keys (dict_set k v fs) = dict_set k v (without_fields keys fs)"
  by (induction fs) (auto simp: without_fields_def split: if_splits)

lemma without_push: "k \<notin> set keys \<Longrightarrow> without_fields keys (push_item k v fs) = push_item k v (without_fields keys fs)"
  by (auto simp: push_item_def without_get without_set split: option.splits sval.splits)

text \<open>What an open list key is worth once some keys are gone: it stays open, or nothing can be appended.\<close>

definition keeps_open :: "string list \<Rightarrow> string option \<Rightarrow> string option \<Rightarrow> bool" where
  "keeps_open keys op op' \<longleftrightarrow> op = None \<or> op' = op \<and> (case op of Some k \<Rightarrow> k \<notin> set keys | None \<Rightarrow> True)"

lemma kept_line:
  assumes "front_line n l (fs, op) = Inr (gs, gop)" "keeps_open keys op op'"
    and "case key_line l of Some (k, _) \<Rightarrow> k \<notin> set keys | None \<Rightarrow> True"
  shows "\<exists>gop'. front_line m l (without_fields keys fs, op') = Inr (without_fields keys gs, gop') \<and> keeps_open keys gop gop'"
proof (cases "strip l = []")
  case True
  with assms show ?thesis by (simp add: front_line_def)
next
  case False
  show ?thesis
  proof (cases "item_line l")
    case (Some item)
    with False assms(1) obtain k where k: "op = Some k" "gs = push_item k (coerce (strip item)) fs" "gop = op"
      by (auto simp: front_line_def split: option.splits)
    with assms(2) have "k \<notin> set keys" "op' = Some k" by (auto simp: keeps_open_def)
    with Some False k show ?thesis by (simp add: front_line_def without_push keeps_open_def)
  next
    case None
    with False assms(1) obtain k r where k: "key_line l = Some (k, r)"
      by (auto simp: front_line_def split: option.splits)
    with None False assms(1,3) show ?thesis
      by (auto simp: front_line_def Let_def keeps_open_def without_get split: if_splits)
         (auto simp: without_fields_def)
  qed
qed

lemma removed_line:
  assumes "front_line n l (fs, op) = Inr (gs, gop)" "key_line l = Some (k, r)" "k \<in> set keys" "strip r \<noteq> []"
  shows "without_fields keys gs = without_fields keys fs" "gop = None"
  using assms key_line_kind [OF assms(2)]
  by (auto simp: front_line_def Let_def without_fields_def split: if_splits)

lemma opened_list:
  assumes "front_line n l (fs, op) = Inr (gs, gop)" "key_line l = Some (k, r)" "strip r = []"
  shows "holds_list gs k"
  using assms key_line_kind [OF assms(2)]
  by (auto simp: front_line_def Let_def holds_list_def map_add_def split: if_splits option.splits)

lemma loop_removed:
  "front_loop n (body @ fence # rest) (fs, op) = Inr res \<Longrightarrow> is_fence fence \<Longrightarrow> list_all (\<lambda>l. \<not> is_fence l) body \<Longrightarrow>
   list_all (\<lambda>k. \<not> holds_list res k) keys \<Longrightarrow> keeps_open keys op op' \<Longrightarrow>
   front_loop m (remove_lines keys body @ fence # rest) (without_fields keys fs, op') = Inr (without_fields keys res)"
proof (induction body arbitrary: n m fs op op')
  case Nil
  then show ?case by (simp add: remove_lines.simps)
next
  case (Cons l body)
  from Cons.prems(3) have nf: "\<not> is_fence l" by simp
  with Cons.prems(1) obtain gs gop where s: "front_line n l (fs, op) = Inr (gs, gop)"
    and loop: "front_loop (Suc n) (body @ fence # rest) (gs, gop) = Inr res"
    by (auto split: sum.splits)
  note IH = Cons.IH [OF loop Cons.prems(2) _ Cons.prems(4)]
  show ?case
  proof (cases "\<exists>k r. key_line l = Some (k, r) \<and> k \<in> set keys")
    case True
    then obtain k r where k: "key_line l = Some (k, r)" "k \<in> set keys" by blast
    have "strip r \<noteq> []"
    proof
      assume e: "strip r = []"
      from front_loop_holds [OF loop opened_list [OF s k(1) e]] Cons.prems(4) k(2) show False by (auto simp: list_all_iff)
    qed
    with removed_line [OF s k this] k IH [of op'] Cons.prems(3) show ?thesis
      by (simp add: remove_lines.simps keeps_open_def)
  next
    case False
    then have kept: "remove_lines keys (l # body) = l # remove_lines keys body"
      and c: "case key_line l of Some (k, _) \<Rightarrow> k \<notin> set keys | None \<Rightarrow> True"
      by (auto simp: remove_lines.simps split: option.splits)
    from kept_line [OF s Cons.prems(5) c] obtain gop' where g: "front_line m l (without_fields keys fs, op') = Inr (without_fields keys gs, gop')"
      "keeps_open keys gop gop'" by blast
    with IH [of gop'] Cons.prems(3) nf show ?thesis by (simp add: kept)
  qed
qed

lemma remove_lines_all: "list_all P body \<Longrightarrow> list_all P (remove_lines keys body)"
proof (induction keys body rule: remove_lines.induct)
  case (2 keys line body)
  have "list_all P (dropWhile Q body)" if "list_all P body" for Q
    using that by (auto simp: list_all_iff dest: set_dropWhileD)
  with 2 show ?case by (auto simp: remove_lines.simps split: option.splits)
qed (simp add: remove_lines.simps)

text \<open>The front matter an empty body is written back with: one blank line.\<close>

definition body_lines :: "string list \<Rightarrow> string list" where
  "body_lines out = (if out = [] then [[]] else out)"

lemma rebuild_body: "rebuild out (ls @ [[]]) = unlines (''---'' # body_lines out @ ls)"
proof (cases "out = []")
  case True
  have "rebuild [] (ls @ [[]]) = rebuild [[]] (ls @ [[]])" by (simp add: rebuild_def)
  with True rebuild_unlines [of "[[]]" ls] show ?thesis by (simp add: body_lines_def)
qed (simp add: rebuild_unlines body_lines_def)

lemma remove_fields_exact:
  assumes "list_all plain_line ls" "startswith (unlines ls) ''---''" "parse_frontmatter (unlines ls) = Inr fs"
    and "list_all (\<lambda>k. \<not> holds_list fs k) keys"
  shows "\<exists>ls'. remove_state_fields (unlines ls) keys = Inr (unlines ls') \<and> list_all plain_line ls' \<and>
    startswith (unlines ls') ''---'' \<and> parse_frontmatter (unlines ls') = Inr (without_fields keys fs) \<and>
    after_front (unlines ls') = after_front (unlines ls)"
proof -
  let ?doc = "unlines ls"
  note sl = splitlines_unlines [OF assms(1)]
  obtain fence rest where a: "after_front ?doc = fence # rest" "is_fence fence"
    and loop: "front_loop 2 (front_part ?doc @ fence # rest) ([], None) = Inr fs"
    using front_split(2) [OF assms(1,3,2)] by blast
  have plain: "list_all plain_line (front_part ?doc)" "list_all plain_line (fence # rest)"
    using assms(1) a(1) unfolding front_part_def after_front_def sl
    by (metis (no_types, lifting) list_all_iff set_takeWhileD set_dropWhileD list.set_sel(2) tl_Nil)+
  have nofence: "list_all (\<lambda>l. \<not> is_fence l) (front_part ?doc)"
    by (auto simp: front_part_def list_all_iff dest: set_takeWhileD)
  let ?out = "body_lines (remove_lines keys (front_part ?doc))"
  have out: "list_all plain_line ?out" "list_all (\<lambda>l. \<not> is_fence l) ?out"
    using remove_lines_all [OF plain(1), of keys] remove_lines_all [OF nofence, of keys]
    by (simp_all add: body_lines_def is_fence_def strip_def rstrip_def lstrip_def)
  have p: "front_loop 2 (remove_lines keys (front_part ?doc) @ fence # rest) ([], None) = Inr (without_fields keys fs)"
    for m using loop_removed [OF loop a(2) nofence assms(4), of None 2] by (simp add: without_fields_def keeps_open_def)
  have "front_loop 2 (?out @ fence # rest) ([], None) = Inr (without_fields keys fs)"
    using p a(2) by (auto simp: body_lines_def front_line_def is_fence_def strip_def rstrip_def lstrip_def)
  with out plain a patched_document [of ?out fence rest] show ?thesis
    by (intro exI [of _ "''---'' # ?out @ fence # rest"])
       (simp add: remove_state_fields_def front_split(1) [OF assms(1,3,2)] rebuild_body [where ls = "fence # rest", simplified]
         is_line_end_def Let_def, simp add: unlines_def)
qed

section \<open>The transition of the execution intent\<close>

definition legal_intent :: "string \<Rightarrow> string option \<Rightarrow> int \<Rightarrow> int \<Rightarrow> bool" where
  "legal_intent intent target waves tickets \<longleftrightarrow>
     intent \<in> set STATE_INTENT_ENUM \<and> 0 \<le> waves \<and> 0 \<le> tickets \<and>
     (case target of Some t \<Rightarrow> intent = ''converge'' \<and> t \<in> set STATE_CONVERGE_TARGETS | None \<Rightarrow> intent \<noteq> ''converge'')"

definition intent_owned :: "string \<Rightarrow> string option \<Rightarrow> int \<Rightarrow> int \<Rightarrow> owned" where
  "intent_owned intent target waves tickets =
     (''execution_intent'', SStr intent) #
     (if intent = ''goal'' then [(''goal_waves'', SInt waves), (''goal_tickets'', SInt tickets)]
      else case target of Some t \<Rightarrow> [(''converge_target'', SStr t)] | None \<Rightarrow> [])"

lemma update_get:
  "distinct (map fst owned) \<Longrightarrow> dict_get (update owned fs) k = (case dict_get owned k of Some v \<Rightarrow> Some (Scalar v) | None \<Rightarrow> dict_get fs k)"
proof (induction owned arbitrary: fs)
  case (Cons e owned)
  obtain key v where e: "e = (key, v)" by (cases e)
  from Cons have "dict_get owned key = None" by (simp add: e map_of_eq_None_iff)
  with Cons.IH [of "dict_set key (Scalar v) fs"] Cons.prems show ?case
    by (auto simp: e update_def split: option.split)
qed (simp add: update_def)

lemma intent_owned_facts:
  assumes "legal_intent intent target waves tickets"
  shows "intent_fields intent target waves tickets = as_values (intent_owned intent target waves tickets)"
    "owned_keys (intent_owned intent target waves tickets)"
    "(k, v) \<in> set (intent_owned intent target waves tickets) \<Longrightarrow> \<exists>t. render_value v = Inr t"
proof -
  let ?o = "intent_owned intent target waves tickets"
  have i: "intent \<in> {''normal'', ''goal'', ''converge''}" using assms by (auto simp: legal_intent_def STATE_INTENT_ENUM_def)
  show "intent_fields intent target waves tickets = as_values ?o"
    using assms by (auto simp: intent_fields_def intent_owned_def as_values_def legal_intent_def split: option.splits)
  have keys: "state_key ''execution_intent''" "state_key ''goal_waves''" "state_key ''goal_tickets''" "state_key ''converge_target''"
    by code_simp+
  then show "owned_keys ?o" by (auto simp: owned_keys_def intent_owned_def split: option.split)
  have words: "\<exists>t. render_value (SStr s) = Inr t" if "s \<in> set [''normal'', ''goal'', ''converge'', ''done'', ''ship'', ''crew'']" for s
  proof -
    have "list_all (\<lambda>s. record_separator_in s = None) [''normal'', ''goal'', ''converge'', ''done'', ''ship'', ''crew'']" by code_simp
    with that have "record_separator_in s = None" by (simp only: list_all_iff)
    then show ?thesis by (simp add: render_value_def)
  qed
  have targets: "t \<in> {''done'', ''ship'', ''crew''}" if "target = Some t" for t
    using assms that by (auto simp: legal_intent_def STATE_CONVERGE_TARGETS_def)
  have ints: "\<exists>t. render_value (SInt n) = Inr t" for n by (simp add: render_value_def)
  assume "(k, v) \<in> set ?o"
  then have "v = SStr intent \<or> (\<exists>n. v = SInt n) \<or> (\<exists>t. target = Some t \<and> v = SStr t)"
    by (auto simp: intent_owned_def split: if_splits option.splits)
  then show "\<exists>t. render_value v = Inr t"
  proof (elim disjE exE conjE)
    assume "v = SStr intent"
    moreover have "intent \<in> set [''normal'', ''goal'', ''converge'', ''done'', ''ship'', ''crew'']" using i by auto
    ultimately show ?thesis using words by blast
  next
    fix n
    assume "v = SInt n"
    then show ?thesis using ints by blast
  next
    fix t
    assume "target = Some t" "v = SStr t"
    moreover from this have "t \<in> set [''normal'', ''goal'', ''converge'', ''done'', ''ship'', ''crew'']" using targets [of t] by auto
    ultimately show ?thesis using words by blast
  qed
qed

lemma family_after:
  assumes "legal_intent intent target waves tickets"
  shows "set (family_of (update (intent_owned intent target waves tickets) (without_fields INTENT_FAMILY fs))) = set (expected_family intent)"
proof -
  let ?o = "intent_owned intent target waves tickets"
  have d: "distinct (map fst ?o)" using intent_owned_facts(2) [OF assms] by (simp add: owned_keys_def)
  have fam: "{''goal_waves'', ''goal_tickets'', ''converge_target''} \<subseteq> set INTENT_FAMILY" by (simp add: INTENT_FAMILY_def)
  have h: "has_field (update ?o (without_fields INTENT_FAMILY fs)) k \<longleftrightarrow> dict_get ?o k \<noteq> None"
    if "k \<in> {''goal_waves'', ''goal_tickets'', ''converge_target''}" for k
    using that fam unfolding has_field_def update_get [OF d] without_get by (auto split: option.split)
  have f: "family_of (update ?o (without_fields INTENT_FAMILY fs)) =
      filter (\<lambda>k. dict_get ?o k \<noteq> None) [''goal_waves'', ''goal_tickets'', ''converge_target'']"
    unfolding family_of_def by (rule filter_cong) (use h in auto)
  have "intent = ''normal'' \<and> target = None \<or> intent = ''goal'' \<and> target = None \<or> intent = ''converge'' \<and> (\<exists>t. target = Some t)"
    using assms by (auto simp: legal_intent_def STATE_INTENT_ENUM_def split: option.splits)
  then have "set (filter (\<lambda>k. dict_get ?o k \<noteq> None) [''goal_waves'', ''goal_tickets'', ''converge_target'']) = set (expected_family intent)"
  proof (elim disjE conjE exE)
    assume "intent = ''normal''" "target = None"
    then show ?thesis by (simp add: intent_owned_def expected_family_def)
  next
    assume "intent = ''goal''" "target = None"
    then show ?thesis by (simp add: intent_owned_def expected_family_def)
  next
    fix t
    assume "intent = ''converge''" "target = Some t"
    then show ?thesis by (simp add: intent_owned_def expected_family_def)
  qed
  then show ?thesis unfolding f .
qed

text \<open>
  C36: a legal transition of the execution intent writes one document: the fields of all intent families are gone,
  those of the new family stand with the given values, every other field and everything below the closing fence
  are as before.  It is returned unless the read of that document fails, and a corrupt one is still returned for
  \<open>normal\<close>, whose family is empty.
\<close>

theorem intent_transition_exact:
  assumes "list_all plain_line ls" "startswith (unlines ls) ''---''" "parse_frontmatter (unlines ls) = Inr fs"
    and "list_all (\<lambda>k. \<not> holds_list fs k) INTENT_FAMILY" "legal_intent intent target waves tickets"
  shows "\<exists>doc. parse_frontmatter doc = Inr (update (intent_owned intent target waves tickets) (without_fields INTENT_FAMILY fs)) \<and>
    after_front doc = after_front (unlines ls) \<and>
    transition_execution_intent ins (unlines ls) intent target waves tickets =
      (case parse_state ins doc of
         Inl e \<Rightarrow> Inl (Read_Raised e)
       | Inr (Inl _) \<Rightarrow> if intent = ''normal'' then Inr doc else Inl (Family_Mismatch [])
       | Inr (Inr _) \<Rightarrow> Inr doc)"
proof -
  let ?o = "intent_owned intent target waves tickets"
  from remove_fields_exact [OF assms(1-4)] obtain ls' where r: "remove_state_fields (unlines ls) INTENT_FAMILY = Inr (unlines ls')"
    "list_all plain_line ls'" "startswith (unlines ls') ''---''" "parse_frontmatter (unlines ls') = Inr (without_fields INTENT_FAMILY fs)"
    "after_front (unlines ls') = after_front (unlines ls)" by blast
  note o = intent_owned_facts [OF assms(5)]
  have "?o \<noteq> []" by (simp add: intent_owned_def)
  moreover have "list_all (\<lambda>(k, _). \<not> holds_list (without_fields INTENT_FAMILY fs) k) ?o"
    using assms(4) by (auto simp: intent_owned_def INTENT_FAMILY_def holds_list_def without_get split: option.split)
  ultimately have "case patch_state (unlines ls') (as_values ?o) of
      Inl e \<Rightarrow> \<exists>k v. (k, v) \<in> set ?o \<and> render_value v = Inl e
    | Inr doc \<Rightarrow> parse_frontmatter doc = Inr (update ?o (without_fields INTENT_FAMILY fs)) \<and>
        filter (unowned ?o) (front_part doc) = filter (unowned ?o) (front_part (unlines ls')) \<and>
        after_front doc = after_front (unlines ls')"
    by (rule patch_outcome [OF r(2-4) o(2)])
  then obtain doc where d: "patch_state (unlines ls') (as_values ?o) = Inr doc"
    "parse_frontmatter doc = Inr (update ?o (without_fields INTENT_FAMILY fs))" "after_front doc = after_front (unlines ls')"
    by (cases "patch_state (unlines ls') (as_values ?o)") (use o(3) in fastforce)+
  have ok: "intent \<in> set STATE_INTENT_ENUM"
    "\<not> (intent = ''converge'' \<and> \<not> (case target of Some t \<Rightarrow> t \<in> set STATE_CONVERGE_TARGETS | None \<Rightarrow> False))"
    "\<not> (intent \<noteq> ''converge'' \<and> target \<noteq> None)" "\<not> (waves < 0 \<or> tickets < 0)"
    using assms(5) by (auto simp: legal_intent_def split: option.splits)
  have read: "gs = update ?o (without_fields INTENT_FAMILY fs)" if "parse_state ins doc = Inr (Inr gs)" for gs
  proof -
    have "strip doc \<noteq> []" 
      using d(2) blank_text_lines [of doc] by (auto simp: parse_frontmatter_def is_fence_def split: list.splits if_splits)
    with that d(2) show ?thesis by (auto simp: parse_state_def checked_def split: sum.splits list.splits)
  qed
  have empty: "expected_family intent = [] \<longleftrightarrow> intent = ''normal''"
    using ok(1) by (auto simp: expected_family_def STATE_INTENT_ENUM_def)
  have "transition_execution_intent ins (unlines ls) intent target waves tickets =
      (case parse_state ins doc of
         Inl e \<Rightarrow> Inl (Read_Raised e)
       | Inr (Inl _) \<Rightarrow> if intent = ''normal'' then Inr doc else Inl (Family_Mismatch [])
       | Inr (Inr _) \<Rightarrow> Inr doc)"
  proof -
    have pre: "transition_execution_intent ins (unlines ls) intent target waves tickets =
        (case parse_state ins doc of
           Inl e \<Rightarrow> Inl (Read_Raised e)
         | Inr read \<Rightarrow>
             let family = (case read of Inr fs \<Rightarrow> family_of fs | Inl _ \<Rightarrow> []) in
             if set family \<noteq> set (expected_family intent) then Inl (Family_Mismatch family) else Inr doc)"
      unfolding transition_execution_intent_def r(1) sum.case o(1) d(1)
      using ok by (simp only: if_False simp_thms not_not if_True)
    show ?thesis
    proof (cases "parse_state ins doc")
      case (Inr rd)
      then show ?thesis unfolding pre using read family_after [OF assms(5), of fs] empty by (cases rd) (auto simp: Let_def)
    qed (simp add: pre)
  qed
  with d r(5) show ?thesis by (intro exI [of _ doc]) simp
qed

text \<open>A converge run pivots to a goal; its target goes, the attempt and the text below the fence stay.\<close>

definition converge_state :: "string list" where
  "converge_state =
     [''---'', ''phase: SCOUT'', ''transition_from: PLAN'', ''task: T-1'', ''attempt: A-001'', ''execution_intent: converge'',
      ''converge_target: ship'', ''next_action: PHASE SCOUT T-1'', ''blocker: none'', ''agent: ada'', ''saipen_version: 8'',
      ''mode: full'', ''updated: 2026-01-02T03:04:05Z'', ''---'', ''BOUNDARY'']"

definition sample_install :: install where
  "sample_install = \<lparr>ins_major = Some 8, ins_schema = Some 3, ins_style = Some ''ded-0123abcd'', ins_own_home = (\<lambda>_. False)\<rparr>"

theorem intent_transition_exact_witness:
  "case transition_execution_intent sample_install (unlines converge_state) ''goal'' None 1 2 of
     Inl _ \<Rightarrow> False
   | Inr doc \<Rightarrow> after_front doc = [''---'', ''BOUNDARY''] \<and>
       (case parse_frontmatter doc of Inl _ \<Rightarrow> False
        | Inr fs \<Rightarrow> family_of fs = [''goal_waves'', ''goal_tickets''] \<and> state_string fs ''attempt'' = Some ''A-001'')"
proof -
  obtain fs where fs: "parse_frontmatter (unlines converge_state) = Inr fs"
    and l: "list_all (\<lambda>k. \<not> holds_list fs k) INTENT_FAMILY" "state_string fs ''attempt'' = Some ''A-001''"
  proof -
    have "case parse_frontmatter (unlines converge_state) of Inl _ \<Rightarrow> False
        | Inr fs \<Rightarrow> list_all (\<lambda>k. \<not> holds_list fs k) INTENT_FAMILY \<and> state_string fs ''attempt'' = Some ''A-001''" by code_simp
    with that show ?thesis by (cases "parse_frontmatter (unlines converge_state)") auto
  qed
  have ok: "list_all plain_line converge_state" "startswith (unlines converge_state) ''---''" "legal_intent ''goal'' None 1 2"
    "after_front (unlines converge_state) = [''---'', ''BOUNDARY'']"
    "case transition_execution_intent sample_install (unlines converge_state) ''goal'' None 1 2 of Inl _ \<Rightarrow> False | Inr _ \<Rightarrow> True"
    by code_simp+
  from intent_transition_exact [OF ok(1,2) fs l(1) ok(3), of sample_install] obtain doc where d:
    "parse_frontmatter doc = Inr (update (intent_owned ''goal'' None 1 2) (without_fields INTENT_FAMILY fs))"
    "after_front doc = after_front (unlines converge_state)"
    "transition_execution_intent sample_install (unlines converge_state) ''goal'' None 1 2 =
      (case parse_state sample_install doc of
         Inl e \<Rightarrow> Inl (Read_Raised e)
       | Inr (Inl _) \<Rightarrow> if ''goal'' = ''normal'' then Inr doc else Inl (Family_Mismatch [])
       | Inr (Inr _) \<Rightarrow> Inr doc)" by blast
  from d(3) ok(5) have r: "transition_execution_intent sample_install (unlines converge_state) ''goal'' None 1 2 = Inr doc"
    by (auto split: sum.splits)
  have dd: "distinct (map fst (intent_owned ''goal'' None 1 2))" by code_simp
  have att: "''attempt'' \<notin> set INTENT_FAMILY" "dict_get (intent_owned ''goal'' None 1 2) ''attempt'' = None"
    "dict_get (intent_owned ''goal'' None 1 2) ''goal_waves'' = Some (SInt 1)"
    "dict_get (intent_owned ''goal'' None 1 2) ''goal_tickets'' = Some (SInt 2)"
    "dict_get (intent_owned ''goal'' None 1 2) ''converge_target'' = None" "''converge_target'' \<in> set INTENT_FAMILY" by code_simp+
  have "state_string (update (intent_owned ''goal'' None 1 2) (without_fields INTENT_FAMILY fs)) ''attempt'' = state_string fs ''attempt''"
    unfolding state_string_def update_get [OF dd] att without_get by (simp add: att)
  moreover have "family_of (update (intent_owned ''goal'' None 1 2) (without_fields INTENT_FAMILY fs)) = [''goal_waves'', ''goal_tickets'']"
    unfolding family_of_def has_field_def by (simp add: update_get [OF dd] att without_get)
  ultimately show ?thesis unfolding r using d ok(4) l(2) by simp
qed

section \<open>Accepted states\<close>

definition lifecycle_phase :: "state_fields \<Rightarrow> bool" where
  "lifecycle_phase fs \<longleftrightarrow>
     (case state_string fs ''phase'' of
        None \<Rightarrow> False
      | Some p \<Rightarrow> p \<in> set ALL_PHASES \<and>
          (p = ''INIT'' \<or>
           (case state_string fs ''transition_from'' of
              None \<Rightarrow> False
            | Some tf \<Rightarrow> tf \<in> set ALL_PHASES \<and> (transition_legal tf p \<or> parked_shape tf p))))"

definition legal_texts :: "state_fields \<Rightarrow> bool" where
  "legal_texts fs \<longleftrightarrow>
     list_all (\<lambda>key. state_string fs key \<noteq> None) [''task'', ''next_action'', ''blocker'', ''agent'', ''mode'', ''updated''] \<and>
     strict_iso_utc (text_field fs ''updated'') \<noteq> [] \<and>
     (startswith (strip (text_field fs ''next_action'')) ''WAIT:'' \<longrightarrow> parse_wait (text_field fs ''next_action'') \<noteq> None)"

definition one_family :: "state_fields \<Rightarrow> bool" where
  "one_family fs \<longleftrightarrow>
     (let intent = (case state_string fs ''execution_intent'' of Some i \<Rightarrow> i | None \<Rightarrow> ''normal'') in
      intent \<in> set STATE_INTENT_ENUM \<and> set (family_of fs) = set (expected_family intent))"

lemma required_present: "presence_errors fs = [] \<Longrightarrow> key \<in> set STATE_REQUIRED_FIELDS \<Longrightarrow> has_field fs key"
  by (auto simp: presence_errors_def filter_empty_conv)

lemma string_present:
  assumes "presence_errors fs = []" "key \<in> set STATE_REQUIRED_FIELDS" "key \<in> set STATE_STRING_FIELDS"
  shows "state_string fs key \<noteq> None"
proof -
  from assms(1,2) obtain v where v: "dict_get fs key = Some v"
    by (auto simp: presence_errors_def has_field_def filter_empty_conv)
  from map_of_SomeD [OF this] assms(1,3) have "is_text_value v"
    by (auto simp: presence_errors_def map_filter_empty list_all_iff split: if_splits)
  with v show ?thesis by (auto simp: state_string_def is_text_value_def split: sval.splits scalar.splits)
qed

lemma enum_member: "has_field fs key \<Longrightarrow> in_enum fs key enum \<Longrightarrow> \<exists>s. state_string fs key = Some s \<and> s \<in> set enum"
  by (auto simp: in_enum_def split: option.splits)

lemma accepted_phase:
  assumes "transition_errors fs = Inr []" "enum_errors fs = []" "has_field fs ''phase''"
  shows "lifecycle_phase fs"
proof -
  from assms(2,3) have "in_enum fs ''phase'' ALL_PHASES" by (auto simp: enum_errors_def Let_def split: if_splits)
  from enum_member [OF assms(3) this] obtain p where p: "state_string fs ''phase'' = Some p" "p \<in> set ALL_PHASES" by blast
  then have v: "dict_get fs ''phase'' = Some (Scalar (SStr p))"
    by (auto simp: state_string_def split: option.splits sval.splits scalar.splits)
  show ?thesis
  proof (cases "p = ''INIT''")
    case False
    with assms(1) v have tf: "has_field fs ''transition_from''" by (auto simp: transition_errors_def split: if_splits)
    with assms(2) have "in_enum fs ''transition_from'' ALL_PHASES" by (auto simp: enum_errors_def Let_def split: if_splits)
    from enum_member [OF tf this] obtain t where t: "state_string fs ''transition_from'' = Some t" "t \<in> set ALL_PHASES" by blast
    have "transition_legal t p \<or> parked_shape t p"
      using assms(1) v False tf t p(2)
      by (auto simp: transition_errors_def transition_legal_def phase_row_def ALL_PHASES_def dict_keys_def split: if_splits option.splits)
    with p t show ?thesis by (simp add: lifecycle_phase_def)
  qed (use p in \<open>simp add: lifecycle_phase_def\<close>)
qed

lemma accepted_family:
  assumes "intent_errors fs = []" "enum_errors fs = []"
  shows "one_family fs"
proof (cases "has_field fs ''execution_intent''")
  case True
  with assms(2) have "in_enum fs ''execution_intent'' STATE_INTENT_ENUM" by (auto simp: enum_errors_def Let_def split: if_splits)
  from enum_member [OF True this] obtain i where i: "state_string fs ''execution_intent'' = Some i" "i \<in> set STATE_INTENT_ENUM" by blast
  then have "i = ''normal'' \<or> i = ''goal'' \<or> i = ''converge''" by (auto simp: STATE_INTENT_ENUM_def)
  with assms(1) i show ?thesis
    by (elim disjE) (simp_all add: one_family_def intent_errors_def Let_def family_of_def expected_family_def split: if_splits)
next
  case False
  then have "dict_get fs ''execution_intent'' = None" "state_string fs ''execution_intent'' = None"
    by (simp_all add: has_field_def state_string_def)
  with assms(1) show ?thesis
    by (simp add: one_family_def intent_errors_def Let_def family_of_def expected_family_def STATE_INTENT_ENUM_def split: if_splits)
qed

lemma accepted_state_facts:
  assumes "parse_state_or_error ins doc = Inr (Inr fs)" "strip doc \<noteq> []"
  shows "lifecycle_phase fs \<and> legal_texts fs \<and> one_family fs \<and> list_all (\<lambda>(key, _). key \<in> set STATE_KNOWN_FIELDS) fs"
proof -
  from assms obtain style where "state_contract_errors (ins_major ins) style (ins_schema ins) fs = Inr []"
    by (auto simp: parse_state_or_error_def checked_def split: sum.splits list.splits)
  then have e: "transition_errors fs = Inr []" "presence_errors fs = []" "enum_errors fs = []" "intent_errors fs = []" "text_errors fs = []"
    by (cases "transition_errors fs"; auto simp: state_contract_errors_def)+
  have str: "state_string fs key \<noteq> None" if "key \<in> {''task'', ''next_action'', ''blocker'', ''agent'', ''updated''}" for key
    by (rule string_present [OF e(2)]) (use that in \<open>auto simp: STATE_REQUIRED_FIELDS_def STATE_STRING_FIELDS_def\<close>)
  have ph: "has_field fs ''phase''" and mode: "has_field fs ''mode''"
    by (rule required_present [OF e(2)], simp add: STATE_REQUIRED_FIELDS_def)+
  have "in_enum fs ''mode'' STATE_MODE_ENUM" using e(3) mode by (auto simp: enum_errors_def Let_def split: if_splits)
  with enum_member [OF mode] have m: "state_string fs ''mode'' \<noteq> None" by blast
  obtain u na where un: "state_string fs ''updated'' = Some u" "state_string fs ''next_action'' = Some na"
    using str [of "''updated''"] str [of "''next_action''"] by auto
  have "legal_texts fs"
    using str m e(5) un by (auto simp: legal_texts_def text_errors_def text_field_def parse_wait_def split: if_splits option.splits)
  moreover have "list_all (\<lambda>(key, _). key \<in> set STATE_KNOWN_FIELDS) fs"
    using e(2) by (auto simp: presence_errors_def map_filter_empty list_all_iff split: if_splits)
  ultimately show ?thesis using accepted_phase [OF e(1,3) ph] accepted_family [OF e(4,3)] by blast
qed

text \<open>
  C35: a STATE document the strict reader accepts is a typed lifecycle state: a known phase that is the initial one
  or was entered by a legal edge (or is the parked shape), the required texts, a real UTC instant, a \<open>WAIT\<close> only
  in its closed grammar, no unknown field, and the counters of exactly one intent family.
\<close>

theorem accepted_state_typed:
  assumes "parse_state_or_error ins doc = Inr (Inr fs)" "strip doc \<noteq> []"
  shows "lifecycle_phase fs \<and> legal_texts fs \<and> one_family fs \<and> list_all (\<lambda>(key, _). key \<in> set STATE_KNOWN_FIELDS) fs"
  by (rule accepted_state_facts [OF assms])

theorem accepted_state_typed_witness:
  "case parse_state_or_error sample_install (unlines converge_state) of
     Inr (Inr fs) \<Rightarrow> lifecycle_phase fs \<and> one_family fs | _ \<Rightarrow> False"
proof -
  have r: "case parse_state_or_error sample_install (unlines converge_state) of Inr (Inr fs) \<Rightarrow> True | _ \<Rightarrow> False"
    and n: "strip (unlines converge_state) \<noteq> []" by code_simp+
  from r obtain fs where fs: "parse_state_or_error sample_install (unlines converge_state) = Inr (Inr fs)"
    by (auto split: sum.splits)
  from accepted_state_typed [OF fs n] fs show ?thesis by simp
qed

section \<open>Where the contract is not what it says\<close>

text \<open>An empty \<open>phase:\<close> is read as a list, and looking the list up in the frozen set of phases raises.\<close>

theorem empty_phase_raises:
  "parse_state_or_error sample_install (unlines [''---'', ''phase:'', ''transition_from: BUILD'', ''---'']) = Inl Unhashable"
  by code_simp

text \<open>From \<open>HUNT\<close> to \<open>DONE\<close> no edge leads; the contract accepts the step as a parked shape.\<close>

theorem hunt_done_accepted:
  "\<not> transition_legal ''HUNT'' ''DONE''"
  "parked_shape ''HUNT'' ''DONE''"
  "transition_errors [(''phase'', Scalar (SStr ''DONE'')), (''transition_from'', Scalar (SStr ''HUNT''))] = Inr []"
  by code_simp+

end
