(* ===== verification/FastCheckLaws.thy ===== *)
theory FastCheckLaws
  imports FastCheck StateContractLaws CutLaws AttemptLaws BoardLaws
begin

text \<open>
  What the transactional gate guarantees of a checkpoint it lets through, what it misses of the Attempt contract,
  and where the raw falsifiers disagree with the parsers on documents both sides call healthy.
\<close>

section \<open>The active LOG\<close>

definition event_lines :: "string list \<Rightarrow> string list" where
  "event_lines ls = filter (\<lambda>l. strip l \<noteq> [] \<and> \<not> startswith (lstrip l) ''#'') ls"

definition events_in :: "string list \<Rightarrow> event list" where
  "events_in ls = List.map_filter parse_log_line (event_lines ls)"

text \<open>Every line is an event, numbers grow, by one or over an exempted gap, and parents are older.\<close>

definition clean_log :: "string \<Rightarrow> bool" where
  "clean_log doc \<longleftrightarrow>
     (let ls = splitlines doc; evs = events_in ls in
      list_all (\<lambda>l. parse_log_line l \<noteq> None) (event_lines ls) \<and> sorted_wrt (<) (map ev_id evs) \<and>
      successively (\<lambda>a b. b = Suc a \<or> amnestied_gap (ledger_gap_amnesties doc) a b) (map ev_id evs) \<and>
      list_all (\<lambda>ev. case ev_parent ev of Some p \<Rightarrow> p < ev_id ev | None \<Rightarrow> True) evs)"

lemma raw_skip: "CHR ''['' \<notin> set u \<Longrightarrow> raw_event_id (u @ s) = raw_event_id s"
  by (induction u) (auto simp: Let_def)

lemma date_no_bracket: "shaped date_shape s \<Longrightarrow> CHR ''['' \<notin> set s"
proof
  assume s: "shaped date_shape s" "CHR ''['' \<in> set s"
  then have "list_all2 (\<lambda>p c. p c) date_shape s" by (simp add: shaped_def)
  with s(2) have "\<exists>p \<in> set date_shape. p (CHR ''['')" by (metis in_set_conv_nth list_all2_conv_all_nth)
  moreover have "list_all (\<lambda>p. \<not> p (CHR ''['')) date_shape" by code_simp
  ultimately show False by (auto simp: list_all_iff)
qed

lemma raw_of_event:
  assumes "parse_log_line l = Some ev"
  shows "\<exists>ds. raw_event_id l = Some ds \<and> digits_value ds = ev_id ev"
proof -
  from assms obtain d s1 num s2 where a: "startswith l ''- ''" "log_date (drop 2 l) = (d, s1)"
    "bracket ''[E-'' is_digit s1 = Some (num, s2)" "num \<noteq> []" "ev_id ev = digits_value num"
    by (auto simp: parse_log_line_def split: if_splits prod.splits option.splits)
  from bracket_text [OF a(3)] have s1: "s1 = ''[E-'' @ num @ CHR '']'' # s2" and ds: "list_all is_digit num" by auto
  have "\<exists>u. drop 2 l = u @ s1 \<and> CHR ''['' \<notin> set u"
  proof (cases "shaped date_shape (take 14 (drop 2 l)) \<and> startswith (drop 14 (drop 2 l)) '' ''")
    case True
    then have "s1 = drop 15 (drop 2 l)" using a(2) by (simp add: log_date_def)
    moreover have "drop 14 (drop 2 l) = CHR '' '' # drop 15 (drop 2 l)"
      using startswith_drop [of "drop 14 (drop 2 l)" "'' ''"] True by simp
    ultimately have "drop 2 l = (take 14 (drop 2 l) @ [CHR '' '']) @ s1" by (metis append_Cons append_Nil append_assoc append_take_drop_id)
    with date_no_bracket True show ?thesis by (intro exI [of _ "take 14 (drop 2 l) @ [CHR '' '']"]) auto
  next
    case False
    then have "s1 = drop 2 l" using a(2) by (auto simp: log_date_def)
    then show ?thesis by (intro exI [of _ "[]"]) simp
  qed
  then obtain u where u: "drop 2 l = u @ s1" "CHR ''['' \<notin> set u" by blast
  from startswith_drop [OF a(1)] have "l = ''- '' @ drop 2 l" by (simp add: numeral_2_eq_2)
  then have "l = (''- '' @ u) @ s1" using u(1) by (metis append_assoc)
  then have "raw_event_id l = raw_event_id s1" using u(2) raw_skip [of "''- '' @ u" s1] by simp
  moreover have "\<not> is_digit CHR '']''" by (simp add: is_digit_def Let_def)
  then have tw: "takeWhile is_digit (num @ CHR '']'' # s2) = num" using ds by (simp add: list_all_iff takeWhile_append2)
  have "raw_event_id s1 = Some num"
    unfolding s1 using a(4) by (simp add: Let_def tw)
  ultimately show ?thesis using a(5) by simp
qed

lemma floor_increasing:
  "log_floor_from seen k nls = [] \<Longrightarrow>
   sorted_wrt (<) (map ev_id (events_in (map snd nls))) \<and> list_all (\<lambda>ev. k < int (ev_id ev)) (events_in (map snd nls))"
proof (induction nls arbitrary: seen k)
  case (Cons nl nls)
  obtain n l where nl: "nl = (n, l)" by (cases nl)
  show ?case
  proof (cases "raw_event_id l")
    case None
    then have "parse_log_line l = None" using raw_of_event [of l] by (cases "parse_log_line l") auto
    then have "events_in (map snd (nl # nls)) = events_in (map snd nls)"
      by (simp add: nl events_in_def event_lines_def)
    with Cons.IH [of seen k] Cons.prems None nl show ?thesis by simp
  next
    case (Some ds)
    with Cons.prems nl have lt: "k < int (digits_value ds)" and "log_floor_from (ds # seen) (int (digits_value ds)) nls = []"
      by (auto split: if_splits)
    note ih = Cons.IH [OF this(2)]
    show ?thesis
    proof (cases "strip l \<noteq> [] \<and> \<not> startswith (lstrip l) ''#'' \<and> parse_log_line l \<noteq> None")
      case True
      then obtain ev where ev: "parse_log_line l = Some ev" by blast
      with raw_of_event [OF ev] Some have "ev_id ev = digits_value ds" by simp
      with ev ih lt True show ?thesis by (auto simp: nl events_in_def event_lines_def list_all_iff)
    next
      case False
      then have "events_in (map snd (nl # nls)) = events_in (map snd nls)"
        by (auto simp: nl events_in_def event_lines_def)
      with ih lt show ?thesis by (auto simp: list_all_iff)
    qed
  qed
qed (simp add: events_in_def event_lines_def)

definition chained :: "(nat \<times> nat, nat) dict \<Rightarrow> nat option \<Rightarrow> nat list \<Rightarrow> bool" where
  "chained am prev ids \<longleftrightarrow>
     successively (\<lambda>a b. b = Suc a \<or> amnestied_gap am a b) (case prev of Some p \<Rightarrow> p # ids | None \<Rightarrow> ids)"

lemma walk_keeps_errors:
  "\<exists>new. lw_errors (walk_damaged n l w) = lw_errors w @ new" "\<exists>new. lw_errors (walk_event am n ev w) = lw_errors w @ new"
  by (cases "declared_event_id l") (simp_all add: walk_damaged_def walk_event_def Let_def)

lemma log_line_errors: "\<exists>new. lw_errors (walk_log_line am w nl) = lw_errors w @ new"
proof (cases nl)
  case (Pair n l)
  show ?thesis
  proof (cases "strip l = [] \<or> startswith (lstrip l) ''#''")
    case False
    then show ?thesis using walk_keeps_errors
      by (cases "parse_log_line l") (simp_all add: Pair walk_log_line_def)
  qed (simp add: Pair walk_log_line_def)
qed

lemma log_walk_errors: "lw_errors (foldl (walk_log_line am) w nls) = [] \<Longrightarrow> lw_errors w = []"
proof (induction nls arbitrary: w)
  case (Cons nl nls)
  from Cons.prems have "lw_errors (walk_log_line am w nl) = []" unfolding foldl_Cons by (rule Cons.IH)
  with log_line_errors [of am w nl] show ?case by (metis append_is_Nil_conv)
qed simp

lemma walk_clean:
  "lw_errors (foldl (walk_log_line am) w nls) = [] \<Longrightarrow>
   list_all (\<lambda>l. parse_log_line l \<noteq> None) (event_lines (map snd nls)) \<and>
   lw_events (foldl (walk_log_line am) w nls) = lw_events w @ events_in (map snd nls) \<and>
   chained am (lw_prev w) (map ev_id (events_in (map snd nls))) \<and>
   list_all (\<lambda>ev. case ev_parent ev of Some p \<Rightarrow> p < ev_id ev | None \<Rightarrow> True) (events_in (map snd nls)) \<and>
   lw_highest (foldl (walk_log_line am) w nls) = foldl raise_to (lw_highest w) (map ev_id (events_in (map snd nls)))"
proof (induction nls arbitrary: w)
  case Nil
  then show ?case by (simp add: events_in_def event_lines_def chained_def split: option.split)
next
  case (Cons nl nls)
  obtain n l where nl: "nl = (n, l)" by (cases nl)
  from Cons.prems have e: "lw_errors (foldl (walk_log_line am) (walk_log_line am w nl) nls) = []" by simp
  note ih = Cons.IH [OF e] and here = log_walk_errors [OF e]
  show ?case
  proof (cases "strip l = [] \<or> startswith (lstrip l) ''#''")
    case True
    then have "walk_log_line am w nl = w" "event_lines (map snd (nl # nls)) = event_lines (map snd nls)"
      "events_in (map snd (nl # nls)) = events_in (map snd nls)"
      by (auto simp: nl walk_log_line_def event_lines_def events_in_def)
    with ih show ?thesis by simp
  next
    case False
    show ?thesis
    proof (cases "parse_log_line l")
      case None
      with False here show ?thesis by (simp add: nl walk_log_line_def walk_damaged_def Let_def split: option.splits)
    next
      case (Some ev)
      have w: "walk_log_line am w nl = walk_event am n ev w" using False Some by (simp add: nl walk_log_line_def)
      have ev: "event_lines (map snd (nl # nls)) = l # event_lines (map snd nls)"
        "events_in (map snd (nl # nls)) = ev # events_in (map snd nls)"
        using False Some by (simp_all add: nl event_lines_def events_in_def)
      have step: "case lw_prev w of Some p \<Rightarrow> ev_id ev = Suc p \<or> amnestied_gap am p (ev_id ev) | None \<Rightarrow> True"
        "case ev_parent ev of Some p \<Rightarrow> p < ev_id ev | None \<Rightarrow> True"
        using here unfolding w by (auto simp: walk_event_def Let_def gap_at_def split: option.splits if_splits)
      have "lw_events (walk_event am n ev w) = lw_events w @ [ev]" "lw_prev (walk_event am n ev w) = Some (ev_id ev)"
        "lw_highest (walk_event am n ev w) = raise_to (lw_highest w) (ev_id ev)"
        by (simp_all add: walk_event_def Let_def)
      with ih step Some show ?thesis unfolding w ev foldl_Cons
        by (cases "lw_prev w") (simp_all add: chained_def)
    qed
  qed
qed

lemma raise_sorted: "sorted_wrt (<) ids \<Longrightarrow> ids \<noteq> [] \<Longrightarrow> (case best of Some b \<Rightarrow> list_all (\<lambda>i. b < i) ids | None \<Rightarrow> True) \<Longrightarrow>
   foldl raise_to best ids = Some (last ids)"
proof (induction ids arbitrary: best)
  case (Cons i ids)
  have r: "raise_to best i = Some i" using Cons.prems(3) by (auto simp: raise_to_def split: option.splits)
  show ?case
  proof (cases "ids = []")
    case False
    with Cons.IH [of "Some i"] Cons.prems r show ?thesis by (simp add: list_all_iff)
  qed (simp add: r)
qed simp

lemma analyzed_log:
  assumes "lw_errors (analyze_log doc) = []" "log_floor doc = []"
  shows "clean_log doc" "lw_events (analyze_log doc) = events_in (splitlines doc)"
    "lw_highest (analyze_log doc) = (if events_in (splitlines doc) = [] then None else Some (ev_id (last (events_in (splitlines doc)))))"
proof -
  note w = walk_clean [OF assms(1) [unfolded analyze_log_def]]
  have s: "sorted_wrt (<) (map ev_id (events_in (splitlines doc)))"
    using floor_increasing [of "[]" "-1" "numbered (splitlines doc)"] assms(2) by (simp add: log_floor_def)
  with w show "clean_log doc" by (simp add: clean_log_def Let_def chained_def empty_log_walk_def)
  show "lw_events (analyze_log doc) = events_in (splitlines doc)"
    using w by (simp add: analyze_log_def empty_log_walk_def)
  show "lw_highest (analyze_log doc) = (if events_in (splitlines doc) = [] then None else Some (ev_id (last (events_in (splitlines doc)))))"
    using w raise_sorted [OF s, of None] by (auto simp: analyze_log_def empty_log_walk_def last_map)
qed

section \<open>A sealed checkpoint\<close>

text \<open>The board parses, its graph and its records are sound, one ticket at most is in work and waits for nothing.\<close>

definition sound_board :: "string \<Rightarrow> bool" where
  "sound_board doc \<longleftrightarrow>
     (let w = parse_board doc; ts = w_tickets w in
      w_errors w = [] \<and> board_graph_errors ts = [] \<and> length (doing_tickets ts) \<le> 1 \<and>
      list_all (\<lambda>(_, t). board_semantic_errors t = [] \<and> (tk_section t = ''## DOING'' \<longrightarrow> list_all (is_done ts) (tk_needs t))) ts)"

text \<open>STATE and BOARD name the same ticket, and the seat is not split.\<close>

definition seat_bound :: "state_fields \<Rightarrow> tickets \<Rightarrow> string \<Rightarrow> nat \<Rightarrow> bool" where
  "seat_bound fs ts actor now \<longleftrightarrow>
     (if bears_ticket fs then
        (\<exists>t. doing_tickets ts = [t] \<and> state_task fs = Some (tk_id t) \<and> claim_status t actor now \<noteq> INVALID \<and>
           (field_text t ''owner'' = [] \<or> strip (text_field fs ''agent'') \<in> {[], field_text t ''owner''}) \<and>
           (case Option.bind (state_string fs ''next_action'') named_ticket of Some tid \<Rightarrow> tid = tk_id t | None \<Rightarrow> True))
      else state_task fs = None \<and>
        list_all (\<lambda>t. claim_status t (if actor \<noteq> [] then actor else text_field fs ''agent'') now \<notin> {SELF, INVALID}) (doing_tickets ts))"

text \<open>The pointer of STATE names the one open Attempt on the task, and there is one only if it does.\<close>

definition pointer_pinned :: "state_fields \<Rightarrow> attempts \<Rightarrow> bool" where
  "pointer_pinned fs rs \<longleftrightarrow>
     work_opens rs (state_string fs ''task'') = (case state_string fs ''attempt'' of Some p \<Rightarrow> [p] | None \<Rightarrow> []) \<and>
     (case state_string fs ''attempt'' of
        None \<Rightarrow> True
      | Some p \<Rightarrow> (\<exists>rec. dict_get rs p = Some rec \<and> at_close rec = None \<and> at_ticket rec = state_string fs ''task''))"

text \<open>A parked ticket is witnessed by the newest event that moves the phase.\<close>

definition park_witnessed :: "state_fields \<Rightarrow> tickets \<Rightarrow> event list \<Rightarrow> nat list \<Rightarrow> bool" where
  "park_witnessed fs ts evs planned \<longleftrightarrow>
     (needs_park_proof fs \<longrightarrow>
        (\<exists>bound ev. Option.bind (dict_get fs ''last_event'') plain_int = Some bound \<and>
           latest_event (filter phase_event (filter (\<lambda>ev. int (ev_id ev) \<le> bound) evs)) = Some ev \<and>
           is_active_block planned ts ev))"

text \<open>The checkpoint number is the last event of the LOG.\<close>

definition tail_recorded :: "state_fields \<Rightarrow> string \<Rightarrow> bool" where
  "tail_recorded fs doc \<longleftrightarrow>
     (events_in (splitlines doc) \<noteq> [] \<and> has_field fs ''last_event'' \<longrightarrow>
        equals_int (dict_get fs ''last_event'') (int (ev_id (last (events_in (splitlines doc))))))"

lemma sealed_board:
  assumes "board_surface_errors doc = []"
  shows "sound_board doc"
proof -
  let ?ts = "w_tickets (parse_board doc)"
  from assms have e: "w_errors (parse_board doc) = []" "board_graph_errors ?ts = []" "length (doing_tickets ?ts) \<le> 1"
    and t: "\<And>i t. (i, t) \<in> set ?ts \<Longrightarrow> board_semantic_errors t = [] \<and> open_needs ?ts t = []"
    by (auto simp: board_surface_errors_def Let_def split: if_splits)
  have "list_all (is_done ?ts) (tk_needs t)" if m: "(i, t) \<in> set ?ts" and d: "tk_section t = ''## DOING''" for i t
  proof -
    from e(2) m have "missing_needs ?ts (i, t) = []" by (auto simp: board_graph_errors_def)
    then have "list_all (\<lambda>need. dict_get ?ts need \<noteq> None) (tk_needs t)"
      by (auto simp: missing_needs_def filter_empty_conv list_all_iff)
    moreover from t [OF m] d have "list_all (\<lambda>need. case dict_get ?ts need of None \<Rightarrow> True | Some n \<Rightarrow> tk_section n = ''## DONE'') (tk_needs t)"
      by (auto simp: open_needs_def filter_empty_conv list_all_iff split: option.split)
    ultimately show ?thesis by (auto simp: list_all_iff is_done_def split: option.splits)
  qed
  with e t show ?thesis by (auto simp: sound_board_def Let_def list_all_iff)
qed

lemma bound_task: "state_task fs = (let t = text_field fs ''task'' in if t = [] \<or> t = ''none'' then None else Some t)"
  by (auto simp: state_task_def text_field_def Let_def split: option.split)

lemma strip_blank: "strip [] = []"
  by (simp add: strip_Nil)

lemma sealed_seat:
  assumes "ownership_invariant_errors fs ts actor now = []" "binding_errors fs ts actor now = []" "length (doing_tickets ts) \<le> 1"
  shows "seat_bound fs ts actor now"
proof (cases "bears_ticket fs")
  case False
  have "list_all P (doing_tickets ts) \<longleftrightarrow> doing_tickets ts = [] \<or> P (hd (doing_tickets ts))" for P
    using assms(3) by (cases "doing_tickets ts") auto
  with False assms(2) show ?thesis
    by (auto simp: seat_bound_def binding_errors_def bound_task Let_def split: if_splits)
next
  case True
  with assms(2) have ne: "doing_tickets ts \<noteq> []" and tb: "state_task fs = Some (tk_id (hd (doing_tickets ts)))"
    and na: "case Option.bind (state_string fs ''next_action'') named_ticket of Some tid \<Rightarrow> tid = tk_id (hd (doing_tickets ts)) | None \<Rightarrow> True"
    by (auto simp: binding_errors_def bound_task Let_def split: if_splits option.splits)
  from ne assms(3) obtain t where t: "doing_tickets ts = [t]" by (cases "doing_tickets ts") auto
  with assms(1) tb have "claim_status t actor now \<noteq> INVALID \<and>
      (field_text t ''owner'' = [] \<or> strip (text_field fs ''agent'') \<in> {[], field_text t ''owner''})"
    by (auto simp: ownership_invariant_errors_def classify_active_ownership_def Let_def field_text_def non_blank_def strip_blank
        split: if_splits option.splits)
  with True t tb na [unfolded t list.sel] show ?thesis by (simp add: seat_bound_def)
qed

lemma active_member: "dict_get rs p = Some rec \<Longrightarrow> at_close rec = None \<Longrightarrow> p \<in> set (active_attempts rs)"
  by (force simp: active_attempts_def map_filter_def dest: map_of_SomeD)

lemma sealed_pointer:
  assumes "attempt_pointer_errors fs rs = []"
  shows "pointer_pinned fs rs"
proof (cases "dict_get fs ''attempt''")
  case None
  with assms show ?thesis
    by (auto simp: attempt_pointer_errors_def pointer_pinned_def state_string_def Let_def split: list.splits)
next
  case (Some v)
  with assms obtain p rec where p: "v = Scalar (SStr p)" and r: "dict_get rs p = Some rec" "at_close rec = None"
    "state_string fs ''task'' = at_ticket rec"
    by (auto simp: attempt_pointer_errors_def record_at_def Let_def split: option.splits if_splits sval.splits scalar.splits)
  then have "p \<in> set (work_opens rs (state_string fs ''task''))" by (simp add: work_opens_def active_member)
  moreover have "work_opens rs (state_string fs ''task'') = [a] \<Longrightarrow> p = a" for a
    using assms Some p by (auto simp: attempt_pointer_errors_def Let_def split: if_splits)
  moreover have "length (work_opens rs (state_string fs ''task'')) \<le> 1"
    using assms by (auto simp: attempt_pointer_errors_def Let_def split: list.splits)
  ultimately have "work_opens rs (state_string fs ''task'') = [p]"
    by (cases "work_opens rs (state_string fs ''task'')") auto
  moreover have "state_string fs ''attempt'' = Some p" using Some p by (simp add: state_string_def)
  ultimately show ?thesis using r by (simp add: pointer_pinned_def)
qed

lemma sealed_park: "block_parked_evidence_error fs ts evs planned = None \<Longrightarrow> park_witnessed fs ts evs planned"
  unfolding park_witnessed_def
  by (cases "Option.bind (dict_get fs ''last_event'') plain_int")
     (auto simp: block_parked_evidence_error_def Let_def latest_event_def split: if_splits option.splits)

text \<open>The whole promise.\<close>

definition sealed_checkpoint :: "gate_env \<Rightarrow> state_fields \<Rightarrow> string \<Rightarrow> string \<Rightarrow> string \<Rightarrow> snapshot option \<Rightarrow> nat list \<Rightarrow> bool" where
  "sealed_checkpoint env fs board_doc log_doc actor captured planned \<longleftrightarrow>
     (let ts = w_tickets (parse_board board_doc); evs = proposed_events captured (events_in (splitlines log_doc)) in
      lifecycle_phase fs \<and> legal_texts fs \<and> one_family fs \<and> sound_board board_doc \<and> clean_log log_doc \<and>
      tail_recorded fs log_doc \<and> seat_bound fs ts actor (g_now env) \<and> park_witnessed fs ts evs planned \<and>
      (\<exists>rs. build_attempts (g_prov env) evs = (rs, []) \<and> pointer_pinned fs rs))"

lemma gate_parts:
  assumes "validate_texts env state_doc board_doc log_doc actor captured planned = Inr []"
  obtains fs where "parse_state_or_error (g_install env) state_doc = Inr (Inr fs)"
    "raw_floor state_doc board_doc log_doc = []" "board_surface_errors board_doc = []"
    "block_parked_evidence_error fs (w_tickets (parse_board board_doc)) (proposed_events captured (lw_events (analyze_log log_doc))) planned = None"
    "log_surface_errors log_doc = []" "last_event_errors (g_install env) fs (lw_highest (analyze_log log_doc)) = []"
    "ownership_invariant_errors fs (w_tickets (parse_board board_doc)) actor (g_now env) = []"
    "binding_errors fs (w_tickets (parse_board board_doc)) actor (g_now env) = []"
    "gate_attempt_errors (g_prov env) fs (proposed_events captured (lw_events (analyze_log log_doc))) = []"
proof -
  from assms obtain fs where "parse_state_or_error (g_install env) state_doc = Inr (Inr fs)"
    by (auto simp: validate_texts_def Let_def split: sum.splits)
  with assms that show ?thesis by (simp add: validate_texts_def Let_def split: option.splits)
qed

lemma gate_sealed:
  assumes "validate_texts env state_doc board_doc log_doc actor captured planned = Inr []" "strip state_doc \<noteq> []"
  shows "\<exists>fs. parse_state_or_error (g_install env) state_doc = Inr (Inr fs) \<and>
    sealed_checkpoint env fs board_doc log_doc actor captured planned"
  using assms(1)
proof (rule gate_parts)
  fix fs
  let ?ts = "w_tickets (parse_board board_doc)" and ?evs = "proposed_events captured (events_in (splitlines log_doc))"
  assume read: "parse_state_or_error (g_install env) state_doc = Inr (Inr fs)"
    and board: "board_surface_errors board_doc = []" and raw: "raw_floor state_doc board_doc log_doc = []"
    and log: "log_surface_errors log_doc = []"
    and tail: "last_event_errors (g_install env) fs (lw_highest (analyze_log log_doc)) = []"
    and seat: "ownership_invariant_errors fs ?ts actor (g_now env) = []" "binding_errors fs ?ts actor (g_now env) = []"
    and park: "block_parked_evidence_error fs ?ts (proposed_events captured (lw_events (analyze_log log_doc))) planned = None"
    and att: "gate_attempt_errors (g_prov env) fs (proposed_events captured (lw_events (analyze_log log_doc))) = []"
  have "lw_errors (analyze_log log_doc) = []" "log_floor log_doc = []"
    using log raw by (simp_all add: log_surface_errors_def raw_floor_def)
  note an = analyzed_log [OF this]
  note sb = sealed_board [OF board]
  then have "length (doing_tickets ?ts) \<le> 1" by (simp add: sound_board_def Let_def)
  note st = sealed_seat [OF seat this]
  have t: "tail_recorded fs log_doc"
    using tail by (auto simp: last_event_errors_def an(3) tail_recorded_def has_field_def Let_def split: if_splits option.splits)
  obtain rs where "build_attempts (g_prov env) ?evs = (rs, [])" "pointer_pinned fs rs"
    using att unfolding an(2) gate_attempt_errors_def by (auto split: prod.splits dest: sealed_pointer)
  with read sb st t an(1) sealed_park [OF park [unfolded an(2)]] accepted_state_facts [OF read assms(2)]
  show ?thesis by (auto simp: sealed_checkpoint_def Let_def)
qed

text \<open>
  C34: a checkpoint the transactional gate lets through is coherent across its three documents: STATE is a typed
  lifecycle state, the board is sound, the LOG is a gap-free increasing chain of events whose last number STATE
  carries, STATE and BOARD name the same ticket and owner, a parked ticket is witnessed by the newest phase
  event, and the Attempt history folds without errors with its pointer on the open Attempt of the task.
\<close>

theorem gate_seals_checkpoint:
  assumes "validate_texts env state_doc board_doc log_doc actor captured planned = Inr []" "strip state_doc \<noteq> []"
  shows "\<exists>fs. parse_state_or_error (g_install env) state_doc = Inr (Inr fs) \<and>
    sealed_checkpoint env fs board_doc log_doc actor captured planned"
  by (rule gate_sealed [OF assms])

section \<open>A checkpoint at work\<close>

definition gate_sample :: gate_env where
  "gate_sample = \<lparr>g_install = sample_install\<lparr>ins_style := None\<rparr>, g_prov = (\<lambda>_. None), g_now = 0\<rparr>"

definition sealed_state :: "string list" where
  "sealed_state =
     [''---'', ''phase: BUILD'', ''transition_from: SCOUT'', ''task: T-2'', ''attempt: A-001'', ''next_action: PHASE BUILD T-2'',
      ''blocker: none'', ''agent: ada'', ''saipen_version: 8'', ''schema_version: 3'', ''last_event: 3'', ''mode: full'',
      ''updated: 2026-01-02T03:04:05Z'', ''---'', ''BOUNDARY'']"

definition sealed_board_lines :: "string list" where
  "sealed_board_lines =
     [''## DOING'', ''- [/] T-2 core | needs: T-1 | owner: ada | claim_time: 2026-01-02T03:00:00Z'', ''## TODO'', ''## DONE'',
      ''- [x] T-1 base | verify: done'', ''## BLOCKED'']"

definition sealed_log_lines :: "string list" where
  "sealed_log_lines =
     [''# log'', ''- [E-1] [T-1] DEC: added'', ''- 01.01.26 00:00 [E-2] [parent: E-1] [T-2] DEC: added'',
      ''- 02.01.26 03:00 [E-3] [parent: E-2] [T-2] [agent: ada] DEC: attempt A-001 open'']"

theorem gate_seals_checkpoint_witness:
  "\<exists>fs. parse_state_or_error (g_install gate_sample) (unlines sealed_state) = Inr (Inr fs) \<and>
     sealed_checkpoint gate_sample fs (unlines sealed_board_lines) (unlines sealed_log_lines) ''ada'' None []"
proof (rule gate_seals_checkpoint)
  show "validate_texts gate_sample (unlines sealed_state) (unlines sealed_board_lines) (unlines sealed_log_lines) ''ada'' None [] = Inr []"
    by code_simp
  show "strip (unlines sealed_state) \<noteq> []" by code_simp
qed

end
