(* ===== verification/GateLimits.thy ===== *)
theory GateLimits
  imports FastCheckLaws "HOL-Library.Multiset"
begin

text \<open>
  Concrete checkpoints on which the transactional gate departs from what its comments or its sibling checks say:
  it accepts two open Attempts on different tickets, and its raw floor refuses documents every parser accepts;
  and what a repair is charged with when its project was defective before.
\<close>

section \<open>Two open episodes\<close>

definition two_episodes :: "string list" where
  "two_episodes =
     [''- [E-1] [T-1] DEC: added'', ''- [E-2] [parent: E-1] [T-2] DEC: added'',
      ''- [E-3] [parent: E-2] [T-3] [agent: bob] DEC: attempt A-002 open'',
      ''- [E-4] [parent: E-3] [T-2] [agent: ada] DEC: attempt A-001 open'']"

definition two_episode_board :: "string list" where
  "two_episode_board =
     [''## DOING'', ''- [/] T-2 core | needs: T-1 | owner: ada | claim_time: 2026-01-02T03:00:00Z'', ''## TODO'',
      ''- [ ] T-3 other'', ''## DONE'', ''- [x] T-1 base | verify: done'', ''## BLOCKED'']"

definition at_event :: "string \<Rightarrow> string list \<Rightarrow> string list" where
  "at_event l ls = map (\<lambda>x. if startswith x ''last_event:'' then l else x) ls"

theorem two_open_attempts_pass:
  "validate_texts gate_sample (unlines (at_event ''last_event: 4'' sealed_state)) (unlines two_episode_board) (unlines two_episodes) ''ada'' None [] = Inr []"
  "case parse_frontmatter (unlines (at_event ''last_event: 4'' sealed_state)) of
     Inr fs \<Rightarrow> contract_errors (\<lambda>_. None) (events_in (splitlines (unlines two_episodes))) fs None = Inr [Many_Open [''A-002'', ''A-001'']]
   | Inl _ \<Rightarrow> False"
  by code_simp+

section \<open>The floor against the parsers\<close>

definition doing_last :: "string list" where
  "doing_last =
     [''## TODO'', ''## DONE'', ''- [x] T-1 base | verify: done'', ''## BLOCKED'', ''## DOING'',
      ''- [/] T-2 core | needs: T-1 | owner: ada | claim_time: 2026-01-02T03:00:00Z'']"

text \<open>With \<open>DOING\<close> as the last section the floor reads no such section.\<close>

theorem doing_last_refused:
  "sound_board (unlines doing_last)"
  "validate_texts gate_sample (unlines sealed_state) (unlines doing_last) (unlines sealed_log_lines) ''ada'' None [] =
     Inr [Floor_Fired (No_Doing ''T-2'')]"
  by code_simp+

text \<open>A comment that cites an event makes the event a duplicate.\<close>

theorem commented_event_refused:
  "clean_log (unlines (''# see [E-1]'' # sealed_log_lines))"
  "log_floor (unlines (''# see [E-1]'' # sealed_log_lines)) = [Floor_Duplicate 3 ''1'']"
  by code_simp+

text \<open>A description that quotes a checkbox with an identity is counted as a second opener.\<close>

theorem quoted_opener_refused:
  "sound_board (unlines [''## DOING'', ''## TODO'', ''- [ ] T-1 see - [ ] AB-1'', ''## DONE'', ''## BLOCKED''])"
  "board_floor (unlines [''## DOING'', ''## TODO'', ''- [ ] T-1 see - [ ] AB-1'', ''## DONE'', ''## BLOCKED'']) = [Two_Openers 3 2]"
  by code_simp+

section \<open>What a proposal adds\<close>

definition owed :: "(string, nat) dict \<Rightarrow> string \<Rightarrow> nat" where
  "owed seen key = (case dict_get seen key of Some n \<Rightarrow> n | None \<Rightarrow> 0)"

lemma owed_set [simp]: "owed (dict_set key n seen) k = (if k = key then n else owed seen k)"
  by (simp add: owed_def)

lemma split_counts:
  "split_defects seen es = (introduced, inherited) \<Longrightarrow>
   mset (introduced @ inherited) = mset es \<and>
   count_list (map defect_signature inherited) k = min (owed seen k) (count_list (map defect_signature es) k)"
proof (induction es arbitrary: seen introduced inherited)
  case (Cons e es)
  let ?key = "defect_signature e"
  show ?case
  proof (cases "0 < owed seen ?key")
    case True
    obtain i h where r: "split_defects (dict_set ?key (owed seen ?key - 1) seen) es = (i, h)" by fastforce
    with True Cons.prems have "introduced = i" "inherited = e # h" by (auto simp: owed_def Let_def)
    with Cons.IH [OF r] True show ?thesis by auto
  next
    case False
    obtain i h where r: "split_defects seen es = (i, h)" by fastforce
    with False Cons.prems have "introduced = e # i" "inherited = h" by (auto simp: owed_def Let_def)
    with Cons.IH [OF r] False show ?thesis by auto
  qed
qed simp

lemma owed_seen:
  "owed (foldl (\<lambda>seen e. dict_set (defect_signature e)
      (Suc (case dict_get seen (defect_signature e) of Some n \<Rightarrow> n | None \<Rightarrow> 0)) seen) seen earlier) k =
   owed seen k + count_list (map defect_signature earlier) k"
proof (induction earlier arbitrary: seen)
  case (Cons e earlier)
  have "owed (dict_set (defect_signature e) (Suc (owed seen (defect_signature e))) seen) k =
      owed seen k + (if defect_signature e = k then 1 else 0)" by simp
  with Cons show ?case by (simp add: owed_def)
qed simp

text \<open>
  The difference \<open>defect_delta\<close> splits the errors after a proposal, losing none, into those inherited and those introduced; up to
  line numbers every signature is inherited as often as it stood there before, and no oftener than it still stands,
  so nothing is introduced exactly when no signature occurs more often than before.
\<close>

theorem defect_delta_exact:
  "case defect_delta earlier later of (introduced, inherited) \<Rightarrow>
     mset (introduced @ inherited) = mset later \<and>
     (\<forall>k. count_list (map defect_signature inherited) k =
        min (count_list (map defect_signature earlier) k) (count_list (map defect_signature later) k)) \<and>
     (introduced = [] \<longleftrightarrow>
        (\<forall>k. count_list (map defect_signature later) k \<le> count_list (map defect_signature earlier) k))"
proof -
  obtain i h where d: "defect_delta earlier later = (i, h)" by fastforce
  note s = split_counts [OF d [unfolded defect_delta_def]]
  have c: "count_list (map defect_signature h) k =
      min (count_list (map defect_signature earlier) k) (count_list (map defect_signature later) k)" for k
    using s [of k] unfolding owed_seen by (simp add: owed_def)
  have m: "mset (map defect_signature i) + mset (map defect_signature h) = mset (map defect_signature later)"
    using s by (metis image_mset_union mset_append mset_map)
  have cl: "count_list (map defect_signature later) k = count_list (map defect_signature i) k + count_list (map defect_signature h) k" for k
    using arg_cong [OF m, of "\<lambda>x. count x k"] unfolding count_union count_mset by simp
  have "i = [] \<longleftrightarrow> (\<forall>k. count_list (map defect_signature i) k = 0)"
    by (auto simp: count_list_0_iff)
  also have "\<dots> \<longleftrightarrow> (\<forall>k. count_list (map defect_signature later) k \<le> count_list (map defect_signature earlier) k)"
    using cl c by (metis (no_types) add_cancel_right_left le_add1 min.absorb_iff2 min.cobounded1)
  finally show ?thesis using s c by (simp add: d)
qed

end
