(* ===== verification/OwnershipLaws.thy ===== *)
theory OwnershipLaws
  imports Ownership SchedulingLaws BoardLaws
begin

text \<open>
  What the ownership gate decides and what the committed state then satisfies: an active ticket is mutated only by
  the seat that holds a readable claim on it, and neither the actor's nor the preserved seat splits STATE from
  BOARD when it is written.
\<close>

section \<open>Every parsed board is keyed\<close>

lemma keyed_shadow: "keyed ts \<Longrightarrow> keyed (shadow tid s ts)"
  by (auto simp: keyed_def shadow_def list_all_iff o_def case_prod_unfold)

lemma keyed_add: "keyed ts \<Longrightarrow> dict_get ts (tk_id t) = None \<Longrightarrow> keyed (dict_set (tk_id t) t ts)"
  by (auto simp: keyed_def dict_set_fresh map_of_eq_None_iff)

lemma keyed_record: "keyed (w_tickets w) \<Longrightarrow> keyed (w_tickets (walk_record n l w))"
proof -
  assume k: "keyed (w_tickets w)"
  have add: "keyed (w_tickets (add_error e w'))" if "keyed (w_tickets w')" for e w' using that by (simp add: add_error_def)
  show ?thesis
  proof (cases "ticket_re (hide_pipes (strip l))")
    case (Some m)
    obtain checkbox tid rest where m: "m = (checkbox, tid, rest)" by (cases m)
    obtain needs fs errs where f: "read_fields n tid (tl (ticket_parts rest)) ([], [], []) = (needs, fs, errs)"
      by (metis prod_cases3)
    show ?thesis
    proof (cases "dict_get (w_tickets w) tid")
      case None
      with k Some m f add keyed_add [of "w_tickets w" "\<lparr>tk_id = tid, tk_section = s, tk_line_no = n, tk_checkbox = checkbox,
          tk_needs = needs, tk_fields = fs, tk_raw = l, tk_description = hd (ticket_parts rest), tk_shadowed = []\<rparr>" for s]
      show ?thesis by (auto simp: walk_record_def Let_def split: option.split)
    next
      case (Some t)
      with k \<open>ticket_re _ = _\<close> m f add keyed_shadow show ?thesis
        by (auto simp: walk_record_def Let_def split: option.split)
    qed
  qed (use k add in \<open>simp add: walk_record_def\<close>)
qed

lemma keyed_line: "keyed (w_tickets w) \<Longrightarrow> keyed (w_tickets (walk_line w nl))"
  by (auto simp: walk_line_def add_error_def keyed_record split: prod.split option.split)

lemma keyed_walk: "keyed (w_tickets w) \<Longrightarrow> keyed (w_tickets (foldl walk_line w nls))"
  by (induction nls arbitrary: w) (auto simp: keyed_line)

lemma keyed_board: "keyed (w_tickets (parse_board doc))"
  using keyed_walk [of empty_walk "numbered (splitlines doc)"]
  by (simp add: parse_board_def Let_def) (simp add: empty_walk_def keyed_def)

lemma doing_get: "keyed ts \<Longrightarrow> t \<in> set (doing_tickets ts) \<Longrightarrow> dict_get ts (tk_id t) = Some t \<and> tk_section t = ''## DOING''"
proof -
  assume k: "keyed ts" and "t \<in> set (doing_tickets ts)"
  then obtain i where "(i, t) \<in> set ts" "tk_section t = ''## DOING''" by (auto simp: doing_tickets_def)
  with keyed_get [OF k] show ?thesis by metis
qed

section \<open>The gate\<close>

text \<open>The active ticket STATE is bound to: the first one in work, when the task names it.\<close>

definition bound_ticket :: "state_fields \<Rightarrow> tickets \<Rightarrow> ticket option" where
  "bound_ticket fs ts =
     (case doing_tickets ts of [] \<Rightarrow> None | t # _ \<Rightarrow> if state_task fs = Some (tk_id t) then Some t else None)"

lemma claimed_seat:
  assumes "doing_tickets ts = t # more_doing"
  shows "st_active (classify_active_ownership (\<lambda>_. False) fs ts agent now) = Some (tk_id t)"
    "st_status (classify_active_ownership (\<lambda>_. False) fs ts agent now) = Claimed_As (claim_status t agent now)"
    "st_owner (classify_active_ownership (\<lambda>_. False) fs ts agent now) =
       (if field_text t ''owner'' = [] then None else Some (field_text t ''owner''))"
    "st_agent (classify_active_ownership (\<lambda>_. False) fs ts agent now) = non_blank (text_field fs ''agent'')"
    "st_bound (classify_active_ownership (\<lambda>_. False) fs ts agent now) \<longleftrightarrow> state_task fs = Some (tk_id t)"
  using assms by (auto simp: classify_active_ownership_def Let_def field_text_def non_blank_def strip_Nil split: option.split)

lemma bound_errors:
  "ownership_invariant_errors fs ts actor now =
     (case bound_ticket fs ts of
        None \<Rightarrow> []
      | Some t \<Rightarrow>
          if claim_status t actor now = INVALID then [Invalid_Claim (tk_id t)]
          else if field_text t ''owner'' = [] then []
          else case non_blank (text_field fs ''agent'') of
            Some agent \<Rightarrow> if field_text t ''owner'' \<noteq> agent then [Owner_Split agent (field_text t ''owner'')] else []
          | None \<Rightarrow> [])"
proof (cases "doing_tickets ts")
  case Nil
  then show ?thesis by (simp add: ownership_invariant_errors_def bound_ticket_def classify_active_ownership_def Let_def)
next
  case (Cons t ts')
  from claimed_seat [OF Cons] show ?thesis
    by (simp add: ownership_invariant_errors_def bound_ticket_def Cons Let_def split: option.split)
qed

lemma gate_exact:
  "active_claim_refusal fs doc agent now =
     (case bound_ticket fs (w_tickets (parse_board doc)) of
        None \<Rightarrow> None
      | Some t \<Rightarrow>
          (case claim_status t agent now of
             SELF \<Rightarrow> None | INVALID \<Rightarrow> Some VALIDATION_FAILED | _ \<Rightarrow> Some TICKET_NOT_WORKABLE))"
proof (cases "doing_tickets (w_tickets (parse_board doc))")
  case Nil
  then show ?thesis
    by (auto simp: active_claim_refusal_def bound_ticket_def classify_active_ownership_def Let_def split: option.split)
next
  case (Cons t ts')
  let ?ts = "w_tickets (parse_board doc)"
  have t: "dict_get ?ts (tk_id t) = Some t" "tk_section t = ''## DOING''" using doing_get [OF keyed_board, of t doc] Cons by simp_all
  show ?thesis
  proof (cases "state_task fs = Some (tk_id t)")
    case True
    with t claimed_seat [OF Cons, of fs agent now] Cons show ?thesis
      by (cases "claim_status t agent now") (simp_all add: active_claim_refusal_def bound_ticket_def may_mutate_active_def Let_def)
  next
    case False
    then show ?thesis using claimed_seat [OF Cons, of fs agent now]
      by (auto simp: active_claim_refusal_def bound_ticket_def Cons Let_def split: option.split)
  qed
qed

lemma self_owner: "claim_status t agent now = SELF \<Longrightarrow> field_text t ''owner'' = agent \<and> agent \<noteq> []"
  by (auto simp: claim_status_def claim_of_def split: if_splits option.splits)

lemma field_text_strip: "strip (field_text t k) = field_text t k"
proof (cases "field_text t k = []")
  case False
  then have "trimmed (field_text t k)" using strip_ends unfolding field_text_def trimmed_def by blast
  then show ?thesis by (rule trimmed_strip)
qed (simp add: strip_Nil)

lemma written_agent:
  "text_field (dict_set ''agent'' (Scalar (SStr a)) fs) ''agent'' = a"
  "bound_ticket (dict_set ''agent'' (Scalar (SStr a)) fs) ts = bound_ticket fs ts"
  by (simp_all add: text_field_def state_string_def bound_ticket_def state_task_def split: list.split)

text \<open>
  C37: the ownership gate of the active-ticket mutations admits exactly the seat that holds a readable claim on
  the ticket STATE is bound to, refuses a corrupt claim as a validation failure and a foreign, stale or missing
  one as not workable; and when the admitted actor is written as \<open>STATE.agent\<close>, STATE and BOARD agree.
\<close>

theorem mutation_gate_exact:
  "active_claim_refusal fs doc agent now =
     (case bound_ticket fs (w_tickets (parse_board doc)) of
        None \<Rightarrow> None
      | Some t \<Rightarrow>
          (case claim_status t agent now of
             SELF \<Rightarrow> None | INVALID \<Rightarrow> Some VALIDATION_FAILED | _ \<Rightarrow> Some TICKET_NOT_WORKABLE)) \<and>
   (active_claim_refusal fs doc agent now = None \<longrightarrow>
      ownership_invariant_errors (dict_set ''agent'' (Scalar (SStr agent)) fs) (w_tickets (parse_board doc)) agent now = [])"
proof (cases "bound_ticket fs (w_tickets (parse_board doc))")
  case (Some t)
  have "ownership_invariant_errors (dict_set ''agent'' (Scalar (SStr agent)) fs) (w_tickets (parse_board doc)) agent now = []"
    if self: "claim_status t agent now = SELF"
    using self_owner [OF self] field_text_strip [of t "''owner''"]
    by (simp add: bound_errors written_agent Some self non_blank_def)
  with Some show ?thesis unfolding gate_exact by (simp split: claim.split)
qed (simp add: gate_exact bound_errors written_agent)

definition owned_board :: "string list" where
  "owned_board =
     [''## DOING'', ''- [/] T-1 core | owner: ada | claim_time: 2026-01-02T03:00:00Z'', ''## TODO'', ''## DONE'', ''## BLOCKED'']"

definition seated :: "string \<Rightarrow> state_fields" where
  "seated who = [(''task'', Scalar (SStr ''T-1'')), (''agent'', Scalar (SStr who))]"

theorem mutation_gate_exact_witness:
  "active_claim_refusal (seated ''bob'') (unlines owned_board) ''ada'' 0 = None \<and>
   active_claim_refusal (seated ''ada'') (unlines owned_board) ''bob'' 0 = Some TICKET_NOT_WORKABLE \<and>
   ownership_invariant_errors (dict_set ''agent'' (Scalar (SStr ''ada'')) (seated ''bob'')) (w_tickets (parse_board (unlines owned_board))) ''ada'' 0 = []"
proof -
  have "active_claim_refusal (seated ''bob'') (unlines owned_board) ''ada'' 0 = None"
    "active_claim_refusal (seated ''ada'') (unlines owned_board) ''bob'' 0 = Some TICKET_NOT_WORKABLE" by code_simp+
  with mutation_gate_exact [of "seated ''bob''" "unlines owned_board" "''ada''" 0] show ?thesis by simp
qed

section \<open>The preserved seat\<close>

text \<open>A mutation that moves no seat keeps a non-empty one, and then commits no split.\<close>

lemma seat_agent_kept:
  assumes "seat_agent fs doc agent now = Inr a" "state_string fs ''agent'' = Some s" "s \<noteq> []"
    and "bound_ticket fs (w_tickets (parse_board doc)) \<noteq> None"
  shows "a = s \<and> ownership_invariant_errors (dict_set ''agent'' (Scalar (SStr a)) fs) (w_tickets (parse_board doc)) agent now = []"
proof -
  from assms(4) obtain t ts' where d: "doing_tickets (w_tickets (parse_board doc)) = t # ts'"
    and b: "bound_ticket fs (w_tickets (parse_board doc)) = Some t"
    by (auto simp: bound_ticket_def split: list.splits if_splits)
  note c = claimed_seat [OF d, of fs agent now]
  from assms(1-3) have p: "preexisting_split_error (classify_active_ownership (\<lambda>_. False) fs (w_tickets (parse_board doc)) agent now) (Some s) = None"
    and a: "a = s" by (auto simp: seat_agent_def Let_def split: option.splits)
  with c assms(3) have "claim_status t agent now \<noteq> INVALID" "field_text t ''owner'' = [] \<or> field_text t ''owner'' = s"
    by (auto simp: preexisting_split_error_def split: if_splits)
  with a field_text_strip [of t "''owner''"] show ?thesis by (auto simp: bound_errors written_agent b non_blank_def)
qed

text \<open>
  An empty seat takes the actor's name even when another agent owns the ticket in work: what is written is the
  split the invariant refuses.
\<close>

theorem empty_seat_splits:
  "seat_agent (seated []) (unlines owned_board) ''bob'' 0 = Inr ''bob''"
  "ownership_invariant_errors (seated ''bob'') (w_tickets (parse_board (unlines owned_board))) ''bob'' 0 = [Owner_Split ''bob'' ''ada'']"
  by code_simp+

end
