(* ===== verification/Checkpoint.thy ===== *)
theory Checkpoint
  imports FastCheck BoardEdit Ledger
begin

text \<open>
  What every command of \<open>operations.py\<close> shares: the strict read of the canonical documents, the one bounded producer
  of LOG events with its externalised details (\<open>log_compaction.py\<close>), the plan it hands to the journal and the guard
  that turns an exception into a refusal.  Redaction, digests, the detail's JSON text, path ownership, the access
  to a persisted home and the authority proofs over other files are parameters.
\<close>

section \<open>The bounded producer\<close>

text \<open>The structure of an active block: its dependency.\<close>

type_synonym block_structure = "string option"

record log_producer =
  pr_redact :: "string \<Rightarrow> string"
  pr_digest :: "string \<Rightarrow> string"
  pr_owned :: "string \<Rightarrow> bool"
  pr_metadata :: "nat \<Rightarrow> string option \<Rightarrow> string \<Rightarrow> nat \<Rightarrow> string option \<Rightarrow> block_structure option \<Rightarrow> string"

datatype producer_error = Event_Refused event_error | Detail_Not_Owned string

definition LOG_DETAIL_ROOT :: string where
  "LOG_DETAIL_ROOT = ''.saipen/recovery/log-detail''"

definition structural_event_prefix :: "block_structure \<Rightarrow> string" where
  "structural_event_prefix dep =
     ACTIVE_TICKET_BLOCK_MARKER @ (case dep of Some tid \<Rightarrow> '' -- dependency '' @ tid | None \<Rightarrow> [])"

definition detail_stem :: "nat \<Rightarrow> string \<Rightarrow> string" where
  "detail_stem n digest = LOG_DETAIL_ROOT @ ''/E-'' @ show_nat n @ ''-'' @ take 24 digest"

definition compact_message :: "block_structure option \<Rightarrow> string \<Rightarrow> string" where
  "compact_message structure reference =
     (case structure of
        None \<Rightarrow> ''detail_ref: '' @ reference
      | Some dep \<Rightarrow> structural_event_prefix dep @ '' -- structural_event: ticket-block-active -- detail_ref: '' @ reference)"

definition prepare_event ::
    "log_producer \<Rightarrow> nat option \<Rightarrow> string \<Rightarrow> string \<Rightarrow> string option \<Rightarrow> string option \<Rightarrow> string \<Rightarrow> string option \<Rightarrow>
     block_structure option \<Rightarrow> producer_error + nat \<times> string \<times> (string \<times> string) list" where
  "prepare_event pr tail taxonomy message ticket agent now op_id structure =
     (case render_event tail taxonomy message ticket agent now op_id of
        Inl e \<Rightarrow> Inl (Event_Refused e)
      | Inr full \<Rightarrow>
          let n = next_event tail;
              forced = structure \<noteq> None \<and> (substring ''detail_ref:'' message \<or> substring ''structural_event:'' message) in
          if utf8_length full \<le> MAX_NEW_EVENT_BYTES \<and> \<not> forced then Inr (n, full, [])
          else
            let detail = full @ [CHR 10]; digest = pr_digest pr detail; stem = detail_stem n digest;
                detail_ref = stem @ ''.LOG.md''; metadata_ref = stem @ ''.json'' in
            if \<not> pr_owned pr detail_ref then Inl (Detail_Not_Owned detail_ref)
            else if \<not> pr_owned pr metadata_ref then Inl (Detail_Not_Owned metadata_ref)
            else case render_event tail taxonomy (compact_message structure metadata_ref) ticket agent now op_id of
              Inl e \<Rightarrow> Inl (Event_Refused e)
            | Inr line \<Rightarrow>
                if MAX_NEW_EVENT_BYTES < utf8_length line then Inl (Event_Refused (Event_Oversize (utf8_length line)))
                else Inr (n, line,
                  [(detail_ref, detail), (metadata_ref, pr_metadata pr n ticket digest (utf8_length detail) op_id structure)]))"

definition prepare_bounded_event ::
    "log_producer \<Rightarrow> nat option \<Rightarrow> string \<Rightarrow> string \<Rightarrow> string option \<Rightarrow> string option \<Rightarrow> string \<Rightarrow> string option \<Rightarrow>
     block_structure option \<Rightarrow> producer_error + nat \<times> string \<times> (string \<times> string) list" where
  "prepare_bounded_event pr tail taxonomy message ticket agent now op_id structure =
     (case prepare_event pr tail taxonomy (pr_redact pr message) ticket agent now op_id structure of
        Inl e \<Rightarrow> Inl e
      | Inr (n, line, targets) \<Rightarrow>
          if one_legal_event line then Inr (n, line, targets) else Inl (Event_Refused Not_One_Event))"

section \<open>The strict read\<close>

record docs =
  d_state :: string
  d_board :: string
  d_log :: string
  d_fields :: state_fields
  d_history :: snapshot

record reader =
  rd_install :: install
  rd_home_refusal :: "string \<Rightarrow> string option"
  rd_own_ledger :: "string \<Rightarrow> bool"
  rd_lifecycle :: "state_fields \<Rightarrow> tickets \<Rightarrow> event list \<Rightarrow> bool"
  rd_authority :: "state_fields \<Rightarrow> event list \<Rightarrow> bool"

datatype load_error =
    State_Empty
  | State_Unreadable read_problem
  | State_Escapes type_error
  | Home_Refused string
  | History_Binding parked_error
  | History_Void
  | Lifecycle_Unauthorized
  | Authority_Unproved

text \<open>\<open>_read\<close> with nothing observed, on the decoded texts and the one snapshot of the history.\<close>

definition read_checkpoint :: "reader \<Rightarrow> string \<Rightarrow> string \<Rightarrow> string \<Rightarrow> snapshot \<Rightarrow> load_error + docs" where
  "read_checkpoint rd state_doc board_doc log_doc sn =
     (if strip state_doc = [] then Inl State_Empty
      else case parse_state_or_error (rd_install rd) state_doc of
        Inl e \<Rightarrow> Inl (State_Escapes e)
      | Inr (Inl problem) \<Rightarrow> Inl (State_Unreadable problem)
      | Inr (Inr fs) \<Rightarrow>
          let ts = w_tickets (parse_board board_doc); home = text_field fs ''saipen_home'' in
          (case rd_home_refusal rd home of
             Some code \<Rightarrow> Inl (Home_Refused code)
           | None \<Rightarrow>
               (case block_parked_evidence_error fs ts (sn_events sn) [] of
                  Some e \<Rightarrow> Inl (History_Binding e)
                | None \<Rightarrow>
                    if strip home \<noteq> [] \<and> is_absolute_home home \<and> rd_own_ledger rd home \<and> snapshot_contract_errors sn \<noteq> []
                    then Inl History_Void
                    else if \<not> rd_lifecycle rd fs ts (sn_events sn) then Inl Lifecycle_Unauthorized
                    else if \<not> rd_authority rd fs (sn_events sn) then Inl Authority_Unproved
                    else Inr \<lparr>d_state = state_doc, d_board = board_doc, d_log = log_doc, d_fields = fs, d_history = sn\<rparr>)))"

section \<open>Plans and refusals\<close>

record plan =
  pl_operation :: string
  pl_agent :: string
  pl_op :: string
  pl_ticket :: "string option"
  pl_event :: nat
  pl_targets :: "(string \<times> string) list"

datatype escape =
    Event_Raised producer_error
  | Board_Raised edit_error
  | State_Raised state_error
  | Read_Escaped type_error

datatype command_outcome =
    Refused refusal_code
  | Settled string string
  | Planned plan
  | Escaped escape

text \<open>\<open>_state_guard\<close>: the exceptions that become a refusal.\<close>

definition state_guard :: "escape \<Rightarrow> command_outcome" where
  "state_guard e =
     (case e of
        Event_Raised (Event_Refused Not_One_Event) \<Rightarrow> Refused VALIDATION_FAILED
      | Event_Raised (Event_Refused (Event_Oversize _)) \<Rightarrow> Refused (Other_Refusal ''LOG_EVENT_OVERSIZE'')
      | Board_Raised (Bad_Record (Oversize _)) \<Rightarrow> Refused (Other_Refusal ''BOARD_RECORD_OVERSIZE'')
      | _ \<Rightarrow> Escaped e)"

definition read_refusal :: "load_error \<Rightarrow> command_outcome" where
  "read_refusal e =
     (case e of
        Home_Refused code \<Rightarrow> Refused (Other_Refusal code)
      | State_Escapes t \<Rightarrow> Escaped (Read_Escaped t)
      | History_Void \<Rightarrow> Refused (Other_Refusal ''HISTORY_LEDGER_CORRUPT'')
      | Lifecycle_Unauthorized \<Rightarrow> Refused (Other_Refusal ''UNAUTHORIZED_LIFECYCLE_WRITE'')
      | _ \<Rightarrow> Refused VALIDATION_FAILED)"

text \<open>\<open>text_norm.rstrip("\n") + "\n" + line + "\n"\<close>.\<close>

definition appended_log :: "string \<Rightarrow> string \<Rightarrow> string" where
  "appended_log doc line = chomp doc @ [CHR 10] @ line @ [CHR 10]"

record clock =
  ck_stamp :: string
  ck_utc :: string
  ck_instant :: nat

record command_env =
  ce_gate :: gate_env
  ce_producer :: log_producer

text \<open>The gate every plan passes before its targets are listed: the proposed texts must be without defect.\<close>

definition passes_gate :: "command_env \<Rightarrow> docs \<Rightarrow> string \<Rightarrow> string \<Rightarrow> string \<Rightarrow> string \<Rightarrow> command_outcome option" where
  "passes_gate env d state_doc board_doc log_doc actor =
     (case validate_texts (ce_gate env) state_doc board_doc log_doc actor (Some (d_history d)) [] of
        Inl e \<Rightarrow> Some (Escaped (Read_Escaped e))
      | Inr errors \<Rightarrow> if errors \<noteq> [] then Some (Refused VALIDATION_FAILED) else None)"

end
