(* ===== verification/Handoff.thy ===== *)
theory Handoff
  imports Phases Board "HOL-Library.List_Lexorder" "HOL-Library.Char_ord"
begin

text \<open>
  Voluntary claim handoff (\<open>handoff.py\<close>): the capsules of an operator receipt that grant a ticket to an agent, and
  why stored authority does not grant one.  The intake store is read through a parameter.
\<close>

section \<open>The grammar of a capsule\<close>

definition GRANT_HEADER :: string where
  "GRANT_HEADER = ''This message supplies operator authority for a claim handoff:''"

definition GRANT_TERMINATOR :: string where
  "GRANT_TERMINATOR = ''only.''"

definition blank_char :: "char \<Rightarrow> bool" where
  "blank_char c \<longleftrightarrow> c = CHR '' '' \<or> c = CHR 9"

definition agent_char :: "char \<Rightarrow> bool" where
  "agent_char c \<longleftrightarrow> is_alnum c \<or> c \<in> set ''._:-''"

text \<open>\<open>^[ \t]*(T-\d+)[ \t]+->[ \t]+([A-Za-z0-9][A-Za-z0-9._:-]{0,63})[ \t]*$\<close>.\<close>

definition grant_item :: "string \<Rightarrow> (string \<times> string) option" where
  "grant_item line =
     (case ticket_ref (dropWhile blank_char line) of
        None \<Rightarrow> None
      | Some (tid, r1) \<Rightarrow>
          (case span blank_char r1 of (b1, r2) \<Rightarrow>
             (case span blank_char (drop 2 r2) of (b2, r3) \<Rightarrow>
                (case span agent_char r3 of (agent, r4) \<Rightarrow>
                   if b1 \<noteq> [] \<and> startswith r2 ''->'' \<and> b2 \<noteq> [] \<and> agent \<noteq> [] \<and> is_alnum (hd agent) \<and> length agent \<le> 64 \<and>
                      list_all blank_char r4
                   then Some (tid, agent) else None))))"

text \<open>\<open>^[ \t]{0,3}(```|~~~)\<close>.\<close>

definition fence_of :: "string \<Rightarrow> string option" where
  "fence_of line =
     (case span blank_char line of (blanks, r) \<Rightarrow>
        if length blanks \<le> 3 \<and> (startswith r ''```'' \<or> startswith r ''~~~'') then Some (take 3 r) else None)"

section \<open>The scan\<close>

datatype capsule_end = Closed_End | Bad_Item nat | Open_End

text \<open>The inner loop from the line below the header: items, how it ended, and where the outer loop goes on.\<close>

fun capsule_body :: "(nat \<times> string) list \<Rightarrow> (string \<times> string \<times> string) list \<times> capsule_end \<times> (nat \<times> string) list" where
  "capsule_body [] = ([], Open_End, [])"
| "capsule_body ((n, line) # ls) =
     (if strip line = [] then capsule_body ls
      else if rstrip line = GRANT_TERMINATOR then ([], Closed_End, ls)
      else case grant_item line of
        None \<Rightarrow> ([], Bad_Item n, (n, line) # ls)
      | Some (tid, agent) \<Rightarrow>
          (case capsule_body ls of (items, how, rest) \<Rightarrow> ((tid, agent, strip line) # items, how, rest)))"

lemma capsule_body_shorter: "capsule_body ls = (items, how, rest) \<Longrightarrow> length rest \<le> length ls"
  by (induction ls arbitrary: items how rest rule: capsule_body.induct)
     (fastforce split: if_splits option.splits prod.splits)+

text \<open>Every unfenced header with its number, its items and its end.\<close>

function scan_capsules :: "string option \<Rightarrow> (nat \<times> string) list \<Rightarrow> (nat \<times> (string \<times> string \<times> string) list \<times> capsule_end) list" where
  "scan_capsules fence [] = []"
| "scan_capsules fence ((n, line) # ls) =
     (case fence of
        Some f \<Rightarrow> scan_capsules (if fence_of line = Some f then None else fence) ls
      | None \<Rightarrow>
          (case fence_of line of
             Some f \<Rightarrow> scan_capsules (Some f) ls
           | None \<Rightarrow>
               if rstrip line \<noteq> GRANT_HEADER then scan_capsules None ls
               else (case capsule_body ls of (items, how, rest) \<Rightarrow> (n, items, how) # scan_capsules None rest)))"
  by pat_completeness auto
termination
  by (relation "measure (\<lambda>(_, ls). length ls)") (auto dest!: capsule_body_shorter [OF sym])

datatype handoff_problem = Malformed_Capsule nat capsule_end | Conflicting_Grant string

record handoff_result =
  hg_grants :: "(string, string) dict"
  hg_lines :: "(string, string) dict"
  hg_problems :: "handoff_problem list"

definition valid_capsule :: "nat \<times> (string \<times> string \<times> string) list \<times> capsule_end \<Rightarrow> bool" where
  "valid_capsule c \<longleftrightarrow> (case c of (_, items, how) \<Rightarrow> how = Closed_End \<and> items \<noteq> [])"

text \<open>The state of the loop over the items: grants, their lines and the tickets in conflict.\<close>

type_synonym granted = "(string, string) dict \<times> (string, string) dict \<times> string list"

definition add_grant :: "granted \<Rightarrow> string \<times> string \<times> string \<Rightarrow> granted" where
  "add_grant g item =
     (case (g, item) of ((grants, shown, conflicted), (tid, agent, raw)) \<Rightarrow>
        (dict_setdefault tid agent grants, dict_setdefault tid raw shown,
         if dict_get grants tid \<noteq> None \<and> dict_get grants tid \<noteq> Some agent then tid # conflicted else conflicted))"

definition handoff_grants :: "string \<Rightarrow> handoff_result" where
  "handoff_grants doc =
     (let capsules = scan_capsules None (numbered (splitlines doc));
          items = concat (map (\<lambda>(_, its, _). its) (filter valid_capsule capsules)) in
      case foldl add_grant ([], [], []) items of (grants, shown, conflicted) \<Rightarrow>
        \<lparr>hg_grants = foldl (\<lambda>d t. dict_pop t d) grants (sort (remdups conflicted)),
         hg_lines = foldl (\<lambda>d t. dict_pop t d) shown (sort (remdups conflicted)),
         hg_problems = map (\<lambda>(n, _, how). Malformed_Capsule n how) (filter (\<lambda>c. \<not> valid_capsule c) capsules) @
           map Conflicting_Grant (sort (remdups conflicted))\<rparr>)"

end
