(* ===== verification/Handover.thy ===== *)
theory Handover
  imports Checkpoint Handoff
begin

text \<open>
  The two commands that move the execution seat (\<open>operations.py\<close>): \<open>handover_agent\<close>, which plans LOG, STATE and BOARD
  in one transaction, and \<open>handoff_claim\<close>, which decides who may order it on a live claim.
\<close>

section \<open>The handover\<close>

text \<open>The ticket the handover is about: the task, or else a lone ticket in work.\<close>

definition handover_subject :: "state_fields \<Rightarrow> tickets \<Rightarrow> string option" where
  "handover_subject fs ts =
     (let task = text_field fs ''task'' in
      if task = [] \<or> task = ''none''
      then (case doing_tickets ts of t # _ \<Rightarrow> Some (tk_id t) | [] \<Rightarrow> None)
      else Some task)"

definition active_subject :: "state_fields \<Rightarrow> tickets \<Rightarrow> string option" where
  "active_subject fs ts =
     (case handover_subject fs ts of
        None \<Rightarrow> None
      | Some tid \<Rightarrow>
          (case dict_get ts tid of Some t \<Rightarrow> if tk_section t = ''## DOING'' then Some tid else None | None \<Rightarrow> None))"

text \<open>The board of the plan and the ticket whose claim moves, or why the seat may not.\<close>

definition transfer_claim ::
    "docs \<Rightarrow> string \<Rightarrow> bool \<Rightarrow> string option \<Rightarrow> clock \<Rightarrow> command_outcome + string \<times> string option" where
  "transfer_claim d new_agent explicit session_binding ck =
     (let ts = w_tickets (parse_board (d_board d)) in
      case active_subject (d_fields d) ts of
        None \<Rightarrow> Inr (d_board d, None)
      | Some tid \<Rightarrow>
          let s = classify_active_ownership (\<lambda>_. False) (d_fields d) ts new_agent (ck_instant ck);
              status = (if st_status s = Claimed_As FOREIGN_LIVE \<and> explicit then Claimed_As SELF else st_status s) in
          if status \<in> {Claimed_As SELF, Claimed_As UNCLAIMED, Claimed_As FOREIGN_STALE} then
            (case claim_fields_in_place (d_board d) tid [(''owner'', new_agent), (''claim_time'', ck_utc ck)] True session_binding None of
               Inl e \<Rightarrow> Inl (state_guard (Board_Raised e))
             | Inr board \<Rightarrow> Inr (board, Some tid))
          else if status = Claimed_As FOREIGN_LIVE then Inl (Refused (Other_Refusal ''ACTIVE_CLAIM_FOREIGN''))
          else Inl (Refused VALIDATION_FAILED))"

definition handover_message :: "string option \<Rightarrow> string \<Rightarrow> string option \<Rightarrow> string option \<Rightarrow> string" where
  "handover_message old new_agent moved reason =
     ''agent handover '' @ (case old of Some a \<Rightarrow> if a = [] then ''(none)'' else a | None \<Rightarrow> ''(none)'') @ '' -> '' @ new_agent @
     (case moved of Some tid \<Rightarrow> '' (active '' @ tid @ '' claim transferred)'' | None \<Rightarrow> []) @
     (case reason of Some r \<Rightarrow> if r = [] then [] else '' -- '' @ r | None \<Rightarrow> [])"

definition seat_fields :: "string \<Rightarrow> nat \<Rightarrow> string \<Rightarrow> (string, sval) dict" where
  "seat_fields agent n utc =
     [(''agent'', Scalar (SStr agent)), (''last_event'', Scalar (SInt (int n))), (''updated'', Scalar (SStr utc))]"

definition handover_agent ::
    "command_env \<Rightarrow> docs \<Rightarrow> string \<Rightarrow> bool \<Rightarrow> string option \<Rightarrow> string option \<Rightarrow> clock \<Rightarrow> string \<Rightarrow> command_outcome" where
  "handover_agent env d new_agent explicit reason session_binding ck op_id =
     (if state_string (d_fields d) ''agent'' = Some new_agent then Refused VALIDATION_FAILED
      else case transfer_claim d new_agent explicit session_binding ck of
        Inl out \<Rightarrow> out
      | Inr (board, moved) \<Rightarrow>
          (case prepare_bounded_event (ce_producer env) (sn_tail (d_history d)) ''DEC''
                 (handover_message (state_string (d_fields d) ''agent'') new_agent moved reason)
                 moved (Some new_agent) (ck_stamp ck) (Some op_id) None of
             Inl e \<Rightarrow> state_guard (Event_Raised e)
           | Inr (n, line, details) \<Rightarrow>
               let log = appended_log (d_log d) line in
               (case patch_state (d_state d) (seat_fields new_agent n (ck_utc ck)) of
                  Inl e \<Rightarrow> state_guard (State_Raised e)
                | Inr state \<Rightarrow>
                    (case passes_gate env d state board log new_agent of
                       Some out \<Rightarrow> out
                     | None \<Rightarrow>
                         Planned \<lparr>pl_operation = ''handover'', pl_agent = new_agent, pl_op = op_id, pl_ticket = moved, pl_event = n,
                           pl_targets = details @ [(''.saipen/LOG.md'', log), (''.saipen/STATE.md'', state)] @
                             (case moved of Some _ \<Rightarrow> [(''.saipen/BOARD.md'', board)] | None \<Rightarrow> [])\<rparr>))))"

section \<open>Who may hand a live claim on\<close>

definition AUTHORITY_SOURCE_KINDS :: "string list" where
  "AUTHORITY_SOURCE_KINDS =
     [''user_instruction'', ''user_audit'', ''implementation_mission'', ''review_handoff'', ''corrective_followup'']"

text \<open>The intake store as the command reads it: status and kind of a receipt, its origin, its integrity and its body.\<close>

record intake_store =
  in_meta :: "string \<Rightarrow> (string \<times> string) option"
  in_operator :: "string \<Rightarrow> bool"
  in_intact :: "string \<Rightarrow> bool"
  in_body :: "string \<Rightarrow> string option"

definition valid_receipt_id :: "string \<Rightarrow> bool" where
  "valid_receipt_id s \<longleftrightarrow> startswith s ''SRC-'' \<and> drop 4 s \<noteq> [] \<and> list_all is_digit (drop 4 s)"

datatype authority_problem =
    Not_A_Receipt
  | No_Metadata
  | Not_Active
  | Not_Operator_Source
  | No_Authenticated_Origin
  | Not_Intact
  | Unreadable_Body
  | Grants_No_Handoff "handoff_problem list"

definition handoff_authority_error :: "intake_store \<Rightarrow> string \<Rightarrow> string \<Rightarrow> string \<Rightarrow> authority_problem option" where
  "handoff_authority_error st receipt ticket agent =
     (if \<not> valid_receipt_id receipt then Some Not_A_Receipt
      else case in_meta st receipt of
        None \<Rightarrow> Some No_Metadata
      | Some (status, kind) \<Rightarrow>
          if status \<noteq> ''ACTIVE'' then Some Not_Active
          else if kind \<notin> set AUTHORITY_SOURCE_KINDS then Some Not_Operator_Source
          else if \<not> in_operator st receipt then Some No_Authenticated_Origin
          else if \<not> in_intact st receipt then Some Not_Intact
          else case in_body st receipt of
            None \<Rightarrow> Some Unreadable_Body
          | Some body \<Rightarrow>
              if dict_get (hg_grants (handoff_grants body)) ticket = Some agent then None
              else Some (Grants_No_Handoff (hg_problems (handoff_grants body))))"

definition seat_id :: "string \<Rightarrow> bool" where
  "seat_id s \<longleftrightarrow> s \<noteq> [] \<and> is_alnum (hd s) \<and> list_all agent_char s \<and> length s \<le> 64"

definition declared_actor :: "string \<Rightarrow> bool" where
  "declared_actor source \<longleftrightarrow> source = ''explicit'' \<or> source = ''launcher''"

text \<open>The decision on the first read; the move itself reads the documents again.\<close>

definition handoff_decision ::
    "intake_store \<Rightarrow> docs \<Rightarrow> string \<Rightarrow> string \<Rightarrow> string \<Rightarrow> string \<Rightarrow> string option \<Rightarrow> refusal_code + string" where
  "handoff_decision st d actor actor_source ticket_id to_agent authority =
     (let tid = upper (strip ticket_id); target = strip to_agent in
      if \<not> ticket_name tid then Inl VALIDATION_FAILED
      else if \<not> seat_id target then Inl VALIDATION_FAILED
      else case dict_get (w_tickets (parse_board (d_board d))) tid of
        None \<Rightarrow> Inl TICKET_NOT_FOUND
      | Some t \<Rightarrow>
          if tk_section t \<noteq> ''## DOING'' \<or> state_string (d_fields d) ''task'' \<noteq> Some tid then Inl TICKET_NOT_WORKABLE
          else let owner = field_text t ''owner'' in
            if owner = target then Inl VALIDATION_FAILED
            else case (case authority of Some a \<Rightarrow> if a = [] then None else Some a | None \<Rightarrow> None) of
              Some a \<Rightarrow>
                let receipt = upper (strip a) in
                if handoff_authority_error st receipt tid target \<noteq> None then Inl (Other_Refusal ''HANDOFF_AUTHORITY_REQUIRED'')
                else Inr (''handoff of '' @ tid @ '', operator authority '' @ receipt)
            | None \<Rightarrow>
                if owner \<noteq> [] \<and> actor = owner \<and> declared_actor actor_source
                then Inr (''handoff of '' @ tid @ '', voluntary, by its owner '' @ owner)
                else Inl (Other_Refusal ''HANDOFF_AUTHORITY_REQUIRED''))"

definition handoff_claim ::
    "command_env \<Rightarrow> intake_store \<Rightarrow> docs \<Rightarrow> docs \<Rightarrow> string \<Rightarrow> string \<Rightarrow> string \<Rightarrow> string \<Rightarrow> string option \<Rightarrow> string option \<Rightarrow>
     clock \<Rightarrow> string \<Rightarrow> command_outcome" where
  "handoff_claim env st seen live actor actor_source ticket_id to_agent authority session_binding ck op_id =
     (case handoff_decision st seen actor actor_source ticket_id to_agent authority of
        Inl code \<Rightarrow> Refused code
      | Inr reason \<Rightarrow> handover_agent env live (strip to_agent) True (Some reason) session_binding ck op_id)"

end
