(* ===== verification/Lifecycle.thy ===== *)
theory Lifecycle
  imports Checkpoint
begin

text \<open>
  The Attempt commands (\<open>_plan_attempt\<close> in \<open>operations.py\<close>): opening and closing one execution episode on the
  claimed ticket, the machine event in LOG and the pointer in STATE in one plan, replays answered without a write,
  and the recovery of a predecessor's episode.  The sealed runtime provenance of the host is a parameter.
\<close>

section \<open>Guards\<close>

text \<open>Closing stays possible over a stale or missing claim; only a live foreign or a corrupt one refuses.\<close>

definition close_claim_refusal :: "docs \<Rightarrow> string \<Rightarrow> nat \<Rightarrow> refusal_code option" where
  "close_claim_refusal d agent now =
     (let ts = w_tickets (parse_board (d_board d)); task = text_field (d_fields d) ''task'' in
      case (if task = [] then None else dict_get ts task) of
        None \<Rightarrow> None
      | Some t \<Rightarrow>
          if tk_section t \<noteq> ''## DOING'' then None
          else case st_status (classify_active_ownership (\<lambda>_. False) (d_fields d) ts agent now) of
            Claimed_As FOREIGN_LIVE \<Rightarrow> Some TICKET_NOT_WORKABLE
          | Claimed_As INVALID \<Rightarrow> Some VALIDATION_FAILED
          | _ \<Rightarrow> None)"

definition pointer_of :: "docs \<Rightarrow> string option" where
  "pointer_of d = (case state_string (d_fields d) ''attempt'' of Some p \<Rightarrow> if p = [] then None else Some p | None \<Rightarrow> None)"

section \<open>Open\<close>

text \<open>The own live episode of a repeated request.\<close>

definition own_episode :: "docs \<Rightarrow> attempts \<Rightarrow> string \<Rightarrow> string option" where
  "own_episode d rs agent =
     (case pointer_of d of
        None \<Rightarrow> None
      | Some p \<Rightarrow>
          (case dict_get rs p of
             None \<Rightarrow> None
           | Some rec \<Rightarrow>
               if at_close rec = None \<and> at_ticket rec = state_string (d_fields d) ''task'' \<and>
                  (text_field (d_fields d) ''agent'' = agent \<or> at_agent rec = Some agent)
               then Some p else None))"

text \<open>The previous episode on this Work: the first of the latest opened.\<close>

definition latest_on :: "attempts \<Rightarrow> string \<Rightarrow> attempt option" where
  "latest_on rs task =
     foldl (\<lambda>best rec. case best of Some b \<Rightarrow> if at_open b < at_open rec then Some rec else best | None \<Rightarrow> Some rec) None
       (filter (\<lambda>rec. at_ticket rec = Some task) (map snd rs))"

definition open_text :: "string \<Rightarrow> string option \<Rightarrow> string \<Rightarrow> string" where
  "open_text aid prior token =
     ''attempt '' @ aid @ '' open'' @ (case prior of Some p \<Rightarrow> ''; supersedes '' @ p | None \<Rightarrow> []) @ ''; provenance '' @ token"

definition open_fields :: "string \<Rightarrow> nat \<Rightarrow> string \<Rightarrow> string \<Rightarrow> (string, sval) dict" where
  "open_fields aid n utc agent =
     [(''attempt'', Scalar (SStr aid)), (''last_event'', Scalar (SInt (int n))), (''updated'', Scalar (SStr utc)),
      (''agent'', Scalar (SStr agent))]"

definition plan_open ::
    "command_env \<Rightarrow> (string \<Rightarrow> string option) \<Rightarrow> docs \<Rightarrow> attempts \<Rightarrow> string \<Rightarrow> clock \<Rightarrow> string \<Rightarrow> command_outcome" where
  "plan_open env seal d rs agent ck op_id =
     (let task = text_field (d_fields d) ''task''; evs = sn_events (d_history d); prov = g_prov (ce_gate env) in
      case own_episode d rs agent of
        Some p \<Rightarrow> Settled ''ATTEMPT_ACTIVE'' p
      | None \<Rightarrow>
          if active_attempts rs \<noteq> [] then Refused VALIDATION_FAILED
          else if task = [] \<or> task = ''none'' then Refused ACTIVE_TICKET_MISMATCH
          else case dict_get (w_tickets (parse_board (d_board d))) task of
            None \<Rightarrow> Refused TICKET_NOT_FOUND
          | Some t \<Rightarrow>
              if tk_section t \<noteq> ''## DOING'' then Refused ACTIVE_TICKET_MISMATCH
              else case seal agent of
                None \<Rightarrow> Refused VALIDATION_FAILED
              | Some token \<Rightarrow>
                  let aid = next_attempt_id prov evs in
                  (case prepare_bounded_event (ce_producer env) (sn_tail (d_history d)) ''DEC''
                         (open_text aid (map_option at_id (latest_on rs task)) token) (Some task) (Some agent) (ck_stamp ck) (Some op_id) None of
                     Inl e \<Rightarrow> state_guard (Event_Raised e)
                   | Inr (n, line, details) \<Rightarrow>
                       let log = appended_log (d_log d) line in
                       (case patch_state (d_state d) (open_fields aid n (ck_utc ck) agent) of
                          Inl e \<Rightarrow> state_guard (State_Raised e)
                        | Inr state \<Rightarrow>
                            (case passes_gate env d state (d_board d) log agent of
                               Some out \<Rightarrow> out
                             | None \<Rightarrow>
                                 Planned \<lparr>pl_operation = ''attempt-open'', pl_agent = agent, pl_op = op_id, pl_ticket = Some task,
                                   pl_event = n,
                                   pl_targets = details @ [(''.saipen/LOG.md'', log), (''.saipen/STATE.md'', state)]\<rparr>))))"

section \<open>Close\<close>

record close_request =
  cr_result :: string
  cr_stop :: string
  cr_evidence :: "string list"
  cr_unknown :: "string option"

definition trimmed_refs :: "string list \<Rightarrow> string list" where
  "trimmed_refs refs = filter (\<lambda>r. r \<noteq> []) (map strip refs)"

definition trimmed_clause :: "string option \<Rightarrow> string option" where
  "trimmed_clause u = (case u of Some s \<Rightarrow> if strip s = [] then None else Some (strip s) | None \<Rightarrow> None)"

definition same_close :: "close_request \<Rightarrow> string \<Rightarrow> attempt \<Rightarrow> bool" where
  "same_close rq agent rec \<longleftrightarrow>
     at_close rec \<noteq> None \<and> at_result rec = Some (cr_result rq) \<and> at_stop rec = Some (cr_stop rq) \<and>
     at_close_agent rec = Some agent \<and> at_evidence rec = trimmed_refs (cr_evidence rq) \<and>
     at_unknown rec = trimmed_clause (cr_unknown rq)"

definition latest_closed :: "attempt list \<Rightarrow> attempt option" where
  "latest_closed recs =
     foldl (\<lambda>best rec. case best of Some b \<Rightarrow> if the (at_close b) < the (at_close rec) then Some rec else best | None \<Rightarrow> Some rec) None recs"

text \<open>A successor closes over a stale or missing claim an episode that is not its own.\<close>

definition is_recovery :: "docs \<Rightarrow> attempt \<Rightarrow> string \<Rightarrow> nat \<Rightarrow> bool" where
  "is_recovery d rec agent now \<longleftrightarrow>
     st_status (classify_active_ownership (\<lambda>_. False) (d_fields d) (w_tickets (parse_board (d_board d))) agent now)
       \<in> {Claimed_As FOREIGN_STALE, Claimed_As UNCLAIMED} \<and> at_agent rec \<noteq> Some agent"

definition close_refused :: "docs \<Rightarrow> attempt \<Rightarrow> close_request \<Rightarrow> string \<Rightarrow> nat \<Rightarrow> bool" where
  "close_refused d rec rq agent now \<longleftrightarrow>
     is_recovery d rec agent now \<and> (cr_result rq \<noteq> ''interrupted'' \<or> cr_stop rq \<notin> {''unknown'', ''agent-crash''}) \<or>
     cr_result rq \<notin> set RESULTS \<or> cr_stop rq \<notin> set STOP_REASONS \<or> cr_stop rq \<notin> set (allowed_stops (cr_result rq)) \<or>
     MAX_EVIDENCE_REFS < length (trimmed_refs (cr_evidence rq)) \<or>
     list_ex (\<lambda>r. \<not> evidence_item r \<or> digits_value (drop 2 r) \<notin> set (map ev_id (sn_events (d_history d)))) (trimmed_refs (cr_evidence rq)) \<or>
     (case trimmed_clause (cr_unknown rq) of Some u \<Rightarrow> CHR 10 \<in> set u \<or> MAX_UNKNOWN_CHARS < length u | None \<Rightarrow> False)"

definition close_text :: "string \<Rightarrow> close_request \<Rightarrow> string" where
  "close_text aid rq =
     ''attempt '' @ aid @ '' close result '' @ cr_result rq @ '' stop '' @ cr_stop rq @
     (if trimmed_refs (cr_evidence rq) = [] then [] else '' -- evidence '' @ join '','' (trimmed_refs (cr_evidence rq))) @
     (case trimmed_clause (cr_unknown rq) of Some u \<Rightarrow> ''; unknown: '' @ u | None \<Rightarrow> [])"

definition close_fields :: "nat \<Rightarrow> string \<Rightarrow> string \<Rightarrow> (string, sval) dict" where
  "close_fields n utc agent =
     [(''last_event'', Scalar (SInt (int n))), (''updated'', Scalar (SStr utc)), (''agent'', Scalar (SStr agent))]"

definition closed_state :: "docs \<Rightarrow> nat \<Rightarrow> string \<Rightarrow> string \<Rightarrow> state_error + string" where
  "closed_state d n utc agent =
     (case remove_state_fields (d_state d) [''attempt''] of Inl e \<Rightarrow> Inl e | Inr c \<Rightarrow> patch_state c (close_fields n utc agent))"

definition RELEASED_FIELDS :: "string list" where
  "RELEASED_FIELDS = [''owner'', ''claim_time'', ''claim_session'', ''claim_run'', ''claim_generation'']"

text \<open>The board with the claim of the predecessor gone: the record's text is replaced at its first occurrence.\<close>

definition released_board :: "docs \<Rightarrow> edit_error + string" where
  "released_board d =
     (case dict_get (w_tickets (parse_board (d_board d))) (text_field (d_fields d) ''task'') of
        None \<Rightarrow> Inr (d_board d)
      | Some t \<Rightarrow>
          (case apply_edits False (map Drop_Field RELEASED_FIELDS) (tk_raw t) of
             Inl e \<Rightarrow> Inl (Bad_Record e)
           | Inr released \<Rightarrow> Inr (replace_once (tk_raw t) released (d_board d))))"

definition commit_close ::
    "command_env \<Rightarrow> docs \<Rightarrow> string \<Rightarrow> attempt \<Rightarrow> close_request \<Rightarrow> string \<Rightarrow> clock \<Rightarrow> string \<Rightarrow> command_outcome" where
  "commit_close env d aid rec rq agent ck op_id =
     (case prepare_bounded_event (ce_producer env) (sn_tail (d_history d)) ''DEC'' (close_text aid rq) (at_ticket rec) (Some agent)
             (ck_stamp ck) (Some op_id) None of
        Inl e \<Rightarrow> state_guard (Event_Raised e)
      | Inr (n, line, details) \<Rightarrow>
          let log = appended_log (d_log d) line in
          (case closed_state d n (ck_utc ck) agent of
             Inl e \<Rightarrow> state_guard (State_Raised e)
           | Inr state \<Rightarrow>
               (case (if is_recovery d rec agent (ck_instant ck) then released_board d else Inr (d_board d)) of
                  Inl e \<Rightarrow> state_guard (Board_Raised e)
                | Inr board \<Rightarrow>
                    (case passes_gate env d state board log agent of
                       Some out \<Rightarrow> out
                     | None \<Rightarrow>
                         Planned \<lparr>pl_operation = ''attempt-close'', pl_agent = agent, pl_op = op_id, pl_ticket = at_ticket rec, pl_event = n,
                           pl_targets = details @ [(''.saipen/LOG.md'', log)] @
                             (if board \<noteq> d_board d then [(''.saipen/BOARD.md'', board)] else []) @ [(''.saipen/STATE.md'', state)]\<rparr>))))"

definition plan_close ::
    "command_env \<Rightarrow> docs \<Rightarrow> attempts \<Rightarrow> close_request \<Rightarrow> string \<Rightarrow> clock \<Rightarrow> string \<Rightarrow> command_outcome" where
  "plan_close env d rs rq agent ck op_id =
     (case pointer_of d of
        None \<Rightarrow>
          (case latest_closed (filter (same_close rq agent) (map snd rs)) of
             Some rec \<Rightarrow> Settled ''ATTEMPT_CLOSED'' (at_id rec)
           | None \<Rightarrow> Refused VALIDATION_FAILED)
      | Some p \<Rightarrow>
          (case dict_get rs p of
             None \<Rightarrow> Refused VALIDATION_FAILED
           | Some rec \<Rightarrow>
               if at_close rec \<noteq> None then Refused VALIDATION_FAILED
               else if close_refused d rec rq agent (ck_instant ck) then Refused VALIDATION_FAILED
               else commit_close env d p rec rq agent ck op_id))"

section \<open>The command\<close>

datatype attempt_action = Open_Attempt | Close_Attempt close_request

definition action_refusal :: "attempt_action \<Rightarrow> docs \<Rightarrow> string \<Rightarrow> nat \<Rightarrow> refusal_code option" where
  "action_refusal act d agent now =
     (case act of
        Open_Attempt \<Rightarrow> active_claim_refusal (d_fields d) (d_board d) agent now
      | Close_Attempt _ \<Rightarrow> close_claim_refusal d agent now)"

definition plan_attempt ::
    "command_env \<Rightarrow> (string \<Rightarrow> string option) \<Rightarrow> docs \<Rightarrow> attempt_action \<Rightarrow> string \<Rightarrow> clock \<Rightarrow> string \<Rightarrow> command_outcome" where
  "plan_attempt env seal d act agent ck op_id =
     (case action_refusal act d agent (ck_instant ck) of
        Some code \<Rightarrow> Refused code
      | None \<Rightarrow>
          (case build_attempts (g_prov (ce_gate env)) (sn_events (d_history d)) of
             (rs, errors) \<Rightarrow>
               if errors \<noteq> [] then Refused VALIDATION_FAILED
               else (case act of
                 Open_Attempt \<Rightarrow> plan_open env seal d rs agent ck op_id
               | Close_Attempt rq \<Rightarrow> plan_close env d rs rq agent ck op_id)))"

definition attempt_lifecycle ::
    "command_env \<Rightarrow> (string \<Rightarrow> string option) \<Rightarrow> docs \<Rightarrow> attempt_action \<Rightarrow> string \<Rightarrow> clock \<Rightarrow> string \<Rightarrow> command_outcome" where
  "attempt_lifecycle env seal d act agent ck op_id =
     (case act of
        Close_Attempt rq \<Rightarrow>
          if cr_result rq = [] \<or> cr_stop rq = [] then Refused VALIDATION_FAILED else plan_attempt env seal d act agent ck op_id
      | Open_Attempt \<Rightarrow> plan_attempt env seal d act agent ck op_id)"

end
