(* ===== verification/AttemptTexts.thy ===== *)
theory AttemptTexts
  imports Lifecycle AttemptLaws
begin

text \<open>
  The identities and the texts of the Attempt events: which numbers a history uses and which is next, and that
  the text of an open or of a close reads back as exactly what it was built from.
\<close>

section \<open>Identities\<close>

definition attempt_key :: "string \<Rightarrow> bool" where
  "attempt_key a \<longleftrightarrow> startswith a ''A-'' \<and> 3 \<le> length (drop 2 a) \<and> list_all is_digit (drop 2 a)"

lemma key_text: "attempt_key a \<Longrightarrow> \<exists>ds. a = ''A-'' @ ds \<and> 3 \<le> length ds \<and> list_all is_digit ds"
  unfolding attempt_key_def by (metis startswith_drop length_Cons list.size(3) numeral_2_eq_2)

lemma key_intro: "3 \<le> length ds \<Longrightarrow> list_all is_digit ds \<Longrightarrow> attempt_key (''A-'' @ ds)"
  by (simp add: attempt_key_def)

lemma key_read: "attempt_key a \<Longrightarrow> \<not> is_digit c \<Longrightarrow> attempt_id (a @ c # r) = Some (a, c # r)"
  by (auto simp: attempt_id_def span_append dest!: key_text)

lemma key_of: "attempt_id s = Some (a, r) \<Longrightarrow> attempt_key a"
  by (auto simp: attempt_id_def attempt_key_def dest: span_class split: if_splits prod.splits)

lemma after_append [simp]: "after p (p @ s) = Some s"
  by (simp add: after_def)

lemma not_here: "\<not> startswith s p \<Longrightarrow> after p s = None"
  by (simp add: after_def)

text \<open>The number of an identity; the next one is fresh.\<close>

definition key_number :: "string \<Rightarrow> nat" where
  "key_number a = digits_value (drop 2 a)"

lemma value_zeros: "digits_value (replicate k CHR ''0'' @ ds) = digits_value ds"
  by (induction k) (simp_all add: digits_value_def)

lemma three_digits_facts: "3 \<le> length (three_digits n)" "list_all is_digit (three_digits n)" "digits_value (three_digits n) = n"
  using show_nat_digits [of n]
  by (auto simp: three_digits_def value_zeros digits_value_show list_all_iff is_digit_def Let_def)

definition used_numbers :: "(string \<Rightarrow> string option) \<Rightarrow> event list \<Rightarrow> nat list" where
  "used_numbers prov evs = List.map_filter (\<lambda>ev. case parse_attempt_event prov ev of
     Inr (Some rec) \<Rightarrow> Some (key_number (a_id rec)) | _ \<Rightarrow> None) evs"

lemma next_id: "next_attempt_id prov evs = ''A-'' @ three_digits (Suc (foldl max 0 (used_numbers prov evs)))"
  by (simp add: next_attempt_id_def used_numbers_def key_number_def cong: option.case_cong sum.case_cong)

lemma next_key: "attempt_key (next_attempt_id prov evs)"
  unfolding next_id by (rule key_intro) (rule three_digits_facts)+

lemma open_matched: "open_match s = Some rec \<Longrightarrow> \<exists>aid sup_id tok. rec = Opened aid sup_id tok \<and> attempt_key aid"
  by (auto simp: open_match_def bind_eq_Some_conv Let_def dest: key_of split: option.splits prod.splits if_splits)

lemma close_matched: "close_head s = Some (aid, result, stop, rest) \<Longrightarrow> attempt_key aid"
  by (auto simp: close_head_def bind_eq_Some_conv dest: key_of split: option.splits prod.splits)

lemma parsed_key: "parse_attempt_event prov ev = Inr (Some rec) \<Longrightarrow> attempt_key (a_id rec)"
  by (auto simp: parse_attempt_event_def parse_attempt_text_def Let_def dest!: open_matched close_matched
      split: if_splits option.splits sum.splits attempt_text.splits prod.splits)

section \<open>The register and its events\<close>

definition named_records :: "(string \<Rightarrow> string option) \<Rightarrow> event list \<Rightarrow> attempts \<Rightarrow> bool" where
  "named_records prov evs rs \<longleftrightarrow>
     list_all (\<lambda>(k, rec). at_id rec = k \<and> attempt_key k \<and> key_number k \<in> set (used_numbers prov evs)) rs"

lemma step_named:
  assumes "named_records prov evs rs" "attempt_step prov (rs, es) ev = (rs', es')" "ev \<in> set evs" "distinct (map fst rs)"
  shows "named_records prov evs rs'"
proof (cases "parse_attempt_event prov ev")
  case (Inr r)
  show ?thesis
  proof (cases r)
    case None
    with Inr assms show ?thesis by (simp add: attempt_step_def)
  next
    case (Some rec)
    with Inr assms(3) have u: "key_number (a_id rec) \<in> set (used_numbers prov evs)"
      by (force simp: used_numbers_def List.map_filter_def)
    note k = parsed_key [OF Inr [unfolded Some]]
    show ?thesis
    proof (cases rec)
      case (Opened aid sup_id tok)
      with Inr Some assms(1,2) u k show ?thesis
        by (auto simp: attempt_step_def open_step_def named_records_def fresh_attempt_def split: if_splits)
    next
      case (Closed aid result stop refs unknown)
      show ?thesis
      proof (cases "close_problem ev aid result stop rs")
        case None
        then obtain old where old: "dict_get rs aid = Some old" by (auto simp: close_problem_def split: option.splits)
        then have "at_id old = aid" using assms(1) by (auto simp: named_records_def list_all_iff dest: map_of_SomeD)
        have "rs' = dict_set aid (closed_attempt ev result stop refs unknown old) rs"
          using assms(2) by (simp add: attempt_step_def Inr Some Closed None old)
        then have "rs' = map (\<lambda>(k, w). (k, if k = aid then closed_attempt ev result stop refs unknown old else w)) rs"
          using assms(4) old by (simp add: dict_set_present)
        then show ?thesis
          using assms(1) u k \<open>at_id old = aid\<close> by (auto simp: named_records_def list_all_iff closed_attempt_def Closed)
      next
        case (Some e)
        with Closed Inr \<open>r = Some rec\<close> assms(1,2) show ?thesis by (auto simp: attempt_step_def)
      qed
    qed
  qed
qed (use assms in \<open>simp add: attempt_step_def\<close>)

lemma fold_named:
  "named_records prov all rs \<Longrightarrow> distinct (map fst rs) \<Longrightarrow> set evs \<subseteq> set all \<Longrightarrow>
   named_records prov all (fst (foldl (attempt_step prov) (rs, es) evs))"
proof (induction evs arbitrary: rs es)
  case (Cons ev evs)
  obtain rs' es' where s: "attempt_step prov (rs, es) ev = (rs', es')" by (cases "attempt_step prov (rs, es) ev")
  have "named_records prov all rs'" using step_named [OF Cons.prems(1) s] Cons.prems by simp
  from Cons.IH [OF this step_distinct [OF Cons.prems(2) s]] Cons.prems(3) show ?case by (simp add: s)
qed simp

lemma built_named: "build_attempts prov evs = (rs, es) \<Longrightarrow> named_records prov evs rs"
  using fold_named [of prov evs "[]" evs "[]"]
  by (auto simp: build_attempts_def named_records_def split: prod.splits)

lemma next_fresh: "build_attempts prov evs = (rs, es) \<Longrightarrow> dict_get rs (next_attempt_id prov evs) = None"
proof (rule ccontr)
  assume b: "build_attempts prov evs = (rs, es)" and "dict_get rs (next_attempt_id prov evs) \<noteq> None"
  then have "key_number (next_attempt_id prov evs) \<in> set (used_numbers prov evs)"
    using built_named [OF b] by (auto simp: named_records_def list_all_iff dest: map_of_SomeD)
  then have "key_number (next_attempt_id prov evs) \<le> foldl max 0 (used_numbers prov evs)" using foldl_max_bounds by blast
  then show False by (simp add: next_id key_number_def three_digits_facts(3))
qed

lemma built_step:
  assumes "build_attempts prov evs = (rs, [])" "build_attempts prov (evs @ [ev]) = (rs', [])"
  shows "attempt_step prov (rs, []) ev = (rs', [])"
  using assms by (auto simp: build_attempts_def split: prod.splits)

section \<open>What a command writes reads back\<close>

lemma key_chars: "attempt_key a \<Longrightarrow> list_all (\<lambda>c. \<not> is_space c) a"
proof -
  have c: "\<not> is_space CHR ''A''" "\<not> is_space CHR ''-''" by code_simp+
  assume "attempt_key a"
  then obtain ds where "a = ''A-'' @ ds" "list_all is_digit ds" using key_text by blast
  with c show "list_all (\<lambda>c. \<not> is_space c) a" by (auto simp: list_all_iff)
qed

lemma lstrip_key: "attempt_key a \<Longrightarrow> lstrip (CHR '' '' # a @ r) = a @ r"
  by (auto simp: lstrip_def is_space_def Let_def dest!: key_text)

lemma grammar_claimed:
  assumes "attempt_key a"
  shows "claims_grammar (''attempt '' @ a @ CHR '' '' # r)"
proof -
  have "is_space CHR '' ''" by code_simp
  then have "takeWhile (\<lambda>c. \<not> is_space c) (a @ CHR '' '' # r) = a"
    using key_chars [OF assms] by (simp add: list_all_iff takeWhile_append2)
  then show ?thesis using assms lstrip_key [OF assms, of "CHR '' '' # r"]
    by (auto simp: claims_grammar_def Let_def attempt_key_def)
qed

lemma token_ends: "provenance_token t \<Longrightarrow> t \<noteq> [] \<and> \<not> is_space (last t) \<and> list_all (\<lambda>c. \<not> is_line_end c) t"
proof -
  assume p: "provenance_token t"
  let ?P = "\<lambda>c. is_alnum c \<or> c = CHR ''_'' \<or> c = CHR ''-''"
  obtain u v where uv: "span ?P t = (u, v)" by (cases "span ?P t")
  with p have v: "u \<noteq> []" "startswith v ''.''" "length v = 65" "list_all is_hex (tl v)" by (simp_all add: provenance_token_def)
  have hex: "\<not> is_space c" if "is_hex c" for c using that by (auto simp: is_hex_def is_digit_def is_space_def Let_def)
  have name: "\<not> is_space c" if "?P c" for c using that
    by (auto simp: is_alnum_def is_space_def Let_def) (simp_all add: is_alpha_def is_upper_def is_lower_def is_digit_def Let_def)
  from v obtain w where w: "v = CHR ''.'' # w" "w \<noteq> []" by (cases v; cases "tl v") auto
  have t: "t = u @ v" using span_inverse [OF uv] .
  have dot: "\<not> is_space CHR ''.''" by code_simp
  have "list_all (\<lambda>c. \<not> is_space c) t"
    using span_class [OF uv] v(4) w dot name hex by (auto simp: t list_all_iff)
  then show ?thesis using w by (auto simp: t list_all_iff dest: line_end_space)
qed

lemma open_trimmed: "provenance_token token \<Longrightarrow> strip (open_text aid prior token) = open_text aid prior token"
  using token_ends [of token] by (intro strip_id) (auto simp: open_text_def is_space_def Let_def)

lemma digit_separator: "\<not> is_digit CHR '' ''" "\<not> is_digit CHR '';''"
  by code_simp+

lemma open_round:
  assumes "attempt_key aid" "case prior of Some p \<Rightarrow> attempt_key p | None \<Rightarrow> True" "provenance_token token"
  shows "open_match (open_text aid prior token) = Some (Opened aid prior (Some token))"
proof -
  have head: "Option.bind (after ''attempt '' (''attempt '' @ aid @ '' open'' @ r)) attempt_id = Some (aid, '' open'' @ r)" for r
    using key_read [OF assms(1) digit_separator(1), of "''open'' @ r"] by (simp add: after_def)
  have tail: "after ''; provenance '' (''; provenance '' @ token) = Some token" by (rule after_append)
  show ?thesis
  proof (cases prior)
    case None
    have "after ''; supersedes '' (''; provenance '' @ token) = None" by (rule not_here) simp
    with None tail assms(3) show ?thesis
      unfolding open_match_def open_text_def head by (simp add: after_def)
  next
    case (Some p)
    then have "Option.bind (after ''; supersedes '' (''; supersedes '' @ p @ ''; provenance '' @ token)) attempt_id =
        Some (p, ''; provenance '' @ token)"
      using key_read [OF _ digit_separator(2), of p "'' provenance '' @ token"] assms(2) by (simp add: after_def)
    with Some tail assms(3) show ?thesis
      unfolding open_match_def open_text_def head by (simp add: after_def)
  qed
qed

lemma open_read:
  assumes "attempt_key aid" "case prior of Some p \<Rightarrow> attempt_key p | None \<Rightarrow> True" "provenance_token token"
  shows "parse_attempt_text prov (open_text aid prior token) =
    (if prov token = None then Inl Bad_Provenance else Inr (Some (Opened aid prior (Some token))))"
proof -
  have "claims_grammar (open_text aid prior token)"
    using grammar_claimed [OF assms(1)] by (simp add: open_text_def)
  then show ?thesis by (simp add: parse_attempt_text_def open_trimmed [OF assms(3)] open_round [OF assms])
qed

section \<open>What a close writes reads back\<close>

lemma split_on_free: "c \<notin> set p \<Longrightarrow> split_on c p = [p]"
  by (induction p) auto

lemma split_on_sep: "c \<notin> set p \<Longrightarrow> split_on c (p @ c # r) = p # split_on c r"
  by (induction p) auto

lemma split_on_join: "list_all (\<lambda>p. c \<notin> set p) ps \<Longrightarrow> ps \<noteq> [] \<Longrightarrow> split_on c (join [c] ps) = ps"
  by (induction "[c]" ps rule: join.induct) (auto simp: split_on_free split_on_sep)

lemma no_sep_start: "hd sep \<notin> set p \<Longrightarrow> p \<noteq> [] \<Longrightarrow> sep \<noteq> [] \<Longrightarrow> \<not> startswith (p @ r) sep"
  by (cases p; cases sep) auto

lemma hd_split_str: "sep \<noteq> [] \<Longrightarrow> hd sep \<notin> set p \<Longrightarrow> hd (split_str sep (p @ sep @ r)) = p"
proof (induction p)
  case Nil
  then show ?case using startswith_append [of sep r] by (cases sep) auto
next
  case (Cons c p)
  then have "\<not> startswith (c # p @ sep @ r) sep" using no_sep_start [of sep "c # p" "sep @ r"] by simp
  moreover have "hd (split_str sep (p @ sep @ r)) = p" using Cons by simp
  ultimately show ?case by (cases "split_str sep (p @ sep @ r)") auto
qed

lemma substring_here: "substring sep (p @ sep @ r)"
proof (induction p)
  case Nil
  then show ?case using startswith_append [of sep r] by (cases "sep @ r") auto
next
  case (Cons c p)
  then show ?case by simp
qed

lemma no_substring: "sep \<noteq> [] \<Longrightarrow> hd sep \<notin> set p \<Longrightarrow> \<not> substring sep p"
proof (induction p)
  case (Cons c p)
  then show ?case using no_sep_start [of sep "c # p" "[]"] by auto
qed simp

definition evidence_part :: "string list \<Rightarrow> string" where
  "evidence_part refs = (if refs = [] then [] else '' -- evidence '' @ join '','' refs)"

definition unknown_part :: "string option \<Rightarrow> string" where
  "unknown_part u = (case u of Some s \<Rightarrow> ''; unknown: '' @ s | None \<Rightarrow> [])"

lemma join_chars: "list_all (list_all P) ps \<Longrightarrow> list_all P sep \<Longrightarrow> list_all P (join sep ps)"
  by (induction sep ps rule: join.induct) auto

lemma item_chars: "evidence_item r \<Longrightarrow> c \<in> set r \<Longrightarrow> c = CHR ''E'' \<or> c = CHR ''-'' \<or> is_digit c"
proof -
  assume r: "evidence_item r" and c: "c \<in> set r"
  from r have "r = ''E-'' @ drop 2 r" using startswith_drop [of r "''E-''"] by (simp add: evidence_item_def numeral_2_eq_2)
  then have "set r = set ''E-'' \<union> set (drop 2 r)" by (metis set_append)
  with r c show ?thesis by (auto simp: evidence_item_def list_all_iff)
qed

lemma item_shape: "evidence_item r \<Longrightarrow> trimmed r \<and> CHR '','' \<notin> set r \<and> CHR '';'' \<notin> set r"
proof -
  assume r: "evidence_item r"
  have c: "\<not> is_space CHR ''E''" "\<not> is_space CHR ''-''" "\<not> is_digit CHR '',''" "\<not> is_digit CHR '';''" by code_simp+
  have "\<not> is_space x \<and> x \<noteq> CHR '','' \<and> x \<noteq> CHR '';''" if "x \<in> set r" for x
    using item_chars [OF r that] c by auto
  moreover have "r \<noteq> []" using r by (auto simp: evidence_item_def)
  ultimately show ?thesis unfolding trimmed_def using hd_in_set last_in_set by blast
qed

lemma join_hd_last: "list_all trimmed ps \<Longrightarrow> ps \<noteq> [] \<Longrightarrow> trimmed (join sep ps)"
proof (induction sep ps rule: join.induct)
  case (3 sep x y xs)
  then show ?case using trimmed_append [of x "join sep (y # xs)" sep] by simp
qed auto

lemma strip_front: "strip (CHR '' '' # s) = strip s"
proof -
  have "is_space CHR '' ''" by code_simp
  then show ?thesis by (simp add: strip_def lstrip_def)
qed

lemma evidence_read:
  assumes "list_all evidence_item refs" "length refs \<le> MAX_EVIDENCE_REFS"
  shows "close_evidence (strip (evidence_part refs)) = Inr refs"
proof (cases "refs = []")
  case True
  then show ?thesis by (simp add: evidence_part_def close_evidence_def strip_Nil)
next
  case False
  have shapes: "list_all trimmed refs" "list_all (\<lambda>p. CHR '','' \<notin> set p) refs"
    using assms(1) item_shape by (auto simp: list_all_iff)
  have j: "trimmed (join '','' refs)" using join_hd_last [OF shapes(1) False] .
  have "trimmed ''--''" by code_simp
  then have "trimmed (''-- evidence '' @ join '','' refs)" using trimmed_append [OF _ j, of "''--''" "'' evidence ''"] by simp
  then have strip: "strip (evidence_part refs) = ''-- evidence '' @ join '','' refs"
    using False strip_front [of "''-- evidence '' @ join '','' refs"] trimmed_strip by (simp add: evidence_part_def)
  have "map strip refs = refs" using shapes(1) trimmed_strip by (intro map_idI) (auto simp: list_all_iff)
  moreover have "find (\<lambda>r. \<not> evidence_item r) refs = None" using assms(1) by (auto simp: find_None_iff list_all_iff)
  ultimately show ?thesis using assms(2) split_on_join [OF shapes(2) False]
    unfolding strip close_evidence_def after_append by (simp add: not_less)
qed

lemma evidence_no_semi: "list_all evidence_item refs \<Longrightarrow> CHR '';'' \<notin> set (evidence_part refs)"
proof -
  assume "list_all evidence_item refs"
  then have "list_all (list_all (\<lambda>c. c \<noteq> CHR '';'')) refs" using item_shape by (fastforce simp: list_all_iff)
  then have "list_all (\<lambda>c. c \<noteq> CHR '';'') (join '','' refs)" by (rule join_chars) simp
  then show ?thesis by (auto simp: evidence_part_def list_all_iff)
qed

lemma unknown_read:
  assumes "CHR '';'' \<notin> set ev"
    and "case u of Some s \<Rightarrow> trimmed s \<and> CHR 10 \<notin> set s \<and> length s \<le> MAX_UNKNOWN_CHARS | None \<Rightarrow> True"
  shows "close_unknown (ev @ unknown_part u) = Inr (ev, u)"
proof (cases u)
  case None
  with no_substring [of UNKNOWN_SEP ev] assms(1) show ?thesis
    by (simp add: close_unknown_def unknown_part_def UNKNOWN_SEP_def)
next
  case (Some s)
  have t: "ev @ unknown_part u = ev @ UNKNOWN_SEP @ CHR '' '' # s" by (simp add: unknown_part_def UNKNOWN_SEP_def Some)
  have c: "UNKNOWN_SEP \<noteq> []" "hd UNKNOWN_SEP = CHR '';''" by (simp_all add: UNKNOWN_SEP_def)
  have h: "hd (split_str UNKNOWN_SEP (ev @ UNKNOWN_SEP @ CHR '' '' # s)) = ev" using hd_split_str c assms(1) by simp
  have "strip (drop (length ev + length UNKNOWN_SEP) (ev @ UNKNOWN_SEP @ CHR '' '' # s)) = s"
    using assms(2) trimmed_strip by (simp add: strip_front Some)
  then show ?thesis unfolding t close_unknown_def h Let_def
    using assms(2) substring_here [of UNKNOWN_SEP ev "CHR '' '' # s"] by (simp add: Some not_less)
qed

definition legal_close :: "close_request \<Rightarrow> bool" where
  "legal_close rq \<longleftrightarrow>
     cr_result rq \<in> set RESULTS \<and> cr_stop rq \<in> set STOP_REASONS \<and> cr_stop rq \<in> set (allowed_stops (cr_result rq)) \<and>
     length (trimmed_refs (cr_evidence rq)) \<le> MAX_EVIDENCE_REFS \<and> list_all evidence_item (trimmed_refs (cr_evidence rq)) \<and>
     (case trimmed_clause (cr_unknown rq) of Some u \<Rightarrow> CHR 10 \<notin> set u \<and> length u \<le> MAX_UNKNOWN_CHARS | None \<Rightarrow> True)"

lemma lower_read: "w \<noteq> [] \<Longrightarrow> list_all name_or_under w \<Longrightarrow> r = [] \<or> \<not> name_or_under (hd r) \<Longrightarrow> lower_word (w @ r) = Some (w, r)"
  by (simp add: lower_word_def span_append)

lemma close_text_parts:
  "close_text aid rq = ''attempt '' @ aid @ '' close result '' @ cr_result rq @ '' stop '' @ cr_stop rq @
     evidence_part (trimmed_refs (cr_evidence rq)) @ unknown_part (trimmed_clause (cr_unknown rq))"
  by (simp add: close_text_def evidence_part_def unknown_part_def)

lemma clause_trimmed: "trimmed_clause u = Some s \<Longrightarrow> trimmed s"
  using strip_ends by (auto simp: trimmed_clause_def trimmed_def split: option.splits if_splits)

lemma close_words:
  assumes "legal_close rq"
  shows "trimmed (cr_stop rq)" "list_all name_or_under (cr_stop rq)" "cr_result rq \<noteq> []" "list_all name_or_under (cr_result rq)"
proof -
  have "list_all (\<lambda>w. trimmed w \<and> list_all name_or_under w) (RESULTS @ STOP_REASONS)" by code_simp
  then show "trimmed (cr_stop rq)" "list_all name_or_under (cr_stop rq)" "cr_result rq \<noteq> []" "list_all name_or_under (cr_result rq)"
    using assms by (auto simp: legal_close_def list_all_iff trimmed_def)
qed

lemma close_trimmed: "legal_close rq \<Longrightarrow> trimmed (close_text aid rq)"
proof -
  assume l: "legal_close rq"
  let ?refs = "trimmed_refs (cr_evidence rq)" and ?u = "trimmed_clause (cr_unknown rq)"
  have stop: "trimmed (cr_stop rq)" using close_words [OF l] by simp
  have ev: "trimmed (cr_stop rq @ evidence_part ?refs)"
  proof (cases "?refs = []")
    case False
    have "list_all trimmed ?refs" using l item_shape by (auto simp: legal_close_def list_all_iff)
    from trimmed_append [OF stop join_hd_last [OF this False], of "'' -- evidence ''" "'',''"] False show ?thesis
      by (simp add: evidence_part_def)
  qed (simp add: evidence_part_def stop)
  have un: "trimmed (cr_stop rq @ evidence_part ?refs @ unknown_part ?u)"
  proof (cases ?u)
    case (Some s)
    from trimmed_append [OF ev clause_trimmed [OF this], of "''; unknown: ''"] Some show ?thesis by (simp add: unknown_part_def)
  qed (use ev in \<open>simp add: unknown_part_def\<close>)
  have "trimmed ''attempt''" by code_simp
  from trimmed_append [OF this un, of "'' '' @ aid @ '' close result '' @ cr_result rq @ '' stop ''"] show ?thesis
    by (simp add: close_text_parts)
qed

lemma close_read:
  assumes "attempt_key aid" "legal_close rq"
  shows "parse_attempt_text prov (close_text aid rq) =
    Inr (Some (Closed aid (cr_result rq) (cr_stop rq) (trimmed_refs (cr_evidence rq)) (trimmed_clause (cr_unknown rq))))"
proof -
  let ?refs = "trimmed_refs (cr_evidence rq)" and ?u = "trimmed_clause (cr_unknown rq)"
  let ?tail = "evidence_part ?refs @ unknown_part ?u"
  note words = close_words [OF assms(2)]
  have whole: "close_text aid rq = ''attempt '' @ aid @ '' close result '' @ cr_result rq @ '' stop '' @ cr_stop rq @ ?tail"
    by (rule close_text_parts)
  have strip: "strip (close_text aid rq) = close_text aid rq" using close_trimmed [OF assms(2)] by (rule trimmed_strip)
  have claims: "claims_grammar (close_text aid rq)"
    using grammar_claimed [OF assms(1), of "''close result '' @ cr_result rq @ '' stop '' @ cr_stop rq @ ?tail"] by (simp add: whole)
  have id: "Option.bind (after ''attempt '' (close_text aid rq)) attempt_id =
      Some (aid, '' close result '' @ cr_result rq @ '' stop '' @ cr_stop rq @ ?tail)"
    unfolding whole after_append
    using key_read [OF assms(1) digit_separator(1), of "''close result '' @ cr_result rq @ '' stop '' @ cr_stop rq @ ?tail"] by simp
  have "after '' open'' ('' close result '' @ cr_result rq @ '' stop '' @ cr_stop rq @ ?tail) = None" by (rule not_here) simp
  then have no_open: "open_match (close_text aid rq) = None" unfolding open_match_def id by simp
  have c: "\<not> name_or_under CHR '' ''" "\<not> name_or_under CHR '';''" by code_simp+
  then have "?tail = [] \<or> \<not> name_or_under (hd ?tail)" by (auto simp: evidence_part_def unknown_part_def split: option.split)
  then have stop: "lower_word (cr_stop rq @ ?tail) = Some (cr_stop rq, ?tail)"
    using words by (intro lower_read) (auto simp: trimmed_def)
  have result: "lower_word (cr_result rq @ '' stop '' @ cr_stop rq @ ?tail) = Some (cr_result rq, '' stop '' @ cr_stop rq @ ?tail)"
    using words c by (intro lower_read) auto
  have head: "close_head (close_text aid rq) = Some (aid, cr_result rq, cr_stop rq, ?tail)"
    unfolding close_head_def id option.case prod.case after_append bind.bind_lunit result stop by simp
  have refs: "list_all evidence_item ?refs" "length ?refs \<le> MAX_EVIDENCE_REFS" using assms(2) by (simp_all add: legal_close_def)
  have "close_unknown ?tail = Inr (evidence_part ?refs, ?u)"
    using assms(2) by (intro unknown_read evidence_no_semi refs(1)) (auto simp: legal_close_def clause_trimmed split: option.splits)
  then show ?thesis
    by (simp add: parse_attempt_text_def strip claims no_open head evidence_read [OF refs])
qed

end
