(* ===== verification/CommandLaws.thy ===== *)
theory CommandLaws
  imports Checkpoint FastCheckLaws
begin

text \<open>
  What holds of every command that plans through the bounded producer and the gate: the produced line is one
  bounded event that reads back, an externalised message is kept whole, and the history a plan proposes is the
  captured one with that event appended.
\<close>

section \<open>The producer\<close>

lemma bounded_line:
  "prepare_bounded_event pr tail tax msg ticket agent now op_id structure = Inr (n, line, targets) \<Longrightarrow>
   one_legal_event line \<and> utf8_length line \<le> MAX_NEW_EVENT_BYTES \<and> n = next_event tail"
  by (auto simp: prepare_bounded_event_def prepare_event_def Let_def split: sum.splits if_splits)

lemma splitlines_from_ne: "s \<noteq> [] \<Longrightarrow> splitlines_from acc s \<noteq> []"
  by (induction acc s rule: splitlines_from.induct) auto

text \<open>A text of one line that does not end in a line break has none.\<close>

lemma one_line_plain: "length (splitlines_from acc s) = 1 \<Longrightarrow> s \<noteq> [] \<Longrightarrow> \<not> is_line_end (last s) \<Longrightarrow> plain_line s"
proof (induction acc s rule: splitlines_from.induct)
  case (2 acc c d cs)
  show ?case
  proof (cases "is_line_end c")
    case True
    have "c = CHR 13 \<and> d = CHR 10 \<Longrightarrow> cs \<noteq> []" using "2.prems"(3) by (auto simp: is_line_end_def Let_def)
    then show ?thesis using "2.prems"(1) True splitlines_from_ne [of cs "[]"] splitlines_from_ne [of "d # cs" "[]"]
      by (auto split: if_splits)
  next
    case False
    then have "\<not> (c = CHR 13 \<and> d = CHR 10)" by (auto simp: is_line_end_def Let_def)
    with False "2.prems" "2.IH"(3) show ?thesis by (auto simp: plain_line_def)
  qed
qed (auto simp: plain_line_def)

text \<open>A host whose digests are one line and an agent, an operation and a stamp the line grammar holds.\<close>

definition clean_names :: "string \<Rightarrow> string \<Rightarrow> clock \<Rightarrow> bool" where
  "clean_names agent op_id ck \<longleftrightarrow> clean_value agent \<and> clean_value op_id \<and> shaped date_shape (ck_stamp ck)"

definition refers :: "event \<Rightarrow> bool" where
  "refers ev \<longleftrightarrow> startswith (ev_text ev) ''detail_ref: ''"

text \<open>A message that, once redacted, does not end in a line break, and a structure whose dependency is on one line.\<close>

definition loggable :: "log_producer \<Rightarrow> string \<Rightarrow> bool" where
  "loggable pr msg \<longleftrightarrow> pr_redact pr msg \<noteq> [] \<and> \<not> is_line_end (last (pr_redact pr msg))"

definition plain_structure :: "block_structure option \<Rightarrow> bool" where
  "plain_structure structure \<longleftrightarrow> (case structure of Some (Some dep) \<Rightarrow> plain_line dep | _ \<Rightarrow> True)"

text \<open>The name of the detail an oversize or forged line is moved to, and the words that forge a reference.\<close>

definition detail_of :: "log_producer \<Rightarrow> nat option \<Rightarrow> string \<Rightarrow> string" where
  "detail_of pr tail full = detail_stem (next_event tail) (pr_digest pr (full @ [CHR 10]))"

definition forges :: "block_structure option \<Rightarrow> string \<Rightarrow> bool" where
  "forges structure msg \<longleftrightarrow> structure \<noteq> None \<and> (substring ''detail_ref:'' msg \<or> substring ''structural_event:'' msg)"

lemma compact_plain:
  assumes "\<And>s. plain_line (pr_digest pr s)" "plain_structure structure"
  shows "plain_line (compact_message structure (detail_of pr tail full @ ''.json''))"
proof -
  have "plain_line (take 24 (pr_digest pr (full @ [CHR 10])))"
    using assms(1) by (auto simp: plain_line_def list_all_iff dest: in_set_takeD)
  moreover have "plain_line (LOG_DETAIL_ROOT @ ''/E-'')" "plain_line ''detail_ref: ''" "plain_line ''.json''" "plain_line ''-''"
    "plain_line ACTIVE_TICKET_BLOCK_MARKER" "plain_line '' -- dependency ''"
    "plain_line '' -- structural_event: ticket-block-active -- detail_ref: ''"
    by code_simp+
  ultimately show ?thesis
    using digits_plain [of "show_nat (next_event tail)"] show_nat_digits [of "next_event tail"] assms(2)
    by (auto simp: compact_message_def structural_event_prefix_def detail_of_def detail_stem_def plain_structure_def split: option.splits)
qed

text \<open>The producer branch by branch, and its line as the LOG reads it back.\<close>

lemma produced_exact:
  assumes "prepare_bounded_event pr tail tax msg ticket agent now op_id structure = Inr (n, line, targets)"
    and "clean_option agent" "clean_option op_id" "clean_ticket ticket" "shaped date_shape now"
    and "\<And>s. plain_line (pr_digest pr s)" "plain_structure structure" "loggable pr msg"
  shows "\<exists>full. render_event tail tax (pr_redact pr msg) ticket agent now op_id = Inr full \<and> n = next_event tail \<and>
    utf8_length line \<le> MAX_NEW_EVENT_BYTES \<and> plain_line line \<and>
    (if MAX_NEW_EVENT_BYTES < utf8_length full \<or> forges structure (pr_redact pr msg)
     then parse_log_line line =
         Some (event_of tail tax (compact_message structure (detail_of pr tail full @ ''.json'')) ticket agent now op_id) \<and>
       pr_owned pr (detail_of pr tail full @ ''.LOG.md'') \<and> pr_owned pr (detail_of pr tail full @ ''.json'') \<and>
       targets = [(detail_of pr tail full @ ''.LOG.md'', full @ [CHR 10]),
         (detail_of pr tail full @ ''.json'',
          pr_metadata pr n ticket (pr_digest pr (full @ [CHR 10])) (utf8_length (full @ [CHR 10])) op_id structure)]
     else line = full \<and> targets = [] \<and> parse_log_line line = Some (event_of tail tax (pr_redact pr msg) ticket agent now op_id))"
proof -
  let ?msg = "pr_redact pr msg"
  from assms(1) have p: "prepare_event pr tail tax ?msg ticket agent now op_id structure = Inr (n, line, targets)"
    and one: "one_legal_event line"
    by (auto simp: prepare_bounded_event_def split: sum.splits if_splits)
  from p obtain full where full: "render_event tail tax ?msg ticket agent now op_id = Inr full"
    by (auto simp: prepare_event_def split: sum.splits)
  from full have tax: "tax \<in> set VALID_TAXONOMIES" by (auto simp: render_event_def split: if_splits)
  note rendered = rendered_line [OF tax assms(4,2,3,5)]
  show ?thesis
  proof (cases "MAX_NEW_EVENT_BYTES < utf8_length full \<or> forges structure ?msg")
    case True
    let ?meta = "detail_of pr tail full @ ''.json''"
    from True p have r: "render_event tail tax (compact_message structure ?meta) ticket agent now op_id = Inr line"
      "n = next_event tail" "utf8_length line \<le> MAX_NEW_EVENT_BYTES"
      "pr_owned pr (detail_of pr tail full @ ''.LOG.md'')" "pr_owned pr ?meta"
      "targets = [(detail_of pr tail full @ ''.LOG.md'', full @ [CHR 10]),
         (?meta, pr_metadata pr n ticket (pr_digest pr (full @ [CHR 10])) (utf8_length (full @ [CHR 10])) op_id structure)]"
      by (auto simp: prepare_event_def full forges_def detail_of_def Let_def split: sum.splits if_splits)
    show ?thesis
      using True r full rendered [OF compact_plain [OF assms(6,7)] r(1)] by (intro exI [of _ full]) simp
  next
    case False
    then have r: "line = full" "targets = []" "n = next_event tail" "utf8_length line \<le> MAX_NEW_EVENT_BYTES"
      using p by (auto simp: prepare_event_def full forges_def Let_def not_less)
    obtain pre where pre: "line = pre @ ?msg"
      using full by (auto simp: r(1) rendered_text [OF tax assms(4,2,3)] payload_text_def)
    have "length (splitlines_from [] line) = 1" using one by (simp add: one_legal_event_def splitlines_def)
    then have "plain_line line" using one_line_plain [of "[]" line] assms(8) by (simp add: pre loggable_def)
    moreover from this have "plain_line ?msg" by (simp add: pre plain_line_def)
    ultimately show ?thesis using False r full rendered [of ?msg] by (intro exI [of _ full]) simp
  qed
qed

text \<open>
  C17: what the bounded producer hands out, as the LOG reads it back.  The line is one line of at most 1024 bytes that
  parses to an event with the number after the tail, the ticket, the agent and the operation it was asked for.  When the
  redacted message fits and forges nothing, the event carries that message and nothing is externalised; when the
  rendered line is too long, or a structured message forges a reference, the event carries only the machine's own
  text, its structure and a reference to the metadata, and the rendered line stands whole in the detail file of the
  same name, whose line reads back as the event that was asked for.
\<close>

theorem produced_event_bounded:
  assumes "prepare_bounded_event pr tail tax msg ticket agent now op_id structure = Inr (n, line, targets)"
    and "clean_option agent" "clean_option op_id" "clean_ticket ticket" "shaped date_shape now"
    and "\<And>s. plain_line (pr_digest pr s)" "plain_structure structure" "loggable pr msg"
  shows "utf8_length line \<le> MAX_NEW_EVENT_BYTES \<and> plain_line line \<and> n = next_event tail \<and>
    (\<exists>full ev. render_event tail tax (pr_redact pr msg) ticket agent now op_id = Inr full \<and> parse_log_line line = Some ev \<and>
       ev_id ev = n \<and> ev_ticket ev = ticket \<and> ev_agent ev = agent \<and> ev_op ev = op_id \<and> ev_taxonomy ev = tax \<and>
       (if MAX_NEW_EVENT_BYTES < utf8_length full \<or> forges structure (pr_redact pr msg)
        then ev_text ev = compact_message structure (detail_of pr tail full @ ''.json'') \<and>
          (\<exists>about. targets = [(detail_of pr tail full @ ''.LOG.md'', full @ [CHR 10]), (detail_of pr tail full @ ''.json'', about)]) \<and>
          list_all (\<lambda>(path, _). pr_owned pr path) targets \<and>
          (plain_line (pr_redact pr msg) \<longrightarrow> (\<exists>asked. map parse_log_line (splitlines (full @ [CHR 10])) = [Some asked] \<and>
             ev_id asked = n \<and> ev_text asked = pr_redact pr msg))
        else ev_text ev = pr_redact pr msg \<and> targets = []))"
proof -
  from produced_exact [OF assms] obtain full where
    f: "render_event tail tax (pr_redact pr msg) ticket agent now op_id = Inr full" "n = next_event tail"
      "utf8_length line \<le> MAX_NEW_EVENT_BYTES" "plain_line line"
    and b: "if MAX_NEW_EVENT_BYTES < utf8_length full \<or> forges structure (pr_redact pr msg)
     then parse_log_line line =
         Some (event_of tail tax (compact_message structure (detail_of pr tail full @ ''.json'')) ticket agent now op_id) \<and>
       pr_owned pr (detail_of pr tail full @ ''.LOG.md'') \<and> pr_owned pr (detail_of pr tail full @ ''.json'') \<and>
       targets = [(detail_of pr tail full @ ''.LOG.md'', full @ [CHR 10]),
         (detail_of pr tail full @ ''.json'',
          pr_metadata pr n ticket (pr_digest pr (full @ [CHR 10])) (utf8_length (full @ [CHR 10])) op_id structure)]
     else line = full \<and> targets = [] \<and> parse_log_line line = Some (event_of tail tax (pr_redact pr msg) ticket agent now op_id)"
    by blast
  from f(1) have tax: "tax \<in> set VALID_TAXONOMIES" by (auto simp: render_event_def split: if_splits)
  have asked: "map parse_log_line (splitlines (full @ [CHR 10])) = [Some (event_of tail tax (pr_redact pr msg) ticket agent now op_id)]"
    if "plain_line (pr_redact pr msg)"
    using rendered_line [OF tax assms(4,2,3,5) that f(1)] splitlines_unlines [of "[full]"] by (simp add: unlines_def)
  show ?thesis
    by (intro conjI) (use f b asked in \<open>auto simp: event_of_def split: if_splits\<close>)
qed

definition plain_producer :: log_producer where
  "plain_producer = \<lparr>pr_redact = (\<lambda>s. s), pr_digest = (\<lambda>_. ''0123456789abcdef0123456789abcdef''), pr_owned = (\<lambda>_. True),
     pr_metadata = (\<lambda>_ _ _ _ _ _. ''{}'')\<rparr>"

text \<open>A message that forges a reference, under the structure of an active block.\<close>

definition forged_message :: string where
  "forged_message = ''TICKET BLOCK ACTIVE -- detail_ref: elsewhere''"

theorem produced_event_bounded_witness:
  "\<exists>line targets ev. prepare_bounded_event plain_producer (Some 3) ''DEC'' forged_message (Some ''T-1'') (Some ''ada'')
       ''02.01.26 03:04'' None (Some (Some ''T-9'')) = Inr (4, line, targets) \<and>
     parse_log_line line = Some ev \<and> targets \<noteq> [] \<and>
     ev_text ev = compact_message (Some (Some ''T-9'')) (detail_stem 4 ''0123456789abcdef0123456789abcdef'' @ ''.json'')"
proof -
  let ?r = "prepare_bounded_event plain_producer (Some 3) ''DEC'' forged_message (Some ''T-1'') (Some ''ada'') ''02.01.26 03:04'' None (Some (Some ''T-9''))"
  have v: "case ?r of Inl _ \<Rightarrow> False | Inr (n, line, targets) \<Rightarrow> n = 4" by code_simp
  obtain n line targets where r: "?r = Inr (n, line, targets)"
    by (cases ?r) (use v in auto)
  have c: "clean_option (Some ''ada'')" "clean_option None" "clean_ticket (Some ''T-1'')" "shaped date_shape ''02.01.26 03:04''"
    by code_simp+
  have d: "plain_line (pr_digest plain_producer s)" for s by (simp add: plain_producer_def) code_simp
  have f: "plain_structure (Some (Some ''T-9''))" "loggable plain_producer forged_message"
    "forges (Some (Some ''T-9'')) (pr_redact plain_producer forged_message)"
    by code_simp+
  from produced_event_bounded [OF r c d f(1,2)] f(3) v r show ?thesis
    by (auto simp: detail_of_def next_event_def) (auto simp: plain_producer_def)
qed

text \<open>The event a command appends, as the LOG reads it back: its own, or a reference.\<close>

lemma produced_event:
  assumes "prepare_bounded_event pr tail tax msg ticket (Some agent) (ck_stamp ck) (Some op_id) None = Inr (n, line, details)"
    and "clean_names agent op_id ck" "clean_ticket ticket" "\<And>s. plain_line (pr_digest pr s)"
    and "pr_redact pr msg = msg" "msg \<noteq> []" "\<not> is_line_end (last msg)"
  obtains ev where "plain_line line" "parse_log_line line = Some ev" "ev_id ev = n" "n = next_event tail"
    "details = [] \<and> ev = event_of tail tax msg ticket (Some agent) (ck_stamp ck) (Some op_id) \<or> details \<noteq> [] \<and> refers ev"
proof -
  have c: "clean_option (Some agent)" "clean_option (Some op_id)" "shaped date_shape (ck_stamp ck)" "plain_structure None" "loggable pr msg"
    using assms(2,5-7) by (simp_all add: clean_names_def clean_option_def plain_structure_def loggable_def)
  from produced_exact [OF assms(1) c(1,2) assms(3) c(3) assms(4) c(4,5)] that show thesis
    by (force simp: assms(5) event_of_def refers_def compact_message_def split: if_splits)
qed

section \<open>The history a plan proposes\<close>

definition SEAT_KEYS :: "string list" where
  "SEAT_KEYS = [''attempt'', ''last_event'', ''updated'', ''agent'']"

text \<open>
  The documents as one read finds them: LF lines, the fields of STATE with no list where a command writes a value,
  and a snapshot that ends with this LOG.
\<close>

definition read_docs :: "log_env \<Rightarrow> segment list \<Rightarrow> docs \<Rightarrow> bool" where
  "read_docs lenv segs d \<longleftrightarrow>
     (\<exists>ls. d_state d = unlines ls \<and> list_all plain_line ls) \<and> startswith (d_state d) ''---'' \<and>
     parse_frontmatter (d_state d) = Inr (d_fields d) \<and> list_all (\<lambda>k. \<not> holds_list (d_fields d) k) SEAT_KEYS \<and>
     (\<exists>ls raw. d_log d = unlines ls \<and> list_all plain_line ls \<and>
        d_history d = snapshot_of lenv (segs @ [(''.saipen/LOG.md'', raw, d_log d)]))"

lemma event_start: "parse_log_line l = Some ev \<Longrightarrow> strip l \<noteq> [] \<and> \<not> startswith (lstrip l) ''#''"
proof -
  assume "parse_log_line l = Some ev"
  then have "startswith l ''- ''" by (auto simp: parse_log_line_def split: if_splits)
  then obtain r where l: "l = CHR ''-'' # r" by (cases l) auto
  have n: "\<not> is_space CHR ''-''" by code_simp
  then have "lstrip l = l" by (simp add: l lstrip_def)
  moreover have "strip l \<noteq> []" using n \<open>lstrip l = l\<close> unfolding strip_def by (simp add: l rstrip_def)
  ultimately show ?thesis by (simp add: l)
qed

lemma map_filter_skip: "(\<And>x y. f x = Some y \<Longrightarrow> P x) \<Longrightarrow> List.map_filter f (filter P xs) = List.map_filter f xs"
  by (induction xs) (auto split: option.split)

lemma events_parsed: "events_in ls = List.map_filter parse_log_line ls"
  unfolding events_in_def event_lines_def by (rule map_filter_skip) (rule event_start)

lemma events_in_append: "events_in (a @ b) = events_in a @ events_in b"
  by (simp add: events_parsed map_filter_append)

lemma chomp_unlines:
  assumes "list_all plain_line ls"
  shows "\<exists>ls'. list_all plain_line ls' \<and> chomp (unlines ls) @ [CHR 10] = unlines ls' \<and> events_in ls' = events_in ls"
  using assms
proof (induction ls rule: rev_induct)
  case Nil
  then show ?case by (intro exI [of _ "[[]]"]) (simp add: chomp_def unlines_def events_parsed map_filter_simps parse_log_line_def)
next
  case (snoc l ls)
  show ?case
  proof (cases l)
    case Nil
    then have "chomp (unlines (ls @ [l])) = chomp (unlines ls)" by (simp add: chomp_def unlines_def)
    moreover have "events_in (ls @ [l]) = events_in ls"
      by (simp add: events_parsed Nil map_filter_append map_filter_simps parse_log_line_def)
    ultimately show ?thesis using snoc by auto
  next
    case (Cons c w)
    have p: "plain_line l" "list_all plain_line ls" using snoc.prems by simp_all
    obtain u x where l: "l = u @ [x]" using Cons by (metis list.distinct(1) rev_exhaust)
    then have "x \<noteq> CHR 10" using p(1) by (auto simp: is_line_end_def Let_def)
    then have "chomp (unlines (ls @ [l])) @ [CHR 10] = unlines (ls @ [l])" by (simp add: chomp_def unlines_def l)
    with p show ?thesis by (intro exI [of _ "ls @ [l]"]) auto
  qed
qed

text \<open>Every event of the active LOG is in the snapshot, and every number of the snapshot is at most its tail.\<close>

lemma snapshot_holds:
  assumes "read_docs lenv segs d" "ev \<in> set (events_in (splitlines (d_log d)))"
  shows "ev_id ev \<in> set (map ev_id (sn_events (d_history d)))"
proof -
  from assms(1) obtain ls raw where ls: "d_log d = unlines ls" "list_all plain_line ls"
    "d_history d = snapshot_of lenv (segs @ [(''.saipen/LOG.md'', raw, unlines ls)])"
    unfolding read_docs_def by metis
  from assms(2) obtain l where l: "l \<in> set ls" "parse_log_line l = Some ev"
    by (auto simp: ls(1) splitlines_unlines [OF ls(2)] events_parsed List.map_filter_def)
  then obtain k where "k < length ls" "l = ls ! k" by (metis in_set_conv_nth)
  then have "(Suc k, l) \<in> set (enumerate 1 ls)" by (simp add: in_set_enumerate_eq)
  with l(2) have "Recorded (restored lenv ev) l \<in> set (log_entries lenv [(''.saipen/LOG.md'', raw, unlines ls)])"
    unfolding last_segment_entries [OF ls(2)] by (force simp: entry_of_def)
  then have "restored lenv ev \<in> set (sn_events (d_history d))"
    unfolding ls(3) snapshot_of_def by (force simp: Let_def log_entries_append events_of_def List.map_filter_def)
  then show ?thesis by (metis restored_fields(1) image_eqI set_map)
qed

lemma snapshot_numbered:
  assumes "read_docs lenv segs d" "ev \<in> set (sn_events (d_history d))"
  shows "ev_id ev < next_event (sn_tail (d_history d))"
proof -
  from assms(1) obtain es where es: "sn_events (d_history d) = events_of es" "sn_tail (d_history d) = tail_of (events_of es) (damages_of es)"
    unfolding read_docs_def by (auto simp: snapshot_of_def Let_def)
  let ?t = "foldl raise_tail None (map ev_id (events_of es))"
  have ids: "ev_id ev \<in> set (map ev_id (events_of es))" using assms(2) es(1) by auto
  then have "events_of es \<noteq> []" by auto
  then have t: "?t = Some (foldl max 0 (map ev_id (events_of es)))" by (simp add: raise_tail_all)
  have a: "ev_id ev \<le> foldl max 0 (map ev_id (events_of es))" using foldl_max_bounds ids by blast
  also have "\<dots> \<le> foldl max (foldl max 0 (map ev_id (events_of es))) (claimed_ids (damages_of es))"
    using foldl_max_bounds by blast
  finally show ?thesis by (simp add: es(2) tail_of_def t raise_tail_max next_event_def)
qed

lemma proposed_history:
  assumes "read_docs lenv segs d" "plain_line line" "parse_log_line line = Some ev"
    and "ev_id ev = next_event (sn_tail (d_history d))"
  shows "proposed_events (Some (d_history d)) (events_in (splitlines (appended_log (d_log d) line))) = sn_events (d_history d) @ [ev]"
proof -
  from assms(1) obtain ls where ls: "d_log d = unlines ls" "list_all plain_line ls" unfolding read_docs_def by blast
  from chomp_unlines [OF ls(2)] obtain ls' where ls': "list_all plain_line ls'" "chomp (unlines ls) @ [CHR 10] = unlines ls'"
    "events_in ls' = events_in ls" by blast
  have "appended_log (d_log d) line = unlines (ls' @ [line])"
    using ls'(2) unfolding appended_log_def ls(1) append_assoc [symmetric] by (simp add: unlines_def)
  moreover have "list_all plain_line (ls' @ [line])" using ls'(1) assms(2) by simp
  ultimately have e: "events_in (splitlines (appended_log (d_log d) line)) = events_in ls @ [ev]"
    by (simp add: splitlines_unlines events_in_append ls'(3) events_parsed [of "[line]"] assms(3))
  have old: "filter (\<lambda>e. ev_id e \<notin> set (map ev_id (sn_events (d_history d)))) (events_in ls) = []"
    using snapshot_holds [OF assms(1)] by (simp add: filter_empty_conv ls(1) splitlines_unlines [OF ls(2)])
  have "ev_id ev \<notin> set (map ev_id (sn_events (d_history d)))"
    using snapshot_numbered [OF assms(1)] assms(4) by fastforce
  then show ?thesis using old by (simp add: proposed_events_def e)
qed

section \<open>What the gate lets through\<close>

lemma passed_gate:
  assumes "passes_gate env d state board log actor = None"
  shows "validate_texts (ce_gate env) state board log actor (Some (d_history d)) [] = Inr []"
  using assms by (auto simp: passes_gate_def split: sum.splits if_splits)

lemma guard_not_planned [simp]: "state_guard e \<noteq> Planned p"
  by (simp add: state_guard_def split: escape.splits producer_error.splits event_error.splits edit_error.splits write_error.splits)

lemma gate_not_planned [simp]: "passes_gate env d state board log actor \<noteq> Some (Planned p)"
  by (auto simp: passes_gate_def split: sum.splits if_splits)

text \<open>The gate part by part, for a proposal whose fields are known.\<close>

lemma gate_clean:
  assumes "parse_state_or_error (g_install env) state = Inr (Inr fs)" "raw_floor state board log = []" "gate_state_errors fs = []"
    "board_surface_errors board = []" "log_surface_errors log = []" "lw_events (analyze_log log) = evs" "lw_highest (analyze_log log) = h"
    "block_parked_evidence_error fs (w_tickets (parse_board board)) (proposed_events captured evs) planned = None"
    "allocation_errors captured (proposed_events captured evs) (w_tickets (parse_board board)) = []"
    "last_event_errors (g_install env) fs h = []"
    "ownership_invariant_errors fs (w_tickets (parse_board board)) actor (g_now env) = []"
    "binding_errors fs (w_tickets (parse_board board)) actor (g_now env) = []"
    "gate_attempt_errors (g_prov env) fs (proposed_events captured evs) = []"
  shows "validate_texts env state board log actor captured planned = Inr []"
  using assms by (simp add: validate_texts_def Let_def)

lemma parsed_not_blank: "parse_frontmatter doc = Inr fs \<Longrightarrow> strip doc \<noteq> []"
proof
  assume p: "parse_frontmatter doc = Inr fs" "strip doc = []"
  from blank_text_lines [OF p(2)] p(1) show False
    by (cases "splitlines doc") (simp_all add: parse_frontmatter_def is_fence_def)
qed

text \<open>Patching the seat's fields rewrites exactly those.\<close>

lemma patched_fields:
  assumes "list_all plain_line ls" "startswith (unlines ls) ''---''" "parse_frontmatter (unlines ls) = Inr fs"
    and "patch_state (unlines ls) (as_values owned) = Inr state" "owned \<noteq> []" "distinct (map fst owned)"
    and "set (map fst owned) \<subseteq> set SEAT_KEYS" "list_all (\<lambda>k. \<not> holds_list fs k) SEAT_KEYS"
  shows "parse_frontmatter state = Inr (update owned fs)"
proof -
  have "list_all state_key SEAT_KEYS" by code_simp
  then have "owned_keys owned" "list_all (\<lambda>(k, _). \<not> holds_list fs k) owned"
    using assms(6-8) by (auto simp: owned_keys_def list_all_iff)
  from patch_outcome [OF assms(1-3) this(1) assms(5) this(2)] show ?thesis by (simp add: assms(4))
qed

text \<open>The Attempt history of a proposal folds without errors, and its pointer is the one of the proposed STATE.\<close>

lemma passed_register:
  assumes "passes_gate env d state board (appended_log (d_log d) line) actor = None" "read_docs lenv segs d"
    and "plain_line line" "parse_log_line line = Some ev" "ev_id ev = next_event (sn_tail (d_history d))"
    and "parse_frontmatter state = Inr fs"
  obtains rs where "build_attempts (g_prov (ce_gate env)) (sn_events (d_history d) @ [ev]) = (rs, [])" "pointer_pinned fs rs"
    "\<forall>e \<in> set (sn_events (d_history d) @ [ev]). \<exists>rec. parse_attempt_event (g_prov (ce_gate env)) e = Inr rec"
proof -
  from passed_gate [OF assms(1)] obtain gs where
      parsed: "parse_state_or_error (g_install (ce_gate env)) state = Inr (Inr gs)"
    and raw: "raw_floor state board (appended_log (d_log d) line) = []"
    and log: "log_surface_errors (appended_log (d_log d) line) = []"
    and att: "gate_attempt_errors (g_prov (ce_gate env)) gs
      (proposed_events (Some (d_history d)) (lw_events (analyze_log (appended_log (d_log d) line)))) = []"
    by (rule gate_parts) blast
  have "lw_errors (analyze_log (appended_log (d_log d) line)) = []" "log_floor (appended_log (d_log d) line) = []"
    using log raw by (simp_all add: log_surface_errors_def raw_floor_def)
  note an = analyzed_log [OF this]
  have gs: "gs = fs" using parsed parsed_not_blank [OF assms(6)] assms(6)
    by (auto simp: parse_state_or_error_def checked_def split: sum.splits list.splits)
  note evs = proposed_history [OF assms(2-5)]
  obtain rs es where b: "build_attempts (g_prov (ce_gate env)) (sn_events (d_history d) @ [ev]) = (rs, es)"
    by (cases "build_attempts (g_prov (ce_gate env)) (sn_events (d_history d) @ [ev])")
  have e: "List.map_filter (\<lambda>ev. case parse_attempt_event (g_prov (ce_gate env)) ev of Inl e \<Rightarrow> Some (Attempt_Event e) | Inr _ \<Rightarrow> None)
      (sn_events (d_history d) @ [ev]) = []" "es = []" "attempt_pointer_errors fs rs = []"
    using att unfolding an(2) evs gs gate_attempt_errors_def b by simp_all
  have "\<exists>rec. parse_attempt_event (g_prov (ce_gate env)) x = Inr rec" if "x \<in> set (sn_events (d_history d) @ [ev])" for x
    using e(1) that by (cases "parse_attempt_event (g_prov (ce_gate env)) x")
      (force simp: List.map_filter_def filter_empty_conv split: sum.splits)+
  with b e(2) sealed_pointer [OF e(3)] that show thesis by blast
qed

text \<open>The identities of a board that parses.\<close>

lemma clean_board_names:
  assumes "w_errors (parse_board doc) = []" "dict_get (w_tickets (parse_board doc)) tid = Some t"
  shows "ticket_name tid"
proof -
  have "(tid, t) \<in> set (board_tickets (splitlines doc))"
    using assms parse_board_tickets by (auto dest: map_of_SomeD)
  then have e: "tid = tk_id t" "t \<in> set (entries_of (placed None (numbered (splitlines doc))))" by (auto simp: board_tickets_def)
  from entry_placed [OF e(2)] obtain s' n l where "is_record_line l" "record_ticket s' n l = Some t" by blast
  with record_ticket_wf [of s' n l t] e(1) show ?thesis by (simp add: wf_ticket_def)
qed

lemma passed_board:
  assumes "passes_gate env d state board log actor = None" "dict_get (w_tickets (parse_board board)) tid = Some t"
  shows "ticket_name tid"
proof -
  from passed_gate [OF assms(1)] have "board_surface_errors board = []" by (rule gate_parts) blast
  with sealed_board clean_board_names [OF _ assms(2)] show ?thesis by (simp add: sound_board_def Let_def)
qed

lemma clean_name: "ticket_name tid \<Longrightarrow> clean_ticket (Some tid)"
proof -
  assume t: "ticket_name tid"
  have c: "not_close CHR ''T''" "not_close CHR ''-''" "plain_line ''T-''" by code_simp+
  from t have "tid = ''T-'' @ drop 2 tid" using startswith_drop [of tid "''T-''"] by (simp add: ticket_name_def numeral_2_eq_2)
  then obtain ds where "tid = ''T-'' @ ds" "list_all is_digit ds" using t by (auto simp: ticket_name_def)
  with c digits_open [of ds] digits_plain [of ds] show ?thesis by (simp add: clean_ticket_def clean_value_def)
qed

end
