(* ===== verification/LifecycleLaws.thy ===== *)
theory LifecycleLaws
  imports AttemptTexts CommandLaws
begin

text \<open>
  The Attempt commands against the register: a planned open or close, read back from the LOG it proposes, is one
  step of the register, the pointer of STATE follows it, and a successor can only record an interruption.
\<close>

section \<open>Opening\<close>

text \<open>A reference is no Attempt event.\<close>

lemma reference_not_attempt:
  assumes "refers ev"
  shows "parse_attempt_event prov ev = Inr None"
proof -
  from assms obtain r where t: "ev_text ev = CHR ''d'' # r" by (cases "ev_text ev") (auto simp: refers_def)
  have "\<not> is_space CHR ''d''" by code_simp
  then have "lstrip (ev_text ev) = ev_text ev" by (simp add: t lstrip_def)
  then obtain v where "CHR ''d'' # r = strip (ev_text ev) @ v" using rstrip_split [of "ev_text ev"] by (auto simp: strip_def t)
  then have "\<not> startswith (strip (ev_text ev)) ''attempt ''" by (cases "strip (ev_text ev)") auto
  then show ?thesis by (simp add: parse_attempt_event_def parse_attempt_text_def claims_grammar_def Let_def)
qed

definition newer :: "attempt option \<Rightarrow> attempt \<Rightarrow> attempt option" where
  "newer best rec = (case best of Some b \<Rightarrow> if at_open b < at_open rec then Some rec else best | None \<Rightarrow> Some rec)"

lemma newest_member: "foldl newer b0 xs = Some r \<Longrightarrow> b0 = Some r \<or> r \<in> set xs"
proof (induction xs arbitrary: b0)
  case (Cons x xs)
  then have "newer b0 x = Some r \<or> r \<in> set xs" by simp
  then show ?case by (auto simp: newer_def split: option.splits if_splits)
qed simp

lemma latest_member: "latest_on rs task = Some rec \<Longrightarrow> rec \<in> snd ` set rs"
  using newest_member [of None "filter (\<lambda>rec. at_ticket rec = Some task) (map snd rs)" rec]
  by (auto simp: latest_on_def newer_def [abs_def])

text \<open>What the host promises: hexadecimal digests, sealed tokens, and redaction that leaves an Attempt's text alone.\<close>

definition sealing_host :: "command_env \<Rightarrow> (string \<Rightarrow> string option) \<Rightarrow> bool" where
  "sealing_host env seal \<longleftrightarrow>
     (\<forall>s. plain_line (pr_digest (ce_producer env) s)) \<and> (\<forall>a t. seal a = Some t \<longrightarrow> provenance_token t) \<and>
     (\<forall>aid prior t. provenance_token t \<longrightarrow> pr_redact (ce_producer env) (open_text aid prior t) = open_text aid prior t)"

lemma opened_parts:
  assumes "attempt_lifecycle env seal d Open_Attempt agent ck op_id = Planned p"
  obtains rs t token n line details state where
    "build_attempts (g_prov (ce_gate env)) (sn_events (d_history d)) = (rs, [])" "active_attempts rs = []"
    "dict_get (w_tickets (parse_board (d_board d))) (text_field (d_fields d) ''task'') = Some t" "tk_section t = ''## DOING''"
    "seal agent = Some token"
    "prepare_bounded_event (ce_producer env) (sn_tail (d_history d)) ''DEC''
       (open_text (next_attempt_id (g_prov (ce_gate env)) (sn_events (d_history d)))
          (map_option at_id (latest_on rs (text_field (d_fields d) ''task''))) token)
       (Some (text_field (d_fields d) ''task'')) (Some agent) (ck_stamp ck) (Some op_id) None = Inr (n, line, details)"
    "patch_state (d_state d) (open_fields (next_attempt_id (g_prov (ce_gate env)) (sn_events (d_history d))) n (ck_utc ck) agent) = Inr state"
    "passes_gate env d state (d_board d) (appended_log (d_log d) line) agent = None"
    "p = \<lparr>pl_operation = ''attempt-open'', pl_agent = agent, pl_op = op_id, pl_ticket = Some (text_field (d_fields d) ''task''),
      pl_event = n, pl_targets = details @ [(''.saipen/LOG.md'', appended_log (d_log d) line), (''.saipen/STATE.md'', state)]\<rparr>"
proof -
  let ?prov = "g_prov (ce_gate env)" and ?evs = "sn_events (d_history d)"
  obtain rs es where b: "build_attempts ?prov ?evs = (rs, es)" by (cases "build_attempts ?prov ?evs")
  with assms have es: "es = []" and o: "plan_open env seal d rs agent ck op_id = Planned p"
    by (auto simp: attempt_lifecycle_def plan_attempt_def split: option.splits if_splits)
  let ?task = "text_field (d_fields d) ''task''" and ?aid = "next_attempt_id ?prov ?evs"
  from o obtain t token where
    t: "active_attempts rs = []" "dict_get (w_tickets (parse_board (d_board d))) ?task = Some t" "tk_section t = ''## DOING''"
      "seal agent = Some token"
    and c: "(case prepare_bounded_event (ce_producer env) (sn_tail (d_history d)) ''DEC''
                         (open_text ?aid (map_option at_id (latest_on rs ?task)) token) (Some ?task) (Some agent) (ck_stamp ck) (Some op_id) None of
                     Inl e \<Rightarrow> state_guard (Event_Raised e)
                   | Inr (n, line, details) \<Rightarrow>
                       let log = appended_log (d_log d) line in
                       (case patch_state (d_state d) (open_fields ?aid n (ck_utc ck) agent) of
                          Inl e \<Rightarrow> state_guard (State_Raised e)
                        | Inr state \<Rightarrow>
                            (case passes_gate env d state (d_board d) log agent of
                               Some out \<Rightarrow> out
                             | None \<Rightarrow>
                                 Planned \<lparr>pl_operation = ''attempt-open'', pl_agent = agent, pl_op = op_id, pl_ticket = Some ?task,
                                   pl_event = n,
                                   pl_targets = details @ [(''.saipen/LOG.md'', log), (''.saipen/STATE.md'', state)]\<rparr>))) = Planned p"
    by (auto simp: plan_open_def Let_def split: option.splits if_splits)
  from c obtain n line details state where
    "prepare_bounded_event (ce_producer env) (sn_tail (d_history d)) ''DEC''
       (open_text ?aid (map_option at_id (latest_on rs ?task)) token) (Some ?task) (Some agent) (ck_stamp ck) (Some op_id) None = Inr (n, line, details)"
    "patch_state (d_state d) (open_fields ?aid n (ck_utc ck) agent) = Inr state"
    "passes_gate env d state (d_board d) (appended_log (d_log d) line) agent = None"
    "p = \<lparr>pl_operation = ''attempt-open'', pl_agent = agent, pl_op = op_id, pl_ticket = Some ?task,
      pl_event = n, pl_targets = details @ [(''.saipen/LOG.md'', appended_log (d_log d) line), (''.saipen/STATE.md'', state)]\<rparr>"
    by (auto simp: Let_def split: sum.splits option.splits)
  from that [OF b [unfolded es] t this] show thesis .
qed

text \<open>One episode opened in the register: a fresh identity after the latest on the same ticket, nothing else changed.\<close>

definition opens :: "attempts \<Rightarrow> event \<Rightarrow> string \<Rightarrow> string \<Rightarrow> attempts \<Rightarrow> bool" where
  "opens rs ev task token rs' \<longleftrightarrow>
     active_attempts rs = [] \<and>
     (\<exists>aid. dict_get rs aid = None \<and>
        rs' = rs @ [(aid, fresh_attempt ev aid (map_option at_id (latest_on rs task)) (Some token))])"

lemma active_sorted: "active_attempts rs = map fst (sort_key (\<lambda>(_, rec). at_open rec) (filter (\<lambda>(_, rec). at_close rec = None) rs))"
proof -
  have "List.map_filter (\<lambda>(aid, rec). if at_close rec = None then Some aid else None) xs = map fst (filter (\<lambda>(_, rec). at_close rec = None) xs)"
    for xs :: attempts by (induction xs) auto
  then show ?thesis by (simp add: active_attempts_def filter_sort)
qed

lemma active_added: "active_attempts rs = [] \<Longrightarrow> at_close rec = None \<Longrightarrow> active_attempts (rs @ [(aid, rec)]) = [aid]"
proof -
  assume "active_attempts rs = []" and c: "at_close rec = None"
  then have "filter (\<lambda>(_, rec). at_close rec = None) rs = []" using active_set [of _ rs] by (auto simp: filter_empty_conv)
  with c show "active_attempts (rs @ [(aid, rec)]) = [aid]" by (simp add: active_sorted)
qed

lemma opened_fields:
  assumes "read_docs lenv segs d" "patch_state (d_state d) (open_fields aid n utc agent) = Inr state"
  shows "parse_frontmatter state = Inr (update [(''attempt'', SStr aid), (''last_event'', SInt (int n)), (''updated'', SStr utc), (''agent'', SStr agent)] (d_fields d))"
proof -
  let ?owned = "[(''attempt'', SStr aid), (''last_event'', SInt (int n)), (''updated'', SStr utc), (''agent'', SStr agent)]"
  have o: "open_fields aid n utc agent = as_values ?owned" by (simp add: open_fields_def as_values_def)
  from assms(1) obtain ls where ls: "d_state d = unlines ls" "list_all plain_line ls" "startswith (unlines ls) ''---''"
    "parse_frontmatter (unlines ls) = Inr (d_fields d)" "list_all (\<lambda>k. \<not> holds_list (d_fields d) k) SEAT_KEYS"
    unfolding read_docs_def by metis
  show ?thesis
    by (rule patched_fields [OF ls(2-4) assms(2) [unfolded ls(1) o] _ _ _ ls(5)]) (simp_all add: SEAT_KEYS_def)
qed

text \<open>
  C12: a planned \<open>attempt open\<close> is one step of the Attempt register: its event, read back from the LOG it proposes,
  opens one fresh episode on the claimed ticket when none is open, after the latest on that ticket and under the sealed
  provenance of the host; the whole history folds without errors, and STATE points to that episode.  An event too
  long for its line is never planned.
\<close>

theorem attempt_open_refines:
  assumes "attempt_lifecycle env seal d Open_Attempt agent ck op_id = Planned p"
    and "read_docs lenv segs d" "clean_names agent op_id ck" "sealing_host env seal"
  shows "\<exists>rs rs' ev token line fs state.
     pl_targets p = [(''.saipen/LOG.md'', appended_log (d_log d) line), (''.saipen/STATE.md'', state)] \<and>
     proposed_events (Some (d_history d)) (events_in (splitlines (appended_log (d_log d) line))) = sn_events (d_history d) @ [ev] \<and>
     ev_id ev = pl_event p \<and> ev_ticket ev = pl_ticket p \<and> ev_agent ev = Some agent \<and> seal agent = Some token \<and>
     build_attempts (g_prov (ce_gate env)) (sn_events (d_history d)) = (rs, []) \<and>
     build_attempts (g_prov (ce_gate env)) (sn_events (d_history d) @ [ev]) = (rs', []) \<and>
     opens rs ev (text_field (d_fields d) ''task'') token rs' \<and>
     parse_frontmatter state = Inr fs \<and> (\<exists>aid. active_attempts rs' = [aid] \<and> state_string fs ''attempt'' = Some aid)"
proof -
  let ?prov = "g_prov (ce_gate env)" and ?evs = "sn_events (d_history d)" and ?task = "text_field (d_fields d) ''task''"
  let ?aid = "next_attempt_id ?prov ?evs"
  from assms(1) show ?thesis
  proof (rule opened_parts)
    fix rs t token n line details state
    assume rs: "build_attempts ?prov ?evs = (rs, [])" "active_attempts rs = []"
      and t: "dict_get (w_tickets (parse_board (d_board d))) ?task = Some t" and seal: "seal agent = Some token"
      and produced: "prepare_bounded_event (ce_producer env) (sn_tail (d_history d)) ''DEC''
        (open_text ?aid (map_option at_id (latest_on rs ?task)) token) (Some ?task) (Some agent) (ck_stamp ck) (Some op_id) None = Inr (n, line, details)"
      and patched: "patch_state (d_state d) (open_fields ?aid n (ck_utc ck) agent) = Inr state"
      and gate: "passes_gate env d state (d_board d) (appended_log (d_log d) line) agent = None"
      and p: "p = \<lparr>pl_operation = ''attempt-open'', pl_agent = agent, pl_op = op_id, pl_ticket = Some ?task,
        pl_event = n, pl_targets = details @ [(''.saipen/LOG.md'', appended_log (d_log d) line), (''.saipen/STATE.md'', state)]\<rparr>"
    let ?prior = "map_option at_id (latest_on rs ?task)"
    have token: "provenance_token token" using assms(4) seal by (auto simp: sealing_host_def)
    have prior: "case ?prior of Some q \<Rightarrow> attempt_key q | None \<Rightarrow> True"
      using built_named [OF rs(1)] latest_member [of rs ?task]
      by (cases "latest_on rs ?task") (auto simp: named_records_def list_all_iff)
    have ends: "open_text ?aid ?prior token \<noteq> []" "\<not> is_line_end (last (open_text ?aid ?prior token))"
      using token_ends [OF token] by (auto simp: open_text_def list_all_iff)
    have host: "\<And>s. plain_line (pr_digest (ce_producer env) s)"
      "pr_redact (ce_producer env) (open_text ?aid ?prior token) = open_text ?aid ?prior token"
      using assms(4) token by (simp_all add: sealing_host_def)
    show ?thesis
    proof (rule produced_event [OF produced assms(3) clean_name [OF passed_board [OF gate t]] host ends])
      fix ev
      assume line: "plain_line line" "parse_log_line line = Some ev" "ev_id ev = n" "n = next_event (sn_tail (d_history d))"
        and which: "details = [] \<and> ev = event_of (sn_tail (d_history d)) ''DEC'' (open_text ?aid ?prior token) (Some ?task) (Some agent)
            (ck_stamp ck) (Some op_id) \<or> details \<noteq> [] \<and> refers ev"
      let ?fs = "update [(''attempt'', SStr ?aid), (''last_event'', SInt (int n)), (''updated'', SStr (ck_utc ck)), (''agent'', SStr agent)] (d_fields d)"
      note fs = opened_fields [OF assms(2) patched]
      have pointer: "state_string ?fs ''attempt'' = Some ?aid" by (simp add: state_string_def update_get)
      note id = line(3) [unfolded line(4)]
      from passed_register [OF gate assms(2) line(1,2) id fs] obtain rs' where
        rs': "build_attempts ?prov (?evs @ [ev]) = (rs', [])" "pointer_pinned ?fs rs'"
          "\<forall>e \<in> set (?evs @ [ev]). \<exists>rec. parse_attempt_event ?prov e = Inr rec" by blast
      note step = built_step [OF rs(1) rs'(1)]
      have fresh: "dict_get rs ?aid = None" using next_fresh [OF rs(1)] .
      have "\<not> refers ev"
      proof
        assume "refers ev"
        from reference_not_attempt [OF this] step have "rs' = rs" by (simp add: attempt_step_def)
        with rs'(2) pointer fresh show False by (simp add: pointer_pinned_def)
      qed
      with which have none: "details = []" and ev: "ev = event_of (sn_tail (d_history d)) ''DEC'' (open_text ?aid ?prior token) (Some ?task)
          (Some agent) (ck_stamp ck) (Some op_id)" by auto
      have parsed: "parse_attempt_event ?prov ev = Inr (Some (Opened ?aid ?prior (Some token)))"
        using rs'(3) open_read [OF next_key prior token, of ?prov]
        by (auto simp: parse_attempt_event_def ev event_of_def split: if_splits)
      then have reg: "rs' = rs @ [(?aid, fresh_attempt ev ?aid ?prior (Some token))]"
        using step fresh by (auto simp: attempt_step_def open_step_def)
      then have "opens rs ev ?task token rs'" unfolding opens_def using rs(2) fresh by blast
      moreover have "active_attempts rs' = [?aid]"
        by (simp add: reg active_added rs(2) fresh_attempt_def)
      ultimately show ?thesis
        using proposed_history [OF assms(2) line(1,2) id] rs(1) rs'(1) fs pointer line(3) seal none
        by (intro exI [of _ rs] exI [of _ rs'] exI [of _ ev] exI [of _ token] exI [of _ line] exI [of _ ?fs] exI [of _ state])
           (simp add: p ev event_of_def)
    qed
  qed
qed

text \<open>A claimed ticket without an episode, and a host that seals one executor.\<close>

definition idle_state :: "string list" where
  "idle_state =
     [''---'', ''phase: BUILD'', ''transition_from: SCOUT'', ''task: T-2'', ''next_action: PHASE BUILD T-2'',
      ''blocker: none'', ''agent: ada'', ''saipen_version: 8'', ''schema_version: 3'', ''last_event: 1'', ''mode: full'',
      ''updated: 2026-01-02T03:04:05Z'', ''---'', ''BOUNDARY'']"

definition idle_log :: "string list" where
  "idle_log = [''- [E-1] [T-2] DEC: added'']"

definition idle_board :: "string list" where
  "idle_board =
     [''## DOING'', ''- [/] T-2 core | owner: ada | claim_time: 2026-01-02T03:00:00Z'', ''## TODO'', ''## DONE'', ''## BLOCKED'']"

definition some_token :: string where
  "some_token = ''e30.'' @ replicate 64 CHR ''a''"

definition work_env :: command_env where
  "work_env = \<lparr>ce_gate = gate_sample\<lparr>g_prov := (\<lambda>t. if t = some_token then Some ''ada'' else None)\<rparr>, ce_producer = plain_producer\<rparr>"

definition work_seal :: "string \<Rightarrow> string option" where
  "work_seal a = (if a = ''ada'' then Some some_token else None)"

definition work_clock :: clock where
  "work_clock = \<lparr>ck_stamp = ''02.01.26 03:05'', ck_utc = ''2026-01-02T03:05:00Z'', ck_instant = 0\<rparr>"

definition idle_history :: snapshot where
  "idle_history =
     \<lparr>sn_hash = [], sn_text = unlines idle_log, sn_tail = Some 1,
      sn_events = [\<lparr>ev_date = None, ev_id = 1, ev_parent = None, ev_ticket = Some ''T-2'', ev_agent = None, ev_op = None,
        ev_taxonomy = ''DEC'', ev_text = ''added'', ev_detail = None\<rparr>],
      sn_illegal = [], sn_lines = idle_log, sn_max_ticket = 2\<rparr>"

definition idle_fields :: state_fields where
  "idle_fields =
     [(''phase'', Scalar (SStr ''BUILD'')), (''transition_from'', Scalar (SStr ''SCOUT'')), (''task'', Scalar (SStr ''T-2'')),
      (''next_action'', Scalar (SStr ''PHASE BUILD T-2'')), (''blocker'', Scalar (SStr ''none'')),
      (''agent'', Scalar (SStr ''ada'')), (''saipen_version'', Scalar (SInt 8)), (''schema_version'', Scalar (SInt 3)),
      (''last_event'', Scalar (SInt 1)), (''mode'', Scalar (SStr ''full'')),
      (''updated'', Scalar (SStr ''2026-01-02T03:04:05Z''))]"

definition idle_docs :: docs where
  "idle_docs = \<lparr>d_state = unlines idle_state, d_board = unlines idle_board, d_log = unlines idle_log,
     d_fields = idle_fields, d_history = idle_history\<rparr>"

lemma idle_read: "read_docs plain_log_env [] idle_docs"
proof -
  have "list_all plain_line idle_state" "list_all plain_line idle_log" "startswith (unlines idle_state) ''---''"
    "parse_frontmatter (unlines idle_state) = Inr idle_fields" "list_all (\<lambda>k. \<not> holds_list idle_fields k) SEAT_KEYS"
    "snapshot_of plain_log_env [(''.saipen/LOG.md'', [], unlines idle_log)] = idle_history"
    by code_simp+
  note r = this
  show ?thesis
    unfolding read_docs_def idle_docs_def docs.simps append_Nil
    by (intro conjI exI [of _ idle_state] exI [of _ idle_log] exI [of _ "[]"] refl r(1,2,3,4,5) r(6) [symmetric])
qed

lemma working_host: "sealing_host work_env work_seal"
proof -
  have "provenance_token some_token" "plain_line (pr_digest (ce_producer work_env) [])" by code_simp+
  then show ?thesis by (auto simp: sealing_host_def work_env_def work_seal_def plain_producer_def)
qed

definition opened_line :: string where
  "opened_line =
     ''- 02.01.26 03:05 [E-2] [parent: E-1] [T-2] [agent: ada] [op: open-1] DEC: attempt A-001 open; provenance '' @ some_token"

definition opened_state :: "string list" where
  "opened_state =
     [''---'', ''phase: BUILD'', ''transition_from: SCOUT'', ''task: T-2'', ''next_action: PHASE BUILD T-2'',
      ''blocker: none'', ''agent: ada'', ''saipen_version: 8'', ''schema_version: 3'', ''last_event: 2'', ''mode: full'',
      ''updated: '' @ [CHR 34] @ ''2026-01-02T03:05:00Z'' @ [CHR 34], ''attempt: A-001'', ''---'', ''BOUNDARY'']"

definition opened_event :: event where
  "opened_event =
     \<lparr>ev_date = Some ''02.01.26 03:05'', ev_id = 2, ev_parent = Some 1, ev_ticket = Some ''T-2'', ev_agent = Some ''ada'',
      ev_op = Some ''open-1'', ev_taxonomy = ''DEC'', ev_text = open_text ''A-001'' None some_token, ev_detail = None\<rparr>"

definition busy_fields :: state_fields where
  "busy_fields = update [(''last_event'', SInt 2), (''updated'', SStr ''2026-01-02T03:05:00Z''), (''attempt'', SStr ''A-001'')] idle_fields"

lemma idle_guard: "action_refusal Open_Attempt idle_docs ''ada'' (ck_instant work_clock) = None"
  by code_simp

lemma idle_register: "build_attempts (g_prov (ce_gate work_env)) (sn_events (d_history idle_docs)) = ([], [])"
  by code_simp

lemma idle_ticket:
  "case dict_get (w_tickets (parse_board (d_board idle_docs))) ''T-2'' of Some t \<Rightarrow> tk_section t = ''## DOING'' | None \<Rightarrow> False"
  by code_simp

lemma idle_event:
  "prepare_bounded_event (ce_producer work_env) (sn_tail (d_history idle_docs)) ''DEC'' (open_text ''A-001'' None some_token)
     (Some ''T-2'') (Some ''ada'') (ck_stamp work_clock) (Some ''open-1'') None = Inr (2, opened_line, [])"
  by code_simp

lemma idle_patch: "patch_state (d_state idle_docs) (open_fields ''A-001'' 2 (ck_utc work_clock) ''ada'') = Inr (unlines opened_state)"
  by code_simp

lemma idle_gate: "validate_texts (ce_gate work_env) (unlines opened_state) (d_board idle_docs) (appended_log (d_log idle_docs) opened_line) ''ada''
    (Some (d_history idle_docs)) [] = Inr []"
  by (rule gate_clean [of _ _ busy_fields _ _ "[last (sn_events idle_history), opened_event]" "Some 2"]) code_simp+

lemma idle_small:
  "text_field (d_fields idle_docs) ''task'' = ''T-2''" "own_episode idle_docs [] ''ada'' = None" "active_attempts [] = []"
  "next_attempt_id (g_prov (ce_gate work_env)) (sn_events (d_history idle_docs)) = ''A-001''" "latest_on [] ''T-2'' = None"
  "work_seal ''ada'' = Some some_token"
  by code_simp+

lemma idle_opens:
  "\<exists>p. attempt_lifecycle work_env work_seal idle_docs Open_Attempt ''ada'' work_clock ''open-1'' = Planned p \<and> pl_event p = 2"
proof -
  obtain t where "dict_get (w_tickets (parse_board (d_board idle_docs))) ''T-2'' = Some t" "tk_section t = ''## DOING''"
    using idle_ticket by (auto split: option.splits)
  then show ?thesis
    by (simp add: attempt_lifecycle_def plan_attempt_def plan_open_def Let_def idle_guard idle_register idle_small idle_event idle_patch
        passes_gate_def idle_gate)
qed

theorem attempt_open_refines_witness:
  "\<exists>p rs' ev. attempt_lifecycle work_env work_seal idle_docs Open_Attempt ''ada'' work_clock ''open-1'' = Planned p \<and>
     build_attempts (g_prov (ce_gate work_env)) (sn_events (d_history idle_docs) @ [ev]) = (rs', []) \<and> ev_id ev = 2 \<and>
     length (active_attempts rs') = 1"
proof -
  obtain p where p: "attempt_lifecycle work_env work_seal idle_docs Open_Attempt ''ada'' work_clock ''open-1'' = Planned p" "pl_event p = 2"
    using idle_opens by blast
  have c: "clean_names ''ada'' ''open-1'' work_clock" by code_simp
  from attempt_open_refines [OF p(1) idle_read c working_host] p show ?thesis by fastforce
qed

section \<open>Closing\<close>

lemma closed_parts:
  assumes "attempt_lifecycle env seal d (Close_Attempt rq) agent ck op_id = Planned p"
  obtains rs aid rec n line details state board where
    "build_attempts (g_prov (ce_gate env)) (sn_events (d_history d)) = (rs, [])"
    "state_string (d_fields d) ''attempt'' = Some aid" "dict_get rs aid = Some rec" "at_close rec = None"
    "\<not> close_refused d rec rq agent (ck_instant ck)"
    "prepare_bounded_event (ce_producer env) (sn_tail (d_history d)) ''DEC'' (close_text aid rq) (at_ticket rec) (Some agent)
       (ck_stamp ck) (Some op_id) None = Inr (n, line, details)"
    "closed_state d n (ck_utc ck) agent = Inr state"
    "(if is_recovery d rec agent (ck_instant ck) then released_board d else Inr (d_board d)) = Inr board"
    "passes_gate env d state board (appended_log (d_log d) line) agent = None"
    "p = \<lparr>pl_operation = ''attempt-close'', pl_agent = agent, pl_op = op_id, pl_ticket = at_ticket rec, pl_event = n,
       pl_targets = details @ [(''.saipen/LOG.md'', appended_log (d_log d) line)] @
         (if board \<noteq> d_board d then [(''.saipen/BOARD.md'', board)] else []) @ [(''.saipen/STATE.md'', state)]\<rparr>"
proof -
  let ?prov = "g_prov (ce_gate env)" and ?evs = "sn_events (d_history d)"
  obtain rs es where b: "build_attempts ?prov ?evs = (rs, es)" by (cases "build_attempts ?prov ?evs")
  with assms have es: "es = []" and o: "plan_close env d rs rq agent ck op_id = Planned p"
    by (auto simp: attempt_lifecycle_def plan_attempt_def split: option.splits if_splits)
  from o obtain aid rec where aid: "state_string (d_fields d) ''attempt'' = Some aid" "dict_get rs aid = Some rec" "at_close rec = None"
      "\<not> close_refused d rec rq agent (ck_instant ck)"
    and c: "commit_close env d aid rec rq agent ck op_id = Planned p"
    by (auto simp: plan_close_def pointer_of_def split: option.splits if_splits)
  from c obtain n line details where e: "prepare_bounded_event (ce_producer env) (sn_tail (d_history d)) ''DEC'' (close_text aid rq)
      (at_ticket rec) (Some agent) (ck_stamp ck) (Some op_id) None = Inr (n, line, details)"
    unfolding commit_close_def by (auto split: sum.splits)
  from c obtain state where s: "closed_state d n (ck_utc ck) agent = Inr state"
    unfolding commit_close_def e by (auto simp: Let_def split: sum.splits)
  from c obtain board where bd: "(if is_recovery d rec agent (ck_instant ck) then released_board d else Inr (d_board d)) = Inr board"
    unfolding commit_close_def e sum.case prod.case Let_def s by (simp split: sum.splits)
  from c have "passes_gate env d state board (appended_log (d_log d) line) agent = None"
    "p = \<lparr>pl_operation = ''attempt-close'', pl_agent = agent, pl_op = op_id, pl_ticket = at_ticket rec, pl_event = n,
       pl_targets = details @ [(''.saipen/LOG.md'', appended_log (d_log d) line)] @
         (if board \<noteq> d_board d then [(''.saipen/BOARD.md'', board)] else []) @ [(''.saipen/STATE.md'', state)]\<rparr>"
    unfolding commit_close_def e sum.case prod.case Let_def s bd by (auto split: option.splits)
  from that [OF b [unfolded es] aid e s bd this] show thesis .
qed

lemma admitted_close: "\<not> close_refused d rec rq agent now \<Longrightarrow> legal_close rq"
  by (auto simp: close_refused_def legal_close_def list_ex_iff list_all_iff not_less split: option.splits)

definition seat_after :: "nat \<Rightarrow> string \<Rightarrow> string \<Rightarrow> owned" where
  "seat_after n utc agent = [(''last_event'', SInt (int n)), (''updated'', SStr utc), (''agent'', SStr agent)]"

lemma closed_fields:
  assumes "read_docs lenv segs d" "closed_state d n utc agent = Inr state"
  shows "parse_frontmatter state = Inr (update (seat_after n utc agent) (without_fields [''attempt''] (d_fields d)))"
proof -
  from assms(1) obtain ls where ls: "d_state d = unlines ls" "list_all plain_line ls" "startswith (unlines ls) ''---''"
    "parse_frontmatter (unlines ls) = Inr (d_fields d)" "list_all (\<lambda>k. \<not> holds_list (d_fields d) k) SEAT_KEYS"
    unfolding read_docs_def by metis
  have "list_all (\<lambda>k. \<not> holds_list (d_fields d) k) [''attempt'']" using ls(5) by (simp add: SEAT_KEYS_def)
  from remove_fields_exact [OF ls(2-4) this] obtain ls' where ls': "remove_state_fields (unlines ls) [''attempt''] = Inr (unlines ls')"
    "list_all plain_line ls'" "startswith (unlines ls') ''---''"
    "parse_frontmatter (unlines ls') = Inr (without_fields [''attempt''] (d_fields d))" by blast
  have c: "close_fields n utc agent = as_values (seat_after n utc agent)" by (simp add: close_fields_def seat_after_def as_values_def)
  have "patch_state (unlines ls') (as_values (seat_after n utc agent)) = Inr state"
    using assms(2) by (simp add: closed_state_def ls(1) ls'(1) c)
  from patched_fields [OF ls'(2-4) this] ls(5) show ?thesis
    by (auto simp: seat_after_def SEAT_KEYS_def holds_list_def without_get)
qed

text \<open>One episode closed in the register under the verdict of the request; every other record stays.\<close>

definition closes :: "attempts \<Rightarrow> event \<Rightarrow> string \<Rightarrow> close_request \<Rightarrow> attempts \<Rightarrow> bool" where
  "closes rs ev aid rq rs' \<longleftrightarrow>
     (\<exists>rec. dict_get rs aid = Some rec \<and> at_close rec = None \<and> cr_stop rq \<in> set (allowed_stops (cr_result rq)) \<and>
        rs' = dict_set aid (closed_attempt ev (cr_result rq) (cr_stop rq) (trimmed_refs (cr_evidence rq)) (trimmed_clause (cr_unknown rq)) rec) rs)"

text \<open>The register and the STATE pointer before the command, as the last checkpoint left them.\<close>

definition pinned_docs :: "command_env \<Rightarrow> docs \<Rightarrow> bool" where
  "pinned_docs env d \<longleftrightarrow> pointer_pinned (d_fields d) (fst (build_attempts (g_prov (ce_gate env)) (sn_events (d_history d)))) \<and>
     clean_ticket (state_string (d_fields d) ''task'')"

text \<open>Digests are one line, and the text of this close has nothing to redact.\<close>

definition quiet_host :: "command_env \<Rightarrow> docs \<Rightarrow> close_request \<Rightarrow> bool" where
  "quiet_host env d rq \<longleftrightarrow>
     (\<forall>s. plain_line (pr_digest (ce_producer env) s)) \<and>
     (\<forall>aid. pr_redact (ce_producer env) (close_text aid rq) = close_text aid rq)"

text \<open>
  C13: a planned \<open>attempt close\<close> is one step of the Attempt register: its event, read back from the LOG it proposes, closes
  the episode STATE points to under an allowed verdict, the history folds without errors and STATE has no pointer left.
  Over the claim of a stale or vanished predecessor the only verdict it can record is an interruption of unknown cause.
\<close>

theorem attempt_close_refines:
  assumes "attempt_lifecycle env seal d (Close_Attempt rq) agent ck op_id = Planned p"
    and "read_docs lenv segs d" "clean_names agent op_id ck" "quiet_host env d rq" "pinned_docs env d"
  shows "\<exists>rs rs' aid rec ev line fs state.
     (''.saipen/LOG.md'', appended_log (d_log d) line) \<in> set (pl_targets p) \<and> last (pl_targets p) = (''.saipen/STATE.md'', state) \<and>
     proposed_events (Some (d_history d)) (events_in (splitlines (appended_log (d_log d) line))) = sn_events (d_history d) @ [ev] \<and>
     ev_id ev = pl_event p \<and> ev_agent ev = Some agent \<and> state_string (d_fields d) ''attempt'' = Some aid \<and>
     build_attempts (g_prov (ce_gate env)) (sn_events (d_history d)) = (rs, []) \<and>
     build_attempts (g_prov (ce_gate env)) (sn_events (d_history d) @ [ev]) = (rs', []) \<and> closes rs ev aid rq rs' \<and>
     parse_frontmatter state = Inr fs \<and> state_string fs ''attempt'' = None \<and> state_string fs ''task'' = state_string (d_fields d) ''task'' \<and>
     dict_get rs aid = Some rec \<and>
     (is_recovery d rec agent (ck_instant ck) \<longrightarrow> cr_result rq = ''interrupted'' \<and> cr_stop rq = ''unknown'')"
proof -
  let ?prov = "g_prov (ce_gate env)" and ?evs = "sn_events (d_history d)" and ?task = "state_string (d_fields d) ''task''"
  from assms(1) show ?thesis
  proof (rule closed_parts)
    fix rs aid rec n line details state board
    assume rs: "build_attempts ?prov ?evs = (rs, [])" and ptr: "state_string (d_fields d) ''attempt'' = Some aid"
      and rec: "dict_get rs aid = Some rec" "at_close rec = None" and ok: "\<not> close_refused d rec rq agent (ck_instant ck)"
      and produced: "prepare_bounded_event (ce_producer env) (sn_tail (d_history d)) ''DEC'' (close_text aid rq) (at_ticket rec) (Some agent)
        (ck_stamp ck) (Some op_id) None = Inr (n, line, details)"
      and state: "closed_state d n (ck_utc ck) agent = Inr state"
      and gate: "passes_gate env d state board (appended_log (d_log d) line) agent = None"
      and p: "p = \<lparr>pl_operation = ''attempt-close'', pl_agent = agent, pl_op = op_id, pl_ticket = at_ticket rec, pl_event = n,
        pl_targets = details @ [(''.saipen/LOG.md'', appended_log (d_log d) line)] @
          (if board \<noteq> d_board d then [(''.saipen/BOARD.md'', board)] else []) @ [(''.saipen/STATE.md'', state)]\<rparr>"
    note legal = admitted_close [OF ok]
    have pinned: "work_opens rs ?task = [aid]" "at_ticket rec = ?task" "clean_ticket ?task"
      using assms(5) rs ptr rec by (simp_all add: pinned_docs_def pointer_pinned_def)
    have key: "attempt_key aid" using built_named [OF rs] rec(1) by (auto simp: named_records_def list_all_iff dest: map_of_SomeD)
    have ends: "close_text aid rq \<noteq> []" "\<not> is_line_end (last (close_text aid rq))"
      using close_trimmed [OF legal, of aid] by (auto simp: trimmed_def dest: line_end_space)
    have host: "\<And>s. plain_line (pr_digest (ce_producer env) s)" "pr_redact (ce_producer env) (close_text aid rq) = close_text aid rq"
      using assms(4) by (simp_all add: quiet_host_def)
    show ?thesis
    proof (rule produced_event [OF produced assms(3) pinned(3) [folded pinned(2)] host ends])
      fix ev
      assume line: "plain_line line" "parse_log_line line = Some ev" "ev_id ev = n" "n = next_event (sn_tail (d_history d))"
        and which: "details = [] \<and> ev = event_of (sn_tail (d_history d)) ''DEC'' (close_text aid rq) (at_ticket rec) (Some agent)
            (ck_stamp ck) (Some op_id) \<or> details \<noteq> [] \<and> refers ev"
      let ?fs = "update (seat_after n (ck_utc ck) agent) (without_fields [''attempt''] (d_fields d))"
      note fs = closed_fields [OF assms(2) state]
      have pointer: "state_string ?fs ''attempt'' = None" "state_string ?fs ''task'' = ?task"
        by (simp_all add: state_string_def update_get seat_after_def without_get)
      note id = line(3) [unfolded line(4)]
      from passed_register [OF gate assms(2) line(1,2) id fs] obtain rs' where
        rs': "build_attempts ?prov (?evs @ [ev]) = (rs', [])" "pointer_pinned ?fs rs'" by blast
      note step = built_step [OF rs rs'(1)]
      have "\<not> refers ev"
      proof
        assume "refers ev"
        from reference_not_attempt [OF this] step have "rs' = rs" by (simp add: attempt_step_def)
        with rs'(2) pointer pinned(1) show False by (simp add: pointer_pinned_def)
      qed
      with which have none: "details = []" and ev: "ev = event_of (sn_tail (d_history d)) ''DEC'' (close_text aid rq) (at_ticket rec)
          (Some agent) (ck_stamp ck) (Some op_id)" by auto
      have parsed: "parse_attempt_event ?prov ev =
          Inr (Some (Closed aid (cr_result rq) (cr_stop rq) (trimmed_refs (cr_evidence rq)) (trimmed_clause (cr_unknown rq))))"
        by (simp add: parse_attempt_event_def ev event_of_def close_read [OF key legal])
      have "close_problem ev aid (cr_result rq) (cr_stop rq) rs = None"
        using rec legal by (simp add: close_problem_def ev event_of_def legal_close_def)
      with step rec have reg: "rs' = dict_set aid (closed_attempt ev (cr_result rq) (cr_stop rq) (trimmed_refs (cr_evidence rq))
          (trimmed_clause (cr_unknown rq)) rec) rs"
        by (simp add: attempt_step_def parsed)
      have closes: "closes rs ev aid rq rs'" unfolding closes_def using rec legal reg by (auto simp: legal_close_def)
      have recovery: "is_recovery d rec agent (ck_instant ck) \<longrightarrow> cr_result rq = ''interrupted'' \<and> cr_stop rq = ''unknown''"
        using ok legal by (auto simp: close_refused_def legal_close_def STOP_REASONS_def)
      show ?thesis
        using proposed_history [OF assms(2) line(1,2) id] rs rs'(1) fs pointer line(3) none closes recovery ptr rec(1)
        by (intro exI [of _ rs] exI [of _ rs'] exI [of _ aid] exI [of _ rec] exI [of _ ev] exI [of _ line] exI [of _ ?fs] exI [of _ state])
           (simp add: p ev event_of_def)
    qed
  qed
qed

text \<open>The episode opened above, closed by its executor.\<close>

definition busy_log :: "string list" where
  "busy_log = idle_log @ [opened_line]"

definition busy_history :: snapshot where
  "busy_history =
     \<lparr>sn_hash = [], sn_text = unlines busy_log, sn_tail = Some 2,
      sn_events = sn_events idle_history @ [opened_event],
      sn_illegal = [], sn_lines = busy_log, sn_max_ticket = 2\<rparr>"

definition busy_docs :: docs where
  "busy_docs = \<lparr>d_state = unlines opened_state, d_board = unlines idle_board, d_log = unlines busy_log,
     d_fields = busy_fields, d_history = busy_history\<rparr>"

definition finished_request :: close_request where
  "finished_request = \<lparr>cr_result = ''candidate'', cr_stop = ''completed_execution'', cr_evidence = ['' E-2''], cr_unknown = None\<rparr>"

lemma busy_read: "read_docs plain_log_env [] busy_docs"
proof -
  have r: "list_all plain_line opened_state" "list_all plain_line busy_log" "startswith (unlines opened_state) ''---''"
    "parse_frontmatter (unlines opened_state) = Inr busy_fields" "list_all (\<lambda>k. \<not> holds_list busy_fields k) SEAT_KEYS"
    "snapshot_of plain_log_env [(''.saipen/LOG.md'', [], unlines busy_log)] = busy_history"
    by code_simp+
  show ?thesis
    unfolding read_docs_def busy_docs_def docs.simps append_Nil
    by (intro conjI exI [of _ opened_state] exI [of _ busy_log] exI [of _ "[]"] refl r(1,2,3,4,5) r(6) [symmetric])
qed

definition closed_line :: string where
  "closed_line = ''- 02.01.26 03:05 [E-3] [parent: E-2] [T-2] [agent: ada] [op: close-1] DEC: attempt A-001 close result candidate stop completed_execution -- evidence E-2''"

definition idle_again :: "string list" where
  "idle_again =
     [''---'', ''phase: BUILD'', ''transition_from: SCOUT'', ''task: T-2'', ''next_action: PHASE BUILD T-2'',
      ''blocker: none'', ''agent: ada'', ''saipen_version: 8'', ''schema_version: 3'', ''last_event: 3'', ''mode: full'',
      ''updated: '' @ [CHR 34] @ ''2026-01-02T03:05:00Z'' @ [CHR 34], ''---'', ''BOUNDARY'']"

definition again_fields :: state_fields where
  "again_fields = update [(''last_event'', SInt 3), (''updated'', SStr ''2026-01-02T03:05:00Z'')] idle_fields"

definition closed_event :: event where
  "closed_event =
     \<lparr>ev_date = Some ''02.01.26 03:05'', ev_id = 3, ev_parent = Some 2, ev_ticket = Some ''T-2'', ev_agent = Some ''ada'',
      ev_op = Some ''close-1'', ev_taxonomy = ''DEC'', ev_text = close_text ''A-001'' finished_request, ev_detail = None\<rparr>"

definition busy_record :: attempt where
  "busy_record = fresh_attempt (last (sn_events busy_history)) ''A-001'' None (Some some_token)"

lemma busy_guard: "action_refusal (Close_Attempt finished_request) busy_docs ''ada'' (ck_instant work_clock) = None"
  by code_simp

lemma busy_register:
  "build_attempts (g_prov (ce_gate work_env)) (sn_events (d_history busy_docs)) = ([(''A-001'', busy_record)], [])"
  by code_simp

lemma busy_pointer: "pointer_of busy_docs = Some ''A-001''" "at_close busy_record = None" "at_ticket busy_record = Some ''T-2''"
  by code_simp+

lemma busy_verdict: "\<not> close_refused busy_docs busy_record finished_request ''ada'' (ck_instant work_clock)"
  "\<not> is_recovery busy_docs busy_record ''ada'' (ck_instant work_clock)"
  by code_simp+

lemma busy_event:
  "prepare_bounded_event (ce_producer work_env) (sn_tail (d_history busy_docs)) ''DEC'' (close_text ''A-001'' finished_request)
     (Some ''T-2'') (Some ''ada'') (ck_stamp work_clock) (Some ''close-1'') None = Inr (3, closed_line, [])"
  by code_simp

lemma busy_closed: "closed_state busy_docs 3 (ck_utc work_clock) ''ada'' = Inr (unlines idle_again)"
  by code_simp

lemma busy_floor: "raw_floor (unlines idle_again) (d_board busy_docs) (appended_log (d_log busy_docs) closed_line) = []"
  by code_simp

lemma busy_ledger:
  "log_surface_errors (appended_log (d_log busy_docs) closed_line) = []"
  "lw_events (analyze_log (appended_log (d_log busy_docs) closed_line)) = sn_events busy_history @ [closed_event]"
  by code_simp+

lemma busy_gate: "validate_texts (ce_gate work_env) (unlines idle_again) (d_board busy_docs) (appended_log (d_log busy_docs) closed_line) ''ada''
    (Some (d_history busy_docs)) [] = Inr []"
  by (rule gate_clean [of _ _ again_fields _ _ "sn_events busy_history @ [closed_event]" "Some 3"])
     (rule busy_floor busy_ledger | code_simp)+

lemma busy_closes:
  "\<exists>p. attempt_lifecycle work_env work_seal busy_docs (Close_Attempt finished_request) ''ada'' work_clock ''close-1'' = Planned p \<and> pl_event p = 3"
proof -
  have "cr_result finished_request \<noteq> []" "cr_stop finished_request \<noteq> []" by code_simp+
  then show ?thesis
    by (simp add: attempt_lifecycle_def plan_attempt_def plan_close_def commit_close_def Let_def busy_guard busy_register busy_pointer
        busy_verdict busy_event busy_closed passes_gate_def busy_gate)
qed

theorem attempt_close_refines_witness:
  "\<exists>p rs' ev. attempt_lifecycle work_env work_seal busy_docs (Close_Attempt finished_request) ''ada'' work_clock ''close-1'' = Planned p \<and>
     build_attempts (g_prov (ce_gate work_env)) (sn_events (d_history busy_docs) @ [ev]) = (rs', []) \<and>
     closes [(''A-001'', busy_record)] ev ''A-001'' finished_request rs'"
proof -
  obtain p where p: "attempt_lifecycle work_env work_seal busy_docs (Close_Attempt finished_request) ''ada'' work_clock ''close-1'' = Planned p"
    using busy_closes by blast
  have c: "clean_names ''ada'' ''close-1'' work_clock" by code_simp
  have "plain_line (pr_digest (ce_producer work_env) [])" by code_simp
  then have q: "quiet_host work_env busy_docs finished_request" by (simp add: quiet_host_def work_env_def plain_producer_def)
  have s: "clean_ticket (state_string (d_fields busy_docs) ''task'')" "pointer_pinned (d_fields busy_docs) [(''A-001'', busy_record)]"
    "state_string (d_fields busy_docs) ''attempt'' = Some ''A-001''"
  proof -
    show "clean_ticket (state_string (d_fields busy_docs) ''task'')" by code_simp
    have "work_opens [(''A-001'', busy_record)] (state_string (d_fields busy_docs) ''task'') = [''A-001'']"
      "at_ticket busy_record = state_string (d_fields busy_docs) ''task''" by code_simp+
    moreover show a: "state_string (d_fields busy_docs) ''attempt'' = Some ''A-001''" by code_simp
    ultimately show "pointer_pinned (d_fields busy_docs) [(''A-001'', busy_record)]"
      using busy_pointer(2) by (simp add: pointer_pinned_def)
  qed
  then have d: "pinned_docs work_env busy_docs" by (simp add: pinned_docs_def busy_register)
  from attempt_close_refines [OF p busy_read c q d] show ?thesis using p s(3) busy_register by auto
qed

text \<open>A successor may not record the crash its own guard names: the vocabulary of stops has no such word.\<close>

theorem agent_crash_never_recorded: "cr_stop rq = ''agent-crash'' \<Longrightarrow> close_refused d rec rq agent now"
  by (simp add: close_refused_def STOP_REASONS_def)

theorem agent_crash_never_recorded_witness: "close_refused busy_docs busy_record (finished_request\<lparr>cr_stop := ''agent-crash''\<rparr>) ''bob'' 0"
  by (rule agent_crash_never_recorded) simp

end
