(* ===== verification/HandoffLaws.thy ===== *)
theory HandoffLaws
  imports Handoff BoardLaws
begin

text \<open>
  The parser of handoff capsules against a reference that knows no loop: a capsule is a stretch of the document
  between an unfenced header and its terminator that holds nothing but blank lines and grants.
\<close>

section \<open>The reference\<close>

definition fence_step :: "string option \<Rightarrow> string \<Rightarrow> string option" where
  "fence_step fence line =
     (case fence of Some f \<Rightarrow> if fence_of line = Some f then None else fence | None \<Rightarrow> fence_of line)"

definition capsule_line :: "string \<Rightarrow> bool" where
  "capsule_line l \<longleftrightarrow> strip l = [] \<or> grant_item l \<noteq> None"

definition is_capsule :: "string list \<Rightarrow> (string \<times> string) list \<Rightarrow> string list \<Rightarrow> bool" where
  "is_capsule body items ls \<longleftrightarrow>
     (\<exists>stop post. ls = body @ stop # post \<and> list_all capsule_line body \<and> rstrip stop = GRANT_TERMINATOR \<and>
        items = List.map_filter grant_item body)"

definition declares :: "string option \<Rightarrow> string list \<Rightarrow> (string \<times> string) list \<Rightarrow> bool" where
  "declares fence ls items \<longleftrightarrow>
     (\<exists>pre header body post. ls = pre @ header # post \<and> foldl fence_step fence pre = None \<and> fence_of header = None \<and>
        rstrip header = GRANT_HEADER \<and> is_capsule body items post)"

section \<open>Lines of the three kinds\<close>

lemma fixed_line:
  assumes "rstrip l = CHR ''T'' # CHR ''h'' # w \<or> rstrip l = CHR ''o'' # w"
  shows "strip l \<noteq> []" "fence_of l = None" "grant_item l = None"
proof -
  obtain t where l: "l = rstrip l @ t" using rstrip_split by blast
  have ns: "\<not> is_space CHR ''T''" "\<not> is_space CHR ''o''" by (simp_all add: is_space_def Let_def)
  from assms have "(\<exists>u. l = CHR ''T'' # CHR ''h'' # u) \<or> (\<exists>u. l = CHR ''o'' # u)" using l by (metis append_Cons)
  then show "strip l \<noteq> []" "fence_of l = None" "grant_item l = None"
    using ns by (auto simp: strip_Nil fence_of_def span_def blank_char_def grant_item_def ticket_ref_def)
qed

lemma header_line:
  assumes "rstrip l = GRANT_HEADER"
  shows "strip l \<noteq> []" "fence_of l = None" "grant_item l = None"
  using fixed_line [of l] assms by (simp_all add: GRANT_HEADER_def)

lemma stop_line:
  assumes "rstrip l = GRANT_TERMINATOR"
  shows "strip l \<noteq> []" "fence_of l = None" "grant_item l = None" "rstrip l \<noteq> GRANT_HEADER" "\<not> capsule_line l"
  using fixed_line [of l] assms by (simp_all add: GRANT_TERMINATOR_def GRANT_HEADER_def capsule_line_def)

lemma blank_no_fence: "strip l = [] \<Longrightarrow> fence_of l = None"
proof -
  assume "strip l = []"
  then have sp: "list_all is_space (dropWhile blank_char l)" by (auto simp: strip_Nil list_all_iff dest: set_dropWhileD)
  have "\<not> is_space CHR ''`''" "\<not> is_space CHR ''~''" by (simp_all add: is_space_def Let_def)
  moreover obtain w where "dropWhile blank_char l = w" by simp
  ultimately show ?thesis using sp by (cases w) (auto simp: fence_of_def span_def simp del: dropWhile_eq_Nil_conv)
qed

lemma item_no_fence: "grant_item l \<noteq> None \<Longrightarrow> fence_of l = None"
proof -
  assume "grant_item l \<noteq> None"
  then have "startswith (dropWhile blank_char l) ''T-''" by (auto simp: grant_item_def ticket_ref_def split: if_splits)
  moreover obtain w where "dropWhile blank_char l = w" by simp
  ultimately show ?thesis by (cases w) (auto simp: fence_of_def span_def simp del: dropWhile_eq_Nil_conv)
qed

lemma capsule_line_facts: "capsule_line l \<Longrightarrow> fence_of l = None \<and> rstrip l \<noteq> GRANT_HEADER"
  using header_line [of l] blank_no_fence [of l] item_no_fence [of l] by (auto simp: capsule_line_def)

lemma grant_item_blank: "strip l = [] \<Longrightarrow> grant_item l = None"
proof -
  assume "strip l = []"
  then have "list_all is_space (dropWhile blank_char l)" by (auto simp: strip_Nil list_all_iff dest: set_dropWhileD)
  moreover have "\<not> is_space CHR ''T''" by (simp add: is_space_def Let_def)
  moreover obtain w where "dropWhile blank_char l = w" by simp
  ultimately show ?thesis by (cases w) (auto simp: grant_item_def ticket_ref_def simp del: dropWhile_eq_Nil_conv)
qed

section \<open>One step of the scan against the reference\<close>

lemma declares_Nil: "\<not> declares fence [] items"
  by (simp add: declares_def)

lemma declares_skip:
  assumes "\<not> (fence = None \<and> fence_of l = None \<and> rstrip l = GRANT_HEADER)"
  shows "declares fence (l # ls) items \<longleftrightarrow> declares (fence_step fence l) ls items"
proof
  assume "declares fence (l # ls) items"
  then obtain pre header body post where d: "l # ls = pre @ header # post" "foldl fence_step fence pre = None" "fence_of header = None"
    "rstrip header = GRANT_HEADER" "is_capsule body items post" by (auto simp: declares_def)
  show "declares (fence_step fence l) ls items"
  proof (cases pre)
    case Nil
    with d assms show ?thesis by simp
  next
    case (Cons p pre')
    with d show ?thesis unfolding declares_def by (intro exI [of _ pre'] exI [of _ header] exI [of _ body] exI [of _ post]) simp
  qed
next
  assume "declares (fence_step fence l) ls items"
  then obtain pre header body post where d: "ls = pre @ header # post" "foldl fence_step (fence_step fence l) pre = None" "fence_of header = None"
    "rstrip header = GRANT_HEADER" "is_capsule body items post" by (auto simp: declares_def)
  then show "declares fence (l # ls) items"
    unfolding declares_def by (intro exI [of _ "l # pre"] exI [of _ header] exI [of _ body] exI [of _ post]) simp
qed

lemma declares_here:
  assumes "fence_of l = None" "rstrip l = GRANT_HEADER"
  shows "declares None (l # ls) items \<longleftrightarrow> (\<exists>body. is_capsule body items ls) \<or> declares None ls items"
proof
  assume "declares None (l # ls) items"
  then obtain pre header body post where d: "l # ls = pre @ header # post" "foldl fence_step None pre = None" "fence_of header = None"
    "rstrip header = GRANT_HEADER" "is_capsule body items post" by (auto simp: declares_def)
  show "(\<exists>body. is_capsule body items ls) \<or> declares None ls items"
  proof (cases pre)
    case Nil
    with d show ?thesis by auto
  next
    case (Cons p pre')
    with d assms(1) show ?thesis unfolding declares_def
      by (intro disjI2 exI [of _ pre'] exI [of _ header] exI [of _ body] exI [of _ post]) (simp add: fence_step_def)
  qed
next
  assume "(\<exists>body. is_capsule body items ls) \<or> declares None ls items"
  then show "declares None (l # ls) items"
  proof
    assume "\<exists>body. is_capsule body items ls"
    then obtain body where "is_capsule body items ls" ..
    with assms show ?thesis unfolding declares_def
      by (intro exI [of _ "[]"] exI [of _ l] exI [of _ body] exI [of _ ls]) simp
  next
    assume "declares None ls items"
    then obtain pre header body post where d: "ls = pre @ header # post" "foldl fence_step None pre = None" "fence_of header = None"
      "rstrip header = GRANT_HEADER" "is_capsule body items post" by (auto simp: declares_def)
    with assms(1) show ?thesis unfolding declares_def
      by (intro exI [of _ "l # pre"] exI [of _ header] exI [of _ body] exI [of _ post]) (simp add: fence_step_def)
  qed
qed

lemma declares_plain: "fence_of l = None \<Longrightarrow> rstrip l \<noteq> GRANT_HEADER \<Longrightarrow> declares None (l # ls) items \<longleftrightarrow> declares None ls items"
  by (simp add: declares_skip fence_step_def)

section \<open>The inner loop\<close>

abbreviation pairs :: "(string \<times> string \<times> string) list \<Rightarrow> (string \<times> string) list" where
  "pairs items \<equiv> map (\<lambda>(t, a, _). (t, a)) items"

lemma body_rest:
  "capsule_body nls = (items, how, rest) \<Longrightarrow> declares None (map snd nls) its \<longleftrightarrow> declares None (map snd rest) its"
proof (induction nls arbitrary: items rule: capsule_body.induct)
  case (2 n line ls)
  show ?case
  proof (cases "strip line = []")
    case True
    with 2 capsule_line_facts [of line] declares_plain [of line] show ?thesis by (simp add: capsule_line_def)
  next
    case ne: False
    show ?thesis
    proof (cases "rstrip line = GRANT_TERMINATOR")
      case True
      with 2(3) ne stop_line [OF True] declares_plain [of line] show ?thesis by simp
    next
      case no: False
      show ?thesis
      proof (cases "grant_item line")
        case None
        with 2(3) ne no show ?thesis by auto
      next
        case (Some g)
        obtain t a where g: "g = (t, a)" by (cases g)
        obtain items' where b: "capsule_body ls = (items', how, rest)"
          using 2(3) ne no Some g by (auto split: prod.splits)
        have "capsule_line line" using Some by (simp add: capsule_line_def)
        with 2(2) [OF ne no Some g [symmetric] b] capsule_line_facts [of line] declares_plain [of line] show ?thesis by simp
      qed
    qed
  qed
qed simp

lemma is_capsule_Cons:
  assumes "rstrip l \<noteq> GRANT_TERMINATOR"
  shows "(\<exists>body. is_capsule body items (l # ls)) \<longleftrightarrow>
    capsule_line l \<and> (\<exists>body its. is_capsule body its ls \<and> items = (case grant_item l of Some g \<Rightarrow> g # its | None \<Rightarrow> its))"
proof
  assume "\<exists>body. is_capsule body items (l # ls)"
  then obtain body stop post where c: "l # ls = body @ stop # post" "list_all capsule_line body" "rstrip stop = GRANT_TERMINATOR"
    "items = List.map_filter grant_item body" by (auto simp: is_capsule_def)
  with assms obtain body' where "body = l # body'" by (cases body) auto
  with c show "capsule_line l \<and> (\<exists>body its. is_capsule body its ls \<and> items = (case grant_item l of Some g \<Rightarrow> g # its | None \<Rightarrow> its))"
    by (auto simp: is_capsule_def map_filter_simps split: option.split)
next
  assume "capsule_line l \<and> (\<exists>body its. is_capsule body its ls \<and> items = (case grant_item l of Some g \<Rightarrow> g # its | None \<Rightarrow> its))"
  then obtain body its where c: "capsule_line l" "is_capsule body its ls"
    "items = (case grant_item l of Some g \<Rightarrow> g # its | None \<Rightarrow> its)" by blast
  then have "is_capsule (l # body) items (l # ls)"
    by (auto simp: is_capsule_def map_filter_simps split: option.split)
  then show "\<exists>body. is_capsule body items (l # ls)" ..
qed

lemma is_capsule_stop:
  assumes "rstrip l = GRANT_TERMINATOR"
  shows "(\<exists>body. is_capsule body items (l # ls)) \<longleftrightarrow> items = []"
proof -
  have "body = []" if "is_capsule body items (l # ls)" for body
    using that stop_line(5) [OF assms] by (cases body) (auto simp: is_capsule_def)
  then show ?thesis using assms by (fastforce simp: is_capsule_def map_filter_simps)
qed

lemma body_exact:
  "capsule_body nls = (items, how, rest) \<Longrightarrow>
   (\<exists>body. is_capsule body its (map snd nls)) \<longleftrightarrow> how = Closed_End \<and> its = pairs items"
proof (induction nls arbitrary: items its rule: capsule_body.induct)
  case 1
  then show ?case by (auto simp: is_capsule_def)
next
  case (2 n line ls)
  show ?case
  proof (cases "strip line = []")
    case True
    then have b: "capsule_body ls = (items, how, rest)" and t: "rstrip line \<noteq> GRANT_TERMINATOR" and c: "capsule_line line"
      and g: "grant_item line = None"
      using 2(3) stop_line [of line] grant_item_blank by (auto simp: capsule_line_def)
    with 2(1) [OF True b] show ?thesis by (simp add: is_capsule_Cons)
  next
    case ne: False
    show ?thesis
    proof (cases "rstrip line = GRANT_TERMINATOR")
      case True
      with 2(3) ne is_capsule_stop [OF True] show ?thesis by auto
    next
      case no: False
      show ?thesis
      proof (cases "grant_item line")
        case None
        have "\<not> (\<exists>body. is_capsule body its (line # map snd ls))"
          unfolding is_capsule_Cons [OF no] using ne None by (simp add: capsule_line_def)
        with 2(3) ne no None show ?thesis by auto
      next
        case (Some g)
        obtain t a where g: "g = (t, a)" by (cases g)
        obtain items' where b: "capsule_body ls = (items', how, rest)" "items = (t, a, strip line) # items'"
          using 2(3) ne no Some g by (auto split: prod.splits)
        from 2(2) [OF ne no Some g [symmetric] b(1)] Some b(2) g show ?thesis
          by (auto simp: is_capsule_Cons [OF no] capsule_line_def)
      qed
    qed
  qed
qed

section \<open>The scan\<close>

lemma scan_exact:
  "(\<exists>c \<in> set (scan_capsules fence nls). valid_capsule c \<and> its = pairs (fst (snd c))) \<longleftrightarrow> its \<noteq> [] \<and> declares fence (map snd nls) its"
proof (induction fence nls rule: scan_capsules.induct)
  case (1 fence)
  then show ?case by (simp add: declares_Nil)
next
  case (2 fence n line ls)
  show ?case
  proof (cases fence)
    case (Some f)
    have "(if fence_of line = Some f then None else fence) = fence_step fence line" by (simp add: fence_step_def Some)
    with 2(4) [OF Some] declares_skip [of fence line "map snd ls" its] show ?thesis by (simp add: Some fence_step_def split: if_splits)
  next
    case None
    show ?thesis
    proof (cases "fence_of line")
      case (Some f)
      with 2(3) [OF None Some] declares_skip [of fence line "map snd ls" its] None show ?thesis by (simp add: fence_step_def)
    next
      case nf: None
      show ?thesis
      proof (cases "rstrip line = GRANT_HEADER")
        case False
        with 2(1) [OF None nf] declares_plain [of line "map snd ls" its] None nf show ?thesis by simp
      next
        case True
        obtain items how rest where b: "capsule_body ls = (items, how, rest)" by (metis prod_cases3)
        have v: "valid_capsule (n, items, how) \<and> its = pairs items \<longleftrightarrow> its \<noteq> [] \<and> (\<exists>body. is_capsule body its (map snd ls))"
          unfolding body_exact [OF b] by (auto simp: valid_capsule_def)
        have ih: "(\<exists>c \<in> set (scan_capsules None rest). valid_capsule c \<and> its = pairs (fst (snd c))) \<longleftrightarrow>
            its \<noteq> [] \<and> declares None (map snd ls) its"
          using 2(2) [OF None nf _ b [symmetric] refl] True body_rest [OF b, of its] by simp
        have "scan_capsules fence ((n, line) # ls) = (n, items, how) # scan_capsules None rest"
          by (simp add: None nf True b)
        then show ?thesis using v ih declares_here [OF nf True, of "map snd ls" its] None by auto
      qed
    qed
  qed
qed

text \<open>Every grant written in some capsule of the document.\<close>

definition granted_in :: "string \<Rightarrow> string \<Rightarrow> string \<Rightarrow> bool" where
  "granted_in doc tid agent \<longleftrightarrow> (\<exists>items. declares None (splitlines doc) items \<and> (tid, agent) \<in> set items)"

section \<open>The loop over the items\<close>

lemma add_grants:
  assumes "\<And>t. t \<in> set conf \<Longrightarrow> dict_get gr t \<noteq> None"
    and "foldl add_grant (gr, sh, conf) items = (grants, shown, conflicted)"
  shows "dict_get grants t = (case dict_get gr t of Some a \<Rightarrow> Some a | None \<Rightarrow> map_option fst (dict_get items t)) \<and>
    (t \<in> set conflicted \<longleftrightarrow> t \<in> set conf \<or>
      (\<exists>a. dict_get grants t = Some a \<and> (\<exists>a' raw. (t, a', raw) \<in> set items \<and> a' \<noteq> a)))"
  using assms
proof (induction items arbitrary: gr sh conf)
  case Nil
  then show ?case by (auto split: option.split)
next
  case (Cons i items)
  obtain tid agent raw where i: "i = (tid, agent, raw)" by (cases i)
  let ?gr = "dict_setdefault tid agent gr"
  let ?conf = "if dict_get gr tid \<noteq> None \<and> dict_get gr tid \<noteq> Some agent then tid # conf else conf"
  have step: "foldl add_grant (?gr, dict_setdefault tid raw sh, ?conf) items = (grants, shown, conflicted)"
    using Cons.prems(2) unfolding foldl_Cons i add_grant_def prod.case .
  have dom: "t \<in> set ?conf \<Longrightarrow> dict_get ?gr t \<noteq> None" for t using Cons.prems(1) by (auto split: option.splits if_splits)
  note ih = Cons.IH [OF dom step]
  show ?case
  proof (cases "t = tid")
    case True
    with ih show ?thesis by (cases "dict_get gr tid") (auto simp: i split: if_splits)
  next
    case False
    with ih show ?thesis by (auto simp: i split: option.splits if_splits)
  qed
qed

lemma pops_get: "dict_get (foldl (\<lambda>d t. dict_pop t d) d ts) t = (if t \<in> set ts then None else dict_get d t)"
  by (induction ts arbitrary: d) auto

lemma grants_exact:
  "dict_get (hg_grants (handoff_grants doc)) tid = Some agent \<longleftrightarrow>
     granted_in doc tid agent \<and> (\<forall>other. granted_in doc tid other \<longrightarrow> other = agent)"
proof -
  let ?caps = "filter valid_capsule (scan_capsules None (numbered (splitlines doc)))"
  define items where "items = concat (map (\<lambda>(_, its, _). its) ?caps)"
  obtain grants shown conflicted where f: "foldl add_grant ([], [], []) items = (grants, shown, conflicted)"
    by (metis prod_cases3)
  have m: "granted_in doc tid a \<longleftrightarrow> (\<exists>raw. (tid, a, raw) \<in> set items)" for a
  proof -
    have "granted_in doc tid a \<longleftrightarrow> (\<exists>its. (tid, a) \<in> set its \<and> its \<noteq> [] \<and> declares None (map snd (numbered (splitlines doc))) its)"
      by (auto simp: granted_in_def)
    also have "\<dots> \<longleftrightarrow> (\<exists>c \<in> set ?caps. (tid, a) \<in> set (pairs (fst (snd c))))"
    proof -
      have "(tid, a) \<in> set its \<and> its \<noteq> [] \<and> declares None (map snd (numbered (splitlines doc))) its \<longleftrightarrow>
          (\<exists>c \<in> set ?caps. its = pairs (fst (snd c)) \<and> (tid, a) \<in> set its)" for its
        using scan_exact [of None "numbered (splitlines doc)" its] unfolding set_filter by blast
      then show ?thesis by (simp only:) blast
    qed
    also have "\<dots> \<longleftrightarrow> (\<exists>raw. (tid, a, raw) \<in> set items)" unfolding items_def by force
    finally show ?thesis .
  qed
  note g = add_grants [OF _ f, of tid]
  have get: "dict_get (hg_grants (handoff_grants doc)) tid = (if tid \<in> set conflicted then None else dict_get grants tid)"
    by (simp add: handoff_grants_def Let_def f [unfolded items_def] pops_get)
  have first: "granted_in doc tid a" if "dict_get grants tid = Some a" for a
  proof -
    from that g have "map_option fst (dict_get items tid) = Some a" by simp
    then obtain v where "dict_get items tid = Some v" "fst v = a" by (auto simp: map_option_eq_Some)
    then have "(tid, a, snd v) \<in> set items" by (auto dest: map_of_SomeD)
    then show ?thesis unfolding m by blast
  qed
  have some: "\<exists>b. dict_get grants tid = Some b" if "granted_in doc tid a" for a
  proof -
    from that obtain raw where "(tid, a, raw) \<in> set items" unfolding m ..
    then obtain v where "dict_get items tid = Some v" by (metis weak_map_of_SomeI)
    with g show ?thesis by simp
  qed
  have conf: "tid \<in> set conflicted \<longleftrightarrow> (\<exists>a b. dict_get grants tid = Some a \<and> granted_in doc tid b \<and> b \<noteq> a)"
    using g unfolding m by auto
  show ?thesis
  proof (cases "dict_get grants tid")
    case None
    with some show ?thesis unfolding get by auto
  next
    case (Some a)
    have c: "tid \<in> set conflicted \<longleftrightarrow> (\<exists>b. granted_in doc tid b \<and> b \<noteq> a)" using conf by (simp add: Some)
    show ?thesis
    proof (cases "tid \<in> set conflicted")
      case True
      then obtain b where "granted_in doc tid b" "b \<noteq> a" using c by blast
      then have "\<not> (granted_in doc tid agent \<and> (\<forall>other. granted_in doc tid other \<longrightarrow> other = agent))"
        using first [OF Some] by metis
      moreover have "dict_get (hg_grants (handoff_grants doc)) tid \<noteq> Some agent" using True by (simp add: get)
      ultimately show ?thesis by blast
    next
      case False
      then have "granted_in doc tid b \<Longrightarrow> b = a" for b using c by metis
      with first [OF Some] have "granted_in doc tid agent \<and> (\<forall>other. granted_in doc tid other \<longrightarrow> other = agent) \<longleftrightarrow> agent = a"
        by metis
      with False show ?thesis unfolding get Some by auto
    qed
  qed
qed

text \<open>
  C16: the parser of handoff capsules grants a ticket to an agent exactly when some capsule of the document says so
  and no capsule gives the ticket to another agent, a capsule being a stretch between an unfenced header line and
  its terminator that holds only blank lines and grants.
\<close>

theorem handoff_grants_exact:
  "dict_get (hg_grants (handoff_grants doc)) tid = Some agent \<longleftrightarrow>
     granted_in doc tid agent \<and> (\<forall>other. granted_in doc tid other \<longrightarrow> other = agent)"
  by (rule grants_exact)

definition grant_lines :: "string list" where
  "grant_lines =
     [''please do this:'', GRANT_HEADER, ''T-7 -> bob'', GRANT_TERMINATOR, ''```'', GRANT_HEADER, ''T-8 -> eve'', GRANT_TERMINATOR, ''```'']"

theorem handoff_grants_exact_witness:
  "granted_in (unlines grant_lines) ''T-7'' ''bob'' \<and> \<not> granted_in (unlines grant_lines) ''T-7'' ''eve''"
proof -
  have "dict_get (hg_grants (handoff_grants (unlines grant_lines))) ''T-7'' = Some ''bob''" by code_simp
  then have "granted_in (unlines grant_lines) ''T-7'' ''bob'' \<and>
      (\<forall>other. granted_in (unlines grant_lines) ''T-7'' other \<longrightarrow> other = ''bob'')"
    using handoff_grants_exact [of "unlines grant_lines" "''T-7''" "''bob''"] by blast
  moreover have "''eve'' \<noteq> ''bob''" by simp
  ultimately show ?thesis by blast
qed

end
