(* ===== verification/HandoverLaws.thy ===== *)
theory HandoverLaws
  imports Handover LifecycleLaws BoardWriters HandoffLaws
begin

text \<open>
  What moving the execution seat guarantees: a planned handover takes no live foreign claim unless ordered to, binds
  claim and seat to the new agent in one sealed checkpoint, and a handoff is admitted exactly for the declared owner
  or under a receipt that grants this ticket to this agent.
\<close>

section \<open>The handover\<close>

text \<open>Which claims may move: one's own, a vacant or a lapsed one; a live foreign one only when it is ordered.\<close>

definition may_take :: "docs \<Rightarrow> string \<Rightarrow> bool \<Rightarrow> clock \<Rightarrow> bool" where
  "may_take d new_agent explicit ck \<longleftrightarrow>
     (let s = st_status (classify_active_ownership (\<lambda>_. False) (d_fields d) (w_tickets (parse_board (d_board d))) new_agent (ck_instant ck)) in
      s \<in> {Claimed_As SELF, Claimed_As UNCLAIMED, Claimed_As FOREIGN_STALE} \<or> s = Claimed_As FOREIGN_LIVE \<and> explicit)"

definition transfer_changes :: "ticket \<Rightarrow> string option \<Rightarrow> string \<Rightarrow> string \<Rightarrow> change list" where
  "transfer_changes t session_binding agent utc =
     (case session_binding of
        Some b \<Rightarrow> if b = [] then Clear ''claim_session'' else Assign ''claim_session'' b
      | None \<Rightarrow> Clear ''claim_session'') #
     (if session_binding \<noteq> dict_get (tk_fields t) ''claim_session'' then map Clear CLAIM_WITNESSES else []) @
     [Assign ''owner'' agent, Assign ''claim_time'' utc]"

lemma transfer_edits:
  assumes "claim_values agent utc session_binding []" "dict_get (w_tickets (parse_board doc)) tid = Some t" "tk_section t = ''## DOING''"
  shows "claim_fields_in_place doc tid [(''owner'', agent), (''claim_time'', utc)] cap session_binding None =
    edit_in_place doc t cap (map edit_of (transfer_changes t session_binding agent utc))"
proof -
  have s: "session_edit session_binding = edit_of (case session_binding of
      Some b \<Rightarrow> if b = [] then Clear ''claim_session'' else Assign ''claim_session'' b | None \<Rightarrow> Clear ''claim_session'')"
    using assms(1) by (intro session_change) (simp add: claim_values_def)
  show ?thesis using assms
    by (simp add: claim_fields_in_place_def s transfer_changes_def witness_edits_def set_edits_def claim_values_def escape_word comp_def)
qed

lemma transfer_ok:
  assumes "claim_values agent utc session_binding []"
  shows "list_all change_ok (transfer_changes t session_binding agent utc)"
  using assms claim_fields_known
  by (auto simp: transfer_changes_def claim_values_def word_def list_all_iff split: option.splits)

lemma handed_parts:
  assumes "handover_agent env d new_agent explicit reason session_binding ck op_id = Planned p"
  obtains board moved n line details state where
    "state_string (d_fields d) ''agent'' \<noteq> Some new_agent"
    "transfer_claim d new_agent explicit session_binding ck = Inr (board, moved)"
    "prepare_bounded_event (ce_producer env) (sn_tail (d_history d)) ''DEC''
       (handover_message (state_string (d_fields d) ''agent'') new_agent moved reason)
       moved (Some new_agent) (ck_stamp ck) (Some op_id) None = Inr (n, line, details)"
    "patch_state (d_state d) (seat_fields new_agent n (ck_utc ck)) = Inr state"
    "passes_gate env d state board (appended_log (d_log d) line) new_agent = None"
    "p = \<lparr>pl_operation = ''handover'', pl_agent = new_agent, pl_op = op_id, pl_ticket = moved, pl_event = n,
       pl_targets = details @ [(''.saipen/LOG.md'', appended_log (d_log d) line), (''.saipen/STATE.md'', state)] @
         (case moved of Some _ \<Rightarrow> [(''.saipen/BOARD.md'', board)] | None \<Rightarrow> [])\<rparr>"
proof -
  have n: "transfer_claim d new_agent explicit session_binding ck \<noteq> Inl (Planned p)"
    by (auto simp: transfer_claim_def Let_def split: option.splits sum.splits if_splits)
  from assms n obtain board moved where m: "state_string (d_fields d) ''agent'' \<noteq> Some new_agent"
    "transfer_claim d new_agent explicit session_binding ck = Inr (board, moved)"
    by (auto simp: handover_agent_def split: if_splits sum.splits)
  from assms obtain n line details where e: "prepare_bounded_event (ce_producer env) (sn_tail (d_history d)) ''DEC''
       (handover_message (state_string (d_fields d) ''agent'') new_agent moved reason)
       moved (Some new_agent) (ck_stamp ck) (Some op_id) None = Inr (n, line, details)"
    unfolding handover_agent_def m by (auto simp: m(1) split: sum.splits)
  from assms obtain state where s: "patch_state (d_state d) (seat_fields new_agent n (ck_utc ck)) = Inr state"
    by (auto simp: handover_agent_def m e Let_def split: sum.splits)
  from assms have "passes_gate env d state board (appended_log (d_log d) line) new_agent = None"
    "p = \<lparr>pl_operation = ''handover'', pl_agent = new_agent, pl_op = op_id, pl_ticket = moved, pl_event = n,
       pl_targets = details @ [(''.saipen/LOG.md'', appended_log (d_log d) line), (''.saipen/STATE.md'', state)] @
         (case moved of Some _ \<Rightarrow> [(''.saipen/BOARD.md'', board)] | None \<Rightarrow> [])\<rparr>"
    by (auto simp: handover_agent_def m e s Let_def split: option.splits)
  from that [OF m e s this] show thesis .
qed

text \<open>What the claim of a ticket looks like once the seat has taken it: the same record, claimed by the agent at the instant.\<close>

definition claimed_by :: "string \<Rightarrow> string \<Rightarrow> card \<Rightarrow> card \<Rightarrow> bool" where
  "claimed_by agent utc old new \<longleftrightarrow>
     c_section new = c_section old \<and> c_box new = c_box old \<and> c_description new = c_description old \<and>
     dict_get (c_fields new) ''owner'' = Some agent \<and> dict_get (c_fields new) ''claim_time'' = Some utc \<and>
     (\<forall>f. f \<notin> set (''owner'' # ''claim_time'' # ''claim_session'' # CLAIM_WITNESSES) \<longrightarrow>
        dict_get (c_fields new) f = dict_get (c_fields old) f)"

lemma transfer_claimed: "claimed_by agent utc c (changed (transfer_changes t session_binding agent utc) c)"
  by (auto simp: claimed_by_def changed_def transfer_changes_def CLAIM_WITNESSES_def split: option.split)

lemma moved_claim:
  assumes "transfer_claim d new_agent explicit session_binding ck = Inr (board, moved)"
    and "canonical (d_board d)" "w_errors (parse_board (d_board d)) = []" "claim_values new_agent (ck_utc ck) session_binding []"
    and "\<And>tid t. moved = Some tid \<Longrightarrow> dict_get (w_tickets (parse_board (d_board d))) tid = Some t \<Longrightarrow> tidy (tk_raw t)"
  shows "moved = active_subject (d_fields d) (w_tickets (parse_board (d_board d)))"
    "case moved of
       None \<Rightarrow> board = d_board d
     | Some tid \<Rightarrow> may_take d new_agent explicit ck \<and>
         (\<exists>old new. board_view (d_board d) tid = Some old \<and> c_section old = ''## DOING'' \<and>
            board_view board = (board_view (d_board d))(tid \<mapsto> new) \<and> claimed_by new_agent (ck_utc ck) old new)"
proof -
  let ?ts = "w_tickets (parse_board (d_board d))"
  show m: "moved = active_subject (d_fields d) ?ts"
    using assms(1) by (auto simp: transfer_claim_def Let_def split: option.splits sum.splits if_splits)
  show "case moved of
       None \<Rightarrow> board = d_board d
     | Some tid \<Rightarrow> may_take d new_agent explicit ck \<and>
         (\<exists>old new. board_view (d_board d) tid = Some old \<and> c_section old = ''## DOING'' \<and>
            board_view board = (board_view (d_board d))(tid \<mapsto> new) \<and> claimed_by new_agent (ck_utc ck) old new)"
  proof (cases moved)
    case None
    with m assms(1) show ?thesis by (simp add: transfer_claim_def)
  next
    case (Some tid)
    with m obtain t where t: "dict_get ?ts tid = Some t" "tk_section t = ''## DOING''"
      by (auto simp: active_subject_def split: option.splits if_splits)
    have a: "active_subject (d_fields d) ?ts = Some tid" using m Some by simp
    have take: "may_take d new_agent explicit ck"
      using assms(1) by (auto simp: transfer_claim_def a may_take_def Let_def split: sum.splits if_splits)
    have e: "claim_fields_in_place (d_board d) tid [(''owner'', new_agent), (''claim_time'', ck_utc ck)] True session_binding None = Inr board"
      using assms(1) by (auto simp: transfer_claim_def a Let_def split: sum.splits if_splits)
    note edit = e [unfolded transfer_edits [OF assms(4) t]]
    from edit_in_place_refines(3) [OF assms(2,3) t(1) assms(5) [OF Some t(1)] transfer_ok [OF assms(4)] edit]
    have "board_view board = (board_view (d_board d))(tid \<mapsto> changed (transfer_changes t session_binding new_agent (ck_utc ck)) (ticket_card t))" .
    moreover have "board_view (d_board d) tid = Some (ticket_card t)" "c_section (ticket_card t) = ''## DOING''"
      using t by (simp_all add: board_view_def ticket_card_def)
    ultimately show ?thesis using take Some transfer_claimed by auto
  qed
qed

lemma seated_fields:
  assumes "read_docs lenv segs d" "patch_state (d_state d) (seat_fields agent n utc) = Inr state"
  shows "parse_frontmatter state = Inr (update [(''agent'', SStr agent), (''last_event'', SInt (int n)), (''updated'', SStr utc)] (d_fields d))"
proof -
  let ?owned = "[(''agent'', SStr agent), (''last_event'', SInt (int n)), (''updated'', SStr utc)]"
  have o: "seat_fields agent n utc = as_values ?owned" by (simp add: seat_fields_def as_values_def)
  from assms(1) obtain ls where ls: "d_state d = unlines ls" "list_all plain_line ls" "startswith (unlines ls) ''---''"
    "parse_frontmatter (unlines ls) = Inr (d_fields d)" "list_all (\<lambda>k. \<not> holds_list (d_fields d) k) SEAT_KEYS"
    unfolding read_docs_def by metis
  show ?thesis
    by (rule patched_fields [OF ls(2-4) assms(2) [unfolded ls(1) o] _ _ _ ls(5)]) (simp_all add: SEAT_KEYS_def)
qed

text \<open>The board a handover starts from: canonical lines, no error, and an active record the editor can read.\<close>

definition editable_board :: "docs \<Rightarrow> bool" where
  "editable_board d \<longleftrightarrow> canonical (d_board d) \<and> w_errors (parse_board (d_board d)) = [] \<and>
     (case active_subject (d_fields d) (w_tickets (parse_board (d_board d))) of
        None \<Rightarrow> True
      | Some tid \<Rightarrow> (case dict_get (w_tickets (parse_board (d_board d))) tid of Some t \<Rightarrow> tidy (tk_raw t) | None \<Rightarrow> True))"

text \<open>STATE as a handover leaves it: another agent, the number of the new event, this instant, and nothing else.\<close>

definition reseated :: "state_fields \<Rightarrow> string \<Rightarrow> nat \<Rightarrow> string \<Rightarrow> state_fields" where
  "reseated fs agent n utc = update [(''agent'', SStr agent), (''last_event'', SInt (int n)), (''updated'', SStr utc)] fs"

text \<open>The bytes of a planned handover.\<close>

lemma handover_bytes:
  assumes "handover_agent env d new_agent explicit reason session_binding ck op_id = Planned p"
    and "read_docs lenv segs d" "editable_board d" "claim_values new_agent (ck_utc ck) session_binding []"
  obtains line details state board where
    "state_string (d_fields d) ''agent'' \<noteq> Some new_agent"
    "pl_ticket p = active_subject (d_fields d) (w_tickets (parse_board (d_board d)))"
    "prepare_bounded_event (ce_producer env) (sn_tail (d_history d)) ''DEC''
       (handover_message (state_string (d_fields d) ''agent'') new_agent (pl_ticket p) reason)
       (pl_ticket p) (Some new_agent) (ck_stamp ck) (Some op_id) None = Inr (pl_event p, line, details)"
    "pl_targets p = details @ [(''.saipen/LOG.md'', appended_log (d_log d) line), (''.saipen/STATE.md'', state)] @
       (case pl_ticket p of Some _ \<Rightarrow> [(''.saipen/BOARD.md'', board)] | None \<Rightarrow> [])"
    "parse_frontmatter state = Inr (reseated (d_fields d) new_agent (pl_event p) (ck_utc ck))"
    "sealed_checkpoint (ce_gate env) (reseated (d_fields d) new_agent (pl_event p) (ck_utc ck)) board
       (appended_log (d_log d) line) new_agent (Some (d_history d)) []"
    "case pl_ticket p of
       None \<Rightarrow> board = d_board d
     | Some tid \<Rightarrow> may_take d new_agent explicit ck \<and>
         (\<exists>old new. board_view (d_board d) tid = Some old \<and> c_section old = ''## DOING'' \<and>
            board_view board = (board_view (d_board d))(tid \<mapsto> new) \<and> claimed_by new_agent (ck_utc ck) old new)"
  using assms(1)
proof (rule handed_parts)
  fix board moved n line details state
  assume old: "state_string (d_fields d) ''agent'' \<noteq> Some new_agent"
    and moved: "transfer_claim d new_agent explicit session_binding ck = Inr (board, moved)"
    and event: "prepare_bounded_event (ce_producer env) (sn_tail (d_history d)) ''DEC''
       (handover_message (state_string (d_fields d) ''agent'') new_agent moved reason)
       moved (Some new_agent) (ck_stamp ck) (Some op_id) None = Inr (n, line, details)"
    and patched: "patch_state (d_state d) (seat_fields new_agent n (ck_utc ck)) = Inr state"
    and gate: "passes_gate env d state board (appended_log (d_log d) line) new_agent = None"
    and p: "p = \<lparr>pl_operation = ''handover'', pl_agent = new_agent, pl_op = op_id, pl_ticket = moved, pl_event = n,
       pl_targets = details @ [(''.saipen/LOG.md'', appended_log (d_log d) line), (''.saipen/STATE.md'', state)] @
         (case moved of Some _ \<Rightarrow> [(''.saipen/BOARD.md'', board)] | None \<Rightarrow> [])\<rparr>"
  have fs: "parse_frontmatter state = Inr (reseated (d_fields d) new_agent n (ck_utc ck))"
    unfolding reseated_def by (rule seated_fields [OF assms(2) patched])
  have ed: "canonical (d_board d)" "w_errors (parse_board (d_board d)) = []" using assms(3) by (simp_all add: editable_board_def)
  have m: "moved = active_subject (d_fields d) (w_tickets (parse_board (d_board d)))"
    using moved by (auto simp: transfer_claim_def Let_def split: option.splits sum.splits if_splits)
  have "tidy (tk_raw t)" if "moved = Some tid" "dict_get (w_tickets (parse_board (d_board d))) tid = Some t" for tid t
    using assms(3) that m by (simp add: editable_board_def)
  note claim = moved_claim [OF moved ed assms(4) this]
  from gate_sealed [OF passed_gate [OF gate] parsed_not_blank [OF fs]] obtain gs where
    g: "parse_state_or_error (g_install (ce_gate env)) state = Inr (Inr gs)"
    "sealed_checkpoint (ce_gate env) gs board (appended_log (d_log d) line) new_agent (Some (d_history d)) []" by blast
  have "gs = reseated (d_fields d) new_agent n (ck_utc ck)" using g(1) parsed_not_blank [OF fs] fs
    by (auto simp: parse_state_or_error_def checked_def split: sum.splits list.splits)
  with old m event fs g(2) claim(2) p that show thesis by simp
qed

text \<open>A host whose digests are one line.\<close>

definition plain_host :: "command_env \<Rightarrow> bool" where
  "plain_host env \<longleftrightarrow> (\<forall>s. plain_line (pr_digest (ce_producer env) s))"

text \<open>
  C14: a planned handover moves the seat and the claim together or not at all, and these are its bytes.  The LOG it
  writes is the captured history with one decision of the new agent on the active ticket, in its own words or as a
  reference to a detail file; the STATE it writes is the old one with the new agent, the number of that event and this
  instant; the BOARD is written exactly when there is an active ticket, whose record then changes owner and claim time (and
  no field that is no part of a claim) and is the only one that changes.  The three documents form a sealed checkpoint for
  the new agent, and a claim another agent holds live moves only when the caller orders it explicitly.
\<close>

theorem handover_moves_seat:
  assumes "handover_agent env d new_agent explicit reason session_binding ck op_id = Planned p"
    and "read_docs lenv segs d" "editable_board d" "claim_values new_agent (ck_utc ck) session_binding []"
    and "clean_names new_agent op_id ck" "plain_host env"
    and "loggable (ce_producer env) (handover_message (state_string (d_fields d) ''agent'') new_agent (pl_ticket p) reason)"
  shows "\<exists>line details state board ev.
     pl_targets p = details @ [(''.saipen/LOG.md'', appended_log (d_log d) line), (''.saipen/STATE.md'', state)] @
       (case pl_ticket p of Some _ \<Rightarrow> [(''.saipen/BOARD.md'', board)] | None \<Rightarrow> []) \<and>
     proposed_events (Some (d_history d)) (events_in (splitlines (appended_log (d_log d) line))) = sn_events (d_history d) @ [ev] \<and>
     ev_id ev = pl_event p \<and> ev_taxonomy ev = ''DEC'' \<and> ev_ticket ev = pl_ticket p \<and> ev_agent ev = Some new_agent \<and>
     ev_op ev = Some op_id \<and>
     (if details = []
      then ev_text ev = pr_redact (ce_producer env) (handover_message (state_string (d_fields d) ''agent'') new_agent (pl_ticket p) reason)
      else ev_text ev = ''detail_ref: '' @ fst (last details)) \<and>
     state_string (d_fields d) ''agent'' \<noteq> Some new_agent \<and>
     parse_frontmatter state = Inr (reseated (d_fields d) new_agent (pl_event p) (ck_utc ck)) \<and>
     sealed_checkpoint (ce_gate env) (reseated (d_fields d) new_agent (pl_event p) (ck_utc ck)) board
       (appended_log (d_log d) line) new_agent (Some (d_history d)) [] \<and>
     pl_ticket p = active_subject (d_fields d) (w_tickets (parse_board (d_board d))) \<and>
     (case pl_ticket p of
        None \<Rightarrow> board = d_board d
      | Some tid \<Rightarrow> may_take d new_agent explicit ck \<and>
          (\<exists>old new. board_view (d_board d) tid = Some old \<and> c_section old = ''## DOING'' \<and>
             board_view board = (board_view (d_board d))(tid \<mapsto> new) \<and> claimed_by new_agent (ck_utc ck) old new))"
  using assms(1-4)
proof (rule handover_bytes)
  fix line details state board
  let ?msg = "handover_message (state_string (d_fields d) ''agent'') new_agent (pl_ticket p) reason"
  let ?fs = "reseated (d_fields d) new_agent (pl_event p) (ck_utc ck)"
  assume event: "prepare_bounded_event (ce_producer env) (sn_tail (d_history d)) ''DEC'' ?msg
       (pl_ticket p) (Some new_agent) (ck_stamp ck) (Some op_id) None = Inr (pl_event p, line, details)"
    and subject: "pl_ticket p = active_subject (d_fields d) (w_tickets (parse_board (d_board d)))"
    and rest: "state_string (d_fields d) ''agent'' \<noteq> Some new_agent"
      "pl_targets p = details @ [(''.saipen/LOG.md'', appended_log (d_log d) line), (''.saipen/STATE.md'', state)] @
       (case pl_ticket p of Some _ \<Rightarrow> [(''.saipen/BOARD.md'', board)] | None \<Rightarrow> [])"
      "parse_frontmatter state = Inr ?fs"
      "sealed_checkpoint (ce_gate env) ?fs board (appended_log (d_log d) line) new_agent (Some (d_history d)) []"
      "case pl_ticket p of
       None \<Rightarrow> board = d_board d
     | Some tid \<Rightarrow> may_take d new_agent explicit ck \<and>
         (\<exists>old new. board_view (d_board d) tid = Some old \<and> c_section old = ''## DOING'' \<and>
            board_view board = (board_view (d_board d))(tid \<mapsto> new) \<and> claimed_by new_agent (ck_utc ck) old new)"
  have ticket: "clean_ticket (pl_ticket p)"
  proof (cases "pl_ticket p")
    case (Some tid)
    with subject obtain t where "dict_get (w_tickets (parse_board (d_board d))) tid = Some t"
      by (auto simp: active_subject_def split: option.splits if_splits)
    with clean_board_names assms(3) have "ticket_name tid" by (auto simp: editable_board_def)
    then show ?thesis using clean_name Some by simp
  qed (simp add: clean_ticket_def)
  have host: "\<And>s. plain_line (pr_digest (ce_producer env) s)" using assms(6) by (simp add: plain_host_def)
  have names: "clean_option (Some new_agent)" "clean_option (Some op_id)" "shaped date_shape (ck_stamp ck)" "plain_structure None"
    using assms(5) by (simp_all add: clean_names_def clean_option_def plain_structure_def)
  from produced_exact [OF event names(1,2) ticket names(3) host names(4) assms(7)] obtain ev where
    ev: "plain_line line" "parse_log_line line = Some ev" "ev_id ev = pl_event p" "pl_event p = next_event (sn_tail (d_history d))"
      "ev_taxonomy ev = ''DEC''" "ev_ticket ev = pl_ticket p" "ev_agent ev = Some new_agent" "ev_op ev = Some op_id"
      "if details = [] then ev_text ev = pr_redact (ce_producer env) ?msg else ev_text ev = ''detail_ref: '' @ fst (last details)"
    by (force simp: event_of_def compact_message_def split: if_splits)
  have "proposed_events (Some (d_history d)) (events_in (splitlines (appended_log (d_log d) line))) = sn_events (d_history d) @ [ev]"
    by (rule proposed_history [OF assms(2) ev(1,2)]) (simp add: ev(3,4))
  with ev rest subject show ?thesis
    by - (rule exI [of _ line], rule exI [of _ details], rule exI [of _ state], rule exI [of _ board], rule exI [of _ ev], simp)
qed

section \<open>The handoff\<close>

text \<open>Operator authority: an intact, active receipt of a source kind whose text grants the ticket to this agent and no other.\<close>

definition holds_grant :: "intake_store \<Rightarrow> string \<Rightarrow> string \<Rightarrow> string \<Rightarrow> bool" where
  "holds_grant st receipt tid agent \<longleftrightarrow>
     valid_receipt_id receipt \<and> in_operator st receipt \<and> in_intact st receipt \<and>
     (\<exists>kind body. in_meta st receipt = Some (''ACTIVE'', kind) \<and> kind \<in> set AUTHORITY_SOURCE_KINDS \<and> in_body st receipt = Some body \<and>
        granted_in body tid agent \<and> (\<forall>other. granted_in body tid other \<longrightarrow> other = agent))"

lemma authority_exact: "handoff_authority_error st receipt tid agent = None \<longleftrightarrow> holds_grant st receipt tid agent"
  by (auto simp: handoff_authority_error_def holds_grant_def grants_exact split: option.splits if_splits)

lemma decided:
  assumes "handoff_decision st d actor source ticket_id to_agent authority = Inr reason"
  shows "ticket_name (upper (strip ticket_id)) \<and> seat_id (strip to_agent) \<and>
    state_string (d_fields d) ''task'' = Some (upper (strip ticket_id)) \<and>
    (\<exists>t. dict_get (w_tickets (parse_board (d_board d))) (upper (strip ticket_id)) = Some t \<and> tk_section t = ''## DOING'' \<and>
       field_text t ''owner'' \<noteq> strip to_agent \<and>
       (if authority = None \<or> authority = Some [] then field_text t ''owner'' = actor \<and> actor \<noteq> [] \<and> declared_actor source
        else holds_grant st (upper (strip (the authority))) (upper (strip ticket_id)) (strip to_agent)))"
  using assms
  by (auto simp: handoff_decision_def Let_def authority_exact [symmetric] split: option.splits if_splits)

text \<open>The active ticket is the one the task names.\<close>

lemma decided_subject:
  assumes "ticket_name tid" "state_string fs ''task'' = Some tid" "dict_get ts tid = Some t" "tk_section t = ''## DOING''"
  shows "active_subject fs ts = Some tid"
proof -
  have "tid \<noteq> []" "tid \<noteq> ''none''" using assms(1) by (auto simp: ticket_name_def)
  moreover have "text_field fs ''task'' = tid" using assms(2) by (simp add: text_field_def state_string_def split: option.splits sval.splits scalar.splits)
  ultimately show ?thesis using assms(3,4) by (simp add: active_subject_def handover_subject_def Let_def)
qed

text \<open>
  C15: a handoff that reads the same checkpoint for its decision and for its move takes the claim of exactly the ticket it
  was asked for, and gives it to exactly the agent it was asked for.  It is planned only when that ticket is the active
  one in work, held by another than the receiver, and either its holder asks under a declared identity and names no
  authority, or the named receipt is an intact active operator receipt whose grants give this ticket to this agent
  and to no other; the STATE and the BOARD it writes name the receiver, every other record is left as it is, and the
  decision it logs names the ground.  That both reads agree is needed: see \<open>handoff_moves_another_claim\<close>.
\<close>

theorem handoff_moves_named_claim:
  assumes "handoff_claim env st d d actor source ticket_id to_agent authority session_binding ck op_id = Planned p"
    and "read_docs lenv segs d" "editable_board d" "claim_values (strip to_agent) (ck_utc ck) session_binding []"
  shows "\<exists>tid target t line details state board reason.
     tid = upper (strip ticket_id) \<and> target = strip to_agent \<and> ticket_name tid \<and> seat_id target \<and>
     dict_get (w_tickets (parse_board (d_board d))) tid = Some t \<and> tk_section t = ''## DOING'' \<and> field_text t ''owner'' \<noteq> target \<and>
     (if authority = None \<or> authority = Some [] then field_text t ''owner'' = actor \<and> actor \<noteq> [] \<and> declared_actor source
      else holds_grant st (upper (strip (the authority))) tid target) \<and>
     pl_ticket p = Some tid \<and>
     handoff_decision st d actor source ticket_id to_agent authority = Inr reason \<and>
     prepare_bounded_event (ce_producer env) (sn_tail (d_history d)) ''DEC''
       (handover_message (state_string (d_fields d) ''agent'') target (Some tid) (Some reason))
       (Some tid) (Some target) (ck_stamp ck) (Some op_id) None = Inr (pl_event p, line, details) \<and>
     pl_targets p = details @ [(''.saipen/LOG.md'', appended_log (d_log d) line), (''.saipen/STATE.md'', state), (''.saipen/BOARD.md'', board)] \<and>
     parse_frontmatter state = Inr (reseated (d_fields d) target (pl_event p) (ck_utc ck)) \<and>
     (\<exists>new. board_view board = (board_view (d_board d))(tid \<mapsto> new) \<and> claimed_by target (ck_utc ck) (ticket_card t) new)"
proof -
  let ?tid = "upper (strip ticket_id)" and ?target = "strip to_agent"
  from assms(1) obtain reason where r: "handoff_decision st d actor source ticket_id to_agent authority = Inr reason"
    and h: "handover_agent env d ?target True (Some reason) session_binding ck op_id = Planned p"
    by (auto simp: handoff_claim_def split: sum.splits)
  from decided [OF r] obtain t where t: "dict_get (w_tickets (parse_board (d_board d))) ?tid = Some t" "tk_section t = ''## DOING''"
    and d: "ticket_name ?tid" "seat_id ?target" "state_string (d_fields d) ''task'' = Some ?tid" "field_text t ''owner'' \<noteq> ?target"
      "if authority = None \<or> authority = Some [] then field_text t ''owner'' = actor \<and> actor \<noteq> [] \<and> declared_actor source
       else holds_grant st (upper (strip (the authority))) ?tid ?target" by blast
  note subject = decided_subject [OF d(1,3) t]
  from h assms(2-4) show ?thesis
  proof (rule handover_bytes)
    fix line details state board
    assume b: "pl_ticket p = active_subject (d_fields d) (w_tickets (parse_board (d_board d)))"
      "prepare_bounded_event (ce_producer env) (sn_tail (d_history d)) ''DEC''
       (handover_message (state_string (d_fields d) ''agent'') ?target (pl_ticket p) (Some reason))
       (pl_ticket p) (Some ?target) (ck_stamp ck) (Some op_id) None = Inr (pl_event p, line, details)"
      "pl_targets p = details @ [(''.saipen/LOG.md'', appended_log (d_log d) line), (''.saipen/STATE.md'', state)] @
       (case pl_ticket p of Some _ \<Rightarrow> [(''.saipen/BOARD.md'', board)] | None \<Rightarrow> [])"
      "parse_frontmatter state = Inr (reseated (d_fields d) ?target (pl_event p) (ck_utc ck))"
      "case pl_ticket p of
       None \<Rightarrow> board = d_board d
     | Some tid \<Rightarrow> may_take d ?target True ck \<and>
         (\<exists>old new. board_view (d_board d) tid = Some old \<and> c_section old = ''## DOING'' \<and>
            board_view board = (board_view (d_board d))(tid \<mapsto> new) \<and> claimed_by ?target (ck_utc ck) old new)"
    have ticket: "pl_ticket p = Some ?tid" using b(1) subject by simp
    have "board_view (d_board d) ?tid = Some (ticket_card t)" by (simp add: board_view_def t)
    with b(5) ticket obtain new where "board_view board = (board_view (d_board d))(?tid \<mapsto> new)"
      "claimed_by ?target (ck_utc ck) (ticket_card t) new" by auto
    then have claim: "\<exists>new. board_view board = (board_view (d_board d))(?tid \<mapsto> new) \<and> claimed_by ?target (ck_utc ck) (ticket_card t) new"
      by blast
    have bytes: "pl_targets p = details @ [(''.saipen/LOG.md'', appended_log (d_log d) line), (''.saipen/STATE.md'', state), (''.saipen/BOARD.md'', board)]"
      using b(3) ticket by simp
    show ?thesis
      by (rule exI [of _ ?tid], rule exI [of _ ?target], rule exI [of _ t], rule exI [of _ line], rule exI [of _ details],
          rule exI [of _ state], rule exI [of _ board], rule exI [of _ reason])
         (intro conjI refl d(1,2,4,5) t ticket r b(2) [unfolded ticket] bytes b(4) claim)
  qed
qed

section \<open>A handoff that loses its ticket\<close>

text \<open>
  The decision was made on a checkpoint where the caller holds the active ticket; by the time the seat moves, another
  agent holds another ticket.
\<close>

definition seen_docs :: docs where
  "seen_docs = idle_docs\<lparr>d_board := unlines [''## DOING'', ''- [/] T-9 tool | owner: eve | claim_time: 2026-01-02T03:00:00Z'',
       ''## TODO'', ''## DONE'', ''## BLOCKED''],
     d_fields := [(''task'', Scalar (SStr ''T-9'')), (''agent'', Scalar (SStr ''eve''))]\<rparr>"

definition empty_store :: intake_store where
  "empty_store = \<lparr>in_meta = (\<lambda>_. None), in_operator = (\<lambda>_. False), in_intact = (\<lambda>_. False), in_body = (\<lambda>_. None)\<rparr>"

definition eve_reason :: string where
  "eve_reason = ''handoff of T-9, voluntary, by its owner eve''"

definition bob_board :: "string list" where
  "bob_board =
     [''## DOING'', ''- [/] T-2 core | owner: bob | claim_time: 2026-01-02T03:05:00Z'', ''## TODO'', ''## DONE'', ''## BLOCKED'']"

definition bob_line :: string where
  "bob_line = ''- 02.01.26 03:05 [E-2] [parent: E-1] [T-2] [agent: bob] [op: handover-1] DEC: agent handover ada -> bob (active T-2 claim transferred) -- handoff of T-9, voluntary, by its owner eve''"

definition bob_state :: "string list" where
  "bob_state =
     [''---'', ''phase: BUILD'', ''transition_from: SCOUT'', ''task: T-2'', ''next_action: PHASE BUILD T-2'',
      ''blocker: none'', ''agent: bob'', ''saipen_version: 8'', ''schema_version: 3'', ''last_event: 2'', ''mode: full'',
      ''updated: '' @ [CHR 34] @ ''2026-01-02T03:05:00Z'' @ [CHR 34], ''---'', ''BOUNDARY'']"

definition bob_fields :: state_fields where
  "bob_fields = update [(''agent'', SStr ''bob''), (''last_event'', SInt 2), (''updated'', SStr ''2026-01-02T03:05:00Z'')] idle_fields"

definition bob_event :: event where
  "bob_event =
     \<lparr>ev_date = Some ''02.01.26 03:05'', ev_id = 2, ev_parent = Some 1, ev_ticket = Some ''T-2'', ev_agent = Some ''bob'',
      ev_op = Some ''handover-1'', ev_taxonomy = ''DEC'', ev_text = handover_message (Some ''ada'') ''bob'' (Some ''T-2'') (Some eve_reason),
      ev_detail = None\<rparr>"

lemma eve_decides: "handoff_decision empty_store seen_docs ''eve'' ''explicit'' ''t-9'' ''bob'' None = Inr eve_reason"
  by code_simp

lemma bob_transfer: "transfer_claim idle_docs ''bob'' True None work_clock = Inr (unlines bob_board, Some ''T-2'')"
  by code_simp

lemma bob_written:
  "prepare_bounded_event (ce_producer work_env) (sn_tail (d_history idle_docs)) ''DEC''
     (handover_message (Some ''ada'') ''bob'' (Some ''T-2'') (Some eve_reason))
     (Some ''T-2'') (Some ''bob'') (ck_stamp work_clock) (Some ''handover-1'') None = Inr (2, bob_line, [])"
  by code_simp

lemma bob_patch: "patch_state (d_state idle_docs) (seat_fields ''bob'' 2 (ck_utc work_clock)) = Inr (unlines bob_state)"
  by code_simp

lemma bob_gate: "validate_texts (ce_gate work_env) (unlines bob_state) (unlines bob_board) (appended_log (d_log idle_docs) bob_line) ''bob''
    (Some (d_history idle_docs)) [] = Inr []"
  by (rule gate_clean [of _ _ bob_fields _ _ "sn_events idle_history @ [bob_event]" "Some 2"]) code_simp+

lemma ada_seated: "state_string (d_fields idle_docs) ''agent'' = Some ''ada''"
  by code_simp

lemma bob_seated:
  "\<exists>p. handover_agent work_env idle_docs ''bob'' True (Some eve_reason) None work_clock ''handover-1'' = Planned p \<and> pl_ticket p = Some ''T-2'' \<and>
     (\<exists>log state board. pl_targets p = [(''.saipen/LOG.md'', log), (''.saipen/STATE.md'', state), (''.saipen/BOARD.md'', board)])"
  by (simp add: handover_agent_def ada_seated bob_transfer bob_written Let_def bob_patch passes_gate_def bob_gate)

theorem handover_moves_seat_witness:
  "\<exists>p log state board ev. handover_agent work_env idle_docs ''bob'' True (Some eve_reason) None work_clock ''handover-1'' = Planned p \<and>
     pl_targets p = [(''.saipen/LOG.md'', log), (''.saipen/STATE.md'', state), (''.saipen/BOARD.md'', board)] \<and>
     proposed_events (Some idle_history) (events_in (splitlines log)) = sn_events idle_history @ [ev] \<and> ev_agent ev = Some ''bob'' \<and>
     (\<exists>old new. board_view board = (board_view (d_board idle_docs))(''T-2'' \<mapsto> new) \<and>
        claimed_by ''bob'' (ck_utc work_clock) old new)"
proof -
  obtain p where p: "handover_agent work_env idle_docs ''bob'' True (Some eve_reason) None work_clock ''handover-1'' = Planned p"
    "pl_ticket p = Some ''T-2''" "\<exists>log state board. pl_targets p = [(''.saipen/LOG.md'', log), (''.saipen/STATE.md'', state), (''.saipen/BOARD.md'', board)]"
    using bob_seated by blast
  have v: "editable_board idle_docs" "claim_values ''bob'' (ck_utc work_clock) None []" by code_simp+
  have n: "clean_names ''bob'' ''handover-1'' work_clock" by code_simp
  have h: "plain_host work_env" using working_host by (simp add: sealing_host_def plain_host_def)
  have "loggable (ce_producer work_env) (handover_message (state_string (d_fields idle_docs) ''agent'') ''bob'' (Some ''T-2'') (Some eve_reason))"
    by code_simp
  then have l: "loggable (ce_producer work_env) (handover_message (state_string (d_fields idle_docs) ''agent'') ''bob'' (pl_ticket p) (Some eve_reason))"
    by (simp only: p(2))
  have hist: "d_history idle_docs = idle_history" by (simp add: idle_docs_def)
  from handover_moves_seat [OF p(1) idle_read v n h l] obtain line details state board ev old new where
    c: "pl_targets p = details @ [(''.saipen/LOG.md'', appended_log (d_log idle_docs) line), (''.saipen/STATE.md'', state)] @
       (case pl_ticket p of Some _ \<Rightarrow> [(''.saipen/BOARD.md'', board)] | None \<Rightarrow> [])"
    "proposed_events (Some (d_history idle_docs)) (events_in (splitlines (appended_log (d_log idle_docs) line))) =
       sn_events (d_history idle_docs) @ [ev]" "ev_agent ev = Some ''bob''"
    "board_view board = (board_view (d_board idle_docs))(''T-2'' \<mapsto> new)" "claimed_by ''bob'' (ck_utc work_clock) old new"
    unfolding p(2) option.case by blast
  from c(1) p(2,3) have "details = []" by auto
  with c p show ?thesis unfolding hist by auto
qed

text \<open>Ada, who holds the active ticket under a declared identity, hands it to bob.\<close>

definition ada_reason :: string where
  "ada_reason = ''handoff of T-2, voluntary, by its owner ada''"

definition ada_line :: string where
  "ada_line = ''- 02.01.26 03:05 [E-2] [parent: E-1] [T-2] [agent: bob] [op: handover-1] DEC: agent handover ada -> bob (active T-2 claim transferred) -- handoff of T-2, voluntary, by its owner ada''"

lemma ada_decides: "handoff_decision empty_store idle_docs ''ada'' ''explicit'' '' t-2'' ''bob'' None = Inr ada_reason"
  by code_simp

lemma ada_written:
  "prepare_bounded_event (ce_producer work_env) (sn_tail (d_history idle_docs)) ''DEC''
     (handover_message (Some ''ada'') ''bob'' (Some ''T-2'') (Some ada_reason))
     (Some ''T-2'') (Some ''bob'') (ck_stamp work_clock) (Some ''handover-1'') None = Inr (2, ada_line, [])"
  by code_simp

lemma ada_gate: "validate_texts (ce_gate work_env) (unlines bob_state) (unlines bob_board) (appended_log (d_log idle_docs) ada_line) ''bob''
    (Some (d_history idle_docs)) [] = Inr []"
  by (rule gate_clean [of _ _ bob_fields _ _
        "sn_events idle_history @ [bob_event\<lparr>ev_text := handover_message (Some ''ada'') ''bob'' (Some ''T-2'') (Some ada_reason)\<rparr>]" "Some 2"])
     code_simp+

theorem handoff_moves_named_claim_witness:
  "\<exists>p board. handoff_claim work_env empty_store idle_docs idle_docs ''ada'' ''explicit'' '' t-2'' ''bob'' None None work_clock ''handover-1'' = Planned p \<and>
     pl_ticket p = Some ''T-2'' \<and> (''.saipen/BOARD.md'', board) \<in> set (pl_targets p) \<and>
     (\<exists>new. board_view board = (board_view (d_board idle_docs))(''T-2'' \<mapsto> new) \<and> dict_get (c_fields new) ''owner'' = Some ''bob'')"
proof -
  have s: "strip ''bob'' = ''bob''" "upper (strip '' t-2'') = ''T-2''" by code_simp+
  have v: "editable_board idle_docs" "claim_values ''bob'' (ck_utc work_clock) None []" by code_simp+
  obtain p where p: "handoff_claim work_env empty_store idle_docs idle_docs ''ada'' ''explicit'' '' t-2'' ''bob'' None None work_clock ''handover-1'' = Planned p"
    by (simp add: handoff_claim_def ada_decides s(1) handover_agent_def ada_seated bob_transfer ada_written Let_def bob_patch
        passes_gate_def ada_gate)
  have "claim_values (strip ''bob'') (ck_utc work_clock) None []" using v(2) by (simp only: s(1))
  from handoff_moves_named_claim [OF p idle_read v(1) this] obtain details log state board old new where
    c: "pl_ticket p = Some (upper (strip '' t-2''))" "pl_targets p = details @ [log, state, (''.saipen/BOARD.md'', board)]"
    "board_view board = (board_view (d_board idle_docs))(upper (strip '' t-2'') \<mapsto> new)"
    "claimed_by (strip ''bob'') (ck_utc work_clock) old new"
    by (elim exE conjE) (simp only:)
  from c(2) have "(''.saipen/BOARD.md'', board) \<in> set (pl_targets p)" by simp
  with p c(1,3,4) show ?thesis unfolding s claimed_by_def by blast
qed

text \<open>
  The handoff decides on one read of the checkpoint and moves the seat on another: eve, who holds T-9 when it decides,
  moves the live claim of ada on T-2, a ticket nobody named, though the promise is the same ticket.
\<close>

theorem handoff_moves_another_claim:
  "\<exists>p. handoff_claim work_env empty_store seen_docs idle_docs ''eve'' ''explicit'' ''t-9'' ''bob'' None None work_clock ''handover-1'' = Planned p \<and>
     pl_ticket p = Some ''T-2'' \<and> transfer_claim idle_docs ''bob'' False None work_clock = Inl (Refused (Other_Refusal ''ACTIVE_CLAIM_FOREIGN''))"
proof -
  have "strip ''bob'' = ''bob''" "transfer_claim idle_docs ''bob'' False None work_clock = Inl (Refused (Other_Refusal ''ACTIVE_CLAIM_FOREIGN''))"
    by code_simp+
  with bob_seated show ?thesis by (auto simp: handoff_claim_def eve_decides)
qed

end
