(* ===== verification/Spec2Isabelle.thy ===== *)
theory Spec2Isabelle
  imports Incidents BoardIncidents StatePatch RoutingLaws CutLaws Regression GateLimits OwnershipLaws HandoverLaws
begin

text \<open>
  A verification development of the core of SAIPEN (\<open>tools/saipen_engine\<close>): the write-ahead journal,
  the three documents it protects and the first commands that change them.  SAIPEN is an engine that keeps a project's memory as plain files under \<open>.saipen\<close> and changes them only through
  journaled operations.

  \<^bold>\<open>What the program does.\<close>  A command of the engine turns into one call of \<open>run_mutation\<close>
  (\<open>journal.py\<close>): an ordered list of targets (\<open>write\<close>, \<open>delete_file\<close>, \<open>delete_dir\<close>), each with the
  hash of its bytes before and after.  The call is validated, the plan and its staged bytes are
  published under \<open>.saipen/recovery/ops/<op_id>\<close>, the targets are applied one by one while a
  progress sidecar is kept, the result is verified, and the receipt moves to the settled namespace.
  After a crash, \<open>_recover_locked\<close> derives from the live bytes what has been done and rolls forward,
  aborts or refuses.  Around it stand the strict decoder every reader of a receipt goes through,
  the owned-path resolver, the identity carrier that binds receipts to a project, and the phase
  automaton that says which command may come next.  What the commands plan is mostly a new text of
  \<open>BOARD.md\<close>, one record per ticket under four headings: \<open>board.py\<close> parses it with a closed grammar,
  checks its graph and its rules and picks the next work, \<open>operations.py\<close> rewrites it record by record.

  \<^bold>\<open>The theories\<close>, in the order they build on each other:

  \<^item> \<open>Prelude\<close>: strings, dictionaries and leading runs, shared by all.
  \<^item> \<open>Phases\<close> (\<open>phases.py\<close>): the transition tables, \<open>phase_next_action_error\<close>, \<open>transition_legal\<close>,
    \<open>forward_route\<close>; the locale \<open>gated\<close> is interpreted for the three gates of the delivery corridor.
  \<^item> \<open>SafeId\<close> (\<open>safeid.py\<close>, the resolvers of \<open>journal.py\<close>): identifiers and owned paths;
    \<open>os.path.realpath\<close> is a parameter.
  \<^item> \<open>Stamps\<close> (\<open>board.py\<close>): the strict UTC stamp that orders recovery.
  \<^item> \<open>Store\<close>, \<open>Targets\<close>: the project tree with its digests and atomic actions, and the three-way
    byte classifier with its deferral.
  \<^item> \<open>OpRecord\<close>, \<open>RecordLaws\<close>: the documents of an operation directory, the strict decoder
    \<open>decode_operation_record\<close>, the writers of manifest and sidecar, round trip and fail-closed laws.
  \<^item> \<open>Journal\<close>: the durable world and \<open>mark\<close>, \<open>fold_progress\<close>, settlement; every writer returns the
    list of durable states it passes through.
  \<^item> \<open>Identity\<close>, \<open>Dependencies\<close>: the identity carrier, dependency tokens, project binding.
  \<^item> \<open>Recovery\<close>, \<open>Pending\<close>: \<open>_recover_locked\<close> in its phases, the scan, the preflight, inspection.
  \<^item> \<open>Request\<close>, \<open>Mutation\<close>: \<open>validate_mutation_request\<close>, \<open>run_mutation\<close>, \<open>ensure_project_lineage\<close>.
  \<^item> \<open>Plans\<close>: the abstract specification, \<open>run_plan\<close>, and what a plan looks like from any of its
    intermediate trees.
  \<^item> \<open>Settlement\<close>, \<open>Crash\<close>, \<open>CrashRecovery\<close>, \<open>CrashSafety\<close>: the invariant of an operation in flight,
    the locales \<open>restartable\<close> and \<open>converging\<close> interpreted on \<open>recover_locked\<close>, and the theorems that
    the mutation refines its plan and survives any number of crashes.
  \<^item> \<open>RecoverySafety\<close>: what recovery promises for any journal found on the disk.
  \<^item> \<open>Incidents\<close>: concrete runs where the code does what its comments rule out.
  \<^item> \<open>Text\<close>, \<open>TicketText\<close>: the \<open>str\<close> methods on lines and parts; record separators, the escape and the
    field editor of \<open>board.py\<close>, with the round trip of the escape.
  \<^item> \<open>Board\<close>, \<open>BoardLaws\<close>: \<open>parse_board\<close> and the other readers; a document is accepted exactly when it
    satisfies the closed grammar \<open>board_ok\<close>, and then its tickets are its record lines.
  \<^item> \<open>BoardGraph\<close>, \<open>GraphLaws\<close>: \<open>board_graph_errors\<close> and its equivalence with the reference
    \<open>sound_graph\<close>; the invariant and the cost of the stack search.
  \<^item> \<open>BoardRules\<close>, \<open>Scheduling\<close>, \<open>SchedulingLaws\<close>: \<open>board_semantic_errors\<close>, claims, the Pick Rule,
    continuation, operator gates and closure, with what the scheduler guarantees.
  \<^item> \<open>BoardEdit\<close>: the writers of \<open>operations.py\<close>, text to text.  \<open>BoardEditLaws\<close>, \<open>BoardRefinement\<close>,
    \<open>BoardMoves\<close>, \<open>BoardWriters\<close>: the abstract board \<open>board_view\<close>, a map from identities to cards, and the
    proofs that every writer is an update of it; \<open>BoardIncidents\<close>: accepted boards they break.
  \<^item> \<open>Frontmatter\<close>, \<open>FrontmatterLaws\<close>, \<open>StatePatch\<close> (\<open>state.py\<close>): the scalar codec and the front matter
    of STATE, its parser and its patch; the codec is a bijection and a patch an update of the fields.
  \<^item> \<open>StateContract\<close>, \<open>StateContractLaws\<close> (\<open>state.py\<close>, \<open>goal_authority.py\<close>): the field contract, the closed
    \<open>WAIT\<close> grammar, the brakes, the strict read and the transition of the execution intent; what an accepted
    STATE is, and that an intent family replaces another without touching the rest.
  \<^item> \<open>Log\<close>, \<open>LogLaws\<close>, \<open>Ledger\<close>, \<open>LedgerLaws\<close>, \<open>RoutingLaws\<close>, \<open>CutLaws\<close> (\<open>log.py\<close>): the event line and
    its builder, the snapshot of a segmented history, its contract, the bounded routing summary and the cut of
    a foreign tail; round trip, exactness of the contract, preservation by an append, agreement of the summary.
  \<^item> \<open>Regex\<close>: backtracking matches with their extents and a declarative reference.  \<open>Evidence\<close>, \<open>Verdicts\<close>,
    \<open>VerdictLaws\<close> (\<open>log.py\<close>, \<open>oracle.py\<close>, the operation tags of \<open>journal.py\<close>): what a recorded text claims and
    what a VERIFY cycle proves, for one ticket, for all in one pass and for the legacy generation.
  \<^item> \<open>Attempt\<close>, \<open>AttemptLaws\<close> (\<open>attempt.py\<close>): the attempt events, their fold with its lineage pass, the
    contract against STATE and the admission of a finished ticket.  \<open>Regression\<close> (\<open>log.py\<close>): the gate that
    wants a red and a green run of one verifier under one attempt.
  \<^item> \<open>Ownership\<close>, \<open>OwnershipLaws\<close> (\<open>ownership.py\<close>, its consumers in \<open>operations.py\<close>): the execution seat, its
    classification and the gate of active-ticket mutations.
  \<^item> \<open>Floor\<close>, \<open>FastCheck\<close>, \<open>FastCheckLaws\<close>, \<open>GateLimits\<close> (\<open>floor.py\<close>, \<open>fast_check.py\<close>): the raw falsifiers and
    \<open>validate_texts\<close>, the gate every plan passes before it is journaled; \<open>sealed_checkpoint\<close> says what holds of the
    documents it lets through, \<open>GateLimits\<close> where it departs from its comments.

  \<^item> \<open>Checkpoint\<close>, \<open>CommandLaws\<close> (\<open>operations.py\<close>, \<open>plan.py\<close>, \<open>log_compaction.py\<close>): what every command shares, the
    strict read of the three documents, the bounded producer of LOG events, the plan, the exception guard and the
    gate before it; a produced event is bounded and nothing of it is lost, and the history a plan proposes is the
    captured one with that event appended.
  \<^item> \<open>Lifecycle\<close>, \<open>AttemptTexts\<close>, \<open>LifecycleLaws\<close> (\<open>_plan_attempt\<close>): opening and closing an episode; what a command
    writes reads back, so a planned command is one step (\<open>opens\<close>, \<open>closes\<close>) of the Attempt register.
  \<^item> \<open>Handoff\<close>, \<open>HandoffLaws\<close> (\<open>handoff.py\<close>), \<open>Handover\<close>, \<open>HandoverLaws\<close> (\<open>handover_agent\<close>, \<open>handoff_claim\<close>): the grammar
    of an operator's grant against the reference \<open>granted_in\<close>, who may hand a live claim on, and the move of claim and
    seat as one update of the abstract board.

  \<^bold>\<open>How state corresponds.\<close>  \<open>world\<close> is the project tree (\<open>files\<close>), the two receipt namespaces
  (\<open>ops\<close>, \<open>settled\<close>) and the cleanup queue (\<open>debts\<close>).  A project tree is a list of nodes by path below
  the root and holds no symbolic link; the journal's own directory is kept apart from it, so a plan
  that writes into \<open>.saipen/recovery/ops\<close> is outside the model.  A crash is a prefix of the list of
  durable states: one state per atomic write, unlink or rename, since \<open>safe_atomic_write_bytes\<close>
  replaces a file in one rename.  Errors are values: a refusal is a \<open>reply\<close> with the code's code, a
  decoder refusal the left side of a sum, an escaping exception the reply \<open>raised\<close>.  Only the
  structured part of a reply is kept, not its prose.  A BOARD is its text; \<open>walk\<close> is what the parser
  answers, \<open>ticket\<close> one entry of its map, and \<open>card\<close> a ticket without line number and spelling.  An instant
  is a number of microseconds.

  \<^bold>\<open>Parameters.\<close>  SHA-256, file modes and the paths the operating system refuses are fields of
  \<open>os_env\<close>; the release recovery, the registered verifiers, source identity, receipt digests, the clock and
  random lineage are fields of \<open>engine_env\<close>.  What a sealed runtime provenance says of its executor is the
  argument \<open>prov\<close> of the Attempt definitions; externalised event details are restored by a field of \<open>log_env\<close>.
  Redaction, the digest and the metadata text of an externalised event are fields of \<open>log_producer\<close>, the seal of the host is
  an argument of the Attempt commands, the receipts of an operator are an \<open>intake_store\<close>, and the access checks of a read are
  fields of \<open>reader\<close>; \<open>sealing_host\<close> and \<open>quiet_host\<close> name what the theorems ask of them.  No theorem assumes anything of the digests: where a
  theorem needs the planned state it is the one the code's own byte verification checks.

  \<^bold>\<open>Loops and fuel.\<close>  Most loops of the modelled code run over a list and are structural recursions.  The
  supersession walk \<open>chase\<close> ends because its chain visits each key once, the stack search \<open>search_from\<close>
  because every turn colours a ticket or advances an index (lexicographic order); \<open>search_linear\<close> bounds its
  turns.  No fuel is used.

  \<^bold>\<open>Conditions on boards.\<close>  The refinement theorems ask for what the writers themselves leave behind: every
  line closed by a line feed (\<open>canonical\<close>), no heading that continues another (\<open>exact_headings\<close>), a record
  with single separators and trimmed parts (\<open>tidy\<close>), values on one trimmed line that open no second record
  (\<open>writable\<close>).  Under them a writer fails only on the size cap (\<open>outcome\<close>).

  \<^bold>\<open>Not modelled.\<close>  Text beyond code point 255, JSON keys outside the record, append intents and
  \<open>Journal.update\<close> of release operations, links and unreadable containers in the scan, races inside
  one atomic write, the writer lock, the verifiers' own reading of documents, and a \<open>delete_dir\<close>
  request without \<open>planned_before_hash\<close> (it reads as the empty hash); the blocker projection and idle
  classification of \<open>board.py\<close>, and the allocator's walk over LOG lines; the file-system checks of a persisted home and the read-path twin
  \<open>validate_checkpoint_surface\<close> of the gate.  Of \<open>journal.py\<close>, conflict resolution and compaction of
  receipts are left out; of \<open>operations.py\<close>, the commands other than the board writers, the Attempt commands and the two
  that move the seat, and the tolerant reads of the repair planners.  A command is modelled from the documents it
  read to the plan it hands to the journal; that the plan is applied under the lock over unchanged documents is the
  subject of \<open>run_mutation\<close>.  Dispositions, dispatch admission, the continue loop, releases and git, intake, sub-agents,
  host processes and the command line read stores outside the three documents and are not modelled.
\<close>

end
